(* ===== verification/Prelude.thy ===== *)
theory Prelude
  imports Complex_Main "HOL-Library.AList" "HOL-Library.Char_ord" "HOL-Library.List_Lexorder"
begin

text \<open>
  Shared vocabulary of the development.

  \<^item> Python values: a \<open>str\<close> is a \<^typ>\<open>string\<close>, whose characters are the code points 0 to
    255; a \<open>float\<close> is an exact rational (rounding is not modelled); an \<open>int\<close> is
    \<^typ>\<open>int\<close>; a \<open>dict\<close> whose order matters is an association list updated by
    \<^const>\<open>AList.update\<close>, which keeps the place of an existing key and appends a new one, as
    Python does.
  \<^item> Exceptions: a fallible operation returns \<open>'e + 'a\<close>, with \<^const>\<open>Inl\<close> for the
    exception; \<open>bind_res\<close> is sequencing and \<open>map_res\<close> a loop that stops at the first
    exception.
  \<^item> Two interfaces used by several components: \<open>step_machine\<close> (a state, its operations and
    an invariant every operation keeps) and \<open>ranked\<close> (the running-maximum loop over a ranked
    set of values).
\<close>

named_theorems res_simps "sequencing of fallible operations"

type_synonym pyfloat = rat
type_synonym pystr = string

subsection \<open>Fallible operations\<close>

fun bind_res :: "'e + 'a \<Rightarrow> ('a \<Rightarrow> 'e + 'b) \<Rightarrow> 'e + 'b" where
  "bind_res (Inl e) f = Inl e"
| "bind_res (Inr a) f = f a"

definition guard_res :: "bool \<Rightarrow> 'e \<Rightarrow> 'e + unit" where
  "guard_res b e = (if b then Inr () else Inl e)"

fun map_res :: "('a \<Rightarrow> 'e + 'b) \<Rightarrow> 'a list \<Rightarrow> 'e + 'b list" where
  "map_res f [] = Inr []"
| "map_res f (x # xs) = bind_res (f x) (\<lambda>y. bind_res (map_res f xs) (\<lambda>ys. Inr (y # ys)))"

fun fold_res :: "('a \<Rightarrow> 's \<Rightarrow> 'e + 's) \<Rightarrow> 'a list \<Rightarrow> 's \<Rightarrow> 'e + 's" where
  "fold_res f [] s = Inr s"
| "fold_res f (x # xs) s = bind_res (f x s) (fold_res f xs)"

text \<open>A concrete run is checked by evaluation as \<open>res_holds\<close>.\<close>

definition res_holds :: "('a \<Rightarrow> bool) \<Rightarrow> 'e + 'a \<Rightarrow> bool" where
  "res_holds P r = (case r of Inl _ \<Rightarrow> False | Inr a \<Rightarrow> P a)"

lemma res_holdsE: "res_holds P r \<Longrightarrow> \<exists>a. r = Inr a \<and> P a"
  by (auto simp: res_holds_def split: sum.splits)

lemma bind_res_Inr [res_simps]:
  "bind_res r f = Inr b \<longleftrightarrow> (\<exists>a. r = Inr a \<and> f a = Inr b)"
  by (cases r) auto

lemma bind_res_Inl [res_simps]:
  "bind_res r f = Inl e \<longleftrightarrow> r = Inl e \<or> (\<exists>a. r = Inr a \<and> f a = Inl e)"
  by (cases r) auto

lemma case_res_Inr: "(case r of Inl e \<Rightarrow> Inl (h e) | Inr a \<Rightarrow> f a) = Inr b \<longleftrightarrow> (\<exists>a. r = Inr a \<and> f a = Inr b)"
  by (cases r) auto

lemma guard_res_Inr [res_simps]: "guard_res b e = Inr u \<longleftrightarrow> b"
  by (simp add: guard_res_def)

lemma guard_res_Inl [res_simps]: "guard_res b e = Inl e' \<longleftrightarrow> \<not> b \<and> e = e'"
  by (simp add: guard_res_def)

lemma map_res_Inr: "map_res f xs = Inr ys \<longleftrightarrow> list_all2 (\<lambda>x y. f x = Inr y) xs ys"
  by (induction xs arbitrary: ys) (auto simp: res_simps list_all2_Cons1)

lemma map_res_Inr_length: "map_res f xs = Inr ys \<Longrightarrow> length ys = length xs"
  by (metis map_res_Inr list_all2_lengthD)

text \<open>A loop with exceptions that ran to its end kept every invariant its body keeps.\<close>

lemma map_res_total: "(\<And>x. x \<in> set xs \<Longrightarrow> \<exists>y. f x = Inr y) \<Longrightarrow> \<exists>ys. map_res f xs = Inr ys"
  by (induction xs) (fastforce simp: res_simps)+

lemma map_res_Inl: "map_res f xs = Inl e \<Longrightarrow> \<exists>x \<in> set xs. f x = Inl e"
  by (induction xs) (auto simp: res_simps)

lemma fold_res_invariant:
  assumes "fold_res f xs s = Inr t" and "P s"
    and "\<And>x s s'. x \<in> set xs \<Longrightarrow> P s \<Longrightarrow> f x s = Inr s' \<Longrightarrow> P s'"
  shows "P t"
  using assms
proof (induction xs arbitrary: s)
  case Nil
  then show ?case by simp
next
  case (Cons x xs)
  from Cons.prems(1) obtain s' where s': "f x s = Inr s'" and rest: "fold_res f xs s' = Inr t"
    by (auto simp: res_simps)
  have "P s'" using Cons.prems(2,3) s' by auto
  with rest Cons.prems(3) show ?case by (auto intro: Cons.IH)
qed

lemma fold_res_cong [fundef_cong]:
  assumes "xs = ys" and "s = t" and "\<And>x s. x \<in> set ys \<Longrightarrow> f x s = g x s"
  shows "fold_res f xs s = fold_res g ys t"
proof -
  have "fold_res f ys t = fold_res g ys t" using assms(3)
  proof (induction ys arbitrary: t)
    case (Cons y ys)
    then show ?case by (cases "g y t") auto
  qed simp
  with assms show ?thesis by simp
qed

lemma fold_res_total:
  assumes "\<And>x s. x \<in> set xs \<Longrightarrow> \<exists>t. f x s = Inr t"
  shows "\<exists>t. fold_res f xs s = Inr t"
  using assms
proof (induction xs arbitrary: s)
  case (Cons x xs)
  then obtain u where "f x s = Inr u" by fastforce
  with Cons show ?case by simp
qed simp

lemma fold_res_each:
  "fold_res f xs s = Inr t \<Longrightarrow> x \<in> set xs \<Longrightarrow> \<exists>s' s''. f x s' = Inr s''"
  by (induction xs arbitrary: s) (auto simp: res_simps)

lemma fold_res_append:
  "fold_res f (xs @ ys) s = bind_res (fold_res f xs s) (fold_res f ys)"
proof (induction xs arbitrary: s)
  case (Cons x xs)
  then show ?case by (cases "f x s") auto
qed simp

lemma fold_res_sum:
  assumes "fold_res f xs (s::int) = Inr t"
    and "\<And>x s t. x \<in> set xs \<Longrightarrow> f x s = Inr t \<Longrightarrow> t = s + w x"
  shows "t = s + sum_list (map w xs)"
  using assms
proof (induction xs arbitrary: s)
  case (Cons x xs)
  from Cons.prems(1) obtain s' where s': "f x s = Inr s'" and rest: "fold_res f xs s' = Inr t"
    by (auto simp: res_simps)
  have "s' = s + w x" using Cons.prems(2) s' by simp
  with Cons.IH [OF rest] Cons.prems(2) show ?case by simp
qed simp

lemma fold_res_all: "fold_res (\<lambda>x _. f x) xs () = Inr () \<longleftrightarrow> (\<forall>x \<in> set xs. f x = Inr ())"
  by (induction xs) (auto simp: res_simps)

subsection \<open>Python strings\<close>

definition py_isspace :: "char \<Rightarrow> bool" where
  "py_isspace c \<longleftrightarrow>
     (let n = of_char c :: nat in
        (9 \<le> n \<and> n \<le> 13) \<or> (28 \<le> n \<and> n \<le> 32) \<or> n = 133 \<or> n = 160)"

definition py_lstrip :: "pystr \<Rightarrow> pystr" where
  "py_lstrip s = dropWhile py_isspace s"

definition py_strip :: "pystr \<Rightarrow> pystr" where
  "py_strip s = rev (dropWhile py_isspace (rev (dropWhile py_isspace s)))"

definition is_digit :: "char \<Rightarrow> bool" where
  "is_digit c \<longleftrightarrow> (let n = of_char c :: nat in 48 \<le> n \<and> n \<le> 57)"

definition is_alpha :: "char \<Rightarrow> bool" where
  "is_alpha c \<longleftrightarrow>
     (let n = of_char c :: nat in (65 \<le> n \<and> n \<le> 90) \<or> (97 \<le> n \<and> n \<le> 122))"

definition digit_val :: "char \<Rightarrow> int" where
  "digit_val c = int (of_char c :: nat) - 48"

definition digits_val :: "pystr \<Rightarrow> int" where
  "digits_val s = foldl (\<lambda>n c. 10 * n + digit_val c) 0 s"

definition ascii_lower :: "char \<Rightarrow> char" where
  "ascii_lower c =
     (let n = of_char c :: nat in if 65 \<le> n \<and> n \<le> 90 then char_of (n + 32) else c)"

text \<open>\<open>str(n)\<close> and \<open>f"{n}"\<close> for a non-negative number.\<close>

fun show_nat :: "nat \<Rightarrow> pystr" where
  "show_nat n = (if n < 10 then [char_of (48 + n)] else show_nat (n div 10) @ [char_of (48 + n mod 10)])"

declare show_nat.simps [simp del]

lemma digit_val_char [simp]: "d < 10 \<Longrightarrow> digit_val (char_of (48 + d)) = int d"
  by (simp add: digit_val_def)

lemma digits_val_show_nat [simp]: "digits_val (show_nat n) = int n"
proof (induction n rule: show_nat.induct)
  case (1 n)
  show ?case
  proof (cases "n < 10")
    case True
    then show ?thesis by (simp add: show_nat.simps [of n] digits_val_def)
  next
    case False
    with 1 have "digits_val (show_nat n) = 10 * int (n div 10) + int (n mod 10)"
      by (simp add: show_nat.simps [of n] digits_val_def)
    then show ?thesis by (metis mult_div_mod_eq of_nat_add of_nat_mult of_nat_numeral)
  qed
qed

lemma show_nat_digits: "show_nat n \<noteq> [] \<and> (\<forall>c \<in> set (show_nat n). is_digit c)"
proof (induction n rule: show_nat.induct)
  case (1 n)
  have "is_digit (char_of (48 + d))" if "d < 10" for d :: nat
    using that by (simp add: is_digit_def)
  with 1 show ?case by (auto simp: show_nat.simps [of n])
qed

lemma show_nat_inject [simp]: "show_nat m = show_nat n \<longleftrightarrow> m = n"
  by (metis digits_val_show_nat of_nat_eq_iff)

fun starts_with :: "pystr \<Rightarrow> pystr \<Rightarrow> bool" where
  "starts_with s [] = True"
| "starts_with [] (p # ps) = False"
| "starts_with (c # cs) (p # ps) = (c = p \<and> starts_with cs ps)"

lemma starts_with_iff: "starts_with s p \<longleftrightarrow> (\<exists>r. s = p @ r)"
  by (induction s p rule: starts_with.induct) auto

lemma starts_with_append [simp]: "starts_with (p @ r) p"
  by (simp add: starts_with_iff)

text \<open>\<open>s.split(sep)\<close> for a one-character separator.\<close>

fun split_on :: "char \<Rightarrow> pystr \<Rightarrow> pystr list" where
  "split_on sep [] = [[]]"
| "split_on sep (c # cs) =
     (if c = sep then [] # split_on sep cs
      else case split_on sep cs of [] \<Rightarrow> [[c]] | w # ws \<Rightarrow> (c # w) # ws)"

text \<open>A separator that a test rejects ends every scan made with that test.\<close>

lemma takeWhile_sep: "\<not> P c \<Longrightarrow> takeWhile P (t @ c # r) = takeWhile P t"
  by (induction t) auto

lemma dropWhile_sep: "\<not> P c \<Longrightarrow> dropWhile P (t @ c # r) = dropWhile P t @ c # r"
  by (induction t) auto

lemma starts_with_sep: "c \<notin> set p \<Longrightarrow> starts_with (t @ c # r) p = starts_with t p"
proof (induction t p rule: starts_with.induct)
  case (2 q qs)
  then show ?case by auto
qed auto

lemma py_strip_id:
  assumes "s \<noteq> []" and "\<not> py_isspace (hd s)" and "\<not> py_isspace (last s)"
  shows "py_strip s = s"
proof -
  have id: "dropWhile py_isspace xs = xs" if "xs \<noteq> []" "\<not> py_isspace (hd xs)" for xs
    using that by (cases xs) auto
  from assms have "hd (rev s) = last s" by (simp add: hd_rev)
  with assms show ?thesis by (simp add: py_strip_def id)
qed

text \<open>Words separated by single spaces.\<close>

fun unwords :: "pystr list \<Rightarrow> pystr" where
  "unwords [] = []"
| "unwords [t] = t"
| "unwords (t # u # us) = t @ CHR '' '' # unwords (u # us)"

definition ends_with :: "pystr \<Rightarrow> pystr \<Rightarrow> bool" where
  "ends_with s p = starts_with (rev s) (rev p)"

lemma ends_with_iff: "ends_with s p \<longleftrightarrow> (\<exists>r. s = r @ p)"
  unfolding ends_with_def starts_with_iff
  by (metis rev_append rev_rev_ident)

definition remove_prefix :: "pystr \<Rightarrow> pystr \<Rightarrow> pystr" where
  "remove_prefix p s = (if starts_with s p then drop (length p) s else s)"

lemma remove_prefix_append [simp]: "remove_prefix p (p @ r) = r"
  by (simp add: remove_prefix_def)

subsection \<open>Containers\<close>

text \<open>\<open>dict.fromkeys(xs)\<close>: the first occurrence of every element, in order.\<close>

definition dict_fromkeys :: "'a list \<Rightarrow> 'a list" where
  "dict_fromkeys xs = rev (remdups (rev xs))"

lemma set_dict_fromkeys [simp]: "set (dict_fromkeys xs) = set xs"
  by (simp add: dict_fromkeys_def)

lemma distinct_dict_fromkeys [simp]: "distinct (dict_fromkeys xs)"
  by (simp add: dict_fromkeys_def)

lemma ex_less_Suc_split: "(\<exists>j < length (x # xs). P j) \<longleftrightarrow> P 0 \<or> (\<exists>j < length xs. P (Suc j))"
  using Ex_less_Suc2 by auto

text \<open>Building an index that refuses a key it already has.\<close>

lemma update_new: "k \<notin> fst ` set al \<Longrightarrow> AList.update k v al = al @ [(k, v)]"
  by (induction al) auto

lemma fold_res_index:
  assumes "fold_res (\<lambda>x indexed. if map_of indexed (k x) \<noteq> None then Inl (e x)
             else Inr (AList.update (k x) x indexed)) xs acc = Inr idx"
    and "distinct (map fst acc)"
  shows "idx = acc @ map (\<lambda>x. (k x, x)) xs \<and> distinct (map fst idx)"
  using assms
proof (induction xs arbitrary: acc)
  case (Cons x xs)
  from Cons.prems(1) have new: "k x \<notin> fst ` set acc"
    by (auto simp: map_of_eq_None_iff [symmetric] split: if_splits)
  with Cons.prems(1) have "fold_res (\<lambda>x indexed. if map_of indexed (k x) \<noteq> None then Inl (e x)
             else Inr (AList.update (k x) x indexed)) xs (acc @ [(k x, x)]) = Inr idx"
    by (simp add: update_new map_of_eq_None_iff)
  moreover have "distinct (map fst (acc @ [(k x, x)]))" using new Cons.prems(2) by simp
  ultimately have IH: "idx = (acc @ [(k x, x)]) @ map (\<lambda>x. (k x, x)) xs \<and> distinct (map fst idx)"
    by (rule Cons.IH)
  have "idx = acc @ map (\<lambda>x. (k x, x)) (x # xs)" by (simp add: IH [THEN conjunct1])
  then show ?case using IH [THEN conjunct2] by (rule conjI)
qed simp

lemma fold_res_index_total:
  assumes "distinct (map k xs)" and "k ` set xs \<inter> fst ` set acc = {}"
  shows "fold_res (\<lambda>x indexed. if map_of indexed (k x) \<noteq> None then Inl (e x)
             else Inr (AList.update (k x) x indexed)) xs acc = Inr (acc @ map (\<lambda>x. (k x, x)) xs)"
  using assms
proof (induction xs arbitrary: acc)
  case (Cons x xs)
  then have new: "k x \<notin> fst ` set acc" by simp
  then have "map_of acc (k x) = None" by (simp add: map_of_eq_None_iff)
  moreover have "k ` set xs \<inter> fst ` set (acc @ [(k x, x)]) = {}" using Cons.prems by auto
  ultimately show ?case using Cons new by (simp add: update_new)
qed simp

lemma map_of_index:
  assumes "distinct (map k xs)"
  shows "map_of (map (\<lambda>x. (k x, x)) xs) key = Some x \<longleftrightarrow> x \<in> set xs \<and> k x = key"
proof -
  have "distinct (map fst (map (\<lambda>x. (k x, x)) xs))" using assms by (simp add: comp_def)
  then show ?thesis by (subst map_of_eq_Some_iff) auto
qed

text \<open>\<open>sorted(set(xs))\<close>.\<close>

definition sorted_set :: "'a::linorder list \<Rightarrow> 'a list" where
  "sorted_set xs = sort (remdups xs)"

lemma set_sorted_set [simp]: "set (sorted_set xs) = set xs"
  by (simp add: sorted_set_def)

lemma distinct_sorted_set [simp]: "distinct (sorted_set xs)"
  by (simp add: sorted_set_def)

lemma sorted_sorted_set [simp]: "sorted (sorted_set xs)"
  by (simp add: sorted_set_def)

subsection \<open>Interface: a state machine with an invariant\<close>

text \<open>
  A component with state is a step function over its operations and an invariant. What a run of
  any length keeps follows from what one step keeps, once, here.
\<close>

fun run_steps :: "('s \<Rightarrow> 'o \<Rightarrow> 's) \<Rightarrow> 's \<Rightarrow> 'o list \<Rightarrow> 's" where
  "run_steps step s [] = s"
| "run_steps step s (x # xs) = run_steps step (step s x) xs"

lemma run_steps_append: "run_steps step s (xs @ ys) = run_steps step (run_steps step s xs) ys"
  by (induction xs arbitrary: s) auto

locale step_machine =
  fixes step :: "'s \<Rightarrow> 'o \<Rightarrow> 's"
    and ok :: "'o \<Rightarrow> bool"
    and inv :: "'s \<Rightarrow> bool"
  assumes step_inv: "\<lbrakk> inv s; ok x \<rbrakk> \<Longrightarrow> inv (step s x)"
begin

lemma run_inv: "\<lbrakk> inv s; list_all ok xs \<rbrakk> \<Longrightarrow> inv (run_steps step s xs)"
  by (induction xs arbitrary: s) (auto intro: step_inv)

end

subsection \<open>Interface: the highest-ranked value of a list\<close>

text \<open>
  The loop \<open>for r in results: if rank[r] > rank[best]: best = r\<close> over a finite ranked set.
  Its laws hold for every injective ranking with a least element.
\<close>

fun running_max :: "('a \<Rightarrow> int) \<Rightarrow> 'a \<Rightarrow> 'a list \<Rightarrow> 'a" where
  "running_max rank best [] = best"
| "running_max rank best (x # xs) =
     running_max rank (if rank x > rank best then x else best) xs"

lemma running_max_rank: "rank (running_max rank b xs) = Max (rank ` insert b (set xs))"
proof (induction xs arbitrary: b)
  case Nil
  then show ?case by simp
next
  case (Cons x xs)
  have "rank (running_max rank b (x # xs))
      = Max (rank ` insert (if rank x > rank b then x else b) (set xs))"
    by (simp add: Cons.IH)
  also have "\<dots> = Max (rank ` insert b (set (x # xs)))"
    by (cases "set xs = {}") (auto simp: max_def)
  finally show ?case .
qed

lemma running_max_mem: "running_max rank b xs \<in> insert b (set xs)"
  by (induction xs arbitrary: b) auto

locale ranked =
  fixes rank :: "'a \<Rightarrow> int"
    and least :: 'a
  assumes rank_inj: "rank x = rank y \<longleftrightarrow> x = y"
    and rank_least: "rank least \<le> rank x"
begin

lemma upper: "x \<in> set xs \<Longrightarrow> rank x \<le> rank (running_max rank least xs)"
  unfolding running_max_rank by (intro Max_ge) auto

lemma attained: "running_max rank least xs = least \<or> running_max rank least xs \<in> set xs"
  using running_max_mem [of rank least xs] by simp

lemma order_free: "set xs = set ys \<Longrightarrow> running_max rank least xs = running_max rank least ys"
  by (metis rank_inj running_max_rank)

lemma least_iff: "running_max rank least xs = least \<longleftrightarrow> set xs \<subseteq> {least}"
proof
  assume "running_max rank least xs = least"
  then show "set xs \<subseteq> {least}"
    using upper rank_least rank_inj by (metis order_antisym singleton_iff subsetI)
next
  assume "set xs \<subseteq> {least}"
  then show "running_max rank least xs = least"
    using attained by blast
qed

lemma top_iff:
  assumes "\<And>y. rank y \<le> rank t" and "t \<noteq> least"
  shows "running_max rank least xs = t \<longleftrightarrow> t \<in> set xs"
proof
  assume "running_max rank least xs = t"
  then show "t \<in> set xs" using attained assms(2) by blast
next
  assume "t \<in> set xs"
  then have "rank t \<le> rank (running_max rank least xs)" by (rule upper)
  with assms(1) show "running_max rank least xs = t"
    using rank_inj by (metis order_antisym)
qed

end

end
