(* ===== verification/Models.thy ===== *)
theory Models
  imports Prelude
begin

text \<open>
  \<open>models.py\<close> and \<open>exceptions.py\<close>: the values a detector receives and returns. The
  \<open>Literal\<close> types become datatypes; \<open>details\<close> and \<open>metadata\<close>, which no operation of the
  safety pipeline reads, are left out of the records.
\<close>

datatype action = Allow | Block | Flag | Modify

datatype risk_level = Low | Medium | High | Critical

datatype direction = Input | Output

record extracted_content =
  ec_message_index :: int
  ec_role :: pystr
  ec_text :: pystr

record modification =
  mod_detector_name :: pystr
  mod_modified_content :: pystr
  mod_priority :: int
  mod_message_index :: "int option"

record detection_result =
  dr_detector_name :: pystr
  dr_category :: pystr
  dr_action :: action
  dr_confidence :: pyfloat
  dr_risk_level :: risk_level
  dr_message :: pystr
  dr_modified_content :: "pystr option"
  dr_duration_ms :: pyfloat
  dr_error :: "pystr option"

record detection_context =
  dc_direction :: direction
  dc_request_id :: pystr
  dc_user_id :: "pystr option"
  dc_language :: "pystr option"
  dc_message_index :: "int option"

text \<open>The bound pydantic enforces on \<open>confidence\<close> (\<open>Field(ge=0.0, le=1.0)\<close>).\<close>

definition wf_result :: "detection_result \<Rightarrow> bool" where
  "wf_result r \<longleftrightarrow> 0 \<le> dr_confidence r \<and> dr_confidence r \<le> 1"

text \<open>\<open>find_result_by_action\<close>: the action set is given as the list of its elements.\<close>

definition find_result_by_action :: "detection_result list \<Rightarrow> action list \<Rightarrow> detection_result option" where
  "find_result_by_action results actions = List.find (\<lambda>r. dr_action r \<in> set actions) results"

lemma find_result_by_action_Some:
  "find_result_by_action rs as = Some r \<Longrightarrow> r \<in> set rs \<and> dr_action r \<in> set as"
  by (auto simp: find_result_by_action_def find_Some_iff)

lemma find_result_by_action_None:
  "find_result_by_action rs as = None \<longleftrightarrow> (\<forall>r \<in> set rs. dr_action r \<notin> set as)"
  by (auto simp: find_result_by_action_def find_None_iff)

fun action_str :: "action \<Rightarrow> pystr" where
  "action_str Allow = ''allow''"
| "action_str Block = ''block''"
| "action_str Flag = ''flag''"
| "action_str Modify = ''modify''"

fun direction_str :: "direction \<Rightarrow> pystr" where
  "direction_str Input = ''input''"
| "direction_str Output = ''output''"

fun risk_str :: "risk_level \<Rightarrow> pystr" where
  "risk_str Low = ''low''"
| "risk_str Medium = ''medium''"
| "risk_str High = ''high''"
| "risk_str Critical = ''critical''"

lemma action_str_inject [simp]: "action_str a = action_str b \<longleftrightarrow> a = b"
  by (cases a; cases b) auto

text \<open>\<open>SafetyUnavailableError.__init__\<close>: both lists are deduplicated and sorted.\<close>

record safety_unavailable =
  su_affected_directions :: "pystr list"
  su_detectors :: "pystr list"

definition safety_unavailable_error :: "pystr list \<Rightarrow> pystr list \<Rightarrow> safety_unavailable" where
  "safety_unavailable_error affected_directions detectors =
     \<lparr>su_affected_directions = sorted_set affected_directions, su_detectors = sorted_set detectors\<rparr>"

text \<open>A result with given name, action and risk level, for the concrete instances below.\<close>

definition sample_result :: "pystr \<Rightarrow> action \<Rightarrow> risk_level \<Rightarrow> detection_result" where
  "sample_result name a risk =
     \<lparr>dr_detector_name = name, dr_category = name, dr_action = a, dr_confidence = 1/2,
      dr_risk_level = risk, dr_message = [], dr_modified_content = None, dr_duration_ms = 1,
      dr_error = None\<rparr>"

end
