(* ===== verification/Flag_Escalation.thy ===== *)
theory Flag_Escalation
  imports Models
begin

text \<open>
  \<open>pipeline/flag_escalation.py\<close>: the rule language that turns accumulated flags into a block.
  The tokenizer, the comparison parser and the rule parser follow the source; the closures the
  parser builds are kept as the syntax tree they close over, with \<open>eval_comparison\<close> and
  \<open>eval_rule\<close> as their bodies. A comparison of an integer with a string raises
  \<open>TypeError\<close> in Python for every operator but \<open>==\<close> and \<open>!=\<close>; that is a value of the model.

  The lemmas: a rule printed with its tokens apart parses back to itself, and a rule raises at
  request time only if it orders a number against a name.
\<close>

datatype rule_error =
    Invalid_character char nat
  | Rule_empty
  | Rule_no_tokens
  | Expected_comparison
  | Expected_contains
  | Expected_value_after_contains
  | Unknown_variable pystr
  | Expected_operator pystr
  | Invalid_operator pystr
  | Expected_value pystr
  | Expected_logic_op pystr
  | Type_error

fun risk_level_map :: "risk_level \<Rightarrow> int" where
  "risk_level_map Low = 0"
| "risk_level_map Medium = 1"
| "risk_level_map High = 2"
| "risk_level_map Critical = 3"

definition risk_name_map :: "pystr \<rightharpoonup> int" where
  "risk_name_map = map_of [(''low'', 0), (''medium'', 1), (''high'', 2), (''critical'', 3)]"

subsection \<open>Tokenizer\<close>

definition match_op :: "pystr \<Rightarrow> pystr option" where
  "match_op s = List.find (starts_with s) [''>='', ''<='', ''=='', ''!='', ''>'', ''<'']"

definition match_number :: "pystr \<Rightarrow> pystr option" where
  "match_number s =
     (let ds = takeWhile is_digit s; r = dropWhile is_digit s in
      if ds = [] then None
      else case r of
             [] \<Rightarrow> Some ds
           | c # r' \<Rightarrow>
               if c = CHR ''.'' \<and> takeWhile is_digit r' \<noteq> []
               then Some (ds @ c # takeWhile is_digit r') else Some ds)"

definition is_ident_start :: "char \<Rightarrow> bool" where
  "is_ident_start c \<longleftrightarrow> is_alpha c \<or> c = CHR ''_''"

definition is_ident_char :: "char \<Rightarrow> bool" where
  "is_ident_char c \<longleftrightarrow> is_ident_start c \<or> is_digit c"

definition match_ident :: "pystr \<Rightarrow> pystr option" where
  "match_ident s =
     (case s of [] \<Rightarrow> None
      | c # cs \<Rightarrow> if is_ident_start c then Some (c # takeWhile is_ident_char cs) else None)"

definition match_token :: "pystr \<Rightarrow> pystr option" where
  "match_token s =
     (case match_op s of Some m \<Rightarrow> Some m
      | None \<Rightarrow> (case match_number s of Some m \<Rightarrow> Some m | None \<Rightarrow> match_ident s))"

lemma match_op_Some: "match_op s = Some m \<Longrightarrow> starts_with s m \<and> m \<noteq> []"
  by (auto simp: match_op_def split: if_splits)

lemma match_number_Some: "match_number s = Some m \<Longrightarrow> starts_with s m \<and> m \<noteq> []"
proof -
  assume m: "match_number s = Some m"
  have s: "s = takeWhile is_digit s @ dropWhile is_digit s" by simp
  show ?thesis
  proof (cases "dropWhile is_digit s")
    case Nil
    with m s show ?thesis by (auto simp: match_number_def Let_def starts_with_iff split: if_splits)
  next
    case (Cons c r)
    have "s = (takeWhile is_digit s @ c # takeWhile is_digit r) @ dropWhile is_digit r"
      by (subst s) (simp add: Cons)
    moreover from m Cons have "m \<noteq> []"
      "m = takeWhile is_digit s \<or> m = takeWhile is_digit s @ c # takeWhile is_digit r"
      by (auto simp: match_number_def Let_def split: if_splits)
    ultimately show ?thesis using s unfolding starts_with_iff by metis
  qed
qed

lemma match_ident_Some: "match_ident s = Some m \<Longrightarrow> starts_with s m \<and> m \<noteq> []"
proof -
  assume m: "match_ident s = Some m"
  then obtain c cs where s: "s = c # cs" and "m = c # takeWhile is_ident_char cs"
    by (auto simp: match_ident_def split: list.splits if_splits)
  moreover have "cs = takeWhile is_ident_char cs @ dropWhile is_ident_char cs" by simp
  ultimately show ?thesis by (metis append_Cons list.distinct(1) starts_with_iff)
qed

lemma match_token_Some: "match_token s = Some m \<Longrightarrow> starts_with s m \<and> m \<noteq> []"
  by (auto simp: match_token_def dest: match_op_Some match_number_Some match_ident_Some
      split: option.splits)

function tokenize :: "nat \<Rightarrow> pystr \<Rightarrow> rule_error + pystr list" where
  "tokenize pos [] = Inr []"
| "tokenize pos (c # cs) =
     (if py_isspace c then tokenize (pos + 1) cs
      else case match_token (c # cs) of
             Some m \<Rightarrow> bind_res (tokenize (pos + length m) (drop (length m) (c # cs))) (\<lambda>ts. Inr (m # ts))
           | None \<Rightarrow> Inl (Invalid_character c pos))"
  by pat_completeness auto
termination
proof (relation "measure (\<lambda>(pos, s). length s)")
  show "((pos + length m, drop (length m) (c # cs)), (pos, c # cs)) \<in> measure (\<lambda>(pos, s). length s)"
    if "\<not> py_isspace c" "match_token (c # cs) = Some m" for pos c cs m
    using match_token_Some [OF that(2)] by (cases m) auto
qed auto

subsection \<open>Values and comparisons\<close>

text \<open>
  \<open>_parse_value\<close>: on tokens, \<open>float(token)\<close> succeeds for a decimal number and, in any case,
  for \<open>inf\<close>, \<open>infinity\<close> and \<open>nan\<close>.
\<close>

datatype rule_value = VInt int | VFloat pyfloat | VInf | VNan | VStr pystr

definition parse_decimal :: "pystr \<Rightarrow> pyfloat option" where
  "parse_decimal s =
     (let ds = takeWhile is_digit s; r = dropWhile is_digit s in
      case r of [] \<Rightarrow> None
      | c # fs \<Rightarrow>
          if ds \<noteq> [] \<and> c = CHR ''.'' \<and> fs \<noteq> [] \<and> list_all is_digit fs
          then Some (of_int (digits_val ds) + of_int (digits_val fs) / 10 ^ length fs) else None)"

definition parse_value :: "pystr \<Rightarrow> rule_value" where
  "parse_value token =
     (if token \<noteq> [] \<and> list_all is_digit token then VInt (digits_val token)
      else case parse_decimal token of
        Some q \<Rightarrow> VFloat q
      | None \<Rightarrow>
          (let low = map ascii_lower token in
           if low = ''inf'' \<or> low = ''infinity'' then VInf
           else if low = ''nan'' then VNan
           else case risk_name_map token of Some n \<Rightarrow> VInt n | None \<Rightarrow> VStr token))"

datatype cmp_op = Ge | Gt | Le | Lt | Eq | Ne

fun cmp_str :: "cmp_op \<Rightarrow> pystr" where
  "cmp_str Ge = ''>=''"
| "cmp_str Gt = ''>''"
| "cmp_str Le = ''<=''"
| "cmp_str Lt = ''<''"
| "cmp_str Eq = ''==''"
| "cmp_str Ne = ''!=''"

definition cmp_funcs :: "pystr \<rightharpoonup> cmp_op" where
  "cmp_funcs = map_of (map (\<lambda>c. (cmp_str c, c)) [Ge, Gt, Le, Lt, Eq, Ne])"

fun cmp_num :: "cmp_op \<Rightarrow> pyfloat \<Rightarrow> pyfloat \<Rightarrow> bool" where
  "cmp_num Ge a b = (b \<le> a)"
| "cmp_num Gt a b = (b < a)"
| "cmp_num Le a b = (a \<le> b)"
| "cmp_num Lt a b = (a < b)"
| "cmp_num Eq a b = (a = b)"
| "cmp_num Ne a b = (a \<noteq> b)"

fun cmp_value :: "cmp_op \<Rightarrow> int \<Rightarrow> rule_value \<Rightarrow> rule_error + bool" where
  "cmp_value c a (VInt n) = Inr (cmp_num c (of_int a) (of_int n))"
| "cmp_value c a (VFloat q) = Inr (cmp_num c (of_int a) q)"
| "cmp_value c a VInf = Inr (c \<in> {Le, Lt, Ne})"
| "cmp_value c a VNan = Inr (c = Ne)"
| "cmp_value c a (VStr s) = (if c = Eq then Inr False else if c = Ne then Inr True else Inl Type_error)"

datatype rule_var = Count | Max_risk_level

definition rule_variables :: "pystr \<rightharpoonup> rule_var" where
  "rule_variables = map_of [(''count'', Count), (''max_risk_level'', Max_risk_level)]"

fun var_str :: "rule_var \<Rightarrow> pystr" where
  "var_str Count = ''count''"
| "var_str Max_risk_level = ''max_risk_level''"

datatype comparison = Contains pystr | Compare rule_var cmp_op rule_value

text \<open>\<open>_parse_comparison\<close>, on the tokens from the position on; it returns those it left.\<close>

definition parse_comparison :: "pystr list \<Rightarrow> rule_error + comparison \<times> pystr list" where
  "parse_comparison tokens =
     (case tokens of [] \<Rightarrow> Inl Expected_comparison
      | var # rest \<Rightarrow>
         if var = ''categories'' then
           (case rest of [] \<Rightarrow> Inl Expected_contains
            | kw # rest' \<Rightarrow>
               if kw \<noteq> ''contains'' then Inl Expected_contains
               else case rest' of [] \<Rightarrow> Inl Expected_value_after_contains
                    | category # rest'' \<Rightarrow> Inr (Contains category, rest''))
         else case rule_variables var of None \<Rightarrow> Inl (Unknown_variable var)
              | Some v \<Rightarrow>
                 (case rest of [] \<Rightarrow> Inl (Expected_operator var)
                  | oper # rest' \<Rightarrow>
                     (case cmp_funcs oper of None \<Rightarrow> Inl (Invalid_operator oper)
                      | Some c \<Rightarrow>
                         (case rest' of [] \<Rightarrow> Inl (Expected_value oper)
                          | raw # rest'' \<Rightarrow> Inr (Compare v c (parse_value raw), rest'')))))"

lemma parse_comparison_length:
  "parse_comparison tokens = Inr (c, rest) \<Longrightarrow> length rest < length tokens"
  by (auto simp: parse_comparison_def split: list.splits if_splits option.splits)

subsection \<open>Rules\<close>

datatype logic_op = And | Or

record rule =
  rule_first :: comparison
  rule_rest :: "(logic_op \<times> comparison) list"

definition parse_logic :: "pystr \<Rightarrow> logic_op option" where
  "parse_logic s = map_of [(''and'', And), (''or'', Or)] s"

function parse_rest :: "pystr list \<Rightarrow> rule_error + (logic_op \<times> comparison) list" where
  "parse_rest [] = Inr []"
| "parse_rest (t # ts) =
     (case parse_logic t of None \<Rightarrow> Inl (Expected_logic_op t)
      | Some l \<Rightarrow>
         (case parse_comparison ts of Inl e \<Rightarrow> Inl e
          | Inr (c, rest) \<Rightarrow> bind_res (parse_rest rest) (\<lambda>cs. Inr ((l, c) # cs))))"
  by pat_completeness auto
termination
  by (relation "measure length") (auto dest: parse_comparison_length)

definition parse :: "pystr \<Rightarrow> rule_error + rule" where
  "parse rule_str =
     (let rule_str = py_strip rule_str in
      if rule_str = [] then Inl Rule_empty
      else bind_res (tokenize 0 rule_str) (\<lambda>tokens.
        if tokens = [] then Inl Rule_no_tokens
        else bind_res (parse_comparison tokens) (\<lambda>(first, rest).
          bind_res (parse_rest rest) (\<lambda>cs. Inr \<lparr>rule_first = first, rule_rest = cs\<rparr>))))"

record rule_ctx =
  ctx_count :: int
  ctx_max_risk_level :: int
  ctx_categories :: "pystr list"

fun ctx_var :: "rule_var \<Rightarrow> rule_ctx \<Rightarrow> int" where
  "ctx_var Count ctx = ctx_count ctx"
| "ctx_var Max_risk_level ctx = ctx_max_risk_level ctx"

fun eval_comparison :: "comparison \<Rightarrow> rule_ctx \<Rightarrow> rule_error + bool" where
  "eval_comparison (Contains category) ctx = Inr (category \<in> set (ctx_categories ctx))"
| "eval_comparison (Compare v c value) ctx = cmp_value c (ctx_var v ctx) value"

fun eval_rest :: "bool \<Rightarrow> (logic_op \<times> comparison) list \<Rightarrow> rule_ctx \<Rightarrow> rule_error + bool" where
  "eval_rest result [] ctx = Inr result"
| "eval_rest result ((l, c) # cs) ctx =
     bind_res
       (if l = And then (if result then eval_comparison c ctx else Inr False)
        else (if result then Inr True else eval_comparison c ctx))
       (\<lambda>result. eval_rest result cs ctx)"

definition eval_rule :: "rule \<Rightarrow> rule_ctx \<Rightarrow> rule_error + bool" where
  "eval_rule r ctx = bind_res (eval_comparison (rule_first r) ctx) (\<lambda>result. eval_rest result (rule_rest r) ctx)"

text \<open>\<open>FlagEscalationRule.evaluate\<close>; \<open>max(..., default=0)\<close> over levels that start at 0.\<close>

definition rule_context :: "detection_result list \<Rightarrow> rule_ctx" where
  "rule_context flag_results =
     \<lparr>ctx_count = int (length flag_results),
      ctx_max_risk_level = fold max (map (risk_level_map \<circ> dr_risk_level) flag_results) 0,
      ctx_categories = map dr_category flag_results\<rparr>"

definition evaluate_rule :: "rule \<Rightarrow> detection_result list \<Rightarrow> rule_error + bool" where
  "evaluate_rule r flag_results = eval_rule r (rule_context flag_results)"

subsection \<open>Tokens set apart by spaces\<close>

definition is_token :: "pystr \<Rightarrow> bool" where
  "is_token t \<longleftrightarrow> match_token t = Some t"

lemma match_token_sep: "t \<noteq> [] \<Longrightarrow> match_token (t @ CHR '' '' # r) = match_token t"
proof -
  assume t: "t \<noteq> []"
  have "match_op (t @ CHR '' '' # r) = match_op t"
    by (simp add: match_op_def starts_with_sep)
  moreover have "match_number (t @ CHR '' '' # r) = match_number t"
  proof -
    have d: "\<not> is_digit CHR '' ''" by (simp add: is_digit_def)
    show ?thesis
    proof (cases "dropWhile is_digit t")
      case Nil
      show ?thesis
        unfolding match_number_def Let_def takeWhile_sep [of is_digit, OF d]
          dropWhile_sep [of is_digit, OF d] Nil by simp
    next
      case (Cons c r')
      show ?thesis
        unfolding match_number_def Let_def takeWhile_sep [of is_digit, OF d]
          dropWhile_sep [of is_digit, OF d] Cons by (simp add: takeWhile_sep [of is_digit, OF d])
    qed
  qed
  moreover have "match_ident (t @ CHR '' '' # r) = match_ident t"
  proof -
    have "\<not> is_ident_char CHR '' ''"
      by (simp add: is_ident_char_def is_ident_start_def is_digit_def is_alpha_def)
    with t show ?thesis
      by (cases t) (simp_all add: match_ident_def takeWhile_sep)
  qed
  ultimately show ?thesis by (simp add: match_token_def split: option.split)
qed

definition solid :: "pystr \<Rightarrow> bool" where
  "solid s \<longleftrightarrow> (\<forall>c \<in> set s. \<not> py_isspace c)"

lemma digit_not_space: "is_digit c \<Longrightarrow> \<not> py_isspace c"
  by (auto simp: is_digit_def py_isspace_def Let_def)

lemma ident_not_space: "is_ident_char c \<Longrightarrow> \<not> py_isspace c"
  by (auto simp: is_ident_char_def is_ident_start_def is_alpha_def is_digit_def py_isspace_def Let_def)

lemma ident_start_char: "is_ident_start c \<Longrightarrow> is_ident_char c"
  by (simp add: is_ident_char_def)

lemma match_token_solid: "match_token s = Some m \<Longrightarrow> solid m"
proof -
  assume m: "match_token s = Some m"
  have "solid m" if "match_op s = Some m"
    using that by (auto simp: match_op_def solid_def py_isspace_def split: if_splits)
  moreover have "solid m" if "match_number s = Some m"
  proof -
    have "\<forall>c \<in> set m. is_digit c \<or> c = CHR ''.''"
      using that by (auto simp: match_number_def Let_def split: if_splits list.splits dest: set_takeWhileD)
    moreover have "\<not> py_isspace CHR ''.''" by (simp add: py_isspace_def)
    ultimately show ?thesis unfolding solid_def using digit_not_space by metis
  qed
  moreover have "solid m" if "match_ident s = Some m"
  proof -
    have "\<forall>c \<in> set m. is_ident_char c"
      using that ident_start_char
      by (auto simp: match_ident_def split: if_splits list.splits dest: set_takeWhileD)
    then show ?thesis by (auto simp: solid_def dest: ident_not_space)
  qed
  ultimately show ?thesis using m by (auto simp: match_token_def split: option.splits)
qed

lemma is_token_solid: "is_token t \<Longrightarrow> solid t"
  unfolding is_token_def by (rule match_token_solid)

lemma is_token_nonempty: "is_token t \<Longrightarrow> t \<noteq> []"
  unfolding is_token_def using match_token_Some by blast

lemma tokenize_unwords: "list_all is_token ts \<Longrightarrow> tokenize pos (unwords ts) = Inr ts"
proof (induction ts arbitrary: pos rule: unwords.induct)
  case (2 t)
  then obtain c cs where t: "t = c # cs" using is_token_nonempty by (cases t) auto
  with 2 have "match_token t = Some t" "\<not> py_isspace c"
    using is_token_solid [of t] by (auto simp: is_token_def solid_def)
  with t show ?case by simp
next
  case (3 t u us)
  then obtain c cs where t: "t = c # cs" using is_token_nonempty by (cases t) auto
  with 3 have "match_token t = Some t" "\<not> py_isspace c"
    using is_token_solid [of t] by (auto simp: is_token_def solid_def)
  moreover from this t have "match_token (c # cs @ CHR '' '' # unwords (u # us)) = Some t"
    using match_token_sep [of t "unwords (u # us)"] by simp
  moreover have "py_isspace CHR '' ''" by (simp add: py_isspace_def)
  ultimately show ?case using 3 t by simp
qed simp

lemma unwords_ends:
  "list_all is_token ts \<Longrightarrow> ts \<noteq> [] \<Longrightarrow>
     unwords ts \<noteq> [] \<and> hd (unwords ts) = hd (hd ts) \<and> last (unwords ts) = last (last ts)"
  by (induction ts rule: unwords.induct) (auto dest: is_token_nonempty)

lemma py_strip_unwords:
  assumes "list_all is_token ts" and "ts \<noteq> []"
  shows "py_strip (unwords ts) = unwords ts"
proof (rule py_strip_id)
  have "is_token (hd ts)" "is_token (last ts)"
    using assms by (auto simp: list_all_iff)
  then show "\<not> py_isspace (hd (unwords ts))" "\<not> py_isspace (last (unwords ts))"
    using unwords_ends [OF assms] is_token_solid is_token_nonempty
    by (auto simp: solid_def)
qed (use unwords_ends [OF assms] in simp)

subsection \<open>Printing a rule\<close>

fun value_str :: "rule_value \<Rightarrow> pystr" where
  "value_str (VInt n) = show_nat (nat n)"
| "value_str VInf = ''inf''"
| "value_str VNan = ''nan''"
| "value_str (VStr s) = s"
| "value_str (VFloat q) = []"

fun comparison_tokens :: "comparison \<Rightarrow> pystr list" where
  "comparison_tokens (Contains s) = [''categories'', ''contains'', s]"
| "comparison_tokens (Compare v c x) = [var_str v, cmp_str c, value_str x]"

fun logic_str :: "logic_op \<Rightarrow> pystr" where
  "logic_str And = ''and''"
| "logic_str Or = ''or''"

definition rule_tokens :: "rule \<Rightarrow> pystr list" where
  "rule_tokens r =
     comparison_tokens (rule_first r)
     @ concat (map (\<lambda>(l, c). logic_str l # comparison_tokens c) (rule_rest r))"

fun printable_value :: "rule_value \<Rightarrow> bool" where
  "printable_value (VInt n) = (0 \<le> n)"
| "printable_value VInf = True"
| "printable_value VNan = True"
| "printable_value (VStr s) = (is_token s \<and> parse_value s = VStr s)"
| "printable_value (VFloat q) = False"

fun printable_comparison :: "comparison \<Rightarrow> bool" where
  "printable_comparison (Contains s) = is_token s"
| "printable_comparison (Compare v c x) = printable_value x"

definition printable_rule :: "rule \<Rightarrow> bool" where
  "printable_rule r \<longleftrightarrow>
     printable_comparison (rule_first r) \<and> list_all (\<lambda>(l, c). printable_comparison c) (rule_rest r)"

lemma digits_token:
  assumes "s \<noteq> []" and "\<forall>c \<in> set s. is_digit c"
  shows "is_token s"
proof -
  obtain d ds where s: "s = d # ds" using assms(1) by (cases s) auto
  have "\<not> starts_with s p" if "p \<in> {''>='', ''<='', ''=='', ''!='', ''>'', ''<''}" for p
    using that s assms(2) by (auto simp: is_digit_def)
  then have "match_op s = None" by (auto simp: match_op_def)
  moreover have "match_number s = Some s"
  proof -
    have "takeWhile is_digit s = s" "dropWhile is_digit s = []"
      using assms(2) by (auto simp: dropWhile_eq_Nil_conv takeWhile_eq_all_conv)
    then show ?thesis unfolding match_number_def Let_def using assms(1) by (simp only:) simp
  qed
  ultimately show ?thesis by (simp add: is_token_def match_token_def)
qed

lemma fixed_tokens:
  "is_token ''categories''" "is_token ''contains''" "is_token ''inf''" "is_token ''nan''"
  "is_token (var_str v)" "is_token (cmp_str c)" "is_token (logic_str l)"
  by (simp_all add: is_token_def match_token_def match_op_def match_number_def match_ident_def
      is_ident_char_def is_ident_start_def is_alpha_def is_digit_def
      split: rule_var.split cmp_op.split logic_op.split)
    (cases v; cases c; cases l; simp add: is_token_def match_token_def match_op_def match_number_def
      match_ident_def is_ident_char_def is_ident_start_def is_alpha_def is_digit_def)+

lemma value_token: "printable_value x \<Longrightarrow> is_token (value_str x)"
  using show_nat_digits by (cases x) (auto intro: digits_token fixed_tokens)

lemma comparison_tokens_ok: "printable_comparison c \<Longrightarrow> list_all is_token (comparison_tokens c)"
  by (cases c) (auto simp: fixed_tokens value_token)

lemma rule_tokens_ok: "printable_rule r \<Longrightarrow> list_all is_token (rule_tokens r)"
  using comparison_tokens_ok
  by (fastforce simp: printable_rule_def rule_tokens_def list_all_iff fixed_tokens)

lemma parse_value_str: "printable_value x \<Longrightarrow> parse_value (value_str x) = x"
proof (cases x)
  case (VInt n)
  assume "printable_value x"
  with VInt show ?thesis
    using show_nat_digits [of "nat n"] by (simp add: parse_value_def list_all_iff)
qed (auto simp: parse_value_def parse_decimal_def is_digit_def ascii_lower_def)

lemma parse_comparison_tokens:
  "printable_comparison c \<Longrightarrow> parse_comparison (comparison_tokens c @ ts) = Inr (c, ts)"
proof (cases c)
  case (Compare v oper x)
  assume "printable_comparison c"
  moreover have "rule_variables (var_str v) = Some v" "var_str v \<noteq> ''categories''"
    by (cases v; simp add: rule_variables_def)+
  moreover have "cmp_funcs (cmp_str oper) = Some oper"
    by (cases oper) (simp_all add: cmp_funcs_def)
  ultimately show ?thesis
    using Compare by (simp add: parse_comparison_def parse_value_str)
qed (simp add: parse_comparison_def)

lemma parse_rest_tokens:
  "list_all (\<lambda>(l, c). printable_comparison c) cs \<Longrightarrow>
     parse_rest (concat (map (\<lambda>(l, c). logic_str l # comparison_tokens c) cs)) = Inr cs"
proof (induction cs)
  case (Cons a cs)
  obtain l c where a: "a = (l, c)" by (cases a)
  have "parse_logic (logic_str l) = Some l" by (cases l) (simp_all add: parse_logic_def)
  with Cons a show ?case by (simp add: parse_comparison_tokens)
qed simp

subsection \<open>Properties\<close>

text \<open>C39. The rule language round-trips: for every rule whose values can be written as tokens,
  writing its tokens separated by spaces and parsing the text gives the rule back.\<close>

theorem parse_print_rule:
  assumes "printable_rule r"
  shows "parse (unwords (rule_tokens r)) = Inr r"
proof -
  have ts: "list_all is_token (rule_tokens r)" "rule_tokens r \<noteq> []"
    using rule_tokens_ok [OF assms] by (cases "rule_first r"; simp add: rule_tokens_def)+
  then have "unwords (rule_tokens r) \<noteq> []" using unwords_ends by blast
  with ts assms show ?thesis
    by (simp add: parse_def py_strip_unwords tokenize_unwords Let_def)
      (simp add: rule_tokens_def printable_rule_def parse_comparison_tokens parse_rest_tokens)
qed

theorem parse_print_rule_witness:
  "parse (unwords (rule_tokens
     \<lparr>rule_first = Compare Count Ge (VInt 3),
      rule_rest = [(And, Compare Max_risk_level Ge (VInt 1)), (Or, Contains ''pii'')]\<rparr>))
   = Inr \<lparr>rule_first = Compare Count Ge (VInt 3),
      rule_rest = [(And, Compare Max_risk_level Ge (VInt 1)), (Or, Contains ''pii'')]\<rparr>"
  by (rule parse_print_rule)
    (simp add: printable_rule_def is_token_def match_token_def match_op_def match_number_def
      match_ident_def is_ident_char_def is_ident_start_def is_alpha_def is_digit_def)

text \<open>The comparisons that order a number against a name: the only ones that raise.\<close>

fun orders_a_name :: "comparison \<Rightarrow> bool" where
  "orders_a_name (Compare v c (VStr s)) = (c \<noteq> Eq \<and> c \<noteq> Ne)"
| "orders_a_name _ = False"

lemma eval_comparison_total:
  "(\<exists>b. eval_comparison c ctx = Inr b) \<longleftrightarrow> \<not> orders_a_name c"
  by (cases c rule: orders_a_name.cases) auto

lemma eval_rest_total:
  "list_all (\<lambda>(l, c). \<not> orders_a_name c) cs \<Longrightarrow> \<exists>b. eval_rest result cs ctx = Inr b"
proof (induction cs arbitrary: result)
  case (Cons a cs)
  obtain l c where a: "a = (l, c)" by (cases a)
  with Cons.prems obtain b where "eval_comparison c ctx = Inr b"
    using eval_comparison_total by auto
  with Cons a show ?case by auto
qed simp

text \<open>Evaluating a rule at request time returns a truth value for every list of flags, unless
  the rule orders a number against a name; and a rule whose first comparison does so, which the
  parser accepts (\<open>count >= foo\<close>), raises on every evaluation.\<close>

theorem rule_evaluation_total:
  assumes "\<forall>c \<in> insert (rule_first r) (snd ` set (rule_rest r)). \<not> orders_a_name c"
  shows "(\<exists>b. evaluate_rule r flags = Inr b)
    \<and> (\<exists>bad. parse ''count >= foo'' = Inr bad \<and> (\<forall>fs. evaluate_rule bad fs = Inl Type_error))"
proof
  obtain b where "eval_comparison (rule_first r) (rule_context flags) = Inr b"
    using assms eval_comparison_total by blast
  moreover obtain b' where "eval_rest b (rule_rest r) (rule_context flags) = Inr b'"
    using eval_rest_total [of "rule_rest r"] assms by (force simp: list_all_iff)
  ultimately show "\<exists>b. evaluate_rule r flags = Inr b"
    by (simp add: evaluate_rule_def eval_rule_def)
  let ?bad = "\<lparr>rule_first = Compare Count Ge (VStr ''foo''), rule_rest = []\<rparr>"
  have "parse ''count >= foo'' = Inr ?bad" by code_simp
  moreover have "\<forall>fs. evaluate_rule ?bad fs = Inl Type_error"
    by (simp add: evaluate_rule_def eval_rule_def)
  ultimately show "\<exists>bad. parse ''count >= foo'' = Inr bad \<and> (\<forall>fs. evaluate_rule bad fs = Inl Type_error)"
    by blast
qed

theorem rule_evaluation_total_witness:
  "\<exists>b. evaluate_rule \<lparr>rule_first = Compare Count Ge (VInt 2), rule_rest = [(Or, Contains ''pii'')]\<rparr> []
     = Inr b"
  by (rule rule_evaluation_total [THEN conjunct1]) simp

end
