(* ===== verification/Aggregator.thy ===== *)
theory Aggregator
  imports Flag_Escalation "HOL-Library.Multiset"
begin

text \<open>
  \<open>pipeline/threshold.py\<close> and \<open>pipeline/aggregator.py\<close>: from a confidence to an action, and
  from the results of all detectors to one outcome.

  Both maximum loops of \<open>aggregate\<close> are the loop of the \<open>ranked\<close> interface, interpreted here
  on the code's two precedence tables; the sort of the modifications is stable.
\<close>

definition decide :: "pyfloat \<Rightarrow> pyfloat \<Rightarrow> pyfloat \<Rightarrow> action" where
  "decide confidence block_threshold flag_threshold =
     (if confidence \<ge> block_threshold then Block
      else if confidence \<ge> flag_threshold then Flag
      else Allow)"

fun action_precedence :: "action \<Rightarrow> int" where
  "action_precedence Allow = 0"
| "action_precedence Flag = 1"
| "action_precedence Modify = 2"
| "action_precedence Block = 3"

fun risk_level_order :: "risk_level \<Rightarrow> int" where
  "risk_level_order Low = 0"
| "risk_level_order Medium = 1"
| "risk_level_order High = 2"
| "risk_level_order Critical = 3"

interpretation act: ranked action_precedence Allow
proof
  show "(action_precedence x = action_precedence y) = (x = y)" for x y
    by (cases x; cases y) auto
  show "action_precedence Allow \<le> action_precedence x" for x
    by (cases x) auto
qed

interpretation risk: ranked risk_level_order Low
proof
  show "(risk_level_order x = risk_level_order y) = (x = y)" for x y
    by (cases x; cases y) auto
  show "risk_level_order Low \<le> risk_level_order x" for x
    by (cases x) auto
qed

record aggregated_result =
  ag_final_action :: action
  ag_overall_risk_level :: risk_level
  ag_modifications :: "modification list"
  ag_risk_profile :: "detection_result list"

definition final_action_of :: "detection_result list \<Rightarrow> action" where
  "final_action_of results = running_max action_precedence Allow (map dr_action results)"

definition overall_risk_of :: "detection_result list \<Rightarrow> risk_level" where
  "overall_risk_of results = running_max risk_level_order Low (map dr_risk_level results)"

text \<open>The loop over \<open>enumerate(results)\<close>, from index \<open>i\<close> on.\<close>

fun collect_modifications ::
  "(pystr \<rightharpoonup> int) \<Rightarrow> int option list \<Rightarrow> nat \<Rightarrow> detection_result list \<Rightarrow> modification list" where
  "collect_modifications priorities msg_indices i [] = []"
| "collect_modifications priorities msg_indices i (r # rs) =
     (case dr_modified_content r of
        Some content \<Rightarrow>
          if dr_action r = Modify then
            [\<lparr>mod_detector_name = dr_detector_name r,
              mod_modified_content = content,
              mod_priority = (case priorities (dr_detector_name r) of Some p \<Rightarrow> p | None \<Rightarrow> 100),
              mod_message_index = (if i < length msg_indices then msg_indices ! i else None)\<rparr>]
          else []
      | None \<Rightarrow> [])
     @ collect_modifications priorities msg_indices (i + 1) rs"

definition aggregate ::
  "rule option \<Rightarrow> detection_result list \<Rightarrow> (pystr \<rightharpoonup> int) \<Rightarrow> int option list
     \<Rightarrow> rule_error + aggregated_result" where
  "aggregate flag_escalation results priorities message_indices =
     (let msg_indices = (if message_indices = [] then replicate (length results) None else message_indices);
          final_action = final_action_of results;
          overall_risk_level = overall_risk_of results;
          modifications = sort_key mod_priority (collect_modifications priorities msg_indices 0 results);
          risk_profile = filter (\<lambda>r. dr_action r = Flag) results
      in bind_res
           (case flag_escalation of
              None \<Rightarrow> Inr final_action
            | Some rule \<Rightarrow>
                if final_action = Flag
                then bind_res (evaluate_rule rule risk_profile)
                       (\<lambda>escalated. Inr (if escalated then Block else final_action))
                else Inr final_action)
           (\<lambda>final_action. Inr
              \<lparr>ag_final_action = final_action, ag_overall_risk_level = overall_risk_level,
               ag_modifications = modifications, ag_risk_profile = risk_profile\<rparr>))"

lemma final_action_Block: "final_action_of rs = Block \<longleftrightarrow> (\<exists>r \<in> set rs. dr_action r = Block)"
proof -
  have "action_precedence y \<le> action_precedence Block" for y by (cases y) auto
  then show ?thesis
    unfolding final_action_of_def by (subst act.top_iff) (force simp: image_iff)+
qed

lemma final_action_Allow: "final_action_of rs = Allow \<longleftrightarrow> (\<forall>r \<in> set rs. dr_action r = Allow)"
  unfolding final_action_of_def act.least_iff by auto

lemma final_action_mem: "final_action_of rs \<noteq> Allow \<Longrightarrow> \<exists>r \<in> set rs. dr_action r = final_action_of rs"
  using act.attained [of "map dr_action rs"] unfolding final_action_of_def by auto

lemma final_action_upper: "r \<in> set rs \<Longrightarrow> action_precedence (dr_action r) \<le> action_precedence (final_action_of rs)"
  unfolding final_action_of_def by (rule act.upper) simp

lemma overall_risk_attained: "rs \<noteq> [] \<Longrightarrow> \<exists>r \<in> set rs. dr_risk_level r = overall_risk_of rs"
proof (cases "overall_risk_of rs = Low")
  case True
  assume "rs \<noteq> []"
  then have "hd rs \<in> set rs" by simp
  moreover from this have "risk_level_order (dr_risk_level (hd rs)) \<le> risk_level_order (overall_risk_of rs)"
    unfolding overall_risk_of_def by (intro risk.upper) simp
  ultimately show ?thesis using True by (cases "dr_risk_level (hd rs)") auto
next
  case False
  then show ?thesis using risk.attained [of "map dr_risk_level rs"] unfolding overall_risk_of_def by auto
qed

lemma aggregate_Inr:
  "aggregate rule rs pri idx = Inr a \<Longrightarrow>
     ag_risk_profile a = filter (\<lambda>r. dr_action r = Flag) rs
     \<and> ag_overall_risk_level a = overall_risk_of rs
     \<and> ag_modifications a = sort_key mod_priority
          (collect_modifications pri (if idx = [] then replicate (length rs) None else idx) 0 rs)"
  by (auto simp: aggregate_def Let_def res_simps split: option.splits if_splits)

lemma aggregate_no_rule:
  "aggregate None rs pri idx = Inr \<lparr>ag_final_action = final_action_of rs,
     ag_overall_risk_level = overall_risk_of rs,
     ag_modifications = sort_key mod_priority
        (collect_modifications pri (if idx = [] then replicate (length rs) None else idx) 0 rs),
     ag_risk_profile = filter (\<lambda>r. dr_action r = Flag) rs\<rparr>"
  by (simp add: aggregate_def Let_def)

text \<open>The action after escalation.\<close>

lemma aggregate_action:
  assumes "aggregate rule rs pri idx = Inr a"
  shows "ag_final_action a = final_action_of rs
    \<or> (final_action_of rs = Flag \<and> ag_final_action a = Block
       \<and> (\<exists>r. rule = Some r \<and> evaluate_rule r (filter (\<lambda>r. dr_action r = Flag) rs) = Inr True))"
  using assms by (auto simp: aggregate_def Let_def res_simps split: option.splits if_splits)

lemma aggregate_keeps_block:
  "aggregate rule rs pri idx = Inr a \<Longrightarrow> r \<in> set rs \<Longrightarrow> dr_action r = Block \<Longrightarrow> ag_final_action a = Block"
  by (metis aggregate_action final_action_Block)

lemma aggregate_keeps_modify:
  assumes "aggregate rule rs pri idx = Inr a" and "r \<in> set rs" and "dr_action r = Modify"
  shows "ag_final_action a \<in> {Block, Modify}"
  using aggregate_action [OF assms(1)] final_action_upper [OF assms(2)] assms(3)
  by (cases "final_action_of rs") auto

lemma aggregate_total:
  "final_action_of rs \<noteq> Flag \<Longrightarrow> \<exists>a. aggregate rule rs pri idx = Inr a \<and> ag_final_action a = final_action_of rs"
  by (auto simp: aggregate_def Let_def split: option.splits)

lemma collect_modifications_append:
  "collect_modifications pri idx i (rs @ rs') =
     collect_modifications pri idx i rs @ collect_modifications pri idx (i + length rs) rs'"
  by (induction rs arbitrary: i) (auto simp: add.commute)

lemma collect_modifications_mem:
  "m \<in> set (collect_modifications pri idx i rs) \<longleftrightarrow>
     (\<exists>j < length rs. dr_action (rs ! j) = Modify
        \<and> dr_modified_content (rs ! j) = Some (mod_modified_content m)
        \<and> mod_detector_name m = dr_detector_name (rs ! j)
        \<and> mod_priority m = (case pri (dr_detector_name (rs ! j)) of Some p \<Rightarrow> p | None \<Rightarrow> 100)
        \<and> mod_message_index m = (if i + j < length idx then idx ! (i + j) else None))"
proof (induction rs arbitrary: i)
  case Nil
  then show ?case by simp
next
  case (Cons r rs)
  show ?case
    unfolding collect_modifications.simps set_append Un_iff Cons.IH
    by (subst ex_less_Suc_split) (auto split: option.splits)
qed

subsection \<open>The modifications, by the index of their result\<close>

definition modifying :: "detection_result \<Rightarrow> bool" where
  "modifying r \<longleftrightarrow> dr_action r = Modify \<and> dr_modified_content r \<noteq> None"

definition priority_of :: "(pystr \<rightharpoonup> int) \<Rightarrow> detection_result \<Rightarrow> int" where
  "priority_of priorities r = (case priorities (dr_detector_name r) of Some p \<Rightarrow> p | None \<Rightarrow> 100)"

text \<open>The lower number goes first, and of two equal ones the earlier result.\<close>

definition goes_before :: "(pystr \<rightharpoonup> int) \<Rightarrow> detection_result list \<Rightarrow> nat \<Rightarrow> nat \<Rightarrow> bool" where
  "goes_before priorities rs i j \<longleftrightarrow>
     priority_of priorities (rs ! i) < priority_of priorities (rs ! j)
     \<or> priority_of priorities (rs ! i) = priority_of priorities (rs ! j) \<and> i < j"

lemma insort_key_map: "insort_key k (f x) (map f ys) = map f (insort_key (\<lambda>x. k (f x)) x ys)"
  by (induction ys) auto

lemma sort_key_map: "sort_key k (map f xs) = map f (sort_key (\<lambda>x. k (f x)) xs)"
  by (induction xs) (simp_all add: insort_key_map)

lemma insort_key_before:
  fixes k :: "nat \<Rightarrow> int"
  assumes "sorted_wrt (\<lambda>i j. k i < k j \<or> k i = k j \<and> i < j) ys" and "\<forall>y \<in> set ys. x < y"
  shows "sorted_wrt (\<lambda>i j. k i < k j \<or> k i = k j \<and> i < j) (insort_key k x ys)"
  using assms by (induction ys) (fastforce simp: set_insort_key)+

lemma sort_key_before:
  fixes k :: "nat \<Rightarrow> int"
  shows "sorted_wrt (<) xs \<Longrightarrow> sorted_wrt (\<lambda>i j. k i < k j \<or> k i = k j \<and> i < j) (sort_key k xs)"
  by (induction xs) (simp_all add: insort_key_before)

lemma collect_modifications_indices:
  "collect_modifications pri idx i rs =
     map (\<lambda>j. \<lparr>mod_detector_name = dr_detector_name (rs ! j),
             mod_modified_content = the (dr_modified_content (rs ! j)),
             mod_priority = priority_of pri (rs ! j),
             mod_message_index = (if i + j < length idx then idx ! (i + j) else None)\<rparr>)
       (filter (\<lambda>j. modifying (rs ! j)) [0 ..< length rs])"
proof (induction rs arbitrary: i)
  case (Cons r rs)
  have "[0 ..< length (r # rs)] = 0 # map Suc [0 ..< length rs]"
    by (simp add: map_Suc_upt upt_conv_Cons del: upt_Suc)
  then show ?case
    by (simp add: Cons.IH filter_map comp_def modifying_def priority_of_def split: option.split)
qed simp

subsection \<open>The order of the results\<close>

lemma fold_max_set: "fold max xs (0::int) = Max (insert 0 (set xs))"
  by (metis Max.set_eq_fold list.simps(15))

lemma eval_comparison_cong:
  assumes "ctx_count c1 = ctx_count c2" and "ctx_max_risk_level c1 = ctx_max_risk_level c2"
    and "set (ctx_categories c1) = set (ctx_categories c2)"
  shows "eval_comparison c c1 = eval_comparison c c2"
proof (cases c)
  case (Compare v oper x)
  with assms show ?thesis by (cases v) simp_all
qed (simp add: assms)

lemma eval_rule_cong:
  assumes "ctx_count c1 = ctx_count c2" and "ctx_max_risk_level c1 = ctx_max_risk_level c2"
    and "set (ctx_categories c1) = set (ctx_categories c2)"
  shows "eval_rule r c1 = eval_rule r c2"
proof -
  have "eval_rest b cs c1 = eval_rest b cs c2" for b cs
  proof (induction cs arbitrary: b)
    case (Cons a cs)
    obtain l c where "a = (l, c)" by (cases a)
    then show ?case by (simp add: Cons.IH eval_comparison_cong [OF assms])
  qed simp
  then show ?thesis by (simp add: eval_rule_def eval_comparison_cong [OF assms])
qed

lemma evaluate_rule_perm:
  assumes "mset fs = mset fs'"
  shows "evaluate_rule r fs = evaluate_rule r fs'"
proof -
  have "length fs = length fs'" "set fs = set fs'"
    using assms by (metis size_mset, metis set_mset_mset)
  then show ?thesis
    unfolding evaluate_rule_def rule_context_def fold_max_set
    by (intro eval_rule_cong) (simp_all add: set_map)
qed

subsection \<open>Properties\<close>

text \<open>Raising a detector's confidence never weakens its action, and lowering a threshold never
  does: the action of the threshold engine is monotone in the confidence and antitone in both
  thresholds.\<close>

theorem decide_monotone:
  assumes "c \<le> c'" and "b' \<le> b" and "f' \<le> f"
  shows "action_precedence (decide c b f) \<le> action_precedence (decide c' b' f')"
  using assms by (auto simp: decide_def)

theorem decide_monotone_witness:
  "action_precedence (decide (1/2) (9/10) (4/10)) \<le> action_precedence (decide (3/4) (7/10) (4/10))"
  by (rule decide_monotone) simp_all

text \<open>C36. What an aggregation that returns is made of: a block exactly when some detector blocked
  or the flags were escalated, an allow exactly when every detector allowed, and a risk level that no
  result exceeds and that is some result's own (low, where there is none). Its modifications are one for every result
  that modifies and has a content, with that result's detector, content, priority and message index, the
  lowest priority first and in the order of the results within one priority.\<close>

theorem aggregate_correct:
  assumes "aggregate rule rs pri idx = Inr a"
  shows "(ag_final_action a = Block \<longleftrightarrow>
            (\<exists>r \<in> set rs. dr_action r = Block)
            \<or> (final_action_of rs = Flag
               \<and> (\<exists>r. rule = Some r
                    \<and> evaluate_rule r (filter (\<lambda>r. dr_action r = Flag) rs) = Inr True)))
    \<and> (ag_final_action a = Allow \<longleftrightarrow> (\<forall>r \<in> set rs. dr_action r = Allow))
    \<and> (\<forall>r \<in> set rs. risk_level_order (dr_risk_level r) \<le> risk_level_order (ag_overall_risk_level a))
    \<and> (if rs = [] then ag_overall_risk_level a = Low else \<exists>r \<in> set rs. dr_risk_level r = ag_overall_risk_level a)
    \<and> (\<exists>js. set js = {j. j < length rs \<and> modifying (rs ! j)} \<and> sorted_wrt (goes_before pri rs) js
        \<and> ag_modifications a =
            map (\<lambda>j. \<lparr>mod_detector_name = dr_detector_name (rs ! j),
                    mod_modified_content = the (dr_modified_content (rs ! j)),
                    mod_priority = priority_of pri (rs ! j),
                    mod_message_index = (if j < length idx then idx ! j else None)\<rparr>) js)"
proof (intro conjI)
  show "ag_final_action a = Block \<longleftrightarrow>
      (\<exists>r \<in> set rs. dr_action r = Block)
      \<or> (final_action_of rs = Flag
         \<and> (\<exists>r. rule = Some r \<and> evaluate_rule r (filter (\<lambda>r. dr_action r = Flag) rs) = Inr True))"
    using assms(1)
    by (auto simp: aggregate_def Let_def res_simps final_action_Block [symmetric]
        split: option.splits if_splits)
  show "ag_final_action a = Allow \<longleftrightarrow> (\<forall>r \<in> set rs. dr_action r = Allow)"
    using aggregate_action [OF assms(1)] final_action_Allow [of rs] by auto
  show "\<forall>r \<in> set rs. risk_level_order (dr_risk_level r) \<le> risk_level_order (ag_overall_risk_level a)"
    using aggregate_Inr [OF assms(1)] risk.upper [of _ "map dr_risk_level rs"]
    by (simp add: overall_risk_of_def)
  show "if rs = [] then ag_overall_risk_level a = Low else \<exists>r \<in> set rs. dr_risk_level r = ag_overall_risk_level a"
    using aggregate_Inr [OF assms(1)] overall_risk_attained [of rs] by (simp add: overall_risk_of_def)
  let ?idx = "if idx = [] then replicate (length rs) None else idx"
  let ?f = "\<lambda>j. \<lparr>mod_detector_name = dr_detector_name (rs ! j), mod_modified_content = the (dr_modified_content (rs ! j)),
      mod_priority = priority_of pri (rs ! j), mod_message_index = (if j < length idx then idx ! j else None)\<rparr>"
  let ?ks = "filter (\<lambda>j. modifying (rs ! j)) [0 ..< length rs]"
  let ?js = "sort_key (\<lambda>j. priority_of pri (rs ! j)) ?ks"
  have "collect_modifications pri ?idx 0 rs = map ?f ?ks"
    unfolding collect_modifications_indices by (intro map_cong) auto
  then have "ag_modifications a = map ?f ?js"
    using aggregate_Inr [OF assms(1)] by (simp add: sort_key_map comp_def)
  moreover have "set ?js = {j. j < length rs \<and> modifying (rs ! j)}" by auto
  moreover have "sorted_wrt (goes_before pri rs) ?js"
    unfolding goes_before_def by (rule sort_key_before) (simp add: sorted_wrt_filter)
  ultimately show "\<exists>js. set js = {j. j < length rs \<and> modifying (rs ! j)} \<and> sorted_wrt (goes_before pri rs) js
      \<and> ag_modifications a = map ?f js" by blast
qed

theorem aggregate_correct_witness:
  "\<exists>a. aggregate (Some \<lparr>rule_first = Compare Count Ge (VInt 1), rule_rest = []\<rparr>)
        [sample_result ''pii'' Flag High] Map.empty [None] = Inr a
     \<and> ag_final_action a = Block"
proof -
  let ?r = "sample_result ''pii'' Flag High"
  let ?e = "\<lparr>rule_first = Compare Count Ge (VInt 1), rule_rest = []\<rparr>"
  have f: "final_action_of [?r] = Flag" by (simp add: final_action_of_def sample_result_def)
  have e: "evaluate_rule ?e (filter (\<lambda>r. dr_action r = Flag) [?r]) = Inr True"
    by (simp add: evaluate_rule_def eval_rule_def rule_context_def sample_result_def)
  from f e obtain a where a: "aggregate (Some ?e) [?r] Map.empty [None] = Inr a"
    by (simp add: aggregate_def Let_def)
  from aggregate_correct [OF a] f e a show ?thesis by blast
qed

text \<open>The decision does not depend on the order in which detectors completed: permuting the
  results changes neither the final action (escalation included) nor the overall risk level, and
  an aggregation that raises raises for every order.\<close>

theorem aggregate_order_free:
  assumes "mset rs = mset rs'"
  shows "map_sum id (\<lambda>a. (ag_final_action a, ag_overall_risk_level a)) (aggregate rule rs pri idx)
       = map_sum id (\<lambda>a. (ag_final_action a, ag_overall_risk_level a)) (aggregate rule rs' pri idx')"
proof -
  have s: "set rs = set rs'" using assms by (metis set_mset_mset)
  then have "final_action_of rs = final_action_of rs'" "overall_risk_of rs = overall_risk_of rs'"
    unfolding final_action_of_def overall_risk_of_def
    by (intro act.order_free risk.order_free; simp)+
  moreover have "evaluate_rule r (filter (\<lambda>r. dr_action r = Flag) rs)
      = evaluate_rule r (filter (\<lambda>r. dr_action r = Flag) rs')" for r
    using assms by (intro evaluate_rule_perm) (simp add: mset_filter)
  moreover have "map_sum id g (bind_res x f) = bind_res x (\<lambda>y. map_sum id g (f y))"
    for x :: "rule_error + action" and f :: "action \<Rightarrow> rule_error + aggregated_result"
      and g :: "aggregated_result \<Rightarrow> action \<times> risk_level"
    by (cases x) auto
  ultimately show ?thesis
    by (simp add: aggregate_def Let_def split: option.split)
qed

theorem aggregate_order_free_witness:
  "map_sum id (\<lambda>a. (ag_final_action a, ag_overall_risk_level a))
     (aggregate None [sample_result ''pii'' Flag High, sample_result ''toxicity'' Block Low] Map.empty []) =
   map_sum id (\<lambda>a. (ag_final_action a, ag_overall_risk_level a))
     (aggregate None [sample_result ''toxicity'' Block Low, sample_result ''pii'' Flag High] Map.empty [])"
  by (rule aggregate_order_free) simp

end
