(* ===== verification/Flow_Policy.thy ===== *)
theory Flow_Policy
  imports Prelude
begin

text \<open>
  \<open>flow/policy.py\<close>: the failure policy of a Flow node. Policies are resolved once, at start-up,
  from a possibly partial configuration and the documented defaults; \<open>resolve_node_policy\<close>
  rejects contradictory choices and \<open>evaluate_failure\<close> selects the action for one failure class.
  The bounds pydantic checks (\<open>Field(gt=0, le=120)\<close> and the validator of the stop signals) are
  the \<open>valid\<close> predicates.
\<close>

datatype fallback_policy = Fail_open | Fail_closed

fun fallback_str :: "fallback_policy \<Rightarrow> pystr" where
  "fallback_str Fail_open = ''fail_open''"
| "fallback_str Fail_closed = ''fail_closed''"

lemma fallback_str_closed [simp]: "fallback_str a = ''fail_closed'' \<longleftrightarrow> a = Fail_closed"
  by (cases a) auto

datatype policy_source = EXPLICIT | LEGACY | LEGACY_DEFAULT | DEFAULT

datatype failure_kind = ERROR | TIMEOUT | UNAVAILABLE | CIRCUIT_OPEN

record timeout_policy =
  tp_seconds :: pyfloat
  tp_action :: fallback_policy

record availability_policy =
  ap_required :: bool
  ap_on_unavailable :: fallback_policy
  ap_on_circuit_open :: fallback_policy

record degradation_policy =
  gp_allowed :: bool
  gp_emit_evidence :: bool
  gp_emit_metrics :: bool

definition valid_timeout :: "timeout_policy \<Rightarrow> bool" where
  "valid_timeout t \<longleftrightarrow> 0 < tp_seconds t \<and> tp_seconds t \<le> 120"

definition valid_stop_signals :: "pystr list \<Rightarrow> bool" where
  "valid_stop_signals values \<longleftrightarrow>
     1 \<le> length values \<and> length values \<le> 32
     \<and> list_all (\<lambda>v. py_strip v \<noteq> [] \<and> length v \<le> 128) values
     \<and> distinct values"

text \<open>\<open>FailurePolicyConfig\<close> and \<open>StopPolicyConfig\<close> have one field, and are that field.\<close>

record node_policy_config =
  npc_timeout :: "timeout_policy option"
  npc_failure :: "fallback_policy option"
  npc_availability :: "availability_policy option"
  npc_degradation :: "degradation_policy option"
  npc_stop :: "pystr list option"

record policy_defaults =
  pd_timeout :: timeout_policy
  pd_failure :: fallback_policy
  pd_availability :: availability_policy
  pd_degradation :: degradation_policy
  pd_stop :: "pystr list"

definition default_availability :: availability_policy where
  "default_availability =
     \<lparr>ap_required = False, ap_on_unavailable = Fail_open, ap_on_circuit_open = Fail_open\<rparr>"

definition default_degradation :: degradation_policy where
  "default_degradation = \<lparr>gp_allowed = True, gp_emit_evidence = True, gp_emit_metrics = True\<rparr>"

definition policy_defaults :: policy_defaults where
  "policy_defaults =
     \<lparr>pd_timeout = \<lparr>tp_seconds = 30, tp_action = Fail_open\<rparr>, pd_failure = Fail_open,
      pd_availability = default_availability, pd_degradation = default_degradation,
      pd_stop = [''safety.block'']\<rparr>"

record policy_sources =
  ps_timeout :: policy_source
  ps_failure :: policy_source
  ps_availability :: policy_source
  ps_degradation :: policy_source
  ps_stop :: policy_source

record node_policy =
  np_timeout :: timeout_policy
  np_failure :: fallback_policy
  np_availability :: availability_policy
  np_degradation :: degradation_policy
  np_stop :: "pystr list"
  np_sources :: policy_sources

record policy_decision =
  pdn_failure_kind :: failure_kind
  pdn_action :: fallback_policy
  pdn_reason_code :: pystr
  pdn_degraded :: bool
  pdn_stop_requested :: bool
  pdn_invocation_allowed :: bool

record policy_conflict =
  pc_flow_id :: "pystr option"
  pc_node_id :: "pystr option"

definition resolved_source :: "'a option \<Rightarrow> policy_source \<Rightarrow> policy_source" where
  "resolved_source value source =
     (if value \<noteq> None then source
      else if source = LEGACY then LEGACY_DEFAULT
      else DEFAULT)"

definition or_default :: "'a option \<Rightarrow> 'a \<Rightarrow> 'a" where
  "or_default v d = (case v of Some x \<Rightarrow> x | None \<Rightarrow> d)"

definition resolve_node_policy ::
  "node_policy_config \<Rightarrow> policy_defaults \<Rightarrow> policy_source \<Rightarrow> pystr option \<Rightarrow> pystr option
     \<Rightarrow> policy_conflict + node_policy" where
  "resolve_node_policy config defaults source flow_id node_id =
     (let timeout = or_default (npc_timeout config) (pd_timeout defaults);
          failure = or_default (npc_failure config) (pd_failure defaults);
          availability = or_default (npc_availability config) (pd_availability defaults);
          degradation = or_default (npc_degradation config) (pd_degradation defaults);
          stop = or_default (npc_stop config) (pd_stop defaults);
          fallback_actions = [tp_action timeout, failure, ap_on_unavailable availability,
                              ap_on_circuit_open availability];
          required_fail_open = (ap_required availability
            \<and> (ap_on_unavailable availability = Fail_open \<or> ap_on_circuit_open availability = Fail_open));
          hidden_degradation = (\<not> gp_emit_evidence degradation);
          forbidden_fail_open = (\<not> gp_allowed degradation \<and> Fail_open \<in> set fallback_actions)
      in if required_fail_open \<or> hidden_degradation \<or> forbidden_fail_open
         then Inl \<lparr>pc_flow_id = flow_id, pc_node_id = node_id\<rparr>
         else Inr \<lparr>np_timeout = timeout, np_failure = failure, np_availability = availability,
                   np_degradation = degradation, np_stop = stop,
                   np_sources =
                     \<lparr>ps_timeout = resolved_source (npc_timeout config) source,
                      ps_failure = resolved_source (npc_failure config) source,
                      ps_availability = resolved_source (npc_availability config) source,
                      ps_degradation = resolved_source (npc_degradation config) source,
                      ps_stop = resolved_source (npc_stop config) source\<rparr>\<rparr>)"

fun failure_reasons :: "failure_kind \<Rightarrow> pystr" where
  "failure_reasons ERROR = ''capability_error''"
| "failure_reasons TIMEOUT = ''node_timeout''"
| "failure_reasons UNAVAILABLE = ''capability_unavailable''"
| "failure_reasons CIRCUIT_OPEN = ''circuit_open''"

definition failure_action :: "node_policy \<Rightarrow> failure_kind \<Rightarrow> fallback_policy" where
  "failure_action policy kind =
     (if kind = ERROR then np_failure policy
      else if kind = TIMEOUT then tp_action (np_timeout policy)
      else if kind = UNAVAILABLE then ap_on_unavailable (np_availability policy)
      else ap_on_circuit_open (np_availability policy))"

definition evaluate_failure :: "node_policy \<Rightarrow> failure_kind \<Rightarrow> policy_decision" where
  "evaluate_failure policy kind =
     (let action = failure_action policy kind in
      \<lparr>pdn_failure_kind = kind, pdn_action = action, pdn_reason_code = failure_reasons kind,
       pdn_degraded = True, pdn_stop_requested = (action = Fail_closed),
       pdn_invocation_allowed = (kind \<notin> {UNAVAILABLE, CIRCUIT_OPEN})\<rparr>)"

definition effective_timeout_seconds :: "node_policy \<Rightarrow> pyfloat \<Rightarrow> pyfloat" where
  "effective_timeout_seconds policy flow_remaining_seconds =
     max 0 (min (tp_seconds (np_timeout policy)) flow_remaining_seconds)"

record 'r deadline_settlement =
  ds_completed :: "(pystr \<times> 'r) list"
  ds_pending :: "(pystr \<times> policy_decision) list"
  ds_flow_status :: pystr
  ds_ready_for_reducer :: bool

definition settle_flow_deadline ::
  "(pystr \<times> 'r) list \<Rightarrow> (pystr \<times> node_policy) list \<Rightarrow> 'r deadline_settlement" where
  "settle_flow_deadline completed pending =
     \<lparr>ds_completed = completed,
      ds_pending = map (\<lambda>(node_id, policy). (node_id, evaluate_failure policy TIMEOUT)) pending,
      ds_flow_status = ''timed_out'', ds_ready_for_reducer = True\<rparr>"

lemma evaluate_failure_simps [simp]:
  "pdn_stop_requested (evaluate_failure p k) \<longleftrightarrow> failure_action p k = Fail_closed"
  "pdn_reason_code (evaluate_failure p k) = failure_reasons k"
  "pdn_degraded (evaluate_failure p k)"
  by (simp_all add: evaluate_failure_def Let_def)

text \<open>What a resolved policy is known to satisfy.\<close>

definition policy_ok :: "node_policy \<Rightarrow> bool" where
  "policy_ok p \<longleftrightarrow>
     gp_emit_evidence (np_degradation p)
     \<and> (ap_required (np_availability p) \<longrightarrow>
          failure_action p UNAVAILABLE = Fail_closed \<and> failure_action p CIRCUIT_OPEN = Fail_closed)
     \<and> (\<not> gp_allowed (np_degradation p) \<longrightarrow> (\<forall>k. failure_action p k = Fail_closed))"

lemma not_open [simp]:
  "a \<noteq> Fail_open \<longleftrightarrow> a = Fail_closed" "Fail_open \<noteq> a \<longleftrightarrow> a = Fail_closed"
  by (cases a; simp)+

lemma resolve_node_policy_ok: "resolve_node_policy c d s f n = Inr p \<Longrightarrow> policy_ok p"
  by (auto simp: resolve_node_policy_def Let_def policy_ok_def failure_action_def split: if_splits)

subsection \<open>Properties\<close>

text \<open>Resolution rejects exactly the contradictory policies: it succeeds when evidence is
  emitted, a required capability is fail-closed on unavailability and on an open circuit, and a
  node that may not degrade is fail-closed for every failure class; a policy it returns has each
  dimension from the configuration where it is given, and from the defaults where it is not.\<close>

theorem resolve_node_policy_iff:
  "let t = or_default (npc_timeout c) (pd_timeout d);
       f = or_default (npc_failure c) (pd_failure d);
       a = or_default (npc_availability c) (pd_availability d);
       g = or_default (npc_degradation c) (pd_degradation d)
   in (\<exists>p. resolve_node_policy c d s fid nid = Inr p
         \<and> np_timeout p = t \<and> np_failure p = f \<and> np_availability p = a \<and> np_degradation p = g
         \<and> np_stop p = or_default (npc_stop c) (pd_stop d))
      \<longleftrightarrow> gp_emit_evidence g
        \<and> (ap_required a \<longrightarrow> ap_on_unavailable a = Fail_closed \<and> ap_on_circuit_open a = Fail_closed)
        \<and> (\<not> gp_allowed g \<longrightarrow> tp_action t = Fail_closed \<and> f = Fail_closed
             \<and> ap_on_unavailable a = Fail_closed \<and> ap_on_circuit_open a = Fail_closed)"
  unfolding resolve_node_policy_def Let_def by auto

definition required_node_config :: node_policy_config where
  "required_node_config =
     \<lparr>npc_timeout = None, npc_failure = None,
      npc_availability = Some \<lparr>ap_required = True, ap_on_unavailable = Fail_closed,
                               ap_on_circuit_open = Fail_closed\<rparr>,
      npc_degradation = None, npc_stop = None\<rparr>"

theorem resolve_node_policy_iff_witness:
  "\<exists>p. resolve_node_policy required_node_config policy_defaults EXPLICIT None None = Inr p
     \<and> np_failure p = Fail_open"
  using resolve_node_policy_iff [of required_node_config policy_defaults EXPLICIT None None]
  by (auto simp: Let_def or_default_def required_node_config_def policy_defaults_def
      default_degradation_def)

text \<open>Failures of a node resolved as not degradable, or as required, are never hidden: every
  failure class of a node that may not degrade, and unavailability and an open circuit of a
  required one, ask the Flow to stop; a failed call is always marked degraded, and a call that
  could not be made is not marked as allowed.\<close>

theorem resolved_failures_stop:
  assumes "resolve_node_policy c d s fid nid = Inr p"
  shows "(\<not> gp_allowed (np_degradation p) \<longrightarrow> pdn_stop_requested (evaluate_failure p k))
    \<and> (ap_required (np_availability p) \<and> k \<in> {UNAVAILABLE, CIRCUIT_OPEN} \<longrightarrow>
         pdn_stop_requested (evaluate_failure p k) \<and> \<not> pdn_invocation_allowed (evaluate_failure p k))
    \<and> pdn_degraded (evaluate_failure p k)
    \<and> gp_emit_evidence (np_degradation p)"
  using resolve_node_policy_ok [OF assms]
  by (auto simp: policy_ok_def) (auto simp: evaluate_failure_def)

theorem resolved_failures_stop_witness:
  "\<exists>p. resolve_node_policy required_node_config policy_defaults EXPLICIT None None = Inr p
     \<and> pdn_stop_requested (evaluate_failure p CIRCUIT_OPEN)"
proof -
  obtain p where p: "resolve_node_policy required_node_config policy_defaults EXPLICIT None None = Inr p"
    and r: "ap_required (np_availability p)"
    by (simp add: resolve_node_policy_def or_default_def policy_defaults_def default_degradation_def
        required_node_config_def Let_def)
  from resolved_failures_stop [OF p, of CIRCUIT_OPEN] p r show ?thesis by blast
qed

end
