(* ===== verification/Flow_Contracts.thy ===== *)
theory Flow_Contracts
  imports Models
begin

text \<open>
  \<open>flow/contracts.py\<close>: the versioned contracts of Flows, nodes and capabilities, and the
  registry that validates a set of them. The policy and metadata dictionaries the contracts
  carry are left out, but for the detection context the pipeline stores in an item's metadata.

  The lemmas: a registry that could be built has unique identities, every reference resolves
  with matching schemas, no chain of nested Flows repeats a Flow or exceeds the depth limit, and
  the number of expanded nodes is within its limit. The recursion of \<open>_walk_flow\<close> ends because
  it stops beyond \<open>max_depth\<close>.
\<close>

subsection \<open>Identifiers and versions\<close>

definition is_alnum :: "char \<Rightarrow> bool" where
  "is_alnum c \<longleftrightarrow> is_alpha c \<or> is_digit c"

definition contract_id_char :: "char \<Rightarrow> bool" where
  "contract_id_char c \<longleftrightarrow> is_alnum c \<or> c \<in> set ''._:-''"

definition valid_contract_id :: "pystr \<Rightarrow> bool" where
  "valid_contract_id value \<longleftrightarrow>
     (case value of [] \<Rightarrow> False
      | c # cs \<Rightarrow> is_alnum c \<and> list_all contract_id_char cs \<and> length cs \<le> 127)"

definition validate_non_empty_bounded :: "pystr \<Rightarrow> unit + pystr" where
  "validate_non_empty_bounded value =
     (let normalized = py_strip value in
      if normalized = [] \<or> length normalized > 256 then Inl () else Inr normalized)"

definition semver_number :: "pystr \<Rightarrow> bool" where
  "semver_number s \<longleftrightarrow> s = ''0'' \<or> (s \<noteq> [] \<and> list_all is_digit s \<and> hd s \<noteq> CHR ''0'')"

definition semver_idents :: "pystr \<Rightarrow> bool" where
  "semver_idents s \<longleftrightarrow>
     list_all (\<lambda>w. w \<noteq> [] \<and> list_all (\<lambda>c. is_alnum c \<or> c = CHR ''-'') w) (split_on CHR ''.'' s)"

definition valid_semver :: "pystr \<Rightarrow> bool" where
  "valid_semver s \<longleftrightarrow>
     (let core = takeWhile (\<lambda>c. c \<noteq> CHR ''-'' \<and> c \<noteq> CHR ''+'') s;
          rest = dropWhile (\<lambda>c. c \<noteq> CHR ''-'' \<and> c \<noteq> CHR ''+'') s;
          numbers = split_on CHR ''.'' core
      in length numbers = 3 \<and> list_all semver_number numbers
         \<and> (case rest of [] \<Rightarrow> True
            | c # r \<Rightarrow>
                if c = CHR ''+'' then semver_idents r
                else semver_idents (takeWhile (\<lambda>c. c \<noteq> CHR ''+'') r)
                     \<and> (case dropWhile (\<lambda>c. c \<noteq> CHR ''+'') r of [] \<Rightarrow> True
                        | p # b \<Rightarrow> semver_idents b)))"

definition supported_contract_versions :: "pystr list" where
  "supported_contract_versions = [''1.0'']"

subsection \<open>Contracts\<close>

record capability_descriptor =
  cd_contract_version :: pystr
  cd_capability_id :: pystr
  cd_implementation_version :: pystr
  cd_input_schema :: pystr
  cd_output_schema :: pystr
  cd_name :: "pystr option"
  cd_category :: "pystr option"

record capability_node =
  cn_node_id :: pystr
  cn_capability_id :: pystr
  cn_input_schema :: pystr
  cn_output_schema :: pystr
  cn_priority :: int

record flow_node =
  fn_node_id :: pystr
  fn_flow_id :: pystr
  fn_flow_version :: pystr
  fn_input_schema :: pystr
  fn_output_schema :: pystr
  fn_priority :: int

datatype node = Capability_node capability_node | Flow_node flow_node

fun node_id :: "node \<Rightarrow> pystr" where
  "node_id (Capability_node n) = cn_node_id n"
| "node_id (Flow_node n) = fn_node_id n"

fun node_input_schema :: "node \<Rightarrow> pystr" where
  "node_input_schema (Capability_node n) = cn_input_schema n"
| "node_input_schema (Flow_node n) = fn_input_schema n"

fun node_output_schema :: "node \<Rightarrow> pystr" where
  "node_output_schema (Capability_node n) = cn_output_schema n"
| "node_output_schema (Flow_node n) = fn_output_schema n"

record flow_definition =
  fd_contract_version :: pystr
  fd_flow_id :: pystr
  fd_version :: pystr
  fd_input_schema :: pystr
  fd_output_schema :: pystr
  fd_nodes :: "node list"
  fd_reducer_capability_id :: "pystr option"

text \<open>\<open>FlowContractError\<close>, and the validation errors of the contract models.\<close>

datatype contract_error =
    Flow_contract_error (ce_code: pystr) (ce_flow_id: "pystr option") (ce_node_id: "pystr option")
  | Incompatible_contract_version pystr
  | Invalid_semver
  | Duplicate_node_id pystr
  | Invalid_non_empty_value

text \<open>The validators of a \<open>FlowDefinition\<close>, in the order pydantic runs them.\<close>

definition validate_flow_definition :: "flow_definition \<Rightarrow> contract_error + flow_definition" where
  "validate_flow_definition flow =
     (if \<not> valid_semver (fd_version flow) then Inl Invalid_semver
      else if fd_contract_version flow \<notin> set supported_contract_versions
      then Inl (Incompatible_contract_version (fd_flow_id flow))
      else if length (map node_id (fd_nodes flow)) \<noteq> length (remdups (map node_id (fd_nodes flow)))
      then Inl (Duplicate_node_id (fd_flow_id flow))
      else Inr flow)"

record flow_item =
  fi_item_id :: pystr
  fi_content :: pystr
  fi_detection_context :: "detection_context option"

record flow_context =
  fc_request_id :: pystr
  fc_correlation_id :: pystr
  fc_direction :: direction
  fc_stage :: pystr
  fc_parent_execution_id :: "pystr option"

record flow_input =
  fin_items :: "flow_item list"
  fin_context :: flow_context

record flow_evidence_envelope =
  fe_request_id :: pystr
  fe_correlation_id :: pystr
  fe_direction :: direction
  fe_stage :: pystr
  fe_parent_execution_id :: "pystr option"
  fe_item_count :: nat

definition for_child :: "pystr \<Rightarrow> pystr \<Rightarrow> flow_input \<Rightarrow> flow_input" where
  "for_child parent_execution_id stage i =
     i\<lparr>fin_context := (fin_context i)\<lparr>fc_parent_execution_id := Some parent_execution_id, fc_stage := stage\<rparr>\<rparr>"

definition evidence_envelope :: "flow_input \<Rightarrow> flow_evidence_envelope" where
  "evidence_envelope i =
     (let c = fin_context i in
      \<lparr>fe_request_id = fc_request_id c, fe_correlation_id = fc_correlation_id c,
       fe_direction = fc_direction c, fe_stage = fc_stage c,
       fe_parent_execution_id = fc_parent_execution_id c,
       fe_item_count = length (fin_items i)\<rparr>)"

subsection \<open>Registry\<close>

type_synonym flow_key = "pystr \<times> pystr"

record registry =
  rg_capabilities :: "(pystr \<times> capability_descriptor) list"
  rg_flows :: "(flow_key \<times> flow_definition) list"
  rg_max_depth :: int
  rg_max_nodes :: int

definition flow_key :: "flow_definition \<Rightarrow> flow_key" where
  "flow_key flow = (fd_flow_id flow, fd_version flow)"

definition index_capabilities ::
  "capability_descriptor list \<Rightarrow> contract_error + (pystr \<times> capability_descriptor) list" where
  "index_capabilities capabilities =
     fold_res (\<lambda>capability indexed.
       if map_of indexed (cd_capability_id capability) \<noteq> None
       then Inl (Flow_contract_error ''duplicate_capability_id'' None None)
       else Inr (AList.update (cd_capability_id capability) capability indexed)) capabilities []"

definition index_flows ::
  "flow_definition list \<Rightarrow> contract_error + (flow_key \<times> flow_definition) list" where
  "index_flows flows =
     fold_res (\<lambda>flow indexed.
       if map_of indexed (flow_key flow) \<noteq> None
       then Inl (Flow_contract_error ''duplicate_flow_version'' (Some (fd_flow_id flow)) None)
       else Inr (AList.update (flow_key flow) flow indexed)) flows []"

definition resolve_capability :: "registry \<Rightarrow> capability_node \<Rightarrow> contract_error + capability_descriptor" where
  "resolve_capability rg n =
     (case map_of (rg_capabilities rg) (cn_capability_id n) of
        Some c \<Rightarrow> Inr c
      | None \<Rightarrow> Inl (Flow_contract_error ''capability_reference_not_found'' None (Some (cn_node_id n))))"

definition resolve_flow :: "registry \<Rightarrow> flow_node \<Rightarrow> contract_error + flow_definition" where
  "resolve_flow rg n =
     (case map_of (rg_flows rg) (fn_flow_id n, fn_flow_version n) of
        Some f \<Rightarrow> Inr f
      | None \<Rightarrow> Inl (Flow_contract_error ''flow_reference_not_found'' (Some (fn_flow_id n)) (Some (fn_node_id n))))"

definition get_flow :: "registry \<Rightarrow> pystr \<Rightarrow> pystr \<Rightarrow> contract_error + flow_definition" where
  "get_flow rg flow_id version =
     (case map_of (rg_flows rg) (flow_id, version) of
        Some f \<Rightarrow> Inr f
      | None \<Rightarrow> Inl (Flow_contract_error ''flow_reference_not_found'' (Some flow_id) None))"

definition validate_binding :: "registry \<Rightarrow> flow_definition \<Rightarrow> node \<Rightarrow> contract_error + unit" where
  "validate_binding rg flow n =
     bind_res
       (case n of
          Capability_node c \<Rightarrow>
            bind_res (resolve_capability rg c) (\<lambda>t. Inr (cd_input_schema t, cd_output_schema t))
        | Flow_node f \<Rightarrow>
            bind_res (resolve_flow rg f) (\<lambda>t. Inr (fd_input_schema t, fd_output_schema t)))
       (\<lambda>(target_input_schema, target_output_schema).
          if node_input_schema n \<noteq> target_input_schema \<or> node_output_schema n \<noteq> target_output_schema
          then Inl (Flow_contract_error
                 (case n of Capability_node c \<Rightarrow> ''capability_schema_mismatch''
                  | Flow_node f \<Rightarrow> ''flow_schema_mismatch'')
                 (Some (fd_flow_id flow)) (Some (node_id n)))
          else Inr ())"

definition validate_bindings :: "registry \<Rightarrow> contract_error + unit" where
  "validate_bindings rg =
     fold_res (\<lambda>flow _. fold_res (\<lambda>n _. validate_binding rg flow n) (fd_nodes flow) ())
       (map snd (rg_flows rg)) ()"

function walk_flow ::
  "registry \<Rightarrow> flow_definition \<Rightarrow> int \<Rightarrow> flow_key list \<Rightarrow> int \<Rightarrow> contract_error + int" where
  "walk_flow rg flow depth active expanded_nodes =
     (if flow_key flow \<in> set active
      then Inl (Flow_contract_error ''flow_cycle'' (Some (fd_flow_id flow)) None)
      else if depth > rg_max_depth rg
      then Inl (Flow_contract_error ''flow_depth_exceeded'' (Some (fd_flow_id flow)) None)
      else
        let total = expanded_nodes + int (length (fd_nodes flow)) in
        if total > rg_max_nodes rg
        then Inl (Flow_contract_error ''flow_node_limit_exceeded'' (Some (fd_flow_id flow)) None)
        else fold_res (\<lambda>n total.
               case n of
                 Capability_node c \<Rightarrow> Inr total
               | Flow_node f \<Rightarrow>
                   (case resolve_flow rg f of Inl e \<Rightarrow> Inl e
                    | Inr g \<Rightarrow> walk_flow rg g (depth + 1) (active @ [flow_key flow]) total))
             (fd_nodes flow) total)"
  by pat_completeness auto
termination
  by (relation "measure (\<lambda>(rg, flow, depth, active, expanded). nat (rg_max_depth rg + 1 - depth))") auto

declare walk_flow.simps [simp del]

definition validate_graphs :: "registry \<Rightarrow> contract_error + unit" where
  "validate_graphs rg =
     fold_res (\<lambda>flow _. bind_res (walk_flow rg flow 1 [] 0) (\<lambda>_. Inr ())) (map snd (rg_flows rg)) ()"

definition flow_contract_registry ::
  "capability_descriptor list \<Rightarrow> flow_definition list \<Rightarrow> int \<Rightarrow> int \<Rightarrow> contract_error + registry" where
  "flow_contract_registry capabilities flows max_depth max_nodes =
     bind_res (index_capabilities capabilities) (\<lambda>caps.
     bind_res (index_flows flows) (\<lambda>indexed.
       let rg = \<lparr>rg_capabilities = caps, rg_flows = indexed, rg_max_depth = max_depth, rg_max_nodes = max_nodes\<rparr>
       in bind_res (validate_bindings rg) (\<lambda>_.
          bind_res (validate_graphs rg) (\<lambda>_. Inr rg))))"

subsection \<open>What a built registry guarantees\<close>

lemma index_flows_Inr:
  "index_flows flows = Inr idx \<Longrightarrow> idx = map (\<lambda>f. (flow_key f, f)) flows \<and> distinct (map flow_key flows)"
  unfolding index_flows_def by (drule fold_res_index) (auto simp: comp_def)

lemma index_capabilities_Inr:
  "index_capabilities caps = Inr idx \<Longrightarrow>
     idx = map (\<lambda>c. (cd_capability_id c, c)) caps \<and> distinct (map cd_capability_id caps)"
  unfolding index_capabilities_def by (drule fold_res_index) (auto simp: comp_def)

lemma registry_parts:
  assumes "flow_contract_registry caps flows max_depth max_nodes = Inr rg"
  shows "rg_flows rg = map (\<lambda>f. (flow_key f, f)) flows" and "distinct (map flow_key flows)"
    and "rg_capabilities rg = map (\<lambda>c. (cd_capability_id c, c)) caps"
    and "distinct (map cd_capability_id caps)"
    and "rg_max_depth rg = max_depth" and "rg_max_nodes rg = max_nodes"
    and "validate_bindings rg = Inr ()" and "validate_graphs rg = Inr ()"
  using assms by (auto simp: flow_contract_registry_def res_simps Let_def
      dest: index_flows_Inr index_capabilities_Inr)

lemma registry_resolve_capability:
  assumes "flow_contract_registry caps flows max_depth max_nodes = Inr rg"
  shows "resolve_capability rg c = Inr t \<longleftrightarrow> t \<in> set caps \<and> cd_capability_id t = cn_capability_id c"
proof -
  have "resolve_capability rg c = Inr t \<longleftrightarrow> map_of (rg_capabilities rg) (cn_capability_id c) = Some t"
    by (auto simp: resolve_capability_def split: option.splits)
  then show ?thesis
    using map_of_index [OF registry_parts(4) [OF assms]] registry_parts(3) [OF assms] by simp
qed

lemma registry_resolve_flow:
  assumes "flow_contract_registry caps flows max_depth max_nodes = Inr rg"
  shows "resolve_flow rg m = Inr t \<longleftrightarrow> t \<in> set flows \<and> flow_key t = (fn_flow_id m, fn_flow_version m)"
proof -
  have "resolve_flow rg m = Inr t \<longleftrightarrow> map_of (rg_flows rg) (fn_flow_id m, fn_flow_version m) = Some t"
    by (auto simp: resolve_flow_def split: option.splits)
  then show ?thesis
    using map_of_index [OF registry_parts(2) [OF assms]] registry_parts(1) [OF assms] by simp
qed

text \<open>\<open>refers rg f g\<close>: a node of \<open>f\<close> invokes \<open>g\<close>.\<close>

definition refers :: "registry \<Rightarrow> flow_definition \<Rightarrow> flow_definition \<Rightarrow> bool" where
  "refers rg f g \<longleftrightarrow> (\<exists>n. Flow_node n \<in> set (fd_nodes f) \<and> resolve_flow rg n = Inr g)"

fun ref_chain :: "registry \<Rightarrow> flow_definition \<Rightarrow> flow_definition list \<Rightarrow> bool" where
  "ref_chain rg f [] = True"
| "ref_chain rg f (g # gs) = (refers rg f g \<and> ref_chain rg g gs)"

lemma walk_flow_guard:
  assumes "walk_flow rg f d active e = Inr t"
  shows "flow_key f \<notin> set active" and "d \<le> rg_max_depth rg"
  using assms by (auto simp: walk_flow.simps [of rg f] Let_def split: if_splits)

lemma walk_flow_child:
  assumes "walk_flow rg f d active e = Inr t" and "refers rg f g"
  shows "\<exists>e' t'. walk_flow rg g (d + 1) (active @ [flow_key f]) e' = Inr t'"
proof -
  obtain n where n: "Flow_node n \<in> set (fd_nodes f)" "resolve_flow rg n = Inr g"
    using assms(2) by (auto simp: refers_def)
  from assms(1) have "fold_res (\<lambda>n total.
               case n of
                 Capability_node c \<Rightarrow> Inr total
               | Flow_node f' \<Rightarrow>
                   (case resolve_flow rg f' of Inl e \<Rightarrow> Inl e
                    | Inr g \<Rightarrow> walk_flow rg g (d + 1) (active @ [flow_key f]) total))
             (fd_nodes f) (e + int (length (fd_nodes f))) = Inr t"
    by (subst (asm) walk_flow.simps) (simp add: Let_def split: if_splits)
  from fold_res_each [OF this n(1)] n(2) show ?thesis by simp
qed

lemma walk_flow_chain:
  assumes "walk_flow rg f d active e = Inr t" and "ref_chain rg f gs"
  shows "distinct (map flow_key (f # gs)) \<and> set (map flow_key (f # gs)) \<inter> set active = {}
         \<and> d + int (length gs) \<le> rg_max_depth rg"
  using assms
proof (induction gs arbitrary: f d active e t)
  case Nil
  then show ?case using walk_flow_guard by fastforce
next
  case (Cons g gs)
  from Cons.prems obtain e' t' where "walk_flow rg g (d + 1) (active @ [flow_key f]) e' = Inr t'"
    using walk_flow_child by (metis ref_chain.simps(2))
  from Cons.IH [OF this] Cons.prems(2) walk_flow_guard [OF Cons.prems(1)] show ?case
    by auto
qed

text \<open>The number of nodes of a Flow with every nested Flow expanded, to depth \<open>k\<close>.\<close>

fun expanded_size :: "registry \<Rightarrow> nat \<Rightarrow> flow_definition \<Rightarrow> int" where
  "expanded_size rg 0 f = 0"
| "expanded_size rg (Suc k) f =
     int (length (fd_nodes f))
     + sum_list (map (\<lambda>n. case n of Capability_node c \<Rightarrow> 0
                       | Flow_node m \<Rightarrow> (case resolve_flow rg m of Inl _ \<Rightarrow> 0 | Inr g \<Rightarrow> expanded_size rg k g))
                 (fd_nodes f))"

lemma walk_flow_size:
  assumes "walk_flow rg f d active e = Inr t"
  shows "t = e + expanded_size rg (nat (rg_max_depth rg + 1 - d)) f \<and> t \<le> rg_max_nodes rg"
  using assms
proof (induction rg f d active e arbitrary: t rule: walk_flow.induct)
  case (1 rg f d active e)
  let ?step = "\<lambda>n total. case n of Capability_node c \<Rightarrow> Inr total
      | Flow_node f' \<Rightarrow> (case resolve_flow rg f' of Inl e \<Rightarrow> Inl e
          | Inr g \<Rightarrow> walk_flow rg g (d + 1) (active @ [flow_key f]) total)"
  let ?w = "\<lambda>n. case n of Capability_node c \<Rightarrow> 0
      | Flow_node m \<Rightarrow> (case resolve_flow rg m of Inl _ \<Rightarrow> 0
          | Inr g \<Rightarrow> expanded_size rg (nat (rg_max_depth rg - d)) g)"
  let ?total = "e + int (length (fd_nodes f))"
  have guards: "flow_key f \<notin> set active" "d \<le> rg_max_depth rg" "?total \<le> rg_max_nodes rg"
    and fold: "fold_res ?step (fd_nodes f) ?total = Inr t"
    using "1.prems" by (subst (asm) walk_flow.simps; simp add: Let_def split: if_splits)+
  have IH: "t' = s + ?w n \<and> (s \<le> rg_max_nodes rg \<longrightarrow> t' \<le> rg_max_nodes rg)"
    if "n \<in> set (fd_nodes f)" "?step n s = Inr t'" for n s t'
    using that "1.IH" [OF guards(1) _ refl] guards(2,3)
    by (force split: node.splits sum.splits)
  have "t = ?total + sum_list (map ?w (fd_nodes f))"
    using fold IH by (intro fold_res_sum) auto
  moreover have "t \<le> rg_max_nodes rg"
    using fold guards(3) IH by (rule_tac fold_res_invariant [where P = "\<lambda>s. s \<le> rg_max_nodes rg"]) auto
  moreover have "nat (rg_max_depth rg + 1 - d) = Suc (nat (rg_max_depth rg - d))"
    using guards(2) by simp
  ultimately show ?case by simp
qed

lemma registry_walks:
  assumes "flow_contract_registry caps flows max_depth max_nodes = Inr rg" and "f \<in> set flows"
  shows "\<exists>t. walk_flow rg f 1 [] 0 = Inr t"
  using registry_parts [OF assms(1)] assms(2)
  by (auto simp: validate_graphs_def fold_res_all res_simps comp_def)

lemma registry_flow_length:
  assumes "flow_contract_registry caps flows max_depth max_nodes = Inr rg" and "f \<in> set flows"
  shows "int (length (fd_nodes f)) \<le> max_nodes"
proof -
  obtain t where "walk_flow rg f 1 [] 0 = Inr t" using registry_walks [OF assms] by blast
  then show ?thesis
    using registry_parts(6) [OF assms(1)] by (subst (asm) walk_flow.simps) (simp add: Let_def split: if_splits)
qed

subsection \<open>A concrete set of contracts, for the instances below\<close>

definition sample_capability :: capability_descriptor where
  "sample_capability =
     \<lparr>cd_contract_version = ''1.0'', cd_capability_id = ''detector.pii'', cd_implementation_version = ''1'',
      cd_input_schema = ''t'', cd_output_schema = ''r'', cd_name = None, cd_category = None\<rparr>"

definition sample_node :: node where
  "sample_node = Capability_node \<lparr>cn_node_id = ''n'', cn_capability_id = ''detector.pii'',
     cn_input_schema = ''t'', cn_output_schema = ''r'', cn_priority = 0\<rparr>"

definition sample_child :: flow_definition where
  "sample_child =
     \<lparr>fd_contract_version = ''1.0'', fd_flow_id = ''child'', fd_version = ''1.0.0'',
      fd_input_schema = ''t'', fd_output_schema = ''r'', fd_nodes = [sample_node],
      fd_reducer_capability_id = None\<rparr>"

definition sample_nested :: node where
  "sample_nested = Flow_node \<lparr>fn_node_id = ''m'', fn_flow_id = ''child'', fn_flow_version = ''1.0.0'',
     fn_input_schema = ''t'', fn_output_schema = ''r'', fn_priority = 0\<rparr>"

definition sample_parent :: flow_definition where
  "sample_parent =
     \<lparr>fd_contract_version = ''1.0'', fd_flow_id = ''parent'', fd_version = ''1.0.0'',
      fd_input_schema = ''t'', fd_output_schema = ''r'', fd_nodes = [sample_node, sample_nested],
      fd_reducer_capability_id = None\<rparr>"

definition sample_registry :: registry where
  "sample_registry =
     \<lparr>rg_capabilities = [(''detector.pii'', sample_capability)],
      rg_flows = [((''parent'', ''1.0.0''), sample_parent), ((''child'', ''1.0.0''), sample_child)],
      rg_max_depth = 8, rg_max_nodes = 256\<rparr>"

lemmas sample_defs = sample_capability_def sample_node_def sample_child_def sample_nested_def
  sample_parent_def sample_registry_def

lemma sample_registry_built:
  "flow_contract_registry [sample_capability] [sample_parent, sample_child] 8 256 = Inr sample_registry"
  by (simp add: flow_contract_registry_def index_capabilities_def index_flows_def flow_key_def
      validate_bindings_def validate_binding_def validate_graphs_def walk_flow.simps Let_def
      resolve_capability_def resolve_flow_def sample_defs)

subsection \<open>Properties\<close>

text \<open>In a registry that could be built, identities are unique and every node of every Flow
  resolves to a capability or Flow with the node's input and output schemas.\<close>

theorem registry_bindings:
  assumes "flow_contract_registry caps flows max_depth max_nodes = Inr rg"
    and "f \<in> set flows" and "n \<in> set (fd_nodes f)"
  shows "distinct (map flow_key flows) \<and> distinct (map cd_capability_id caps)
    \<and> (case n of
         Capability_node c \<Rightarrow> (\<exists>t \<in> set caps. resolve_capability rg c = Inr t
           \<and> cd_capability_id t = cn_capability_id c
           \<and> cd_input_schema t = cn_input_schema c \<and> cd_output_schema t = cn_output_schema c)
       | Flow_node m \<Rightarrow> (\<exists>t \<in> set flows. resolve_flow rg m = Inr t
           \<and> flow_key t = (fn_flow_id m, fn_flow_version m)
           \<and> fd_input_schema t = fn_input_schema m \<and> fd_output_schema t = fn_output_schema m))"
proof -
  note parts = registry_parts [OF assms(1)]
  have "f \<in> set (map snd (rg_flows rg))" using parts(1) assms(2) by force
  then have b: "validate_binding rg f n = Inr ()"
    using parts(7) assms(3) unfolding validate_bindings_def fold_res_all by blast
  show ?thesis
  proof (cases n)
    case (Capability_node c)
    with b obtain t where t: "resolve_capability rg c = Inr t"
      "cn_input_schema c = cd_input_schema t" "cn_output_schema c = cd_output_schema t"
      by (auto simp: validate_binding_def res_simps split: if_splits)
    with registry_resolve_capability [OF assms(1)] Capability_node parts(2,4) show ?thesis by auto
  next
    case (Flow_node m)
    with b obtain t where t: "resolve_flow rg m = Inr t"
      "fn_input_schema m = fd_input_schema t" "fn_output_schema m = fd_output_schema t"
      by (auto simp: validate_binding_def res_simps split: if_splits)
    with registry_resolve_flow [OF assms(1)] Flow_node parts(2,4) show ?thesis by auto
  qed
qed

theorem registry_bindings_witness:
  "\<exists>t \<in> {sample_parent, sample_child}.
     resolve_flow sample_registry \<lparr>fn_node_id = ''m'', fn_flow_id = ''child'', fn_flow_version = ''1.0.0'',
       fn_input_schema = ''t'', fn_output_schema = ''r'', fn_priority = 0\<rparr> = Inr t"
  using registry_bindings [OF sample_registry_built, of sample_parent sample_nested]
  by (auto simp: sample_nested_def sample_parent_def)

text \<open>C37. Nested Flows of a built registry are acyclic and bounded: no chain of references from
  any Flow meets a Flow twice, a chain is shorter than the depth limit, and the Flow's nodes with
  every nested Flow expanded are at most the node limit.\<close>

theorem registry_acyclic_bounded:
  assumes "flow_contract_registry caps flows max_depth max_nodes = Inr rg"
    and "f \<in> set flows" and "ref_chain rg f gs"
  shows "distinct (map flow_key (f # gs)) \<and> int (length gs) < max_depth
    \<and> expanded_size rg (nat max_depth) f \<le> max_nodes"
proof -
  obtain t where t: "walk_flow rg f 1 [] 0 = Inr t"
    using registry_walks [OF assms(1,2)] by blast
  show ?thesis
    using walk_flow_chain [OF t assms(3)] walk_flow_size [OF t] registry_parts(5,6) [OF assms(1)]
    by simp
qed

theorem registry_acyclic_bounded_witness:
  "distinct (map flow_key [sample_parent, sample_child])
   \<and> expanded_size sample_registry 8 sample_parent \<le> 256"
proof -
  have "ref_chain sample_registry sample_parent [sample_child]"
    by (auto simp: refers_def resolve_flow_def sample_defs)
  then show ?thesis
    using registry_acyclic_bounded [OF sample_registry_built, of sample_parent "[sample_child]"] by simp
qed

end
