(* ===== verification/Flow_Evidence.thy ===== *)
theory Flow_Evidence
  imports Flow_Policy Flow_Contracts "HOL-Library.Product_Lexorder"
begin

text \<open>
  \<open>flow/evidence.py\<close>: the bounded, payload-free record of one Flow execution.

  Serialisation and hashing are not code of the repository: the size of the JSON text
  (\<open>len(evidence.model_dump_json().encode())\<close>) and the two digests are arguments of the
  definitions that use them. The lemmas show what trimming to the size budget may drop and what
  it keeps.
\<close>

datatype node_status = N_SUCCEEDED | N_FAILED | N_TIMED_OUT | N_SKIPPED | N_CANCELLED | N_PARTIAL

datatype flow_status = F_COMPLETED | F_FAILED | F_TIMED_OUT | F_STOPPED | F_CANCELLED | F_PARTIAL

definition default_max_evidence_size :: nat where
  "default_max_evidence_size = 256 * 1024"

definition max_signals :: nat where
  "max_signals = 32"

text \<open>\<open>_SIGNAL_PATTERN\<close> is the pattern of contract identifiers.\<close>

abbreviation valid_signal :: "pystr \<Rightarrow> bool" where
  "valid_signal \<equiv> valid_contract_id"

definition is_lower :: "char \<Rightarrow> bool" where
  "is_lower c \<longleftrightarrow> (let n = of_char c :: nat in 97 \<le> n \<and> n \<le> 122)"

definition valid_reason_code :: "pystr \<Rightarrow> bool" where
  "valid_reason_code value \<longleftrightarrow>
     (case value of [] \<Rightarrow> False
      | c # cs \<Rightarrow> is_lower c \<and> list_all (\<lambda>c. is_lower c \<or> is_digit c \<or> c = CHR ''_'') cs
                  \<and> length cs \<le> 63)"

definition valid_content_hash :: "pystr \<Rightarrow> bool" where
  "valid_content_hash value \<longleftrightarrow>
     length value = 64
     \<and> list_all (\<lambda>c. is_digit c \<or> (let n = of_char c :: nat in 97 \<le> n \<and> n \<le> 102)) value"

record safe_summary =
  ss_action :: "pystr option"
  ss_risk_level :: "pystr option"
  ss_category :: "pystr option"
  ss_rule_ids :: "pystr list"
  ss_match_count :: "int option"
  ss_confidence_bucket :: "pystr option"
  ss_content_hash :: "pystr option"
  ss_content_length :: "int option"
  ss_window_index :: "int option"

definition empty_summary :: safe_summary where
  "empty_summary =
     \<lparr>ss_action = None, ss_risk_level = None, ss_category = None, ss_rule_ids = [], ss_match_count = None,
      ss_confidence_bucket = None, ss_content_hash = None, ss_content_length = None,
      ss_window_index = None\<rparr>"

text \<open>
  A value of a summary mapping: those the fields accept, and \<open>SV_other\<close> for one they reject.
\<close>

datatype summary_value = SV_str pystr | SV_int int | SV_strs "pystr list" | SV_none | SV_other

datatype raw_summary = No_summary | Safe safe_summary | Raw_mapping "(pystr \<times> summary_value) list"

definition summary_fields :: "pystr list" where
  "summary_fields = [''action'', ''risk_level'', ''category'', ''rule_ids'', ''match_count'',
     ''confidence_bucket'', ''content_hash'', ''content_length'', ''window_index'']"

definition str_field :: "nat \<Rightarrow> summary_value option \<Rightarrow> unit + pystr option" where
  "str_field max_length v =
     (case v of None \<Rightarrow> Inr None
      | Some SV_none \<Rightarrow> Inr None
      | Some (SV_str s) \<Rightarrow> if length s \<le> max_length then Inr (Some s) else Inl ()
      | Some _ \<Rightarrow> Inl ())"

definition int_field :: "summary_value option \<Rightarrow> unit + int option" where
  "int_field v =
     (case v of None \<Rightarrow> Inr None
      | Some SV_none \<Rightarrow> Inr None
      | Some (SV_int n) \<Rightarrow> if 0 \<le> n then Inr (Some n) else Inl ()
      | Some _ \<Rightarrow> Inl ())"

definition rule_ids_field :: "summary_value option \<Rightarrow> unit + pystr list" where
  "rule_ids_field v =
     (case v of None \<Rightarrow> Inr []
      | Some (SV_strs ids) \<Rightarrow> if length ids \<le> 16 \<and> list_all valid_signal ids then Inr ids else Inl ()
      | Some _ \<Rightarrow> Inl ())"

definition hash_field :: "summary_value option \<Rightarrow> unit + pystr option" where
  "hash_field v =
     (case v of None \<Rightarrow> Inr None
      | Some SV_none \<Rightarrow> Inr None
      | Some (SV_str s) \<Rightarrow> if valid_content_hash s then Inr (Some s) else Inl ()
      | Some _ \<Rightarrow> Inl ())"

text \<open>\<open>SafeEvidenceSummary.model_validate\<close> on a mapping with allowed keys only.\<close>

definition validate_summary :: "(pystr \<times> summary_value) list \<Rightarrow> unit + safe_summary" where
  "validate_summary m =
     bind_res (str_field 32 (map_of m ''action'')) (\<lambda>a.
     bind_res (str_field 32 (map_of m ''risk_level'')) (\<lambda>r.
     bind_res (str_field 64 (map_of m ''category'')) (\<lambda>c.
     bind_res (rule_ids_field (map_of m ''rule_ids'')) (\<lambda>ids.
     bind_res (int_field (map_of m ''match_count'')) (\<lambda>n.
     bind_res (str_field 32 (map_of m ''confidence_bucket'')) (\<lambda>b.
     bind_res (hash_field (map_of m ''content_hash'')) (\<lambda>h.
     bind_res (int_field (map_of m ''content_length'')) (\<lambda>l.
     bind_res (int_field (map_of m ''window_index'')) (\<lambda>w.
       Inr \<lparr>ss_action = a, ss_risk_level = r, ss_category = c, ss_rule_ids = ids, ss_match_count = n,
            ss_confidence_bucket = b, ss_content_hash = h, ss_content_length = l,
            ss_window_index = w\<rparr>)))))))))"

definition sanitize_signals :: "pystr list \<Rightarrow> pystr list \<times> bool" where
  "sanitize_signals signals =
     (let valid = filter valid_signal signals;
          truncated = (length valid \<noteq> length signals \<or> length valid > max_signals)
      in (take max_signals valid, truncated))"

definition sanitize_summary :: "raw_summary \<Rightarrow> safe_summary option \<times> bool" where
  "sanitize_summary optional_summary =
     (case optional_summary of
        No_summary \<Rightarrow> (None, False)
      | Safe s \<Rightarrow> (Some s, False)
      | Raw_mapping m \<Rightarrow>
          (let filtered = filter (\<lambda>(key, value). key \<in> set summary_fields) m;
               rejected = (length filtered \<noteq> length m)
           in case validate_summary filtered of
                Inr s \<Rightarrow> (Some s, rejected)
              | Inl _ \<Rightarrow> (None, True)))"

subsection \<open>Node evidence\<close>

record node_evidence =
  ne_flow_id :: pystr
  ne_flow_version :: pystr
  ne_execution_id :: pystr
  ne_node_id :: pystr
  ne_definition_index :: nat
  ne_target_id :: pystr
  ne_target_contract_version :: pystr
  ne_target_implementation_version :: pystr
  ne_effective_policy :: node_policy
  ne_status :: node_status
  ne_degraded :: bool
  ne_reason_code :: pystr
  ne_duration_ms :: pyfloat
  ne_item_count :: nat
  ne_succeeded_items :: nat
  ne_failed_items :: nat
  ne_skipped_items :: nat
  ne_cancelled_items :: nat
  ne_signals :: "pystr list"
  ne_evidence_summary :: "safe_summary option"
  ne_child_execution_id :: "pystr option"
  ne_details_truncated :: bool
  ne_evidence_rejected_reason :: "pystr option"

definition terminal_item_count :: "node_evidence \<Rightarrow> nat" where
  "terminal_item_count n =
     ne_succeeded_items n + ne_failed_items n + ne_skipped_items n + ne_cancelled_items n"

text \<open>\<open>_validate_item_counts\<close> and the field checks a constructed \<open>NodeEvidence\<close> has passed.\<close>

definition valid_node_evidence :: "node_evidence \<Rightarrow> bool" where
  "valid_node_evidence n \<longleftrightarrow>
     terminal_item_count n = ne_item_count n
     \<and> valid_reason_code (ne_reason_code n)
     \<and> 0 \<le> ne_duration_ms n
     \<and> length (ne_signals n) \<le> max_signals \<and> list_all valid_signal (ne_signals n)"

text \<open>The fields of one execution; the others come from the node's template.\<close>

record core_fields =
  cf_execution_id :: pystr
  cf_status :: node_status
  cf_degraded :: bool
  cf_reason_code :: pystr
  cf_duration_ms :: pyfloat
  cf_item_count :: nat
  cf_succeeded_items :: nat
  cf_failed_items :: nat
  cf_skipped_items :: nat
  cf_cancelled_items :: nat
  cf_child_execution_id :: "pystr option"

definition apply_core :: "core_fields \<Rightarrow> node_evidence \<Rightarrow> node_evidence" where
  "apply_core f n =
     n\<lparr>ne_execution_id := cf_execution_id f, ne_status := cf_status f, ne_degraded := cf_degraded f,
       ne_reason_code := cf_reason_code f, ne_duration_ms := cf_duration_ms f,
       ne_item_count := cf_item_count f, ne_succeeded_items := cf_succeeded_items f,
       ne_failed_items := cf_failed_items f, ne_skipped_items := cf_skipped_items f,
       ne_cancelled_items := cf_cancelled_items f, ne_child_execution_id := cf_child_execution_id f\<rparr>"

text \<open>\<open>build_node_evidence\<close> on a template (\<open>base_node\<close>).\<close>

definition build_node_evidence ::
  "(node_evidence \<Rightarrow> nat) \<Rightarrow> nat \<Rightarrow> node_evidence \<Rightarrow> bool \<Rightarrow> raw_summary \<Rightarrow> pystr list
     \<Rightarrow> core_fields \<Rightarrow> node_evidence" where
  "build_node_evidence json_size max_evidence_size base_node trusted_signals optional_summary raw_signals core =
     (let (signals, signals_truncated) =
            (if trusted_signals then (raw_signals, False) else sanitize_signals raw_signals);
          (summary, summary_rejected) = sanitize_summary optional_summary;
          rejected_reason =
            (if summary_rejected then Some ''invalid_evidence_summary''
             else if signals_truncated then Some ''signal_limit_exceeded'' else None);
          node = (apply_core core base_node)
            \<lparr>ne_signals := signals, ne_evidence_summary := summary,
             ne_details_truncated := (summary_rejected \<or> signals_truncated),
             ne_evidence_rejected_reason := rejected_reason\<rparr>
      in if max_evidence_size \<ge> default_max_evidence_size then node
         else if json_size node \<le> max_evidence_size then node
         else node\<lparr>ne_signals := [], ne_evidence_summary := None, ne_details_truncated := True,
                   ne_evidence_rejected_reason := Some ''evidence_budget_exceeded''\<rparr>)"

subsection \<open>Flow evidence\<close>

record flow_evidence =
  fv_execution_id :: pystr
  fv_parent_execution_id :: "pystr option"
  fv_flow_id :: pystr
  fv_flow_version :: pystr
  fv_direction :: direction
  fv_stage :: pystr
  fv_status :: flow_status
  fv_reason_code :: pystr
  fv_duration_ms :: pyfloat
  fv_final_signals :: "pystr list"
  fv_nodes :: "node_evidence list"
  fv_evidence_persisted :: bool
  fv_details_truncated :: bool

definition sort_nodes :: "node_evidence list \<Rightarrow> node_evidence list" where
  "sort_nodes values = sort_key (\<lambda>n. (ne_definition_index n, ne_node_id n)) values"

definition compact_stop_policy :: "(pystr list \<Rightarrow> pystr) \<Rightarrow> node_policy \<Rightarrow> node_policy" where
  "compact_stop_policy digest_signals policy =
     policy\<lparr>np_stop := [''h:'' @ digest_signals (np_stop policy)]\<rparr>"

definition trim_node :: "node_evidence \<Rightarrow> node_evidence" where
  "trim_node n =
     n\<lparr>ne_signals := [], ne_evidence_summary := None, ne_details_truncated := True,
       ne_evidence_rejected_reason := Some ''evidence_budget_exceeded''\<rparr>"

definition compact_node :: "(pystr \<Rightarrow> pystr) \<Rightarrow> nat \<Rightarrow> node_evidence \<Rightarrow> node_evidence" where
  "compact_node compact_identity index n =
     n\<lparr>ne_flow_id := compact_identity (ne_flow_id n),
       ne_flow_version := compact_identity (ne_flow_version n),
       ne_execution_id := compact_identity (ne_execution_id n),
       ne_node_id := compact_identity (ne_node_id n),
       ne_target_id := compact_identity (ne_target_id n),
       ne_target_implementation_version := compact_identity (ne_target_implementation_version n),
       ne_child_execution_id := map_option compact_identity (ne_child_execution_id n),
       ne_evidence_rejected_reason := (if index = 0 then Some ''evidence_budget_exceeded'' else None)\<rparr>"

text \<open>\<open>compact_identity\<close> is \<open>h:\<close> followed by 24 hexadecimal digits of a SHA-256 digest.\<close>

definition compact_identity :: "(pystr \<Rightarrow> pystr) \<Rightarrow> pystr \<Rightarrow> pystr" where
  "compact_identity sha256_hex value = ''h:'' @ take 24 (sha256_hex value)"

definition bound_flow_evidence ::
  "(flow_evidence \<Rightarrow> nat) \<Rightarrow> (pystr \<Rightarrow> pystr) \<Rightarrow> (pystr list \<Rightarrow> pystr) \<Rightarrow> nat \<Rightarrow> flow_evidence
     \<Rightarrow> unit + flow_evidence" where
  "bound_flow_evidence json_size sha256_hex digest_signals max_evidence_size evidence =
     (if json_size evidence \<le> max_evidence_size then Inr evidence
      else
        let bounded = evidence\<lparr>fv_final_signals := [], fv_nodes := map trim_node (fv_nodes evidence),
                               fv_details_truncated := True\<rparr> in
        if json_size bounded \<le> max_evidence_size then Inr bounded
        else
          let c = compact_identity sha256_hex;
              compact = bounded\<lparr>fv_execution_id := c (fv_execution_id bounded),
                fv_parent_execution_id := map_option c (fv_parent_execution_id bounded),
                fv_flow_id := c (fv_flow_id bounded), fv_flow_version := c (fv_flow_version bounded),
                fv_stage := c (fv_stage bounded),
                fv_nodes := map (\<lambda>(index, n). compact_node c index n) (enumerate 0 (fv_nodes bounded))\<rparr> in
          if json_size compact \<le> max_evidence_size then Inr compact
          else
            let policy_compact = compact\<lparr>fv_nodes :=
                  map (\<lambda>n. n\<lparr>ne_effective_policy := compact_stop_policy digest_signals (ne_effective_policy n)\<rparr>)
                    (fv_nodes compact)\<rparr> in
            if json_size policy_compact > max_evidence_size then Inl () else Inr policy_compact)"

lemma sanitize_signals_spec:
  assumes "sanitize_signals signals = (out, truncated)"
  shows "length out \<le> max_signals \<and> list_all valid_signal out \<and> (out = signals \<or> truncated)"
proof -
  have "filter valid_signal signals = signals" if "length (filter valid_signal signals) = length signals"
    using that by (metis filter_True length_filter_less less_irrefl)
  then have "out = signals \<or> truncated"
    using assms by (auto simp: sanitize_signals_def Let_def)
  moreover have out: "out = take max_signals (filter valid_signal signals)"
    using assms by (simp add: sanitize_signals_def Let_def)
  moreover have "list_all valid_signal out"
    unfolding out list_all_iff by (auto dest: in_set_takeD)
  ultimately show ?thesis by simp
qed

subsection \<open>What trimming keeps\<close>

text \<open>
  The facts of a node's execution: its place, status, reason, duration and counters, and what its
  policy does on each failure.
\<close>

definition node_facts where
  "node_facts n =
     ((ne_definition_index n, ne_status n, ne_degraded n, ne_reason_code n, ne_duration_ms n),
      (ne_item_count n, ne_succeeded_items n, ne_failed_items n, ne_skipped_items n, ne_cancelled_items n),
      (np_timeout (ne_effective_policy n), np_failure (ne_effective_policy n),
       np_availability (ne_effective_policy n), np_degradation (ne_effective_policy n),
       np_sources (ne_effective_policy n)))"

definition flow_facts where
  "flow_facts e =
     (fv_status e, fv_reason_code e, fv_duration_ms e, fv_direction e, map node_facts (fv_nodes e))"

lemma node_facts_trim [simp]: "node_facts (trim_node n) = node_facts n"
  by (simp add: node_facts_def trim_node_def)

lemma node_facts_compact [simp]: "node_facts (compact_node c i n) = node_facts n"
  by (simp add: node_facts_def compact_node_def)

lemma node_facts_policy [simp]:
  "node_facts (n\<lparr>ne_effective_policy := compact_stop_policy d (ne_effective_policy n)\<rparr>) = node_facts n"
  by (simp add: node_facts_def compact_stop_policy_def)

lemma map_enumerate_snd: "map (\<lambda>(i, x). f x) (enumerate k xs) = map f xs"
  by (induction xs arbitrary: k) auto

lemma node_facts_compact_all:
  "map (node_facts \<circ> (\<lambda>(i, n). compact_node c i n)) (enumerate k ns) = map node_facts ns"
proof -
  have "node_facts \<circ> (\<lambda>(i, n). compact_node c i n) = (\<lambda>(i, n). node_facts n)"
    by (auto simp: fun_eq_iff)
  then show ?thesis by (simp add: map_enumerate_snd)
qed

subsection \<open>Properties\<close>

lemma bound_flow_evidence_status:
  "bound_flow_evidence json_size sha256_hex digest_signals limit e = Inr e' \<Longrightarrow>
     fv_status e' = fv_status e"
  by (auto simp: bound_flow_evidence_def Let_def split: if_splits)

text \<open>C38. Bounding the evidence of a Flow to a size budget either fails, or returns evidence whose
  serialisation fits the budget and which keeps, for the Flow and for every node in order, the
  status, reason, degradation, duration, counters and failure policy; evidence that fits is
  returned as it is.\<close>

theorem bound_flow_evidence_keeps_facts:
  assumes "bound_flow_evidence json_size sha256_hex digest_signals limit e = Inr e'"
  shows "json_size e' \<le> limit \<and> flow_facts e' = flow_facts e
    \<and> (json_size e \<le> limit \<longrightarrow> e' = e)
    \<and> (e' \<noteq> e \<longrightarrow> fv_details_truncated e' \<and> fv_final_signals e' = [])"
  using assms
  by (auto simp: bound_flow_evidence_def Let_def flow_facts_def comp_def node_facts_compact_all [unfolded comp_def]
      split: if_splits)

theorem bound_flow_evidence_keeps_facts_witness:
  "\<exists>e'. bound_flow_evidence (\<lambda>e. length (fv_stage e) + length (concat (fv_final_signals e)))
       (\<lambda>s. replicate 64 CHR ''a'') (\<lambda>s. ''d'') 10
       \<lparr>fv_execution_id = ''flow-1'', fv_parent_execution_id = None, fv_flow_id = ''f'',
        fv_flow_version = ''1.0.0'', fv_direction = Input, fv_stage = ''stage'', fv_status = F_STOPPED,
        fv_reason_code = ''stop_signal'', fv_duration_ms = 1, fv_final_signals = [''safety.block''],
        fv_nodes = [], fv_evidence_persisted = True, fv_details_truncated = False\<rparr> = Inr e'
     \<and> fv_status e' = F_STOPPED \<and> fv_details_truncated e'"
proof -
  let ?size = "\<lambda>e. length (fv_stage e) + length (concat (fv_final_signals e))"
  let ?e = "\<lparr>fv_execution_id = ''flow-1'', fv_parent_execution_id = None, fv_flow_id = ''f'',
        fv_flow_version = ''1.0.0'', fv_direction = Input, fv_stage = ''stage'', fv_status = F_STOPPED,
        fv_reason_code = ''stop_signal'', fv_duration_ms = 1, fv_final_signals = [''safety.block''],
        fv_nodes = [], fv_evidence_persisted = True, fv_details_truncated = False\<rparr>"
  obtain e' where e': "bound_flow_evidence ?size (\<lambda>s. replicate 64 CHR ''a'') (\<lambda>s. ''d'') 10 ?e = Inr e'"
    by (simp add: bound_flow_evidence_def Let_def)
  from bound_flow_evidence_keeps_facts [OF e'] have "?size e' \<le> 10" "flow_facts e' = flow_facts ?e"
    "e' \<noteq> ?e \<longrightarrow> fv_details_truncated e'" by blast+
  moreover from this(1) have "e' \<noteq> ?e" by auto
  ultimately show ?thesis using e' by (auto simp: flow_facts_def)
qed

text \<open>Whatever signals and summary a capability supplies, the evidence built for a node
  carries at most the allowed number of well-formed signals when they are not trusted, keeps the
  counters, status and reason the runtime computed, and says so when something was dropped.\<close>

theorem build_node_evidence_bounded:
  "let n = build_node_evidence json_size limit base False summary signals core in
     length (ne_signals n) \<le> max_signals \<and> list_all valid_signal (ne_signals n)
     \<and> (ne_status n, ne_degraded n, ne_reason_code n, ne_item_count n)
         = (cf_status core, cf_degraded core, cf_reason_code core, cf_item_count core)
     \<and> terminal_item_count n = cf_succeeded_items core + cf_failed_items core
         + cf_skipped_items core + cf_cancelled_items core
     \<and> (ne_details_truncated n \<longleftrightarrow> ne_evidence_rejected_reason n \<noteq> None)
     \<and> (ne_signals n = signals \<or> ne_details_truncated n)"
proof -
  obtain s rejected where sum: "sanitize_summary summary = (s, rejected)"
    by (cases "sanitize_summary summary")
  obtain out truncated where sig: "sanitize_signals signals = (out, truncated)"
    by (cases "sanitize_signals signals")
  with sanitize_signals_spec [OF sig] sum show ?thesis
    by (auto simp: build_node_evidence_def Let_def apply_core_def terminal_item_count_def)
qed

end
