(* ===== verification/Flow_Runtime.thy ===== *)
theory Flow_Runtime
  imports Flow_Evidence
begin

text \<open>
  \<open>flow/runtime.py\<close>: the bounded, concurrent execution of a Flow.

  The asyncio tasks, the clock and the capabilities are the environment. A task is the outcome its
  coroutine computes (\<open>execute_work\<close>); a \<open>round\<close> is one turn of the scheduling loop: whether the
  deadline has passed, which of the running tasks have finished, and which of the others finish
  before a cancellation reaches them. An \<open>env\<close> is the rounds of one Flow execution, what each
  capability call does, and the environments of the nested Flows. Every statement is for all
  environments.

  The invariant \<open>acct\<close> of \<open>Flow_Scheduling\<close> accounts for every work item at every turn of the loop: it has a result,
  or is running, or has not been started, and at most \<open>max_concurrency\<close> are running.
\<close>

datatype runtime_error =
    Resolved_policy_missing pystr pystr
  | Flow_reducer_timeout
  | Reducer_raised
  | Evidence_budget_exceeded
  | Runtime_contract_error contract_error
  | Invalid_runtime_concurrency
  | Invalid_runtime_timeout
  | Invalid_evidence_budget
  | Still_waiting

record 'o cap_result =
  cr_output :: "'o option"
  cr_signals :: "pystr list"
  cr_evidence_summary :: raw_summary

text \<open>The check a \<open>CapabilityResult\<close> makes of its signals when it is built.\<close>

definition valid_cap_result :: "'o cap_result \<Rightarrow> bool" where
  "valid_cap_result r \<longleftrightarrow> length (cr_signals r) \<le> 32 \<and> list_all valid_signal (cr_signals r)"

record 'o node_result =
  nr_node_id :: pystr
  nr_definition_index :: nat
  nr_item_index :: nat
  nr_status :: node_status
  nr_output :: "'o option"
  nr_signals :: "pystr list"
  nr_reason_code :: pystr
  nr_degraded :: bool
  nr_duration_ms :: pyfloat
  nr_stop_requested :: bool
  nr_evidence_summary :: raw_summary
  nr_child_execution_id :: "pystr option"

record 'o flow_result =
  fr_output :: "'o option"
  fr_signals :: "pystr list"
  fr_node_results :: "'o node_result list"
  fr_evidence :: flow_evidence
  fr_children :: "flow_evidence list"

text \<open>A reducer raises, or returns its result.\<close>

type_synonym 'o reducer = "flow_definition \<Rightarrow> 'o node_result list \<Rightarrow> 'o cap_result option"

text \<open>\<open>OrderedResultReducer.reduce\<close>; its output is the tuple of the outputs.\<close>

definition ordered_result_reduce :: "'o list node_result list \<Rightarrow> 'o list cap_result" where
  "ordered_result_reduce results =
     \<lparr>cr_output = Some (concat (map (\<lambda>r. case nr_output r of Some o' \<Rightarrow> o' | None \<Rightarrow> [])
                         (filter (\<lambda>r. nr_status r = N_SUCCEEDED) results))),
      cr_signals = take 32 (dict_fromkeys (concat (map nr_signals results))),
      cr_evidence_summary = No_summary\<rparr>"

record work_item =
  wi_order :: nat
  wi_node_index :: nat
  wi_item_index :: nat
  wi_node :: node
  wi_item :: "flow_item option"

record 'o work_outcome =
  wo_result :: "'o node_result"
  wo_children :: "flow_evidence list"

record codec =
  json_size :: "flow_evidence \<Rightarrow> nat"
  node_json_size :: "node_evidence \<Rightarrow> nat"
  sha256_hex :: "pystr \<Rightarrow> pystr"
  digest_signals :: "pystr list \<Rightarrow> pystr"

record 'o runtime =
  rt_registry :: registry
  rt_capabilities :: "pystr list"
  rt_policies :: "pystr \<times> pystr \<times> pystr \<rightharpoonup> node_policy"
  rt_reducers :: "(pystr \<times> 'o reducer) list"
  rt_max_concurrency :: int
  rt_absolute_timeout :: pyfloat
  rt_max_evidence_size :: nat
  rt_codec :: codec

definition flow_runtime :: "'o runtime \<Rightarrow> runtime_error + 'o runtime" where
  "flow_runtime rt =
     (if \<not> (1 \<le> rt_max_concurrency rt \<and> rt_max_concurrency rt \<le> 64) then Inl Invalid_runtime_concurrency
      else if \<not> (0 < rt_absolute_timeout rt \<and> rt_absolute_timeout rt \<le> 120) then Inl Invalid_runtime_timeout
      else if rt_max_evidence_size rt \<noteq> default_max_evidence_size then Inl Invalid_evidence_budget
      else Inr rt)"

subsection \<open>Work items\<close>

fun node_work :: "nat \<Rightarrow> nat \<Rightarrow> node \<Rightarrow> flow_item list \<Rightarrow> work_item list" where
  "node_work order node_index (Capability_node n) items =
     map (\<lambda>(i, item). \<lparr>wi_order = order + i, wi_node_index = node_index, wi_item_index = i,
                       wi_node = Capability_node n, wi_item = Some item\<rparr>) (enumerate 0 items)"
| "node_work order node_index (Flow_node n) items =
     [\<lparr>wi_order = order, wi_node_index = node_index, wi_item_index = 0,
       wi_node = Flow_node n, wi_item = None\<rparr>]"

fun build_work_from :: "nat \<Rightarrow> nat \<Rightarrow> node list \<Rightarrow> flow_item list \<Rightarrow> work_item list" where
  "build_work_from order node_index [] items = []"
| "build_work_from order node_index (n # ns) items =
     (let ws = node_work order node_index n items in
      ws @ build_work_from (order + length ws) (node_index + 1) ns items)"

definition build_work :: "flow_definition \<Rightarrow> flow_input \<Rightarrow> work_item list" where
  "build_work flow i = build_work_from 0 0 (fd_nodes flow) (fin_items i)"

definition policy_for :: "'o runtime \<Rightarrow> flow_definition \<Rightarrow> node \<Rightarrow> runtime_error + node_policy" where
  "policy_for rt flow n =
     (case rt_policies rt (fd_flow_id flow, fd_version flow, node_id n) of
        Some p \<Rightarrow> Inr p
      | None \<Rightarrow> Inl (Resolved_policy_missing (fd_flow_id flow) (node_id n)))"

definition failure_result ::
  "work_item \<Rightarrow> node_policy \<Rightarrow> failure_kind \<Rightarrow> node_status \<Rightarrow> pyfloat \<Rightarrow> 'o node_result" where
  "failure_result work policy kind status duration =
     (let decision = evaluate_failure policy kind in
      \<lparr>nr_node_id = node_id (wi_node work), nr_definition_index = wi_node_index work,
       nr_item_index = wi_item_index work, nr_status = status, nr_output = None, nr_signals = [],
       nr_reason_code = pdn_reason_code decision, nr_degraded = pdn_degraded decision,
       nr_duration_ms = duration, nr_stop_requested = pdn_stop_requested decision,
       nr_evidence_summary = No_summary, nr_child_execution_id = None\<rparr>)"

definition fallback_result ::
  "'o runtime \<Rightarrow> flow_definition \<Rightarrow> work_item \<Rightarrow> node_status \<Rightarrow> pystr \<Rightarrow> runtime_error + 'o node_result" where
  "fallback_result rt flow work status reason =
     bind_res (policy_for rt flow (wi_node work)) (\<lambda>policy. Inr
      \<lparr>nr_node_id = node_id (wi_node work), nr_definition_index = wi_node_index work,
       nr_item_index = wi_item_index work, nr_status = status, nr_output = None, nr_signals = [],
       nr_reason_code = reason, nr_degraded = True, nr_duration_ms = 0,
       nr_stop_requested =
         (if status = N_TIMED_OUT then pdn_stop_requested (evaluate_failure policy TIMEOUT) else False),
       nr_evidence_summary = No_summary, nr_child_execution_id = None\<rparr>)"

text \<open>What one capability call does within its timeout.\<close>

datatype 'o invoke_outcome =
    Returned "'o cap_result" | Invocation_error failure_kind | Invoke_timed_out | Raised

definition capability_node_result ::
  "work_item \<Rightarrow> node_policy \<Rightarrow> pyfloat \<Rightarrow> 'o invoke_outcome \<Rightarrow> 'o node_result" where
  "capability_node_result work policy duration outcome =
     (case outcome of
        Returned r \<Rightarrow>
          \<lparr>nr_node_id = node_id (wi_node work), nr_definition_index = wi_node_index work,
           nr_item_index = wi_item_index work, nr_status = N_SUCCEEDED, nr_output = cr_output r,
           nr_signals = cr_signals r, nr_reason_code = ''completed'', nr_degraded = False,
           nr_duration_ms = duration, nr_stop_requested = False,
           nr_evidence_summary = cr_evidence_summary r, nr_child_execution_id = None\<rparr>
      | Invocation_error kind \<Rightarrow>
          failure_result work policy kind
            (if kind \<in> {UNAVAILABLE, CIRCUIT_OPEN} then N_SKIPPED else N_FAILED) duration
      | Invoke_timed_out \<Rightarrow> failure_result work policy TIMEOUT N_TIMED_OUT duration
      | Raised \<Rightarrow> failure_result work policy ERROR N_FAILED duration)"

definition child_status :: "flow_status \<Rightarrow> node_status" where
  "child_status status =
     (if status = F_COMPLETED then N_SUCCEEDED
      else if status = F_TIMED_OUT then N_TIMED_OUT else N_PARTIAL)"

definition child_node_result :: "work_item \<Rightarrow> pyfloat \<Rightarrow> 'o flow_result \<Rightarrow> 'o node_result" where
  "child_node_result work duration child =
     (let status = child_status (fv_status (fr_evidence child)) in
      \<lparr>nr_node_id = node_id (wi_node work), nr_definition_index = wi_node_index work,
       nr_item_index = wi_item_index work, nr_status = status, nr_output = fr_output child,
       nr_signals = fr_signals child,
       nr_reason_code = (if status = N_SUCCEEDED then ''completed'' else ''child_flow_incomplete''),
       nr_degraded = (status \<noteq> N_SUCCEEDED), nr_duration_ms = duration, nr_stop_requested = False,
       nr_evidence_summary = No_summary,
       nr_child_execution_id = Some (fv_execution_id (fr_evidence child))\<rparr>)"

definition outcome_of :: "'o node_result \<Rightarrow> 'o work_outcome" where
  "outcome_of r = \<lparr>wo_result = r, wo_children = []\<rparr>"

text \<open>
  \<open>_execute_work\<close>: \<open>no_time\<close> says that no time is left when the task starts, \<open>child\<close> runs a
  nested Flow. An exception of the nested Flow is caught as any other; a nested Flow that has not
  finished leaves this task unfinished.
\<close>

definition execute_work ::
  "'o runtime \<Rightarrow> flow_definition \<Rightarrow> flow_input \<Rightarrow> pystr \<Rightarrow> bool \<Rightarrow> pyfloat \<Rightarrow> 'o invoke_outcome
     \<Rightarrow> (flow_definition \<Rightarrow> flow_input \<Rightarrow> runtime_error + 'o flow_result)
     \<Rightarrow> work_item \<Rightarrow> runtime_error + 'o work_outcome" where
  "execute_work rt flow flow_input execution_id no_time duration outcome child work =
     bind_res (policy_for rt flow (wi_node work)) (\<lambda>policy.
       if no_time then Inr (outcome_of (failure_result work policy TIMEOUT N_TIMED_OUT duration))
       else case wi_node work of
         Capability_node c \<Rightarrow>
           if cn_capability_id c \<notin> set (rt_capabilities rt)
           then Inr (outcome_of (failure_result work policy UNAVAILABLE N_SKIPPED duration))
           else (case wi_item work of
                   None \<Rightarrow> Inr (outcome_of (failure_result work policy ERROR N_FAILED duration))
                 | Some item \<Rightarrow> Inr (outcome_of (capability_node_result work policy duration outcome)))
       | Flow_node f \<Rightarrow>
           (case resolve_flow (rt_registry rt) f of
              Inl e \<Rightarrow> Inr (outcome_of (failure_result work policy ERROR N_FAILED duration))
            | Inr child_flow \<Rightarrow>
                (case child child_flow (for_child execution_id ''nested-flow'' flow_input) of
                   Inl Still_waiting \<Rightarrow> Inl Still_waiting
                 | Inl e \<Rightarrow> Inr (outcome_of (failure_result work policy ERROR N_FAILED duration))
                 | Inr r \<Rightarrow> Inr \<lparr>wo_result = child_node_result work duration r,
                                wo_children = fr_evidence r # fr_children r\<rparr>)))"

subsection \<open>The scheduling loop\<close>

record 'o exec_state =
  es_results :: "nat \<rightharpoonup> 'o node_result"
  es_children :: "nat \<rightharpoonup> flow_evidence list"
  es_active :: "work_item list"
  es_next :: nat
  es_stopped :: bool
  es_timed_out :: bool

record round =
  rd_expired :: bool
  rd_finished :: "nat list"
  rd_late :: "nat list"

function fill_active :: "int \<Rightarrow> work_item list \<Rightarrow> 'o exec_state \<Rightarrow> 'o exec_state" where
  "fill_active max_concurrency work s =
     (if es_next s < length work \<and> int (length (es_active s)) < max_concurrency
      then fill_active max_concurrency work
             (s\<lparr>es_active := es_active s @ [work ! es_next s], es_next := es_next s + 1\<rparr>)
      else s)"
  by pat_completeness auto
termination
  by (relation "measure (\<lambda>(m, work, s). length work - es_next s)") auto

declare fill_active.simps [simp del]

definition put_outcome :: "work_item \<Rightarrow> 'o work_outcome \<Rightarrow> 'o exec_state \<Rightarrow> 'o exec_state" where
  "put_outcome item outcome s =
     s\<lparr>es_active := filter (\<lambda>w. wi_order w \<noteq> wi_order item) (es_active s),
       es_results := (es_results s)(wi_order item \<mapsto> wo_result outcome),
       es_children := (es_children s)(wi_order item \<mapsto> wo_children outcome)\<rparr>"

definition put_fallback :: "work_item \<Rightarrow> 'o node_result \<Rightarrow> 'o exec_state \<Rightarrow> 'o exec_state" where
  "put_fallback item r s =
     s\<lparr>es_active := filter (\<lambda>w. wi_order w \<noteq> wi_order item) (es_active s),
       es_results := (es_results s)(wi_order item \<mapsto> r)\<rparr>"

definition matched_signal :: "node_policy \<Rightarrow> 'o node_result \<Rightarrow> bool" where
  "matched_signal policy r \<longleftrightarrow> set (nr_signals r) \<inter> set (np_stop policy) \<noteq> {}"

definition stops :: "node_policy \<Rightarrow> 'o node_result \<Rightarrow> bool" where
  "stops policy r \<longleftrightarrow> matched_signal policy r \<or> nr_stop_requested r"

definition process_done ::
  "'o runtime \<Rightarrow> flow_definition \<Rightarrow> (work_item \<Rightarrow> runtime_error + 'o work_outcome)
     \<Rightarrow> work_item \<Rightarrow> 'o exec_state \<Rightarrow> runtime_error + 'o exec_state" where
  "process_done rt flow task item s =
     bind_res (task item) (\<lambda>outcome.
     bind_res (policy_for rt flow (wi_node item)) (\<lambda>policy.
       let s' = put_outcome item outcome s in
       Inr (if stops policy (wo_result outcome) then s'\<lparr>es_stopped := True\<rparr> else s')))"

definition settle_one ::
  "'o runtime \<Rightarrow> flow_definition \<Rightarrow> (work_item \<Rightarrow> runtime_error + 'o work_outcome) \<Rightarrow> nat list
     \<Rightarrow> node_status \<Rightarrow> pystr \<Rightarrow> work_item \<Rightarrow> 'o exec_state \<Rightarrow> runtime_error + 'o exec_state" where
  "settle_one rt flow task late fallback_status fallback_reason item s =
     (if wi_order item \<in> set late
      then bind_res (task item) (\<lambda>outcome. Inr (put_outcome item outcome s))
      else bind_res (fallback_result rt flow item fallback_status fallback_reason)
             (\<lambda>r. Inr (put_fallback item r s)))"

definition settle_active ::
  "'o runtime \<Rightarrow> flow_definition \<Rightarrow> (work_item \<Rightarrow> runtime_error + 'o work_outcome) \<Rightarrow> nat list
     \<Rightarrow> node_status \<Rightarrow> pystr \<Rightarrow> 'o exec_state \<Rightarrow> runtime_error + 'o exec_state" where
  "settle_active rt flow task late fallback_status fallback_reason s =
     fold_res (settle_one rt flow task late fallback_status fallback_reason) (es_active s) s"

definition done_items :: "round \<Rightarrow> 'o exec_state \<Rightarrow> work_item list" where
  "done_items r s =
     sort_key wi_order (filter (\<lambda>w. wi_order w \<in> set (rd_finished r)) (es_active s))"

definition loop_step ::
  "'o runtime \<Rightarrow> flow_definition \<Rightarrow> work_item list \<Rightarrow> (work_item \<Rightarrow> runtime_error + 'o work_outcome)
     \<Rightarrow> round \<Rightarrow> 'o exec_state \<Rightarrow> runtime_error + 'o exec_state" where
  "loop_step rt flow work task r s =
     (if es_active s = [] then Inr s
      else if rd_expired r \<or> done_items r s = []
      then settle_active rt flow task (rd_late r) N_TIMED_OUT ''node_timeout'' (s\<lparr>es_timed_out := True\<rparr>)
      else bind_res (fold_res (process_done rt flow task) (done_items r s) s) (\<lambda>s.
             if es_stopped s
             then settle_active rt flow task (rd_late r) N_CANCELLED ''node_cancelled'' s
             else Inr (fill_active (rt_max_concurrency rt) work s)))"

definition initial_state :: "'o runtime \<Rightarrow> work_item list \<Rightarrow> 'o exec_state" where
  "initial_state rt work =
     fill_active (rt_max_concurrency rt) work
       \<lparr>es_results = Map.empty, es_children = Map.empty, es_active = [], es_next = 0,
        es_stopped = False, es_timed_out = False\<rparr>"

definition run_loop ::
  "'o runtime \<Rightarrow> flow_definition \<Rightarrow> work_item list \<Rightarrow> (work_item \<Rightarrow> runtime_error + 'o work_outcome)
     \<Rightarrow> round list \<Rightarrow> runtime_error + 'o exec_state" where
  "run_loop rt flow work task rounds = fold_res (loop_step rt flow work task) rounds (initial_state rt work)"

text \<open>The work that was never started is settled after the loop.\<close>

definition settle_unstarted ::
  "'o runtime \<Rightarrow> flow_definition \<Rightarrow> work_item list \<Rightarrow> 'o exec_state \<Rightarrow> runtime_error + 'o exec_state" where
  "settle_unstarted rt flow work s =
     (let fallback_status = (if es_timed_out s then N_TIMED_OUT else N_CANCELLED);
          fallback_reason = (if es_timed_out s then ''node_timeout'' else ''node_cancelled'')
      in fold_res (\<lambda>item s. bind_res (fallback_result rt flow item fallback_status fallback_reason)
                     (\<lambda>r. Inr (s\<lparr>es_results := (es_results s)(wi_order item \<mapsto> r)\<rparr>)))
           (drop (es_next s) work) s)"

definition ordered_results :: "work_item list \<Rightarrow> 'o exec_state \<Rightarrow> 'o node_result list" where
  "ordered_results work s = List.map_filter (es_results s) [0..<length work]"

definition ordered_children :: "work_item list \<Rightarrow> 'o exec_state \<Rightarrow> flow_evidence list" where
  "ordered_children work s = concat (List.map_filter (es_children s) [0..<length work])"

subsection \<open>Evidence\<close>

definition aggregate_node_status :: "'o node_result list \<Rightarrow> node_status \<times> pystr" where
  "aggregate_node_status node_results =
     (let statuses = remdups (map nr_status node_results) in
      if node_results = [] \<or> set statuses = {N_SUCCEEDED} then (N_SUCCEEDED, ''completed'')
      else
        (if length statuses = 1 then hd statuses else N_PARTIAL,
         case List.find (\<lambda>r. nr_status r \<noteq> N_SUCCEEDED) node_results of
           Some r \<Rightarrow> nr_reason_code r | None \<Rightarrow> ''node_partial''))"

definition count_status :: "node_status set \<Rightarrow> 'o node_result list \<Rightarrow> nat" where
  "count_status statuses rs = length (filter (\<lambda>r. nr_status r \<in> statuses) rs)"

text \<open>\<open>_evidence_templates_for\<close>, for one node; the per-Flow cache does not change the result.\<close>

definition evidence_template ::
  "'o runtime \<Rightarrow> flow_definition \<Rightarrow> nat \<Rightarrow> node \<Rightarrow> runtime_error + node_evidence" where
  "evidence_template rt flow node_index n =
     bind_res
       (case n of
          Capability_node c \<Rightarrow>
            (case resolve_capability (rt_registry rt) c of
               Inl e \<Rightarrow> Inl (Runtime_contract_error e)
             | Inr t \<Rightarrow> Inr (cd_capability_id t, cd_contract_version t, cd_implementation_version t))
        | Flow_node f \<Rightarrow>
            (case resolve_flow (rt_registry rt) f of
               Inl e \<Rightarrow> Inl (Runtime_contract_error e)
             | Inr t \<Rightarrow> Inr (fd_flow_id t, fd_contract_version t, fd_version t)))
       (\<lambda>(target_id, target_contract_version, target_implementation_version).
     bind_res (policy_for rt flow n) (\<lambda>policy. Inr
       \<lparr>ne_flow_id = fd_flow_id flow, ne_flow_version = fd_version flow,
        ne_execution_id = ''flow-template'', ne_node_id = node_id n, ne_definition_index = node_index,
        ne_target_id = target_id, ne_target_contract_version = target_contract_version,
        ne_target_implementation_version = target_implementation_version,
        ne_effective_policy = policy, ne_status = N_SUCCEEDED, ne_degraded = False,
        ne_reason_code = ''completed'', ne_duration_ms = 0, ne_item_count = 0, ne_succeeded_items = 0,
        ne_failed_items = 0, ne_skipped_items = 0, ne_cancelled_items = 0, ne_signals = [],
        ne_evidence_summary = None, ne_child_execution_id = None, ne_details_truncated = False,
        ne_evidence_rejected_reason = None\<rparr>))"

definition node_core_fields :: "pystr \<Rightarrow> 'o node_result list \<Rightarrow> core_fields" where
  "node_core_fields execution_id node_results =
     (case node_results of
        [r] \<Rightarrow>
          \<lparr>cf_execution_id = execution_id, cf_status = nr_status r, cf_degraded = nr_degraded r,
           cf_reason_code = nr_reason_code r, cf_duration_ms = nr_duration_ms r, cf_item_count = 1,
           cf_succeeded_items = (if nr_status r = N_SUCCEEDED then 1 else 0),
           cf_failed_items = (if nr_status r \<in> {N_FAILED, N_TIMED_OUT, N_PARTIAL} then 1 else 0),
           cf_skipped_items = (if nr_status r = N_SKIPPED then 1 else 0),
           cf_cancelled_items = (if nr_status r = N_CANCELLED then 1 else 0),
           cf_child_execution_id = nr_child_execution_id r\<rparr>
      | rs \<Rightarrow>
          \<lparr>cf_execution_id = execution_id, cf_status = fst (aggregate_node_status rs),
           cf_degraded = list_ex nr_degraded rs, cf_reason_code = snd (aggregate_node_status rs),
           cf_duration_ms = sum_list (map nr_duration_ms rs), cf_item_count = length rs,
           cf_succeeded_items = count_status {N_SUCCEEDED} rs,
           cf_failed_items = count_status {N_FAILED, N_TIMED_OUT} rs,
           cf_skipped_items = count_status {N_SKIPPED} rs,
           cf_cancelled_items = count_status {N_CANCELLED} rs,
           cf_child_execution_id = Option.bind
             (List.find (\<lambda>r. nr_child_execution_id r \<noteq> None) rs) nr_child_execution_id\<rparr>)"

definition node_signals :: "'o node_result list \<Rightarrow> pystr list" where
  "node_signals node_results =
     (case node_results of [r] \<Rightarrow> nr_signals r | rs \<Rightarrow> dict_fromkeys (concat (map nr_signals rs)))"

definition node_summary :: "'o node_result list \<Rightarrow> raw_summary" where
  "node_summary node_results =
     (case node_results of [r] \<Rightarrow> nr_evidence_summary r
      | rs \<Rightarrow> (case List.find (\<lambda>r. nr_evidence_summary r \<noteq> No_summary) rs of
                Some r \<Rightarrow> nr_evidence_summary r | None \<Rightarrow> No_summary))"

text \<open>One node of \<open>_build_node_evidence\<close>; signals of a single result are trusted.\<close>

definition evidence_for_node ::
  "'o runtime \<Rightarrow> flow_definition \<Rightarrow> pystr \<Rightarrow> 'o node_result list \<Rightarrow> nat \<times> node
     \<Rightarrow> runtime_error + node_evidence" where
  "evidence_for_node rt flow execution_id results indexed =
     (let (node_index, n) = indexed;
          node_results = filter (\<lambda>r. nr_definition_index r = node_index) results
      in bind_res (evidence_template rt flow node_index n) (\<lambda>template. Inr
           (build_node_evidence (node_json_size (rt_codec rt)) default_max_evidence_size template
              (length node_results = 1) (node_summary node_results) (node_signals node_results)
              (node_core_fields execution_id node_results))))"

definition build_all_evidence ::
  "'o runtime \<Rightarrow> flow_definition \<Rightarrow> pystr \<Rightarrow> 'o node_result list \<Rightarrow> runtime_error + node_evidence list" where
  "build_all_evidence rt flow execution_id results =
     map_res (evidence_for_node rt flow execution_id results) (enumerate 0 (fd_nodes flow))"

subsection \<open>Executing a Flow\<close>

record sched =
  sc_rounds :: "round list"
  sc_execution_id :: pystr
  sc_no_time :: "nat \<Rightarrow> bool"
  sc_duration :: "nat \<Rightarrow> pyfloat"
  sc_past_deadline :: bool
  sc_reducer_in_time :: bool
  sc_flow_duration :: pyfloat

datatype 'o env = Env (env_sched: sched) (env_invoke: "nat \<Rightarrow> 'o invoke_outcome") (env_child: "nat \<Rightarrow> 'o env option")

text \<open>
  The environment of a nested Flow is found at the order of its work item; where there is none,
  the nested Flow never finishes.
\<close>

text \<open>The status a finished loop gives the Flow.\<close>

definition flow_outcome :: "bool \<Rightarrow> bool \<Rightarrow> flow_status \<times> pystr" where
  "flow_outcome stopped timed_out =
     (if stopped then (F_STOPPED, ''stop_signal'')
      else if timed_out then (F_TIMED_OUT, ''flow_timeout'')
      else (F_COMPLETED, ''completed''))"

definition effective_reducer :: "'o runtime \<Rightarrow> flow_definition \<Rightarrow> 'o reducer \<Rightarrow> 'o reducer" where
  "effective_reducer rt flow reduce =
     (case map_of (rt_reducers rt) (case fd_reducer_capability_id flow of Some i \<Rightarrow> i | None \<Rightarrow> []) of
        Some r \<Rightarrow> r | None \<Rightarrow> reduce)"

text \<open>\<open>_execute_bound\<close>, once its loop and the settling have produced the state \<open>s\<close>.\<close>

definition finish_flow ::
  "'o runtime \<Rightarrow> sched \<Rightarrow> 'o reducer \<Rightarrow> flow_definition \<Rightarrow> flow_input \<Rightarrow> pystr option
     \<Rightarrow> work_item list \<Rightarrow> 'o exec_state \<Rightarrow> runtime_error + 'o flow_result" where
  "finish_flow rt sc reduce flow flow_input parent_execution_id work s =
     (let results = ordered_results work s;
          timed_out = (es_timed_out s
            \<or> (list_ex (\<lambda>r. nr_status r = N_TIMED_OUT) results \<and> sc_past_deadline sc))
      in if \<not> sc_reducer_in_time sc then Inl Flow_reducer_timeout
         else bind_res (case effective_reducer rt flow reduce flow results of
                          None \<Rightarrow> Inl Reducer_raised | Some reduction \<Rightarrow> Inr reduction) (\<lambda>reduction.
              bind_res (build_all_evidence rt flow (sc_execution_id sc) results) (\<lambda>nodes.
              let (status, reason) = flow_outcome (es_stopped s) timed_out;
                  evidence = \<lparr>fv_execution_id = sc_execution_id sc,
                    fv_parent_execution_id = parent_execution_id,
                    fv_flow_id = fd_flow_id flow, fv_flow_version = fd_version flow,
                    fv_direction = fc_direction (fin_context flow_input),
                    fv_stage = fc_stage (fin_context flow_input), fv_status = status,
                    fv_reason_code = reason, fv_duration_ms = sc_flow_duration sc,
                    fv_final_signals = cr_signals reduction, fv_nodes = sort_nodes nodes,
                    fv_evidence_persisted = True, fv_details_truncated = False\<rparr>
              in case bound_flow_evidence (json_size (rt_codec rt)) (sha256_hex (rt_codec rt))
                       (digest_signals (rt_codec rt)) (rt_max_evidence_size rt) evidence of
                   Inl _ \<Rightarrow> Inl Evidence_budget_exceeded
                 | Inr evidence \<Rightarrow> Inr
                     \<lparr>fr_output = cr_output reduction, fr_signals = cr_signals reduction,
                      fr_node_results = results, fr_evidence = evidence,
                      fr_children = ordered_children work s\<rparr>)))"

definition execute_bound ::
  "'o runtime \<Rightarrow> sched \<Rightarrow> 'o reducer \<Rightarrow> flow_definition \<Rightarrow> flow_input \<Rightarrow> pystr option
     \<Rightarrow> (work_item \<Rightarrow> runtime_error + 'o work_outcome) \<Rightarrow> runtime_error + 'o flow_result" where
  "execute_bound rt sc reduce flow flow_input parent_execution_id task =
     (let work = build_work flow flow_input in
      bind_res (run_loop rt flow work task (sc_rounds sc)) (\<lambda>s.
        if es_active s \<noteq> [] then Inl Still_waiting
        else bind_res (settle_unstarted rt flow work s)
               (finish_flow rt sc reduce flow flow_input parent_execution_id work)))"

primrec execute_flow ::
  "'o env \<Rightarrow> 'o runtime \<Rightarrow> 'o reducer \<Rightarrow> pystr option \<Rightarrow> flow_definition \<Rightarrow> flow_input
     \<Rightarrow> runtime_error + 'o flow_result" where
  "execute_flow (Env sc invoke child) rt reduce parent_execution_id flow flow_input =
     execute_bound rt sc reduce flow flow_input parent_execution_id
       (\<lambda>work. execute_work rt flow flow_input (sc_execution_id sc)
          (sc_no_time sc (wi_order work)) (sc_duration sc (wi_order work)) (invoke (wi_order work))
          (\<lambda>child_flow child_input.
             case map_option execute_flow (child (wi_order work)) of
               None \<Rightarrow> Inl Still_waiting
             | Some execute_child \<Rightarrow>
                 execute_child rt reduce (Some (sc_execution_id sc)) child_flow child_input)
          work)"

definition execute :: "'o env \<Rightarrow> 'o runtime \<Rightarrow> 'o reducer \<Rightarrow> flow_definition \<Rightarrow> flow_input
     \<Rightarrow> runtime_error + 'o flow_result" where
  "execute e rt reduce flow flow_input = execute_flow e rt reduce None flow flow_input"

end
