(* ===== verification/Flow_Scheduling.thy ===== *)
theory Flow_Scheduling
  imports Flow_Runtime
begin

text \<open>
  The laws of the scheduling loop of \<open>Flow_Runtime\<close>. The interface \<open>flow_tasks\<close> is what the loop
  asks of its work items and tasks: items are numbered by their place, and the result of a task
  names its item. Its lemmas (the accounting invariant, progress, what a clean run means) are
  proved once for every scheduler, and interpreted on \<open>build_work\<close> and \<open>execute_work\<close>.
\<close>

subsection \<open>Work items are numbered by their place\<close>

lemma node_work_orders: "map wi_order (node_work k j n items) = [k ..< k + length (node_work k j n items)]"
proof (cases n)
  case (Capability_node c)
  have "map (\<lambda>(i, item). k + i) (enumerate 0 items) = [k ..< k + length items]"
    by (rule nth_equalityI) (simp_all add: nth_enumerate_eq)
  then show ?thesis
    using Capability_node by (simp add: comp_def case_prod_unfold)
qed simp

lemma build_work_from_orders:
  "map wi_order (build_work_from k j ns items) = [k ..< k + length (build_work_from k j ns items)]"
proof (induction ns arbitrary: k j)
  case (Cons n ns)
  let ?w = "node_work k j n items"
  have "[k ..< k + length ?w] @ [k + length ?w ..< k + length ?w + m] = [k ..< k + (length ?w + m)]" for m
    by (metis add.assoc le_add1 upt_add_eq_append)
  then show ?case by (simp add: Let_def node_work_orders Cons.IH)
qed simp

lemma build_work_order: "i < length (build_work flow inp) \<Longrightarrow> wi_order (build_work flow inp ! i) = i"
proof -
  assume i: "i < length (build_work flow inp)"
  have "map wi_order (build_work flow inp) ! i = [0 ..< length (build_work flow inp)] ! i"
    using build_work_from_orders [of 0 0] by (simp add: build_work_def)
  with i show ?thesis by simp
qed

text \<open>The items of a Flow: every capability node with every input item, every nested Flow once.\<close>

definition node_calls :: "flow_definition \<Rightarrow> flow_input \<Rightarrow> (nat \<times> nat) list" where
  "node_calls flow inp =
     concat (map (\<lambda>(j, n). case n of
         Capability_node c \<Rightarrow> map (\<lambda>i. (j, i)) [0 ..< length (fin_items inp)]
       | Flow_node f \<Rightarrow> [(j, 0)]) (enumerate 0 (fd_nodes flow)))"

lemma build_work_from_calls:
  "map (\<lambda>w. (wi_node_index w, wi_item_index w)) (build_work_from k j ns items) =
     concat (map (\<lambda>(j, n). case n of
         Capability_node c \<Rightarrow> map (\<lambda>i. (j, i)) [0 ..< length items]
       | Flow_node f \<Rightarrow> [(j, 0)]) (enumerate j ns))"
proof (induction ns arbitrary: k j)
  case (Cons n ns)
  have "map (\<lambda>(i, item). (j, i)) (enumerate 0 items) = map (\<lambda>i. (j, i)) [0 ..< length items]"
    by (rule nth_equalityI) (simp_all add: nth_enumerate_eq)
  then show ?case
    by (cases n) (simp_all add: Let_def Cons.IH comp_def case_prod_unfold)
qed simp

lemma build_work_calls:
  "map (\<lambda>w. (wi_node_index w, wi_item_index w)) (build_work flow inp) = node_calls flow inp"
  by (simp add: build_work_def node_calls_def build_work_from_calls)

lemma build_work_nodes:
  "w \<in> set (build_work_from k j ns items) \<Longrightarrow> wi_node w \<in> set ns"
proof (induction ns arbitrary: k j)
  case (Cons n ns)
  then show ?case by (cases n) (auto simp: Let_def)
qed simp

subsection \<open>Starting tasks\<close>

lemma fill_active_invariant:
  assumes "P s"
    and "\<And>s. P s \<Longrightarrow> es_next s < length work \<Longrightarrow> int (length (es_active s)) < m \<Longrightarrow>
           P (s\<lparr>es_active := es_active s @ [work ! es_next s], es_next := es_next s + 1\<rparr>)"
  shows "P (fill_active m work s)"
  using assms
proof (induction m work s rule: fill_active.induct)
  case (1 m work s)
  then show ?case by (subst fill_active.simps) simp
qed

lemma fill_active_same [simp]:
  "es_results (fill_active m work s) = es_results s"
  "es_stopped (fill_active m work s) = es_stopped s"
  "es_timed_out (fill_active m work s) = es_timed_out s"
  by (rule fill_active_invariant [where P = "\<lambda>t. es_results t = es_results s"], simp_all,
      rule fill_active_invariant [where P = "\<lambda>t. es_stopped t = es_stopped s"], simp_all,
      rule fill_active_invariant [where P = "\<lambda>t. es_timed_out t = es_timed_out s"], simp_all)

lemma fill_active_full:
  "length work \<le> es_next (fill_active m work s) \<or> m \<le> int (length (es_active (fill_active m work s)))"
proof (induction m work s rule: fill_active.induct)
  case (1 m work s)
  then show ?case by (subst (1 2) fill_active.simps) auto
qed

subsection \<open>Interface: the tasks of a Flow\<close>

definition result_matches :: "work_item \<Rightarrow> 'o node_result \<Rightarrow> bool" where
  "result_matches w r \<longleftrightarrow>
     nr_node_id r = node_id (wi_node w) \<and> nr_definition_index r = wi_node_index w
     \<and> nr_item_index r = wi_item_index w"

lemma failure_result_matches [simp]: "result_matches w (failure_result w p k st d)"
  by (simp add: result_matches_def failure_result_def Let_def)

lemma fallback_result_matches: "fallback_result rt flow w st why = Inr r \<Longrightarrow> result_matches w r"
  by (auto simp: fallback_result_def res_simps result_matches_def)

lemma execute_work_matches:
  "execute_work rt flow inp eid nt d oc child w = Inr out \<Longrightarrow> result_matches w (wo_result out)"
  by (auto simp: execute_work_def res_simps outcome_of_def capability_node_result_def
        child_node_result_def Let_def
      split: if_splits node.splits option.splits sum.splits runtime_error.splits invoke_outcome.splits)
    (simp_all add: result_matches_def)

lemma fallback_result_fields:
  "fallback_result rt flow w st why = Inr r \<Longrightarrow>
     nr_status r = st \<and> nr_signals r = [] \<and> nr_output r = None \<and> nr_degraded r \<and> nr_reason_code r = why"
  by (auto simp: fallback_result_def res_simps)

text \<open>Results written under distinct keys.\<close>

lemma fold_write_results:
  assumes "fold_res (\<lambda>w s. bind_res (g w) (\<lambda>r. Inr (s\<lparr>es_results := (es_results s)(k w \<mapsto> r)\<rparr>))) ws s = Inr t"
    and "distinct (map k ws)"
  shows "(\<forall>w \<in> set ws. \<exists>r. g w = Inr r \<and> es_results t (k w) = Some r)
    \<and> (\<forall>i. i \<notin> k ` set ws \<longrightarrow> es_results t i = es_results s i)
    \<and> es_stopped t = es_stopped s \<and> es_timed_out t = es_timed_out s \<and> es_next t = es_next s"
  using assms
proof (induction ws arbitrary: s)
  case (Cons w ws)
  then obtain r where r: "g w = Inr r" by (cases "g w") simp_all
  have rest: "fold_res (\<lambda>w s. bind_res (g w) (\<lambda>r. Inr (s\<lparr>es_results := (es_results s)(k w \<mapsto> r)\<rparr>))) ws
                 (s\<lparr>es_results := (es_results s)(k w \<mapsto> r)\<rparr>) = Inr t"
    using Cons.prems(1) by (simp only: fold_res.simps bind_res.simps r)
  have new: "k w \<notin> k ` set ws" using Cons.prems(2) by simp
  note IH = Cons.IH [OF rest]
  have "es_results t (k w) = Some r" using IH new Cons.prems(2) by simp
  with IH r Cons.prems(2) show ?case by auto
qed simp

locale flow_tasks =
  fixes rt :: "'o runtime"
    and flow :: flow_definition
    and work :: "work_item list"
    and task :: "work_item \<Rightarrow> runtime_error + 'o work_outcome"
  assumes order: "i < length work \<Longrightarrow> wi_order (work ! i) = i"
    and task_matches: "task w = Inr out \<Longrightarrow> result_matches w (wo_result out)"
begin

text \<open>A result is what the task of its item computed, or a fallback for a task that was cut short.\<close>

definition origin :: "nat \<Rightarrow> 'o node_result \<Rightarrow> bool" where
  "origin i r \<longleftrightarrow>
     (\<exists>out. task (work ! i) = Inr out \<and> r = wo_result out)
     \<or> (\<exists>st why. (st, why) \<in> {(N_TIMED_OUT, ''node_timeout''), (N_CANCELLED, ''node_cancelled'')} \<and> fallback_result rt flow (work ! i) st why = Inr r)"

lemma origin_matches: "origin i r \<Longrightarrow> result_matches (work ! i) r"
  by (auto simp: origin_def dest: task_matches fallback_result_matches)

definition acct :: "'o exec_state \<Rightarrow> bool" where
  "acct s \<longleftrightarrow>
     es_next s \<le> length work
     \<and> distinct (map wi_order (es_active s))
     \<and> (\<forall>w \<in> set (es_active s). wi_order w < es_next s \<and> work ! wi_order w = w)
     \<and> dom (es_results s) \<union> wi_order ` set (es_active s) = {..<es_next s}
     \<and> dom (es_results s) \<inter> wi_order ` set (es_active s) = {}
     \<and> int (length (es_active s)) \<le> max 0 (rt_max_concurrency rt)
     \<and> (\<forall>i r. es_results s i = Some r \<longrightarrow> origin i r)"

text \<open>No stop and no deadline so far: every result is its task's own, and none asks to stop.\<close>

definition clean :: "'o exec_state \<Rightarrow> bool" where
  "clean s \<longleftrightarrow>
     (\<not> es_stopped s \<and> \<not> es_timed_out s \<longrightarrow>
        (\<forall>i r. es_results s i = Some r \<longrightarrow>
           (\<exists>out p. task (work ! i) = Inr out \<and> r = wo_result out
              \<and> policy_for rt flow (wi_node (work ! i)) = Inr p \<and> \<not> stops p r)))"

lemma acct_active: "acct s \<Longrightarrow> w \<in> set (es_active s) \<Longrightarrow> work ! wi_order w = w \<and> wi_order w < length work"
  by (auto simp: acct_def)

lemma acct_fill_one:
  assumes "acct s" and "es_next s < length work" and "int (length (es_active s)) < rt_max_concurrency rt"
  shows "acct (s\<lparr>es_active := es_active s @ [work ! es_next s], es_next := es_next s + 1\<rparr>)"
proof -
  have new: "es_next s \<notin> wi_order ` set (es_active s)" "es_next s \<notin> dom (es_results s)"
    using assms(1) unfolding acct_def by blast+
  have o: "wi_order (work ! es_next s) = es_next s" using order assms(2) by simp
  have d: "dom (es_results s) \<union> wi_order ` set (es_active s) = {..<es_next s}"
    using assms(1) by (simp add: acct_def)
  show ?thesis
    using assms new o unfolding acct_def by (auto simp: lessThan_Suc d [symmetric])
qed

lemma acct_fill: "acct s \<Longrightarrow> acct (fill_active (rt_max_concurrency rt) work s)"
  by (rule fill_active_invariant [where P = acct]) (assumption, rule acct_fill_one)

lemma acct_init: "acct (initial_state rt work)"
  unfolding initial_state_def by (rule acct_fill) (simp add: acct_def)

lemma clean_init: "clean (initial_state rt work)"
  by (simp add: clean_def initial_state_def)

lemma acct_put:
  assumes "acct s" and "item \<in> set (es_active s)" and "origin (wi_order item) r"
    and "es_active s' = filter (\<lambda>w. wi_order w \<noteq> wi_order item) (es_active s)"
    and "es_results s' = (es_results s)(wi_order item \<mapsto> r)" and "es_next s' = es_next s"
  shows "acct s'"
proof -
  have w: "work ! wi_order item = item" using acct_active [OF assms(1,2)] by simp
  have d: "dom (es_results s) \<union> wi_order ` set (es_active s) = {..<es_next s}"
    using assms(1) by (simp add: acct_def)
  have dom': "dom (es_results s') \<union> wi_order ` set (es_active s') = {..<es_next s'}"
    using assms(2) by (auto simp: assms(4-6) d [symmetric])
  have disj: "dom (es_results s') \<inter> wi_order ` set (es_active s') = {}"
    using assms(1) by (auto simp: assms(4,5) acct_def)
  have "distinct (map wi_order (es_active s'))"
    using assms(1) by (simp add: assms(4) acct_def distinct_map_filter)
  moreover have "int (length (es_active s')) \<le> max 0 (rt_max_concurrency rt)"
  proof -
    have "int (length (es_active s')) \<le> int (length (es_active s))" by (simp add: assms(4))
    also have "\<dots> \<le> max 0 (rt_max_concurrency rt)" using assms(1) by (simp add: acct_def)
    finally show ?thesis .
  qed
  ultimately show ?thesis
    using assms(1,3) w dom' disj unfolding acct_def assms(4-6) by auto
qed

lemma acct_finite: "acct s \<Longrightarrow> finite (dom (es_results s))"
proof -
  assume "acct s"
  then have "dom (es_results s) \<subseteq> {..<es_next s}" unfolding acct_def by blast
  then show ?thesis by (rule finite_subset) simp
qed

lemma acct_fresh: "acct s \<Longrightarrow> item \<in> set (es_active s) \<Longrightarrow> wi_order item \<notin> dom (es_results s)"
  unfolding acct_def by blast

text \<open>The two ways a running task gets its result.\<close>

lemma process_done_put:
  assumes "process_done rt flow task item s = Inr s'" and "acct s" and "item \<in> set (es_active s)"
  shows "acct s' \<and> es_active s' = filter (\<lambda>w. wi_order w \<noteq> wi_order item) (es_active s)
         \<and> es_next s' = es_next s \<and> es_timed_out s' = es_timed_out s
         \<and> card (dom (es_results s')) = card (dom (es_results s)) + 1"
proof -
  obtain out where out: "task item = Inr out"
    and r: "es_results s' = (es_results s)(wi_order item \<mapsto> wo_result out)"
    and rest: "es_active s' = filter (\<lambda>w. wi_order w \<noteq> wi_order item) (es_active s)"
      "es_next s' = es_next s" "es_timed_out s' = es_timed_out s"
    using assms(1) by (auto simp: process_done_def res_simps put_outcome_def Let_def split: if_splits)
  have "origin (wi_order item) (wo_result out)"
    using out acct_active [OF assms(2,3)] by (auto simp: origin_def)
  then have "acct s'" by (rule acct_put [OF assms(2,3) _ rest(1) r rest(2)])
  moreover have "wi_order item \<notin> dom (es_results s)" "finite (dom (es_results s))"
    using acct_fresh [OF assms(2,3)] acct_finite [OF assms(2)] by simp_all
  ultimately show ?thesis using r rest by simp
qed

lemma settle_one_put:
  assumes "settle_one rt flow task late st why item s = Inr s'" and "acct s" and "item \<in> set (es_active s)"
    and "(st, why) \<in> {(N_TIMED_OUT, ''node_timeout''), (N_CANCELLED, ''node_cancelled'')}"
  shows "acct s' \<and> es_active s' = filter (\<lambda>w. wi_order w \<noteq> wi_order item) (es_active s)
         \<and> es_next s' = es_next s \<and> es_stopped s' = es_stopped s \<and> es_timed_out s' = es_timed_out s"
proof -
  have w: "work ! wi_order item = item" using acct_active [OF assms(2,3)] by simp
  have "\<exists>r. origin (wi_order item) r \<and> es_results s' = (es_results s)(wi_order item \<mapsto> r)
      \<and> es_active s' = filter (\<lambda>w. wi_order w \<noteq> wi_order item) (es_active s)
      \<and> es_next s' = es_next s \<and> es_stopped s' = es_stopped s \<and> es_timed_out s' = es_timed_out s"
  proof (cases "wi_order item \<in> set late")
    case True
    with assms(1) obtain out where "task item = Inr out" "s' = put_outcome item out s"
      by (auto simp: settle_one_def res_simps)
    then show ?thesis by (intro exI [of _ "wo_result out"]) (simp add: origin_def w put_outcome_def)
  next
    case False
    with assms(1) obtain r where "fallback_result rt flow item st why = Inr r" "s' = put_fallback item r s"
      by (auto simp: settle_one_def res_simps)
    then show ?thesis
      using assms(4) by (intro exI [of _ r]) (auto simp: origin_def w put_fallback_def)
  qed
  then obtain r where r: "origin (wi_order item) r" "es_results s' = (es_results s)(wi_order item \<mapsto> r)"
    and rest: "es_active s' = filter (\<lambda>w. wi_order w \<noteq> wi_order item) (es_active s)"
      "es_next s' = es_next s" "es_stopped s' = es_stopped s" "es_timed_out s' = es_timed_out s"
    by blast
  from acct_put [OF assms(2,3) r(1) rest(1) r(2) rest(2)] rest show ?thesis by simp
qed

text \<open>A loop over distinct running items that gives each its result.\<close>

lemma fold_put:
  assumes put: "\<And>item s s'. f item s = Inr s' \<Longrightarrow> acct s \<Longrightarrow> item \<in> set (es_active s) \<Longrightarrow>
      acct s' \<and> es_active s' = filter (\<lambda>w. wi_order w \<noteq> wi_order item) (es_active s) \<and> es_next s' = es_next s"
    and "fold_res f items s = Inr s'" and "distinct (map wi_order items)"
    and "set items \<subseteq> set (es_active s)" and "acct s"
  shows "acct s' \<and> es_active s' = filter (\<lambda>w. wi_order w \<notin> wi_order ` set items) (es_active s)
         \<and> es_next s' = es_next s"
  using assms(2-)
proof (induction items arbitrary: s)
  case (Cons item items)
  then obtain t where t: "f item s = Inr t" "fold_res f items t = Inr s'" by (auto simp: res_simps)
  with put [OF t(1)] Cons.prems have p: "acct t"
    "es_active t = filter (\<lambda>w. wi_order w \<noteq> wi_order item) (es_active s)" "es_next t = es_next s"
    by auto
  moreover have "set items \<subseteq> set (es_active t)" using Cons.prems p(2) by (auto simp: image_iff)
  ultimately have IH: "acct s' \<and> es_active s' = filter (\<lambda>w. wi_order w \<notin> wi_order ` set items) (es_active t)
         \<and> es_next s' = es_next t"
    using Cons.IH [OF t(2)] Cons.prems(2) by simp
  then show ?case by (simp add: p(2,3) conj_commute)
qed simp

lemma settle_active_put:
  assumes "settle_active rt flow task late st why s = Inr s'" and "acct s"
    and "(st, why) \<in> {(N_TIMED_OUT, ''node_timeout''), (N_CANCELLED, ''node_cancelled'')}"
  shows "acct s' \<and> es_active s' = [] \<and> es_next s' = es_next s"
proof -
  have "distinct (map wi_order (es_active s))" using assms(2) by (simp add: acct_def)
  from fold_put [OF _ assms(1) [unfolded settle_active_def] this _ assms(2)] settle_one_put [OF _ _ _ assms(3)]
  have "acct s' \<and> es_active s' = filter (\<lambda>w. wi_order w \<notin> wi_order ` set (es_active s)) (es_active s)
         \<and> es_next s' = es_next s"
    by blast
  moreover have "filter (\<lambda>w. wi_order w \<notin> wi_order ` set (es_active s)) (es_active s) = []"
    by (auto simp: filter_empty_conv)
  ultimately show ?thesis by simp
qed

lemma settle_active_flags:
  "settle_active rt flow task late st why s = Inr s' \<Longrightarrow> es_stopped s' = es_stopped s \<and> es_timed_out s' = es_timed_out s"
  unfolding settle_active_def
  by (erule fold_res_invariant [where P = "\<lambda>t. es_stopped t = es_stopped s \<and> es_timed_out t = es_timed_out s"])
    (auto simp: settle_one_def res_simps put_outcome_def put_fallback_def split: if_splits)

lemma done_items_ok:
  assumes "acct s"
  shows "set (done_items r s) \<subseteq> set (es_active s)" and "distinct (map wi_order (done_items r s))"
proof -
  show "set (done_items r s) \<subseteq> set (es_active s)" by (auto simp: done_items_def)
  have "inj_on wi_order (set (es_active s))" "distinct (es_active s)"
    using assms by (auto simp: acct_def distinct_map)
  then show "distinct (map wi_order (done_items r s))"
    by (auto simp: done_items_def distinct_map intro: inj_on_subset)
qed

text \<open>One turn of the loop.\<close>

lemma process_all:
  assumes "fold_res (process_done rt flow task) (done_items r s) s = Inr t" and "acct s"
  shows "acct t" and "es_next t = es_next s" and "es_timed_out t = es_timed_out s"
proof -
  from fold_put [OF _ assms(1) done_items_ok(2,1) [OF assms(2)] assms(2)] process_done_put
  show "acct t" "es_next t = es_next s" by blast+
  from assms(1) show "es_timed_out t = es_timed_out s"
    by (rule fold_res_invariant [where P = "\<lambda>t. es_timed_out t = es_timed_out s"])
      (auto simp: process_done_def res_simps put_outcome_def Let_def split: if_splits)
qed

lemma process_clean:
  assumes "process_done rt flow task item s = Inr s'" and "clean s" and "acct s" and "item \<in> set (es_active s)"
  shows "clean s'"
proof -
  have w: "work ! wi_order item = item" using acct_active [OF assms(3,4)] by simp
  obtain out p where out: "task item = Inr out" "policy_for rt flow (wi_node item) = Inr p"
    and s': "s' = (if stops p (wo_result out) then (put_outcome item out s)\<lparr>es_stopped := True\<rparr>
        else put_outcome item out s)"
    using assms(1) by (auto simp: process_done_def res_simps Let_def)
  show ?thesis
  proof (cases "stops p (wo_result out)")
    case True
    with s' show ?thesis by (simp add: clean_def)
  next
    case False
    with s' w out assms(2) show ?thesis by (auto simp: clean_def put_outcome_def)
  qed
qed

lemma process_all_clean:
  assumes "fold_res (process_done rt flow task) items s = Inr t"
    and "acct s" and "clean s" and "set items \<subseteq> set (es_active s)" and "distinct (map wi_order items)"
  shows "clean t"
  using assms
proof (induction items arbitrary: s)
  case (Cons item items)
  then obtain u where u: "process_done rt flow task item s = Inr u"
    and rest: "fold_res (process_done rt flow task) items u = Inr t" by (auto simp: res_simps)
  have item: "item \<in> set (es_active s)" using Cons.prems(4) by simp
  note put = process_done_put [OF u Cons.prems(2) item]
  have "set items \<subseteq> set (es_active u)"
    using put Cons.prems(4,5) by (auto simp: image_iff)
  with Cons.IH [OF rest] put process_clean [OF u Cons.prems(3,2) item] Cons.prems(5) show ?case by simp
qed simp

lemma settled_clean: "es_stopped s \<or> es_timed_out s \<Longrightarrow> clean s"
  by (auto simp: clean_def)

lemma loop_step_ok:
  assumes "loop_step rt flow work task r s = Inr s'" and "acct s \<and> clean s"
  shows "acct s' \<and> clean s'"
proof (cases "es_active s = []")
  case True
  with assms show ?thesis by (simp add: loop_step_def)
next
  case active: False
  show ?thesis
  proof (cases "rd_expired r \<or> done_items r s = []")
    case True
    with assms(1) active have "settle_active rt flow task (rd_late r) N_TIMED_OUT ''node_timeout''
        (s\<lparr>es_timed_out := True\<rparr>) = Inr s'"
      by (simp add: loop_step_def)
    moreover have "acct (s\<lparr>es_timed_out := True\<rparr>)" using assms(2) by (simp add: acct_def)
    ultimately show ?thesis
      using settle_active_put settle_active_flags settled_clean by fastforce
  next
    case False
    with assms(1) active obtain t where t: "fold_res (process_done rt flow task) (done_items r s) s = Inr t"
      and s': "(if es_stopped t
        then settle_active rt flow task (rd_late r) N_CANCELLED ''node_cancelled'' t
        else Inr (fill_active (rt_max_concurrency rt) work t)) = Inr s'"
      by (auto simp: loop_step_def res_simps)
    have acct: "acct t" and clean: "clean t"
      using process_all [OF t] process_all_clean [OF t] done_items_ok assms(2) by auto
    show ?thesis
    proof (cases "es_stopped t")
      case True
      with s' have "settle_active rt flow task (rd_late r) N_CANCELLED ''node_cancelled'' t = Inr s'" by simp
      from settle_active_put [OF this acct] settle_active_flags [OF this] True show ?thesis
        using settled_clean by simp
    next
      case False
      with s' have "s' = fill_active (rt_max_concurrency rt) work t" by simp
      with acct clean acct_fill show ?thesis by (simp add: clean_def)
    qed
  qed
qed

lemma run_loop_ok: "run_loop rt flow work task rounds = Inr s \<Longrightarrow> acct s \<and> clean s"
  unfolding run_loop_def using acct_init clean_init loop_step_ok
  by (rule_tac fold_res_invariant [where P = "\<lambda>s. acct s \<and> clean s"]) auto

text \<open>A loop that ended without a stop or a timeout has started everything.\<close>

definition started :: "'o exec_state \<Rightarrow> bool" where
  "started s \<longleftrightarrow>
     (es_active s = [] \<and> \<not> es_stopped s \<and> \<not> es_timed_out s \<and> 1 \<le> rt_max_concurrency rt
        \<longrightarrow> es_next s = length work)"

lemma started_fill: "acct (fill_active (rt_max_concurrency rt) work s) \<Longrightarrow> started (fill_active (rt_max_concurrency rt) work s)"
  using fill_active_full [of work "rt_max_concurrency rt" s]
  by (auto simp: started_def acct_def)

lemma loop_step_started:
  assumes "loop_step rt flow work task r s = Inr s'" and "acct s \<and> clean s" and "started s"
  shows "started s'"
proof -
  have "acct s'" using loop_step_ok [OF assms(1,2)] by simp
  then show ?thesis
    using assms started_fill
    by (auto simp: loop_step_def res_simps split: if_splits dest!: settle_active_flags) (auto simp: started_def)
qed

lemma run_loop_started: "run_loop rt flow work task rounds = Inr s \<Longrightarrow> started s"
proof -
  assume "run_loop rt flow work task rounds = Inr s"
  moreover have "started (initial_state rt work)"
    using started_fill acct_init by (simp add: initial_state_def)
  ultimately have "(acct s \<and> clean s) \<and> started s"
    unfolding run_loop_def using acct_init clean_init loop_step_ok loop_step_started
    by (rule_tac fold_res_invariant [where P = "\<lambda>s. (acct s \<and> clean s) \<and> started s"]) auto
  then show ?thesis by simp
qed

subsection \<open>What stopped a Flow\<close>

text \<open>A stopped Flow has a result that asked for the stop.\<close>

definition stopped_by :: "'o exec_state \<Rightarrow> bool" where
  "stopped_by s \<longleftrightarrow>
     (es_stopped s \<longrightarrow> (\<exists>i r p. es_results s i = Some r
        \<and> policy_for rt flow (wi_node (work ! i)) = Inr p \<and> stops p r))"

lemma stopped_by_put:
  assumes "stopped_by s" and "acct s" and "item \<in> set (es_active s)"
    and "es_results s' = (es_results s)(wi_order item \<mapsto> r)"
    and "es_stopped s' \<longrightarrow> es_stopped s \<or> (\<exists>p. policy_for rt flow (wi_node item) = Inr p \<and> stops p r)"
  shows "stopped_by s'"
proof -
  have w: "work ! wi_order item = item" using acct_active [OF assms(2,3)] by simp
  have fresh: "es_results s (wi_order item) = None" using acct_fresh [OF assms(2,3)] by (simp add: domIff)
  show ?thesis
    unfolding stopped_by_def
  proof
    assume st: "es_stopped s'"
    show "\<exists>i r p. es_results s' i = Some r \<and> policy_for rt flow (wi_node (work ! i)) = Inr p \<and> stops p r"
    proof (cases "es_stopped s")
      case True
      then obtain i r' p where i: "es_results s i = Some r'" "policy_for rt flow (wi_node (work ! i)) = Inr p" "stops p r'"
        using assms(1) by (auto simp: stopped_by_def)
      with fresh have "es_results s' i = Some r'" by (auto simp: assms(4))
      with i show ?thesis by blast
    next
      case False
      with st assms(5) obtain p where "policy_for rt flow (wi_node item) = Inr p" "stops p r" by blast
      then have "es_results s' (wi_order item) = Some r
          \<and> policy_for rt flow (wi_node (work ! wi_order item)) = Inr p \<and> stops p r"
        by (simp add: assms(4) w)
      then show ?thesis by blast
    qed
  qed
qed

lemma process_done_stopped:
  assumes "process_done rt flow task item s = Inr s'" and "acct s" and "item \<in> set (es_active s)" and "stopped_by s"
  shows "stopped_by s'"
proof -
  obtain out p where "task item = Inr out" and p: "policy_for rt flow (wi_node item) = Inr p"
    and s': "s' = (if stops p (wo_result out) then (put_outcome item out s)\<lparr>es_stopped := True\<rparr>
        else put_outcome item out s)"
    using assms(1) by (auto simp: process_done_def res_simps Let_def)
  show ?thesis
    by (rule stopped_by_put [OF assms(4,2,3), where r = "wo_result out"])
      (auto simp: s' put_outcome_def p)
qed

lemma settle_one_stopped:
  assumes "settle_one rt flow task late st why item s = Inr s'" and "acct s" and "item \<in> set (es_active s)"
    and "stopped_by s"
  shows "stopped_by s'"
proof (cases "wi_order item \<in> set late")
  case True
  with assms(1) obtain out where s': "s' = put_outcome item out s" by (auto simp: settle_one_def res_simps)
  show ?thesis
    by (rule stopped_by_put [OF assms(4,2,3), where r = "wo_result out"]) (auto simp: s' put_outcome_def)
next
  case False
  with assms(1) obtain r where s': "s' = put_fallback item r s" by (auto simp: settle_one_def res_simps)
  show ?thesis
    by (rule stopped_by_put [OF assms(4,2,3), where r = r]) (auto simp: s' put_fallback_def)
qed

lemma fold_put_inv:
  assumes put: "\<And>item s s'. f item s = Inr s' \<Longrightarrow> acct s \<Longrightarrow> item \<in> set (es_active s) \<Longrightarrow>
      acct s' \<and> es_active s' = filter (\<lambda>w. wi_order w \<noteq> wi_order item) (es_active s)"
    and inv: "\<And>item s s'. f item s = Inr s' \<Longrightarrow> acct s \<Longrightarrow> item \<in> set (es_active s) \<Longrightarrow> Q s \<Longrightarrow> Q s'"
    and "fold_res f items s = Inr s'" and "distinct (map wi_order items)"
    and "set items \<subseteq> set (es_active s)" and "acct s" and "Q s"
  shows "Q s'"
  using assms(3-)
proof (induction items arbitrary: s)
  case (Cons item items)
  then obtain t where t: "f item s = Inr t" "fold_res f items t = Inr s'" by (auto simp: res_simps)
  have item: "item \<in> set (es_active s)" using Cons.prems(3) by simp
  note p = put [OF t(1) Cons.prems(4) item]
  have "set items \<subseteq> set (es_active t)" using p Cons.prems(2,3) by (auto simp: image_iff)
  then show ?case
    using Cons.IH [OF t(2)] Cons.prems(2) p inv [OF t(1) Cons.prems(4) item Cons.prems(5)] by simp
qed simp

lemma settle_active_stopped:
  assumes "settle_active rt flow task late st why s = Inr s'" and "acct s" and "stopped_by s"
    and "(st, why) \<in> {(N_TIMED_OUT, ''node_timeout''), (N_CANCELLED, ''node_cancelled'')}"
  shows "stopped_by s'"
proof (rule fold_put_inv [OF _ _ assms(1) [unfolded settle_active_def]])
  show "distinct (map wi_order (es_active s))" using assms(2) by (simp add: acct_def)
qed (use settle_one_put [OF _ _ _ assms(4)] settle_one_stopped assms(2,3) in blast)+

lemma loop_step_stopped:
  assumes "loop_step rt flow work task r s = Inr s'" and "acct s \<and> clean s" and "stopped_by s"
  shows "stopped_by s'"
proof (cases "es_active s = []")
  case True
  with assms show ?thesis by (simp add: loop_step_def)
next
  case active: False
  show ?thesis
  proof (cases "rd_expired r \<or> done_items r s = []")
    case True
    with assms(1) active have "settle_active rt flow task (rd_late r) N_TIMED_OUT ''node_timeout''
        (s\<lparr>es_timed_out := True\<rparr>) = Inr s'"
      by (simp add: loop_step_def)
    then show ?thesis
      by (rule settle_active_stopped) (use assms in \<open>simp_all add: acct_def stopped_by_def\<close>)
  next
    case False
    with assms(1) active obtain t where t: "fold_res (process_done rt flow task) (done_items r s) s = Inr t"
      and s': "(if es_stopped t
        then settle_active rt flow task (rd_late r) N_CANCELLED ''node_cancelled'' t
        else Inr (fill_active (rt_max_concurrency rt) work t)) = Inr s'"
      by (auto simp: loop_step_def res_simps)
    have acct: "acct t" using process_all [OF t] assms(2) by simp
    have "stopped_by t"
      using fold_put_inv [OF _ _ t done_items_ok(2,1), where Q = stopped_by]
        process_done_put process_done_stopped assms(2,3) by blast
    then show ?thesis
      using s' settle_active_stopped [OF _ acct] by (auto simp: stopped_by_def split: if_splits)
  qed
qed

lemma run_loop_stopped: "run_loop rt flow work task rounds = Inr s \<Longrightarrow> stopped_by s"
proof -
  assume "run_loop rt flow work task rounds = Inr s"
  moreover have "stopped_by (initial_state rt work)" by (simp add: stopped_by_def initial_state_def)
  ultimately have "(acct s \<and> clean s) \<and> stopped_by s"
    unfolding run_loop_def using acct_init clean_init loop_step_ok loop_step_stopped
    by (rule_tac fold_res_invariant [where P = "\<lambda>s. (acct s \<and> clean s) \<and> stopped_by s"]) auto
  then show ?thesis by simp
qed

subsection \<open>The work that was never started\<close>

lemma unstarted_orders:
  "wi_order ` set (drop k work) = {k ..< length work}" "distinct (map wi_order (drop k work))"
proof -
  have "map wi_order work = [0 ..< length work]"
    using order by (intro nth_equalityI) auto
  then have d: "map wi_order (drop k work) = [k ..< length work]"
    by (simp add: drop_map [symmetric])
  then have "set (map wi_order (drop k work)) = {k ..< length work}" by simp
  then show "wi_order ` set (drop k work) = {k ..< length work}" by simp
  show "distinct (map wi_order (drop k work))" by (simp add: d)
qed

lemma settle_unstarted_spec:
  assumes "settle_unstarted rt flow work s = Inr t" and "acct s" and "es_active s = []"
  shows "dom (es_results t) = {..<length work}"
    and "i < es_next s \<Longrightarrow> es_results t i = es_results s i"
    and "es_next s \<le> i \<Longrightarrow> i < length work \<Longrightarrow> \<exists>r. es_results t i = Some r
           \<and> fallback_result rt flow (work ! i) (if es_timed_out s then N_TIMED_OUT else N_CANCELLED)
               (if es_timed_out s then ''node_timeout'' else ''node_cancelled'') = Inr r"
    and "es_stopped t = es_stopped s \<and> es_timed_out t = es_timed_out s"
proof -
  note w = fold_write_results [OF assms(1) [unfolded settle_unstarted_def Let_def] unstarted_orders(2)]
  have dom_s: "dom (es_results s) = {..<es_next s}" and le: "es_next s \<le> length work"
    using assms(2,3) by (auto simp: acct_def)
  have in_drop: "work ! i \<in> set (drop (es_next s) work)" if "es_next s \<le> i" "i < length work" for i
    using nth_mem [of "i - es_next s" "drop (es_next s) work"] that by simp
  show low: "i < es_next s \<Longrightarrow> es_results t i = es_results s i" for i
    using w unstarted_orders(1) [of "es_next s"] by simp
  show high: "es_next s \<le> i \<Longrightarrow> i < length work \<Longrightarrow> \<exists>r. es_results t i = Some r
           \<and> fallback_result rt flow (work ! i) (if es_timed_out s then N_TIMED_OUT else N_CANCELLED)
               (if es_timed_out s then ''node_timeout'' else ''node_cancelled'') = Inr r" for i
    using w in_drop [of i] order [of i] by fastforce
  show "es_stopped t = es_stopped s \<and> es_timed_out t = es_timed_out s" using w by simp
  have "es_results t i = None" if "length work \<le> i" for i
  proof -
    have "i \<notin> dom (es_results s)" using that le unfolding dom_s by simp
    with that w unstarted_orders(1) [of "es_next s"] show ?thesis by (simp add: domIff)
  qed
  then show "dom (es_results t) = {..<length work}"
    using low high dom_s by (auto simp: domIff set_eq_iff) (metis domI domIff lessThan_iff not_le)+
qed

lemma settle_unstarted_origin:
  assumes "settle_unstarted rt flow work s = Inr t" and "acct s" and "es_active s = []"
    and "es_results t i = Some r"
  shows "origin i r"
proof -
  have "i < length work" using settle_unstarted_spec(1) [OF assms(1-3)] assms(4) by blast
  then show ?thesis
    using settle_unstarted_spec(2,3) [OF assms(1-3), of i] assms(2,4)
    by (cases "i < es_next s") (auto simp: acct_def origin_def split: if_splits)
qed

lemma map_filter_total: "\<forall>x \<in> set xs. f x \<noteq> None \<Longrightarrow> List.map_filter f xs = map (\<lambda>x. the (f x)) xs"
  by (induction xs) (auto simp: map_filter_simps)

lemma ordered_results_nth:
  assumes "dom (es_results t) = {..<length work}"
  shows "length (ordered_results work t) = length work"
    and "i < length work \<Longrightarrow> es_results t i = Some (ordered_results work t ! i)"
proof -
  have "\<forall>i \<in> set [0 ..< length work]. es_results t i \<noteq> None" using assms by (auto simp: domIff)
  then have m: "ordered_results work t = map (\<lambda>i. the (es_results t i)) [0 ..< length work]"
    unfolding ordered_results_def by (rule map_filter_total)
  then show "length (ordered_results work t) = length work" by simp
  show "es_results t i = Some (ordered_results work t ! i)" if "i < length work"
  proof -
    have "i \<in> dom (es_results t)" using that assms by simp
    with that m show ?thesis by auto
  qed
qed

subsection \<open>Progress\<close>

lemma fold_process_count:
  assumes "fold_res (process_done rt flow task) items s = Inr t" and "acct s"
    and "set items \<subseteq> set (es_active s)" and "distinct (map wi_order items)"
  shows "card (dom (es_results t)) = card (dom (es_results s)) + length items"
  using assms
proof (induction items arbitrary: s)
  case (Cons item items)
  then obtain u where u: "process_done rt flow task item s = Inr u"
    and rest: "fold_res (process_done rt flow task) items u = Inr t" by (auto simp: res_simps)
  have item: "item \<in> set (es_active s)" using Cons.prems(3) by simp
  note put = process_done_put [OF u Cons.prems(2) item]
  have "set items \<subseteq> set (es_active u)" using put Cons.prems(3,4) by (auto simp: image_iff)
  with Cons.IH [OF rest] put Cons.prems(4) show ?case by simp
qed simp

lemma loop_step_progress:
  assumes "loop_step rt flow work task r s = Inr s'" and "acct s" and "es_active s \<noteq> []"
  shows "es_active s' = [] \<or> card (dom (es_results s)) < card (dom (es_results s'))"
proof (cases "rd_expired r \<or> done_items r s = []")
  case True
  have "acct (s\<lparr>es_timed_out := True\<rparr>)" using assms(2) by (simp add: acct_def)
  with True assms settle_active_put show ?thesis by (auto simp: loop_step_def)
next
  case False
  with assms(1,3) obtain t where t: "fold_res (process_done rt flow task) (done_items r s) s = Inr t"
    and s': "(if es_stopped t
        then settle_active rt flow task (rd_late r) N_CANCELLED ''node_cancelled'' t
        else Inr (fill_active (rt_max_concurrency rt) work t)) = Inr s'"
    by (auto simp: loop_step_def res_simps)
  have "card (dom (es_results s)) < card (dom (es_results t))"
    using fold_process_count [OF t assms(2) done_items_ok [OF assms(2)]] False by simp
  with s' process_all(1) [OF t assms(2)] settle_active_put show ?thesis by (auto split: if_splits)
qed

lemma loop_idle: "es_active s = [] \<Longrightarrow> fold_res (loop_step rt flow work task) rounds s = Inr s"
  by (induction rounds) (simp_all add: loop_step_def)

subsection \<open>A stop in the first round\<close>

lemma initial_active:
  assumes "i < length work" and "int i < rt_max_concurrency rt"
  shows "work ! i \<in> set (es_active (initial_state rt work))" and "es_results (initial_state rt work) = Map.empty"
proof -
  let ?s = "initial_state rt work"
  show empty: "es_results ?s = Map.empty" by (simp add: initial_state_def)
  have acct: "acct ?s" by (rule acct_init)
  then have orders: "wi_order ` set (es_active ?s) = {..<es_next ?s}" and "distinct (map wi_order (es_active ?s))"
    unfolding acct_def empty by simp_all
  then have "length (es_active ?s) = es_next ?s"
    by (metis card_lessThan distinct_card length_map set_map)
  moreover have "length work \<le> es_next ?s \<or> rt_max_concurrency rt \<le> int (length (es_active ?s))"
    unfolding initial_state_def by (rule fill_active_full)
  ultimately have "i < es_next ?s" using assms by linarith
  then have "i \<in> wi_order ` set (es_active ?s)" unfolding orders by simp
  then obtain w where "w \<in> set (es_active ?s)" "wi_order w = i" by blast
  with acct_active [OF acct] show "work ! i \<in> set (es_active ?s)" by metis
qed

text \<open>The running tasks that a stop cuts short get the fallback of their item.\<close>

lemma settle_active_fallbacks:
  assumes "settle_active rt flow task [] N_CANCELLED ''node_cancelled'' s = Inr s'" and "acct s"
  shows "es_results s j = Some r \<Longrightarrow> es_results s' j = Some r"
    and "es_results s' j = Some r \<Longrightarrow>
      es_results s j = Some r \<or> fallback_result rt flow (work ! j) N_CANCELLED ''node_cancelled'' = Inr r"
proof -
  let ?Q = "\<lambda>t. (\<forall>j r. es_results s j = Some r \<longrightarrow> es_results t j = Some r)
    \<and> (\<forall>j r. es_results t j = Some r \<longrightarrow>
      es_results s j = Some r \<or> fallback_result rt flow (work ! j) N_CANCELLED ''node_cancelled'' = Inr r)"
  have "?Q s'"
  proof (rule fold_put_inv [OF _ _ assms(1) [unfolded settle_active_def], where Q = ?Q])
    show "distinct (map wi_order (es_active s))" using assms(2) by (simp add: acct_def)
    fix item t t'
    assume t: "settle_one rt flow task [] N_CANCELLED ''node_cancelled'' item t = Inr t'" "acct t" "item \<in> set (es_active t)"
    show "acct t' \<and> es_active t' = filter (\<lambda>w. wi_order w \<noteq> wi_order item) (es_active t)"
      using settle_one_put [OF t] by simp
    assume Q: "?Q t"
    obtain r0 where r0: "fallback_result rt flow item N_CANCELLED ''node_cancelled'' = Inr r0"
        "es_results t' = (es_results t)(wi_order item \<mapsto> r0)"
      using t(1) by (auto simp: settle_one_def res_simps put_fallback_def)
    have w: "work ! wi_order item = item" using acct_active [OF t(2,3)] by simp
    have fresh: "es_results t (wi_order item) = None" using acct_fresh [OF t(2,3)] by (simp add: domIff)
    show "?Q t'"
    proof (intro conjI allI impI)
      fix j r
      show "es_results t' j = Some r" if "es_results s j = Some r"
        using that Q fresh r0(2) by (cases "j = wi_order item") auto
      show "es_results s j = Some r \<or> fallback_result rt flow (work ! j) N_CANCELLED ''node_cancelled'' = Inr r"
        if "es_results t' j = Some r"
        using that Q r0 w by (cases "j = wi_order item") auto
    qed
  qed (use assms(2) in auto)
  then show "es_results s j = Some r \<Longrightarrow> es_results s' j = Some r"
    and "es_results s' j = Some r \<Longrightarrow>
      es_results s j = Some r \<or> fallback_result rt flow (work ! j) N_CANCELLED ''node_cancelled'' = Inr r"
    by blast+
qed

lemma distinct_one: "distinct xs \<Longrightarrow> set xs = {a} \<Longrightarrow> xs = [a]"
  by (cases xs; cases "tl xs") auto

lemma first_round_stops:
  assumes "run_loop rt flow work task (\<lparr>rd_expired = False, rd_finished = [i], rd_late = []\<rparr> # rounds) = Inr s"
    and "i < length work" and "int i < rt_max_concurrency rt"
    and "task (work ! i) = Inr out" and "policy_for rt flow (wi_node (work ! i)) = Inr p" and "stops p (wo_result out)"
  shows "es_stopped s" and "\<not> es_timed_out s" and "i < es_next s" and "es_results s i = Some (wo_result out)"
    and "j \<noteq> i \<Longrightarrow> es_results s j = Some r \<Longrightarrow>
      fallback_result rt flow (work ! j) N_CANCELLED ''node_cancelled'' = Inr r"
proof -
  let ?s0 = "initial_state rt work" let ?r = "\<lparr>rd_expired = False, rd_finished = [i], rd_late = []\<rparr>"
  let ?s1 = "(put_outcome (work ! i) out ?s0)\<lparr>es_stopped := True\<rparr>"
  note act = initial_active [OF assms(2,3)]
  have acct0: "acct ?s0" by (rule acct_init)
  have o: "wi_order (work ! i) = i" using order assms(2) by simp
  have "filter (\<lambda>w. wi_order w = i) (es_active ?s0) = [work ! i]"
  proof -
    have "w = work ! i" if "w \<in> set (es_active ?s0)" "wi_order w = i" for w
      using acct_active [OF acct0 that(1)] that(2) by simp
    then have "set (filter (\<lambda>w. wi_order w = i) (es_active ?s0)) = {work ! i}"
      unfolding set_filter using act(1) o by blast
    moreover have "distinct (filter (\<lambda>w. wi_order w = i) (es_active ?s0))"
      using acct0 by (simp add: acct_def distinct_map)
    ultimately show ?thesis by (intro distinct_one)
  qed
  then have done_i: "done_items ?r ?s0 = [work ! i]" by (simp add: done_items_def)
  have "process_done rt flow task (work ! i) ?s0 = Inr ?s1"
    using assms(4-6) by (simp add: process_done_def Let_def)
  moreover have "es_active ?s0 \<noteq> []" using act(1) by auto
  ultimately have step: "loop_step rt flow work task ?r ?s0 = settle_active rt flow task [] N_CANCELLED ''node_cancelled'' ?s1"
    using done_i by (simp add: loop_step_def)
  have acct1: "acct ?s1"
    using process_done_put [OF \<open>process_done rt flow task (work ! i) ?s0 = Inr ?s1\<close> acct0 act(1)] by simp
  obtain s1 where s1: "settle_active rt flow task [] N_CANCELLED ''node_cancelled'' ?s1 = Inr s1"
    and rest: "fold_res (loop_step rt flow work task) rounds s1 = Inr s"
    using assms(1) by (auto simp: run_loop_def step res_simps)
  have "es_active s1 = []" using settle_active_put [OF s1 acct1] by simp
  then have "s1 = s" using rest loop_idle [of s1 rounds] by simp
  note s1 = s1 [unfolded this]
  note put = settle_active_put [OF s1 acct1, simplified] and flags = settle_active_flags [OF s1]
  show "es_stopped s" "\<not> es_timed_out s" using flags by (simp_all add: put_outcome_def initial_state_def)
  show "fallback_result rt flow (work ! j) N_CANCELLED ''node_cancelled'' = Inr r"
    if "j \<noteq> i" "es_results s j = Some r"
    using settle_active_fallbacks(2) [OF s1 acct1 that(2)] that(1) act(2) by (simp add: put_outcome_def o)
  have "i \<in> dom (es_results ?s1)" by (simp add: put_outcome_def o)
  moreover have "dom (es_results ?s1) \<subseteq> {..<es_next ?s1}" using acct1 unfolding acct_def by blast
  ultimately show "i < es_next s" using put by auto
  show "es_results s i = Some (wo_result out)"
    by (rule settle_active_fallbacks(1) [OF s1 acct1]) (simp add: put_outcome_def o)
qed

subsection \<open>Enough rounds\<close>

lemma rounds_suffice:
  assumes "fold_res (loop_step rt flow work task) rounds s = Inr t" and "acct s \<and> clean s"
    and "length work \<le> card (dom (es_results s)) + length rounds"
  shows "es_active t = []"
  using assms
proof (induction rounds arbitrary: s)
  case Nil
  then have acct: "acct s" and full: "length work \<le> card (dom (es_results s))" and t: "t = s" by auto
  have "card (dom (es_results s)) + card (wi_order ` set (es_active s)) = es_next s"
    using acct acct_finite [OF acct] by (subst card_Un_disjoint [symmetric]) (auto simp: acct_def)
  moreover have "es_next s \<le> length work" using acct by (simp add: acct_def)
  ultimately have "card (wi_order ` set (es_active s)) = 0" using full by linarith
  with t show ?case by simp
next
  case (Cons r rounds)
  then obtain u where u: "loop_step rt flow work task r s = Inr u"
    and rest: "fold_res (loop_step rt flow work task) rounds u = Inr t" by (auto simp: res_simps)
  show ?case
  proof (cases "es_active s = [] \<or> es_active u = []")
    case True
    then have "es_active u = []" using u by (auto simp: loop_step_def)
    with loop_idle [of u rounds] rest show ?thesis by simp
  next
    case False
    then have "card (dom (es_results s)) < card (dom (es_results u))"
      using loop_step_progress [OF u] Cons.prems(2) by simp
    with Cons.IH [OF rest] loop_step_ok [OF u Cons.prems(2)] Cons.prems(3) show ?thesis by simp
  qed
qed

subsection \<open>Totality\<close>

lemma tasks_total:
  assumes "\<forall>w \<in> set work. (\<exists>out. task w = Inr out) \<and> (\<exists>p. policy_for rt flow (wi_node w) = Inr p)"
  shows "acct s \<Longrightarrow> \<exists>t. loop_step rt flow work task r s = Inr t"
    and "\<exists>t. settle_unstarted rt flow work u = Inr t"
proof -
  have process: "\<exists>t. process_done rt flow task w s = Inr t"
    and settle: "\<exists>t. settle_one rt flow task late st why w s = Inr t"
    if "w \<in> set work" for w s late st why
    using assms that by (fastforce simp: process_done_def settle_one_def fallback_result_def Let_def)+
  have active: "set (es_active s) \<subseteq> set work" if "acct s" for s
    using acct_active [OF that] nth_mem by (metis subsetI)
  have settles: "\<exists>t. settle_active rt flow task late st why s = Inr t" if "acct s" for s late st why
    unfolding settle_active_def using settle active [OF that] by (intro fold_res_total) blast
  show "\<exists>t. loop_step rt flow work task r s = Inr t" if "acct s" for s
  proof -
    have items: "set (done_items r s) \<subseteq> set work" using done_items_ok(1) [OF that] active [OF that] by blast
    have "\<exists>t. fold_res (process_done rt flow task) (done_items r s) s = Inr t"
      using process items by (intro fold_res_total) blast
    then obtain t where t: "fold_res (process_done rt flow task) (done_items r s) s = Inr t" ..
    have "acct (s\<lparr>es_timed_out := True\<rparr>)" using that by (simp add: acct_def)
    with settles [of "s\<lparr>es_timed_out := True\<rparr>"] settles [OF process_all(1) [OF t that]] t
    show ?thesis by (simp add: loop_step_def)
  qed
  have "set (drop (es_next u) work) \<subseteq> set work" by (rule set_drop_subset)
  with assms show "\<exists>t. settle_unstarted rt flow work u = Inr t"
    unfolding settle_unstarted_def Let_def
    by (intro fold_res_total) (fastforce simp: fallback_result_def)
qed

lemma run_loop_total:
  assumes "\<forall>w \<in> set work. (\<exists>out. task w = Inr out) \<and> (\<exists>p. policy_for rt flow (wi_node w) = Inr p)"
    and "length work \<le> length rounds"
  shows "\<exists>s. run_loop rt flow work task rounds = Inr s \<and> es_active s = []"
proof -
  have "\<exists>t. fold_res (loop_step rt flow work task) rs s = Inr t" if "acct s \<and> clean s" for rs s
    using that
  proof (induction rs arbitrary: s)
    case (Cons r rs)
    then obtain u where u: "loop_step rt flow work task r s = Inr u"
      using tasks_total(1) [OF assms(1)] by blast
    with Cons.IH loop_step_ok [OF u Cons.prems] show ?case by simp
  qed simp
  with acct_init clean_init obtain s where s: "run_loop rt flow work task rounds = Inr s"
    unfolding run_loop_def by blast
  with rounds_suffice [OF s [unfolded run_loop_def]] acct_init clean_init assms(2) show ?thesis by simp
qed

end

subsection \<open>The tasks of the runtime\<close>

text \<open>The task of each work item of one Flow execution, as \<open>_execute_bound\<close> creates it.\<close>

definition flow_task ::
  "sched \<Rightarrow> (nat \<Rightarrow> 'o invoke_outcome) \<Rightarrow> (nat \<Rightarrow> 'o env option) \<Rightarrow> 'o runtime \<Rightarrow> 'o reducer
     \<Rightarrow> flow_definition \<Rightarrow> flow_input \<Rightarrow> work_item \<Rightarrow> runtime_error + 'o work_outcome" where
  "flow_task sc invoke child rt reduce flow flow_input work =
     execute_work rt flow flow_input (sc_execution_id sc)
       (sc_no_time sc (wi_order work)) (sc_duration sc (wi_order work)) (invoke (wi_order work))
       (\<lambda>child_flow child_input.
          case child (wi_order work) of
            None \<Rightarrow> Inl Still_waiting
          | Some e \<Rightarrow> execute_flow e rt reduce (Some (sc_execution_id sc)) child_flow child_input)
       work"

lemma execute_flow_eq:
  "execute_flow (Env sc invoke child) rt reduce parent flow inp =
     execute_bound rt sc reduce flow inp parent (flow_task sc invoke child rt reduce flow inp)"
  by (simp add: flow_task_def [abs_def] cong: option.case_cong)

declare execute_flow.simps [simp del]

interpretation ft: flow_tasks rt flow "build_work flow inp" "flow_task sc invoke child rt reduce flow inp"
  for rt flow inp sc invoke child reduce
  by unfold_locales (auto simp: build_work_order flow_task_def dest: execute_work_matches)

end
