(* ===== verification/Flow_Execution.thy ===== *)
theory Flow_Execution
  imports Flow_Scheduling
begin

text \<open>
  What an execution of a Flow guarantees, from the laws of its loop: every item of every node is
  accounted for once, at most \<open>max_concurrency\<close> tasks run, a Flow reported as completed ran
  everything and met no stop, and an environment that keeps turning the loop gets a result.
\<close>

lemma execute_flow_parts:
  assumes "execute_flow (Env sc invoke child) rt reduce parent flow inp = Inr res"
  obtains s t where
    "run_loop rt flow (build_work flow inp) (flow_task sc invoke child rt reduce flow inp) (sc_rounds sc) = Inr s"
    "es_active s = []"
    "settle_unstarted rt flow (build_work flow inp) s = Inr t"
    "finish_flow rt sc reduce flow inp parent (build_work flow inp) t = Inr res"
  using assms unfolding execute_flow_eq execute_bound_def Let_def
  by (auto simp: res_simps split: if_splits)

lemma finish_flow_parts:
  assumes "finish_flow rt sc reduce flow inp parent work t = Inr res"
  shows "fr_node_results res = ordered_results work t"
    and "fv_status (fr_evidence res) = fst (flow_outcome (es_stopped t)
           (es_timed_out t \<or> (list_ex (\<lambda>r. nr_status r = N_TIMED_OUT) (ordered_results work t)
              \<and> sc_past_deadline sc)))"
  using assms
  by (auto simp: finish_flow_def Let_def res_simps case_res_Inr case_prod_unfold dest!: bound_flow_evidence_status
      split: if_split_asm)

lemma execute_flow_results:
  assumes "run_loop rt flow (build_work flow inp) (flow_task sc invoke child rt reduce flow inp) rounds = Inr s"
    and "es_active s = []" and "settle_unstarted rt flow (build_work flow inp) s = Inr t"
    and "i < length (build_work flow inp)"
  shows "length (ordered_results (build_work flow inp) t) = length (build_work flow inp)"
    and "es_results t i = Some (ordered_results (build_work flow inp) t ! i)"
    and "ft.origin rt flow inp sc invoke child reduce i (ordered_results (build_work flow inp) t ! i)"
proof -
  note acct = ft.run_loop_ok [OF assms(1), THEN conjunct1]
  note dom = ft.settle_unstarted_spec(1) [OF assms(3) acct assms(2)]
  show "length (ordered_results (build_work flow inp) t) = length (build_work flow inp)"
    by (rule ft.ordered_results_nth(1) [OF dom])
  show nth: "es_results t i = Some (ordered_results (build_work flow inp) t ! i)"
    by (rule ft.ordered_results_nth(2) [OF dom assms(4)])
  show "ft.origin rt flow inp sc invoke child reduce i (ordered_results (build_work flow inp) t ! i)"
    by (rule ft.settle_unstarted_origin [OF assms(3) acct assms(2) nth])
qed

lemma execute_flow_stopped:
  assumes "execute_flow (Env sc invoke child) rt reduce parent flow inp = Inr res"
    and "fv_status (fr_evidence res) = F_STOPPED"
  shows "\<exists>i p. i < length (build_work flow inp) \<and> fr_node_results res ! i \<in> set (fr_node_results res)
    \<and> ft.origin rt flow inp sc invoke child reduce i (fr_node_results res ! i)
    \<and> policy_for rt flow (wi_node (build_work flow inp ! i)) = Inr p \<and> stops p (fr_node_results res ! i)"
proof -
  obtain s t where s: "run_loop rt flow (build_work flow inp) (flow_task sc invoke child rt reduce flow inp)
       (sc_rounds sc) = Inr s" "es_active s = []" "settle_unstarted rt flow (build_work flow inp) s = Inr t"
    and res: "finish_flow rt sc reduce flow inp parent (build_work flow inp) t = Inr res"
    using execute_flow_parts [OF assms(1)] by metis
  note acct = ft.run_loop_ok [OF s(1), THEN conjunct1]
  note settled = ft.settle_unstarted_spec [OF s(3) acct s(2)]
  have "es_stopped s"
    using finish_flow_parts(2) [OF res] assms(2) settled(4) by (auto simp: flow_outcome_def split: if_splits)
  then obtain i r p where i: "es_results s i = Some r"
    "policy_for rt flow (wi_node (build_work flow inp ! i)) = Inr p" "stops p r"
    using ft.run_loop_stopped [OF s(1)] by (auto simp: ft.stopped_by_def)
  have "i \<in> dom (es_results s) \<union> wi_order ` set (es_active s)" using i(1) by auto
  then have "i < es_next s" "es_next s \<le> length (build_work flow inp)" using acct unfolding ft.acct_def by auto
  then have len: "i < length (build_work flow inp)" and same: "es_results t i = Some r" using settled(2) i(1) by auto
  note r = execute_flow_results [OF s len] finish_flow_parts(1) [OF res]
  have "fr_node_results res ! i = r" using r(2,4) same by simp
  moreover have "fr_node_results res ! i \<in> set (fr_node_results res)" using r(1,4) len by simp
  ultimately show ?thesis using i r(3,4) len by (intro exI [of _ i] exI [of _ p]) simp
qed

text \<open>When the first task to finish asks for a stop, everything else is cancelled, whatever it would have
  returned.\<close>

lemma execute_flow_first_stop:
  assumes "execute_flow (Env sc invoke child) rt reduce parent flow inp = Inr res"
    and "sc_rounds sc = \<lparr>rd_expired = False, rd_finished = [i], rd_late = []\<rparr> # rounds"
    and "i < length (build_work flow inp)" and "int i < rt_max_concurrency rt"
    and "flow_task sc invoke child rt reduce flow inp (build_work flow inp ! i) = Inr out"
    and "policy_for rt flow (wi_node (build_work flow inp ! i)) = Inr p" and "stops p (wo_result out)"
  shows "fv_status (fr_evidence res) = F_STOPPED" and "length (fr_node_results res) = length (build_work flow inp)"
    and "fr_node_results res ! i = wo_result out"
    and "j < length (build_work flow inp) \<Longrightarrow> j \<noteq> i \<Longrightarrow>
      nr_status (fr_node_results res ! j) = N_CANCELLED \<and> nr_output (fr_node_results res ! j) = None"
proof -
  obtain s t where s: "run_loop rt flow (build_work flow inp) (flow_task sc invoke child rt reduce flow inp)
       (sc_rounds sc) = Inr s" "es_active s = []" "settle_unstarted rt flow (build_work flow inp) s = Inr t"
    and res: "finish_flow rt sc reduce flow inp parent (build_work flow inp) t = Inr res"
    using execute_flow_parts [OF assms(1)] by metis
  note stop = ft.first_round_stops [OF s(1) [unfolded assms(2)] assms(3-7)]
  note settled = ft.settle_unstarted_spec [OF s(3) ft.run_loop_ok [OF s(1), THEN conjunct1] s(2)]
  note results = execute_flow_results [OF s] and parts = finish_flow_parts [OF res]
  show "fv_status (fr_evidence res) = F_STOPPED" using parts(2) settled(4) stop(1) by (simp add: flow_outcome_def)
  show "length (fr_node_results res) = length (build_work flow inp)" using results(1) [OF assms(3)] parts(1) by simp
  have "es_results t i = Some (wo_result out)" using settled(2) [OF stop(3)] stop(4) by simp
  then show "fr_node_results res ! i = wo_result out" using results(2) [OF assms(3)] parts(1) by simp
  assume j: "j < length (build_work flow inp)" "j \<noteq> i"
  have rj: "es_results t j = Some (fr_node_results res ! j)" using results(2) [OF j(1)] parts(1) by simp
  have "fallback_result rt flow (build_work flow inp ! j) N_CANCELLED ''node_cancelled'' = Inr (fr_node_results res ! j)"
  proof (cases "j < es_next s")
    case True
    then show ?thesis using settled(2) [OF True] rj stop(5) [OF j(2)] by simp
  next
    case False
    then show ?thesis using settled(3) [of j] j(1) stop(2) rj by auto
  qed
  from fallback_result_fields [OF this]
  show "nr_status (fr_node_results res ! j) = N_CANCELLED \<and> nr_output (fr_node_results res ! j) = None" by simp
qed

subsection \<open>Environments that keep turning\<close>

text \<open>
  The loop of every execution turns once per work item (enough rounds for it to end), and the nested
  Flows, at most \<open>k\<close> deep, do so too.
\<close>

fun patient :: "nat \<Rightarrow> 'o runtime \<Rightarrow> flow_definition \<Rightarrow> flow_input \<Rightarrow> 'o env \<Rightarrow> bool" where
  "patient k rt flow inp (Env sc invoke child) \<longleftrightarrow>
     length (build_work flow inp) \<le> length (sc_rounds sc)
     \<and> list_all (\<lambda>w. case wi_node w of
           Capability_node c \<Rightarrow> True
         | Flow_node f \<Rightarrow>
             (case resolve_flow (rt_registry rt) f of
                Inl e \<Rightarrow> True
              | Inr g \<Rightarrow>
                  (case (k, child (wi_order w)) of
                     (Suc k', Some e) \<Rightarrow>
                       patient k' rt g (for_child (sc_execution_id sc) ''nested-flow'' inp) e
                   | _ \<Rightarrow> False)))
         (build_work flow inp)"

declare patient.simps [simp del]

definition policies_resolved :: "'o runtime \<Rightarrow> flow_definition \<Rightarrow> bool" where
  "policies_resolved rt flow \<longleftrightarrow>
     list_all (\<lambda>n. rt_policies rt (fd_flow_id flow, fd_version flow, node_id n) \<noteq> None) (fd_nodes flow)"

lemma execute_work_total:
  assumes "policy_for rt flow (wi_node w) = Inr p"
    and "\<And>f g. wi_node w = Flow_node f \<Longrightarrow> resolve_flow (rt_registry rt) f = Inr g \<Longrightarrow>
           child g (for_child eid ''nested-flow'' inp) \<noteq> Inl Still_waiting"
  shows "\<exists>out. execute_work rt flow inp eid nt d oc child w = Inr out"
  using assms
  by (auto simp: execute_work_def split: node.split option.split sum.split runtime_error.split)

lemma finish_flow_settled: "finish_flow rt sc reduce flow inp parent work t \<noteq> Inl Still_waiting"
proof -
  have "evidence_for_node rt flow eid rs jn \<noteq> Inl Still_waiting" for eid rs jn
    by (cases jn) (auto simp: evidence_for_node_def evidence_template_def policy_for_def res_simps Let_def
        split: node.splits sum.splits option.splits prod.splits)
  then have "build_all_evidence rt flow eid rs \<noteq> Inl Still_waiting" for eid rs
    using map_res_Inl unfolding build_all_evidence_def by metis
  then show ?thesis
    by (auto simp: finish_flow_def res_simps Let_def split: option.splits prod.splits sum.splits)
qed

lemma patient_child:
  assumes "patient k rt flow inp (Env sc invoke child)" and "w \<in> set (build_work flow inp)"
    and "wi_node w = Flow_node f" and "resolve_flow (rt_registry rt) f = Inr g"
  shows "\<exists>k' e. k = Suc k' \<and> child (wi_order w) = Some e
    \<and> patient k' rt g (for_child (sc_execution_id sc) ''nested-flow'' inp) e"
proof -
  have "\<forall>w \<in> set (build_work flow inp). case wi_node w of Capability_node c \<Rightarrow> True
      | Flow_node f \<Rightarrow> (case resolve_flow (rt_registry rt) f of Inl e \<Rightarrow> True
         | Inr g \<Rightarrow> (case (k, child (wi_order w)) of
               (Suc k', Some e) \<Rightarrow> patient k' rt g (for_child (sc_execution_id sc) ''nested-flow'' inp) e
             | _ \<Rightarrow> False))"
    using assms(1) by (simp add: patient.simps list_all_iff)
  from bspec [OF this assms(2)] assms(3,4) show ?thesis
    by (cases k; cases "child (wi_order w)") simp_all
qed

lemma policies_resolved_work:
  assumes "policies_resolved rt flow" and "w \<in> set (build_work flow inp)"
  shows "\<exists>p. policy_for rt flow (wi_node w) = Inr p"
proof -
  have "wi_node w \<in> set (fd_nodes flow)" using assms(2) build_work_nodes by (auto simp: build_work_def)
  with assms(1) show ?thesis by (auto simp: policies_resolved_def list_all_iff policy_for_def)
qed

lemma resolve_flow_registered: "resolve_flow rg f = Inr g \<Longrightarrow> g \<in> set (map snd (rg_flows rg))"
  by (force simp: resolve_flow_def split: option.splits dest: map_of_SomeD)

lemma patient_settles:
  assumes "patient k rt flow inp (Env sc invoke child)"
    and "policies_resolved rt flow" and "list_all (policies_resolved rt) (map snd (rg_flows (rt_registry rt)))"
  shows "\<exists>t. execute_flow (Env sc invoke child) rt reduce parent flow inp
            = finish_flow rt sc reduce flow inp parent (build_work flow inp) t
          \<and> dom (es_results t) = {..<length (build_work flow inp)}"
  using assms(1,2)
proof (induction k arbitrary: flow inp sc invoke child parent rule: less_induct)
  case (less k)
  let ?task = "flow_task sc invoke child rt reduce flow inp"
  have "\<exists>out. ?task w = Inr out" if w: "w \<in> set (build_work flow inp)" for w
  proof -
    obtain p where p: "policy_for rt flow (wi_node w) = Inr p"
      using policies_resolved_work [OF less.prems(2) w] ..
    show ?thesis
      unfolding flow_task_def
    proof (rule execute_work_total [OF p])
      fix f g assume n: "wi_node w = Flow_node f" "resolve_flow (rt_registry rt) f = Inr g"
      obtain k' e where e: "k = Suc k'" "child (wi_order w) = Some e"
        and pat: "patient k' rt g (for_child (sc_execution_id sc) ''nested-flow'' inp) e"
        using patient_child [OF less.prems(1) w n] by blast
      obtain sc' inv' ch' where env: "e = Env sc' inv' ch'" by (cases e)
      have "policies_resolved rt g"
        using assms(3) resolve_flow_registered [OF n(2)] unfolding list_all_iff by blast
      from less.IH [OF _ pat [unfolded env] this] e(1) finish_flow_settled
      have "execute_flow e rt reduce (Some (sc_execution_id sc)) g
              (for_child (sc_execution_id sc) ''nested-flow'' inp) \<noteq> Inl Still_waiting"
        unfolding env by (metis lessI)
      with e(2) show "(case child (wi_order w) of None \<Rightarrow> Inl Still_waiting
          | Some e \<Rightarrow> execute_flow e rt reduce (Some (sc_execution_id sc)) g
              (for_child (sc_execution_id sc) ''nested-flow'' inp)) \<noteq> Inl Still_waiting" by simp
    qed
  qed
  then have total: "\<forall>w \<in> set (build_work flow inp).
      (\<exists>out. ?task w = Inr out) \<and> (\<exists>p. policy_for rt flow (wi_node w) = Inr p)"
    using policies_resolved_work [OF less.prems(2)] by blast
  have "length (build_work flow inp) \<le> length (sc_rounds sc)"
    using less.prems(1) by (simp add: patient.simps)
  from ft.run_loop_total [OF total this] obtain s
    where s: "run_loop rt flow (build_work flow inp) ?task (sc_rounds sc) = Inr s" "es_active s = []" by blast
  obtain t where t: "settle_unstarted rt flow (build_work flow inp) s = Inr t"
    using ft.tasks_total(2) [OF total] by blast
  have "dom (es_results t) = {..<length (build_work flow inp)}"
    by (rule ft.settle_unstarted_spec(1) [OF t ft.run_loop_ok [OF s(1), THEN conjunct1] s(2)])
  then show ?case by (auto simp: execute_flow_eq execute_bound_def Let_def s t)
qed

subsection \<open>Concrete executions, for the instances below\<close>

definition sample_policy :: node_policy where
  "sample_policy =
     \<lparr>np_timeout = \<lparr>tp_seconds = 30, tp_action = Fail_closed\<rparr>, np_failure = Fail_closed,
      np_availability = default_availability, np_degradation = default_degradation,
      np_stop = [''safety.block''],
      np_sources = \<lparr>ps_timeout = DEFAULT, ps_failure = DEFAULT, ps_availability = DEFAULT,
                    ps_degradation = DEFAULT, ps_stop = DEFAULT\<rparr>\<rparr>"

definition sample_codec :: codec where
  "sample_codec = \<lparr>json_size = \<lambda>_. 0, node_json_size = \<lambda>_. 0, sha256_hex = \<lambda>s. s, digest_signals = concat\<rparr>"

definition sample_runtime :: "nat list runtime" where
  "sample_runtime =
     \<lparr>rt_registry = sample_registry, rt_capabilities = [''detector.pii''],
      rt_policies = \<lambda>_. Some sample_policy, rt_reducers = [], rt_max_concurrency = 1,
      rt_absolute_timeout = 30, rt_max_evidence_size = default_max_evidence_size, rt_codec = sample_codec\<rparr>"

definition sample_reducer :: "nat list reducer" where
  "sample_reducer flow results = Some (ordered_result_reduce results)"

definition sample_item :: "nat \<Rightarrow> flow_item" where
  "sample_item i = \<lparr>fi_item_id = show_nat i, fi_content = ''x'', fi_detection_context = None\<rparr>"

definition sample_input :: flow_input where
  "sample_input =
     \<lparr>fin_items = [sample_item 0, sample_item 1],
      fin_context = \<lparr>fc_request_id = ''r'', fc_correlation_id = ''c'', fc_direction = Input,
                     fc_stage = ''s'', fc_parent_execution_id = None\<rparr>\<rparr>"

definition sample_sched :: "round list \<Rightarrow> sched" where
  "sample_sched rounds =
     \<lparr>sc_rounds = rounds, sc_execution_id = ''flow-1'', sc_no_time = \<lambda>_. False, sc_duration = \<lambda>_. 1,
      sc_past_deadline = False, sc_reducer_in_time = True, sc_flow_duration = 2\<rparr>"

definition finish_round :: "nat \<Rightarrow> round" where
  "finish_round i = \<lparr>rd_expired = False, rd_finished = [i], rd_late = []\<rparr>"

definition expired_round :: round where
  "expired_round = \<lparr>rd_expired = True, rd_finished = [], rd_late = []\<rparr>"

definition sample_invoke :: "nat \<Rightarrow> nat list invoke_outcome" where
  "sample_invoke i =
     Returned \<lparr>cr_output = Some [i], cr_signals = [''safety.allow''], cr_evidence_summary = No_summary\<rparr>"

definition no_children :: "nat \<Rightarrow> nat list env option" where
  "no_children i = None"

definition sample_work :: "nat \<Rightarrow> work_item" where
  "sample_work i = \<lparr>wi_order = i, wi_node_index = 0, wi_item_index = i, wi_node = sample_node,
                    wi_item = Some (sample_item i)\<rparr>"

definition sample_success :: "nat \<Rightarrow> nat list node_result" where
  "sample_success i =
     \<lparr>nr_node_id = ''n'', nr_definition_index = 0, nr_item_index = i, nr_status = N_SUCCEEDED,
      nr_output = Some [i], nr_signals = [''safety.allow''], nr_reason_code = ''completed'',
      nr_degraded = False, nr_duration_ms = 1, nr_stop_requested = False,
      nr_evidence_summary = No_summary, nr_child_execution_id = None\<rparr>"

definition sample_timed_out :: "nat \<Rightarrow> nat list node_result" where
  "sample_timed_out i =
     \<lparr>nr_node_id = ''n'', nr_definition_index = 0, nr_item_index = i, nr_status = N_TIMED_OUT,
      nr_output = None, nr_signals = [], nr_reason_code = ''node_timeout'',
      nr_degraded = True, nr_duration_ms = 0, nr_stop_requested = True,
      nr_evidence_summary = No_summary, nr_child_execution_id = None\<rparr>"

lemma sample_selectors [simp]:
  "wi_order (sample_work i) = i" "wi_node (sample_work i) = sample_node" "wi_node_index (sample_work i) = 0"
  "rd_expired (finish_round i) = False" "rd_finished (finish_round i) = [i]" "rd_late (finish_round i) = []"
  "rd_expired expired_round = True" "rd_late expired_round = []"
  "rt_max_concurrency sample_runtime = 1" "policy_for sample_runtime f n = Inr sample_policy"
  "rt_codec sample_runtime = sample_codec" "rt_reducers sample_runtime = []"
  "rt_registry sample_runtime = sample_registry"
  "json_size sample_codec e = 0" "node_json_size sample_codec ne = 0"
  "sc_rounds (sample_sched rs) = rs" "sc_execution_id (sample_sched rs) = ''flow-1''"
  "sc_no_time (sample_sched rs) i = False" "sc_duration (sample_sched rs) i = 1"
  "sc_past_deadline (sample_sched rs) = False" "sc_reducer_in_time (sample_sched rs) = True"
  by (simp_all add: sample_work_def finish_round_def expired_round_def sample_runtime_def policy_for_def
      sample_codec_def sample_sched_def)

lemma sample_build_work: "build_work sample_child sample_input = [sample_work 0, sample_work 1]"
  by (simp add: build_work_def sample_child_def sample_node_def sample_input_def sample_work_def)

lemma sample_task:
  "flow_task (sample_sched rounds) sample_invoke ch sample_runtime reduce f inp (sample_work i)
     = Inr (outcome_of (sample_success i))"
  by (simp add: flow_task_def execute_work_def sample_node_def capability_node_result_def sample_work_def
      sample_success_def) (simp add: sample_runtime_def sample_invoke_def)

lemma sample_outcomes:
  "\<not> stops sample_policy (sample_success i)"
  "fallback_result sample_runtime f (sample_work i) N_TIMED_OUT ''node_timeout'' = Inr (sample_timed_out i)"
  by (simp_all add: stops_def matched_signal_def sample_success_def sample_policy_def fallback_result_def
      sample_work_def sample_node_def sample_timed_out_def evaluate_failure_def failure_action_def)

lemmas run_simps = run_loop_def initial_state_def fill_active.simps loop_step_def done_items_def
  process_done_def settle_active_def settle_one_def put_outcome_def put_fallback_def settle_unstarted_def
  ordered_results_def map_filter_simps sample_build_work sample_task sample_outcomes outcome_of_def Let_def

abbreviation (input) sample_loop :: "round list \<Rightarrow> runtime_error + nat list exec_state" where
  "sample_loop rounds \<equiv>
     run_loop sample_runtime sample_child (build_work sample_child sample_input)
       (flow_task (sample_sched rounds) sample_invoke no_children sample_runtime sample_reducer
          sample_child sample_input) rounds"

abbreviation (input) sample_execute :: "round list \<Rightarrow> runtime_error + nat list flow_result" where
  "sample_execute rounds \<equiv>
     execute_flow (Env (sample_sched rounds) sample_invoke no_children) sample_runtime sample_reducer
       None sample_child sample_input"

lemma sample_finish:
  "\<exists>res. finish_flow sample_runtime (sample_sched rs) sample_reducer sample_child inp parent work t = Inr res"
  by (simp add: finish_flow_def effective_reducer_def sample_reducer_def build_all_evidence_def
      sample_child_def sample_node_def evidence_for_node_def evidence_template_def resolve_capability_def
      sample_registry_def sample_capability_def bound_flow_evidence_def Let_def split: prod.split)

lemma sample_states:
  "sample_loop [finish_round 0] = Inr \<lparr>es_results = [0 \<mapsto> sample_success 0], es_children = [0 \<mapsto> []],
     es_active = [sample_work 1], es_next = 2, es_stopped = False, es_timed_out = False\<rparr>"
  "sample_loop [finish_round 0, finish_round 1] = Inr \<lparr>es_results = [0 \<mapsto> sample_success 0, 1 \<mapsto> sample_success 1],
     es_children = [0 \<mapsto> [], 1 \<mapsto> []], es_active = [], es_next = 2, es_stopped = False, es_timed_out = False\<rparr>"
  "sample_loop [expired_round] = Inr \<lparr>es_results = [0 \<mapsto> sample_timed_out 0], es_children = Map.empty,
     es_active = [], es_next = 1, es_stopped = False, es_timed_out = True\<rparr>"
  by (simp_all add: run_simps)

lemma sample_executions:
  "\<exists>res. sample_execute [finish_round 0, finish_round 1] = Inr res \<and> fv_status (fr_evidence res) = F_COMPLETED"
  "\<exists>res. sample_execute [expired_round] = Inr res"
proof -
  let ?t = "\<lparr>es_results = [0 \<mapsto> sample_success 0, 1 \<mapsto> sample_success 1],
     es_children = [0 \<mapsto> [], 1 \<mapsto> []], es_active = [], es_next = 2, es_stopped = False, es_timed_out = False\<rparr>"
  obtain res where res: "finish_flow sample_runtime (sample_sched [finish_round 0, finish_round 1]) sample_reducer
      sample_child sample_input None [sample_work 0, sample_work 1] ?t = Inr res"
    using sample_finish by blast
  have run: "sample_execute [finish_round 0, finish_round 1] = Inr res"
    using sample_states(2) res
    by (simp add: execute_flow_eq execute_bound_def sample_build_work settle_unstarted_def Let_def)
  from finish_flow_parts(2) [OF res] run
  show "\<exists>res. sample_execute [finish_round 0, finish_round 1] = Inr res \<and> fv_status (fr_evidence res) = F_COMPLETED"
    by (simp add: flow_outcome_def)
  show "\<exists>res. sample_execute [expired_round] = Inr res"
    using sample_states(3) sample_finish
    by (simp add: execute_flow_eq execute_bound_def sample_build_work settle_unstarted_def Let_def sample_outcomes)
qed

subsection \<open>Properties\<close>

text \<open>Every execution of a Flow that returns accounts for its work exactly once and in order:
  there is one result for every input item of every capability node and one for every nested Flow,
  and each result is what that item's own task computed, or a timed-out or cancelled fallback.\<close>

theorem execution_accounts:
  assumes "execute_flow (Env sc invoke child) rt reduce parent flow inp = Inr res"
  shows "map (\<lambda>r. (nr_definition_index r, nr_item_index r)) (fr_node_results res) = node_calls flow inp
    \<and> (\<forall>i < length (fr_node_results res).
         (\<exists>out. flow_task sc invoke child rt reduce flow inp (build_work flow inp ! i) = Inr out
            \<and> fr_node_results res ! i = wo_result out)
       \<or> (\<exists>st why. (st, why) \<in> {(N_TIMED_OUT, ''node_timeout''), (N_CANCELLED, ''node_cancelled'')}
            \<and> fallback_result rt flow (build_work flow inp ! i) st why = Inr (fr_node_results res ! i)))"
proof -
  obtain s t where s: "run_loop rt flow (build_work flow inp) (flow_task sc invoke child rt reduce flow inp)
       (sc_rounds sc) = Inr s" "es_active s = []" "settle_unstarted rt flow (build_work flow inp) s = Inr t"
    and res: "fr_node_results res = ordered_results (build_work flow inp) t"
    using execute_flow_parts [OF assms] finish_flow_parts(1) by metis
  note r = execute_flow_results [OF s, folded res]
  have len: "length (fr_node_results res) = length (build_work flow inp)"
    unfolding res
    by (rule ft.ordered_results_nth(1) [OF ft.settle_unstarted_spec(1) [OF s(3)
          ft.run_loop_ok [OF s(1), THEN conjunct1] s(2)]])
  have "map (\<lambda>r. (nr_definition_index r, nr_item_index r)) (fr_node_results res)
      = map (\<lambda>w. (wi_node_index w, wi_item_index w)) (build_work flow inp)"
  proof (rule nth_equalityI)
    show "length (map (\<lambda>r. (nr_definition_index r, nr_item_index r)) (fr_node_results res))
        = length (map (\<lambda>w. (wi_node_index w, wi_item_index w)) (build_work flow inp))"
      using len by simp
  qed (use len ft.origin_matches [OF r(3)] in \<open>auto simp: result_matches_def\<close>)
  then show ?thesis
    using len r(3) by (simp add: build_work_calls ft.origin_def)
qed

theorem execution_accounts_witness:
  "\<exists>res. sample_execute [expired_round] = Inr res
     \<and> map (\<lambda>r. (nr_definition_index r, nr_item_index r)) (fr_node_results res) = [(0, 0), (0, 1)]"
proof -
  obtain res where res: "sample_execute [expired_round] = Inr res"
    using sample_executions(2) by blast
  have "node_calls sample_child sample_input = [(0, 0), (0, 1)]" by code_simp
  with execution_accounts [OF res] res show ?thesis by simp
qed

text \<open>C27. At every turn of the scheduling loop every work item started so far has a result or is
  running, never both, items are started in order, and at most \<open>max_concurrency\<close> tasks run.\<close>

theorem concurrency_bounded:
  assumes "run_loop rt flow (build_work flow inp) (flow_task sc invoke child rt reduce flow inp) rounds = Inr s"
  shows "int (length (es_active s)) \<le> max 0 (rt_max_concurrency rt)
    \<and> distinct (map wi_order (es_active s))
    \<and> dom (es_results s) \<union> wi_order ` set (es_active s) = {..<es_next s}
    \<and> dom (es_results s) \<inter> wi_order ` set (es_active s) = {}
    \<and> es_next s \<le> length (build_work flow inp)"
  using ft.run_loop_ok [OF assms] by (simp add: ft.acct_def)

theorem concurrency_bounded_witness:
  "\<exists>s. sample_loop [finish_round 0] = Inr s \<and> length (es_active s) \<le> 1 \<and> dom (es_results s) = {0}"
  using sample_states(1) concurrency_bounded [OF sample_states(1)] by auto

text \<open>C17. A Flow reported as completed really ran: every work item's result is what its own task
  computed (nothing was cut short), and none of them asked the Flow to stop, neither by a stop
  signal nor by a fail-closed failure.\<close>

theorem completed_flow_ran_everything:
  assumes "execute_flow (Env sc invoke child) rt reduce parent flow inp = Inr res"
    and "fv_status (fr_evidence res) = F_COMPLETED" and "1 \<le> rt_max_concurrency rt"
    and "i < length (build_work flow inp)"
  shows "\<exists>out p. flow_task sc invoke child rt reduce flow inp (build_work flow inp ! i) = Inr out
    \<and> fr_node_results res ! i = wo_result out
    \<and> policy_for rt flow (wi_node (build_work flow inp ! i)) = Inr p
    \<and> set (nr_signals (fr_node_results res ! i)) \<inter> set (np_stop p) = {}
    \<and> \<not> nr_stop_requested (fr_node_results res ! i)"
proof -
  obtain s t where s: "run_loop rt flow (build_work flow inp) (flow_task sc invoke child rt reduce flow inp)
       (sc_rounds sc) = Inr s" "es_active s = []" "settle_unstarted rt flow (build_work flow inp) s = Inr t"
    and res: "finish_flow rt sc reduce flow inp parent (build_work flow inp) t = Inr res"
    using execute_flow_parts [OF assms(1)] by metis
  note ok = ft.run_loop_ok [OF s(1)]
  note settled = ft.settle_unstarted_spec [OF s(3) ok [THEN conjunct1] s(2)]
  have quiet: "\<not> es_stopped s" "\<not> es_timed_out s"
    using finish_flow_parts(2) [OF res] assms(2) settled(4)
    by (auto simp: flow_outcome_def split: if_splits)
  have "es_next s = length (build_work flow inp)"
    using ft.run_loop_started [OF s(1)] s(2) quiet assms(3) by (simp add: ft.started_def)
  then have "es_results s i = Some (fr_node_results res ! i)"
    using settled(2) [of i] execute_flow_results(2) [OF s assms(4)] finish_flow_parts(1) [OF res] assms(4) by simp
  with ok quiet show ?thesis
    unfolding ft.clean_def stops_def matched_signal_def by blast
qed

theorem completed_flow_ran_everything_witness:
  "\<exists>res. sample_execute [finish_round 0, finish_round 1] = Inr res
     \<and> fr_node_results res ! 1 = sample_success 1 \<and> \<not> nr_stop_requested (fr_node_results res ! 1)"
proof -
  obtain res where res: "sample_execute [finish_round 0, finish_round 1] = Inr res"
    "fv_status (fr_evidence res) = F_COMPLETED"
    using sample_executions(1) by blast
  from completed_flow_ran_everything [OF res, of 1] res(1) show ?thesis
    by (auto simp: sample_build_work sample_task outcome_of_def)
qed

text \<open>When the loop of an execution ends early, the work it never started is still reported:
  each such item is cancelled after a stop and timed out after the deadline, is marked degraded,
  carries no output and no signals, and after the deadline it asks for a stop exactly when its
  timeout policy is fail-closed.\<close>

theorem unstarted_work_reported:
  assumes "run_loop rt flow (build_work flow inp) (flow_task sc invoke child rt reduce flow inp) (sc_rounds sc) = Inr s"
    and "execute_flow (Env sc invoke child) rt reduce parent flow inp = Inr res"
    and "es_next s \<le> i" and "i < length (build_work flow inp)"
  shows "let r = fr_node_results res ! i in
    nr_status r = (if es_timed_out s then N_TIMED_OUT else N_CANCELLED)
    \<and> nr_degraded r \<and> nr_output r = None \<and> nr_signals r = []
    \<and> (\<exists>p. policy_for rt flow (wi_node (build_work flow inp ! i)) = Inr p
         \<and> (nr_stop_requested r \<longleftrightarrow> es_timed_out s \<and> tp_action (np_timeout p) = Fail_closed))"
proof -
  obtain t where s: "es_active s = []" "settle_unstarted rt flow (build_work flow inp) s = Inr t"
    and res: "finish_flow rt sc reduce flow inp parent (build_work flow inp) t = Inr res"
    using execute_flow_parts [OF assms(2)] assms(1) by (metis sum.inject(2))
  note settled = ft.settle_unstarted_spec(3) [OF s(2) ft.run_loop_ok [OF assms(1), THEN conjunct1] s(1) assms(3,4)]
  have "es_results t i = Some (fr_node_results res ! i)"
    using execute_flow_results(2) [OF assms(1) s assms(4)] finish_flow_parts(1) [OF res] by simp
  with settled have "fallback_result rt flow (build_work flow inp ! i)
      (if es_timed_out s then N_TIMED_OUT else N_CANCELLED)
      (if es_timed_out s then ''node_timeout'' else ''node_cancelled'') = Inr (fr_node_results res ! i)" by simp
  then show ?thesis
    by (auto simp: fallback_result_def res_simps Let_def evaluate_failure_def failure_action_def
        dest!: sym [of _ "fr_node_results res ! i"] split: if_splits)
qed

theorem unstarted_work_reported_witness:
  "\<exists>res. sample_execute [expired_round] = Inr res \<and> nr_status (fr_node_results res ! 1) = N_TIMED_OUT
     \<and> nr_stop_requested (fr_node_results res ! 1)"
proof -
  obtain res where res: "sample_execute [expired_round] = Inr res"
    using sample_executions(2) by blast
  have s: "run_loop sample_runtime sample_child (build_work sample_child sample_input)
      (flow_task (sample_sched [expired_round]) sample_invoke no_children sample_runtime sample_reducer
        sample_child sample_input) (sc_rounds (sample_sched [expired_round])) =
      Inr \<lparr>es_results = [0 \<mapsto> sample_timed_out 0], es_children = Map.empty,
        es_active = [], es_next = 1, es_stopped = False, es_timed_out = True\<rparr>"
    using sample_states(3) by simp
  from unstarted_work_reported [OF s res, of 1] res show ?thesis
    by (auto simp: sample_build_work sample_policy_def Let_def)
qed

text \<open>C18. Execution settles: when the policies of the Flows are resolved and the loops of the
  execution and of its nested Flows turn at least once per work item, whatever the tasks do, every
  work item gets a result and the reducer and the evidence are reached; no step waits for ever or
  fails on the way.\<close>

theorem execution_settles:
  assumes "patient k rt flow inp (Env sc invoke child)" and "policies_resolved rt flow"
    and "list_all (policies_resolved rt) (map snd (rg_flows (rt_registry rt)))"
  shows "\<exists>t. execute_flow (Env sc invoke child) rt reduce parent flow inp
            = finish_flow rt sc reduce flow inp parent (build_work flow inp) t
          \<and> dom (es_results t) = {..<length (build_work flow inp)}"
  using assms by (rule patient_settles)

lemma sample_parent_work:
  "build_work sample_parent sample_input = [sample_work 0, sample_work 1,
     \<lparr>wi_order = 2, wi_node_index = 1, wi_item_index = 0, wi_node = sample_nested, wi_item = None\<rparr>]"
  "build_work sample_child (for_child eid st sample_input) = [sample_work 0, sample_work 1]"
  by (simp_all add: build_work_def sample_child_def sample_parent_def sample_node_def sample_nested_def
      sample_input_def sample_work_def for_child_def)

theorem execution_settles_witness:
  "\<exists>t. execute_flow (Env (sample_sched [finish_round 0, finish_round 1, finish_round 2]) sample_invoke
           (\<lambda>_. Some (Env (sample_sched [finish_round 0, expired_round]) sample_invoke no_children)))
         sample_runtime sample_reducer None sample_parent sample_input
       = finish_flow sample_runtime (sample_sched [finish_round 0, finish_round 1, finish_round 2]) sample_reducer
           sample_parent sample_input None (build_work sample_parent sample_input) t
     \<and> dom (es_results t) = {..<length (build_work sample_parent sample_input)}"
proof (rule execution_settles [where k = 1])
  have "resolve_flow sample_registry \<lparr>fn_node_id = ''m'', fn_flow_id = ''child'', fn_flow_version = ''1.0.0'',
       fn_input_schema = ''t'', fn_output_schema = ''r'', fn_priority = 0\<rparr> = Inr sample_child"
    by (simp add: resolve_flow_def sample_registry_def)
  then show "patient 1 sample_runtime sample_parent sample_input
      (Env (sample_sched [finish_round 0, finish_round 1, finish_round 2]) sample_invoke
           (\<lambda>_. Some (Env (sample_sched [finish_round 0, expired_round]) sample_invoke no_children)))"
    by (simp add: patient.simps sample_parent_work sample_nested_def sample_node_def)
qed (simp_all add: policies_resolved_def sample_runtime_def sample_registry_def sample_parent_def sample_child_def)

end
