(* ===== verification/Flow_Reducer.thy ===== *)
theory Flow_Reducer
  imports Aggregator Flow_Execution
begin

text \<open>
  \<open>pipeline/flow_reducer.py\<close>: from the node results of a detector Flow to one safety decision.
  A node's output is a detection, or the reduction of a nested Flow. The lemmas say which results
  count: every result that contributes a detection is aggregated, a fail-closed failure of a
  detector contributes a block, and a nested Flow counts only when it succeeded or was partial.
\<close>

record detector_reduction =
  red_final_action :: action
  red_overall_risk_level :: risk_level
  red_detector_results :: "detection_result list"
  red_modifications :: "modification list"

datatype detector_output = Detected detection_result | Reduced detector_reduction

text \<open>Of the breaker only its \<open>fallback_action\<close>, which never changes, is read.\<close>

record failure_fallback =
  ff_detector_name :: pystr
  ff_on_error :: pystr
  ff_breaker :: "pystr option"
  ff_on_timeout :: "pystr option"
  ff_on_unavailable :: "pystr option"
  ff_on_circuit_open :: "pystr option"

text \<open>\<open>x or y\<close> for an optional string: an empty one is false too.\<close>

definition str_or :: "pystr option \<Rightarrow> pystr \<Rightarrow> pystr" where
  "str_or x y = (case x of Some s \<Rightarrow> if s = [] then y else s | None \<Rightarrow> y)"

definition action_for :: "failure_fallback \<Rightarrow> pystr \<Rightarrow> pystr" where
  "action_for fb reason_code =
     (if reason_code = ''node_timeout'' then str_or (ff_on_timeout fb) (ff_on_error fb)
      else if reason_code = ''capability_unavailable'' then str_or (ff_on_unavailable fb) (ff_on_error fb)
      else if reason_code = ''circuit_open'' then
        (case ff_on_circuit_open fb of
           Some a \<Rightarrow> a
         | None \<Rightarrow> (case ff_breaker fb of Some action \<Rightarrow> action | None \<Rightarrow> ff_on_error fb))
      else ff_on_error fb)"

definition quoted :: "pystr \<Rightarrow> pystr" where
  "quoted s = CHR 0x27 # s @ [CHR 0x27]"

definition make_failure_result ::
  "pystr \<Rightarrow> pystr \<Rightarrow> pystr \<Rightarrow> pystr \<Rightarrow> pyfloat \<Rightarrow> detection_result" where
  "make_failure_result detector_name on_error reason reason_code duration_ms =
     (let fail_closed = (on_error = ''fail_closed'');
          strategy = (if fail_closed then ''fail_closed'' else ''fail_open'') in
      \<lparr>dr_detector_name = detector_name,
       dr_category = (if reason_code = ''circuit_open'' then ''circuit_breaker'' else ''error''),
       dr_action = (if fail_closed then Block else Allow),
       dr_confidence = (if fail_closed then 1 else 0),
       dr_risk_level = (if fail_closed then High else Low),
       dr_message = ''Detector '' @ quoted detector_name @ '' failed ('' @ strategy @ ''): '' @ reason,
       dr_modified_content = None,
       dr_duration_ms = duration_ms, dr_error = Some reason_code\<rparr>)"

record detector_reducer =
  dre_priorities :: "pystr \<rightharpoonup> int"
  dre_message_indices :: "int option list"
  dre_flag_escalation :: "rule option"
  dre_failure_fallbacks :: "pystr \<times> pystr \<rightharpoonup> failure_fallback"

definition fallback_of :: "detector_reducer \<Rightarrow> flow_definition \<Rightarrow> pystr \<Rightarrow> failure_fallback option" where
  "fallback_of dr flow nid =
     (case dre_failure_fallbacks dr (fd_flow_id flow, nid) of
        Some fb \<Rightarrow> Some fb
      | None \<Rightarrow> dre_failure_fallbacks dr (''*'', nid))"

definition detection_result_of ::
  "detector_reducer \<Rightarrow> flow_definition \<Rightarrow> detector_output node_result \<Rightarrow> detection_result option" where
  "detection_result_of dr flow result =
     (if nr_status result = N_SUCCEEDED
      then (case nr_output result of Some (Detected d) \<Rightarrow> Some d | _ \<Rightarrow> None)
      else if nr_status result \<notin> {N_FAILED, N_TIMED_OUT, N_SKIPPED} then None
      else (case fallback_of dr flow (nr_node_id result) of
              None \<Rightarrow> None
            | Some fb \<Rightarrow>
                let on_error = action_for fb (nr_reason_code result);
                    reason =
                      (if nr_reason_code result = ''circuit_open''
                       then ''Circuit breaker open for '' @ quoted (ff_detector_name fb)
                       else if nr_status result = N_TIMED_OUT
                       then ''Detector '' @ quoted (ff_detector_name fb) @ '' timed out''
                       else ''Detector '' @ quoted (ff_detector_name fb) @ '' failed'')
                in Some (make_failure_result (ff_detector_name fb) on_error reason
                           (nr_reason_code result) (nr_duration_ms result))))"

text \<open>The detections one node result contributes, each with its message index.\<close>

definition contributions ::
  "detector_reducer \<Rightarrow> flow_definition \<Rightarrow> detector_output node_result
     \<Rightarrow> (detection_result \<times> int option) list" where
  "contributions dr flow result =
     (case (nr_status result \<in> {N_SUCCEEDED, N_PARTIAL}, nr_output result) of
        (True, Some (Reduced red)) \<Rightarrow> map (\<lambda>d. (d, None)) (red_detector_results red)
      | _ \<Rightarrow>
          (case detection_result_of dr flow result of
             None \<Rightarrow> []
           | Some d \<Rightarrow>
               [(d, if nr_item_index result < length (dre_message_indices dr)
                    then dre_message_indices dr ! nr_item_index result else None)]))"

definition reduction_result :: "detection_result list \<Rightarrow> aggregated_result \<Rightarrow> detector_output cap_result" where
  "reduction_result detections aggregated =
     \<lparr>cr_output = Some (Reduced
        \<lparr>red_final_action = ag_final_action aggregated,
         red_overall_risk_level = ag_overall_risk_level aggregated,
         red_detector_results = detections, red_modifications = ag_modifications aggregated\<rparr>),
      cr_signals = [''safety.'' @ action_str (ag_final_action aggregated)],
      cr_evidence_summary = Raw_mapping
        [(''action'', SV_str (action_str (ag_final_action aggregated))),
         (''risk_level'', SV_str (risk_str (ag_overall_risk_level aggregated))),
         (''match_count'', SV_int (int (length detections)))]\<rparr>"

text \<open>\<open>reduce\<close>; an escalation rule that raises makes the reducer raise.\<close>

definition detector_reduce :: "detector_reducer \<Rightarrow> detector_output reducer" where
  "detector_reduce dr flow results =
     (let pairs = concat (map (contributions dr flow) results) in
      case aggregate (dre_flag_escalation dr) (map fst pairs) (dre_priorities dr) (map snd pairs) of
        Inl _ \<Rightarrow> None
      | Inr aggregated \<Rightarrow> Some (reduction_result (map fst pairs) aggregated))"

definition final_action_in :: "detector_output cap_result \<Rightarrow> action option" where
  "final_action_in r = (case cr_output r of Some (Reduced red) \<Rightarrow> Some (red_final_action red) | _ \<Rightarrow> None)"

definition modifications_in :: "detector_output cap_result \<Rightarrow> modification list" where
  "modifications_in r = (case cr_output r of Some (Reduced red) \<Rightarrow> red_modifications red | _ \<Rightarrow> [])"

lemma detector_reduce_Some:
  "detector_reduce dr flow results = Some cr \<longleftrightarrow>
     (\<exists>a. aggregate (dre_flag_escalation dr) (map fst (concat (map (contributions dr flow) results)))
            (dre_priorities dr) (map snd (concat (map (contributions dr flow) results))) = Inr a
        \<and> cr = reduction_result (map fst (concat (map (contributions dr flow) results))) a)"
  by (auto simp: detector_reduce_def Let_def split: sum.splits)

lemma reduction_result_parts [simp]:
  "final_action_in (reduction_result ds a) = Some (ag_final_action a)"
  "modifications_in (reduction_result ds a) = ag_modifications a"
  "cr_signals (reduction_result ds a) = [''safety.'' @ action_str (ag_final_action a)]"
  by (simp_all add: final_action_in_def modifications_in_def reduction_result_def)

text \<open>A failed detector node whose fallback is fail-closed contributes a block.\<close>

lemma failure_blocks:
  assumes "nr_status r \<in> {N_FAILED, N_TIMED_OUT, N_SKIPPED}"
    and "fallback_of dr flow (nr_node_id r) = Some fb"
    and "action_for fb (nr_reason_code r) = ''fail_closed''"
  shows "\<exists>d i. contributions dr flow r = [(d, i)] \<and> dr_action d = Block"
proof -
  have "\<exists>d. detection_result_of dr flow r = Some d \<and> dr_action d = Block"
    using assms by (auto simp: detection_result_of_def make_failure_result_def Let_def)
  then show ?thesis using assms(1) by (auto simp: contributions_def split: option.split)
qed

lemma contributed_block:
  assumes "detector_reduce dr flow results = Some cr" and "r \<in> set results"
    and "(d, i) \<in> set (contributions dr flow r)" and "dr_action d = Block"
  shows "final_action_in cr = Some Block \<and> cr_signals cr = [''safety.block'']"
proof -
  obtain a where a: "aggregate (dre_flag_escalation dr) (map fst (concat (map (contributions dr flow) results)))
      (dre_priorities dr) (map snd (concat (map (contributions dr flow) results))) = Inr a"
    and cr: "cr = reduction_result (map fst (concat (map (contributions dr flow) results))) a"
    using assms(1) unfolding detector_reduce_Some by blast
  have "d \<in> set (map fst (concat (map (contributions dr flow) results)))"
    using assms(2,3) by force
  from aggregate_keeps_block [OF a this assms(4)] show ?thesis by (simp add: cr)
qed

lemma contributed_modify:
  assumes "detector_reduce dr flow results = Some cr" and "r \<in> set results"
    and "(d, i) \<in> set (contributions dr flow r)" and "dr_action d = Modify"
  shows "final_action_in cr = Some Block \<or> final_action_in cr = Some Modify"
proof -
  let ?ds = "map fst (concat (map (contributions dr flow) results))"
  obtain a where a: "aggregate (dre_flag_escalation dr) ?ds
      (dre_priorities dr) (map snd (concat (map (contributions dr flow) results))) = Inr a"
    and cr: "cr = reduction_result ?ds a"
    using assms(1) unfolding detector_reduce_Some by blast
  have "d \<in> set ?ds" using assms(2,3) by force
  from aggregate_keeps_modify [OF a this assms(4)] show ?thesis by (auto simp: cr)
qed

lemma contributed_allow:
  assumes "detector_reduce dr flow results = Some cr"
    and "\<And>r d i. r \<in> set results \<Longrightarrow> (d, i) \<in> set (contributions dr flow r) \<Longrightarrow> dr_action d = Allow"
  shows "final_action_in cr = Some Allow"
proof -
  let ?ds = "map fst (concat (map (contributions dr flow) results))"
  obtain a where a: "aggregate (dre_flag_escalation dr) ?ds
      (dre_priorities dr) (map snd (concat (map (contributions dr flow) results))) = Inr a"
    and cr: "cr = reduction_result ?ds a"
    using assms(1) unfolding detector_reduce_Some by blast
  have "final_action_of ?ds = Allow" unfolding final_action_Allow using assms(2) by auto
  with aggregate_action [OF a] show ?thesis by (simp add: cr)
qed

lemma cancelled_contributes_nothing:
  "nr_status r = N_CANCELLED \<Longrightarrow> nr_output r = None \<Longrightarrow> contributions dr flow r = []"
  by (simp add: contributions_def detection_result_of_def)

text \<open>A failed detector node whose fallback is not fail-closed contributes an allow.\<close>

lemma failure_contributes:
  assumes "nr_status r \<in> {N_FAILED, N_TIMED_OUT, N_SKIPPED}" and "nr_output r = None"
    and "fallback_of dr flow (nr_node_id r) = Some fb" and "(d, i) \<in> set (contributions dr flow r)"
  shows "dr_detector_name d = ff_detector_name fb
    \<and> dr_action d = (if action_for fb (nr_reason_code r) = ''fail_closed'' then Block else Allow)"
  using assms by (auto simp: contributions_def detection_result_of_def make_failure_result_def Let_def split: if_splits)

subsection \<open>Properties\<close>

text \<open>The fallback and results of the instances below.\<close>

definition sample_fallback :: failure_fallback where
  "sample_fallback =
     \<lparr>ff_detector_name = ''pii'', ff_on_error = ''fail_closed'', ff_breaker = None, ff_on_timeout = None,
      ff_on_unavailable = None, ff_on_circuit_open = None\<rparr>"

definition sample_detector_reducer :: detector_reducer where
  "sample_detector_reducer =
     \<lparr>dre_priorities = Map.empty, dre_message_indices = [Some 0], dre_flag_escalation = None,
      dre_failure_fallbacks = [(''child'', ''n'') \<mapsto> sample_fallback]\<rparr>"

definition sample_node_result :: "pystr \<Rightarrow> node_status \<Rightarrow> detector_output option \<Rightarrow> detector_output node_result" where
  "sample_node_result nid status output =
     \<lparr>nr_node_id = nid, nr_definition_index = 0, nr_item_index = 0, nr_status = status, nr_output = output,
      nr_signals = [], nr_reason_code = ''capability_error'', nr_degraded = True, nr_duration_ms = 1,
      nr_stop_requested = False, nr_evidence_summary = No_summary, nr_child_execution_id = None\<rparr>"

text \<open>C1. A fail-closed detector cannot be lost: if any detector node failed, timed out or was
  skipped and its fallback for that reason is fail-closed, the decision of the Flow is to block,
  and the Flow signals the block to its callers.\<close>

theorem fail_closed_blocks:
  assumes "detector_reduce dr flow results = Some cr" and "r \<in> set results"
    and "nr_status r \<in> {N_FAILED, N_TIMED_OUT, N_SKIPPED}"
    and "fallback_of dr flow (nr_node_id r) = Some fb"
    and "action_for fb (nr_reason_code r) = ''fail_closed''"
  shows "final_action_in cr = Some Block \<and> cr_signals cr = [''safety.block'']"
proof -
  obtain d i where d: "contributions dr flow r = [(d, i)]" "dr_action d = Block"
    using failure_blocks [OF assms(3-5)] by blast
  show ?thesis by (rule contributed_block [OF assms(1,2) _ d(2)]) (simp add: d(1))
qed

theorem fail_closed_blocks_witness:
  "\<exists>cr. detector_reduce sample_detector_reducer sample_child
         [sample_node_result ''n'' N_SUCCEEDED (Some (Detected (sample_result ''toxicity'' Allow Low))),
          sample_node_result ''n'' N_FAILED None] = Some cr
     \<and> final_action_in cr = Some Block"
proof -
  let ?r = "sample_node_result ''n'' N_FAILED None"
  let ?rs = "[sample_node_result ''n'' N_SUCCEEDED (Some (Detected (sample_result ''toxicity'' Allow Low))), ?r]"
  have fb: "fallback_of sample_detector_reducer sample_child (nr_node_id ?r) = Some sample_fallback"
    by (simp add: fallback_of_def sample_detector_reducer_def sample_child_def sample_node_result_def)
  have act: "action_for sample_fallback (nr_reason_code ?r) = ''fail_closed''"
    by (simp add: action_for_def sample_fallback_def sample_node_result_def)
  obtain cr where cr: "detector_reduce sample_detector_reducer sample_child ?rs = Some cr"
    by (simp add: detector_reduce_def Let_def aggregate_no_rule sample_detector_reducer_def)
  from fail_closed_blocks [OF cr, of ?r, OF _ _ fb act] cr show ?thesis
    by (simp add: sample_node_result_def)
qed

text \<open>C34. A detector's own block cannot be lost either, at any depth that finished: a block by a
  detector of this Flow that succeeded, or of a nested Flow that succeeded or was partial, makes
  the decision a block.\<close>

theorem detector_block_decides:
  assumes "detector_reduce dr flow results = Some cr" and "r \<in> set results"
    and "nr_status r = N_SUCCEEDED \<and> nr_output r = Some (Detected d)
       \<or> nr_status r \<in> {N_SUCCEEDED, N_PARTIAL}
         \<and> (\<exists>red. nr_output r = Some (Reduced red) \<and> d \<in> set (red_detector_results red))"
    and "dr_action d = Block"
  shows "final_action_in cr = Some Block \<and> cr_signals cr = [''safety.block'']"
proof -
  have "\<exists>i. (d, i) \<in> set (contributions dr flow r)"
    using assms(3) by (auto simp: contributions_def detection_result_of_def image_iff)
  then show ?thesis using contributed_block [OF assms(1,2) _ assms(4)] by blast
qed

theorem detector_block_decides_witness:
  "\<exists>cr. detector_reduce sample_detector_reducer sample_parent
         [sample_node_result ''m'' N_PARTIAL (Some (Reduced
            \<lparr>red_final_action = Block, red_overall_risk_level = High,
             red_detector_results = [sample_result ''pii'' Block High], red_modifications = []\<rparr>))] = Some cr
     \<and> final_action_in cr = Some Block"
proof -
  let ?r = "sample_node_result ''m'' N_PARTIAL (Some (Reduced
            \<lparr>red_final_action = Block, red_overall_risk_level = High,
             red_detector_results = [sample_result ''pii'' Block High], red_modifications = []\<rparr>))"
  obtain cr where cr: "detector_reduce sample_detector_reducer sample_parent [?r] = Some cr"
    by (simp add: detector_reduce_def Let_def aggregate_no_rule sample_detector_reducer_def)
  from detector_block_decides [OF cr, of ?r "sample_result ''pii'' Block High"] cr show ?thesis
    by (simp add: sample_node_result_def sample_result_def)
qed

text \<open>
  Well-formed outputs: confidences in their range; a reduction whose decision and risk level are those
  of its own detections, up to escalation, and whose modifications, in priority order, are all asked
  for by one of them.
\<close>

definition wf_reduction :: "detector_reduction \<Rightarrow> bool" where
  "wf_reduction red \<longleftrightarrow>
     list_all wf_result (red_detector_results red)
     \<and> red_overall_risk_level red = overall_risk_of (red_detector_results red)
     \<and> (red_final_action red = final_action_of (red_detector_results red)
        \<or> final_action_of (red_detector_results red) = Flag \<and> red_final_action red = Block)
     \<and> sorted (map mod_priority (red_modifications red))
     \<and> list_all (\<lambda>m. list_ex (\<lambda>d. dr_action d = Modify \<and> dr_detector_name d = mod_detector_name m
            \<and> dr_modified_content d = Some (mod_modified_content m)) (red_detector_results red)) (red_modifications red)"

fun wf_output :: "detector_output \<Rightarrow> bool" where
  "wf_output (Detected d) = wf_result d"
| "wf_output (Reduced red) = wf_reduction red"

lemma make_failure_result_wf: "wf_result (make_failure_result name on_error reason code d)"
  by (simp add: wf_result_def make_failure_result_def Let_def)

lemma detection_result_of_wf:
  assumes "pred_option wf_output (nr_output r)" and "detection_result_of dr flow r = Some d"
  shows "wf_result d"
proof (cases "nr_status r = N_SUCCEEDED")
  case True
  then show ?thesis using assms by (auto simp: detection_result_of_def split: option.splits detector_output.splits)
next
  case False
  then show ?thesis
    using assms(2) make_failure_result_wf by (auto simp: detection_result_of_def Let_def split: if_splits option.splits)
qed

lemma contributions_cases:
  assumes "(d, i) \<in> set (contributions dr flow r)"
  obtains (nested) red where "nr_output r = Some (Reduced red)" "d \<in> set (red_detector_results red)" "i = None"
  | (own) "detection_result_of dr flow r = Some d"
proof (cases "nr_status r \<in> {N_SUCCEEDED, N_PARTIAL} \<and> (\<exists>red. nr_output r = Some (Reduced red))")
  case True
  then obtain red where "nr_output r = Some (Reduced red)" "nr_status r \<in> {N_SUCCEEDED, N_PARTIAL}" by blast
  with assms show thesis by (intro nested [of red]) (auto simp: contributions_def)
next
  case False
  then have "contributions dr flow r = (case detection_result_of dr flow r of None \<Rightarrow> []
      | Some d \<Rightarrow> [(d, if nr_item_index r < length (dre_message_indices dr)
                        then dre_message_indices dr ! nr_item_index r else None)])"
    by (auto simp: contributions_def split: option.split detector_output.split bool.split)
  with assms show thesis by (intro own) (simp split: option.splits)
qed

lemma contributions_wf:
  assumes "pred_option wf_output (nr_output r)" and "(d, i) \<in> set (contributions dr flow r)"
  shows "wf_result d"
  using assms(2)
proof (cases rule: contributions_cases)
  case (nested red)
  then show ?thesis using assms(1) by (simp add: wf_reduction_def list_all_iff)
next
  case own
  then show ?thesis using detection_result_of_wf [OF assms(1)] by blast
qed

lemma modification_asked_for:
  assumes "m \<in> set (collect_modifications pri idx i ds)"
  shows "list_ex (\<lambda>d. dr_action d = Modify \<and> dr_detector_name d = mod_detector_name m
            \<and> dr_modified_content d = Some (mod_modified_content m)) ds"
proof -
  obtain j where "j < length ds" "dr_action (ds ! j) = Modify" "mod_detector_name m = dr_detector_name (ds ! j)"
    "dr_modified_content (ds ! j) = Some (mod_modified_content m)"
    using assms unfolding collect_modifications_mem by blast
  then show ?thesis unfolding list_ex_iff by (intro bexI [of _ "ds ! j"]) simp_all
qed

text \<open>C35. Reducing preserves well-formedness, so that it composes at every depth of nesting: from node
  results whose outputs are well formed, whatever failed among them, comes a reduction with
  confidences in range, the risk level and the decision of its detections, and sorted modifications
  that a detector asked for.\<close>

theorem reduction_well_typed:
  assumes "detector_reduce dr flow results = Some cr"
    and "list_all (\<lambda>r. pred_option wf_output (nr_output r)) results"
  shows "pred_option wf_output (cr_output cr)"
proof -
  obtain pairs where pairs: "pairs = concat (map (contributions dr flow) results)" by simp
  obtain a where a: "aggregate (dre_flag_escalation dr) (map fst pairs) (dre_priorities dr) (map snd pairs) = Inr a"
    and cr: "cr = reduction_result (map fst pairs) a"
    using assms(1) unfolding detector_reduce_Some pairs by blast
  have wf: "list_all wf_result (map fst pairs)"
    using assms(2) contributions_wf unfolding pairs list_all_iff by fastforce
  have "wf_reduction \<lparr>red_final_action = ag_final_action a, red_overall_risk_level = ag_overall_risk_level a,
      red_detector_results = map fst pairs, red_modifications = ag_modifications a\<rparr>"
    using wf aggregate_Inr [OF a] aggregate_action [OF a] modification_asked_for
    by (auto simp: wf_reduction_def list_all_iff)
  then show ?thesis by (simp add: cr reduction_result_def)
qed

theorem reduction_well_typed_witness:
  "\<exists>cr. detector_reduce sample_detector_reducer sample_child
         [sample_node_result ''n'' N_SUCCEEDED (Some (Detected (sample_result ''pii'' Flag Low))),
          sample_node_result ''n'' N_FAILED None] = Some cr
     \<and> pred_option wf_output (cr_output cr) \<and> final_action_in cr = Some Block"
proof -
  let ?rs = "[sample_node_result ''n'' N_SUCCEEDED (Some (Detected (sample_result ''pii'' Flag Low))),
              sample_node_result ''n'' N_FAILED None]"
  have "map_option final_action_in (detector_reduce sample_detector_reducer sample_child ?rs) = Some (Some Block)"
    by code_simp
  then obtain cr where cr: "detector_reduce sample_detector_reducer sample_child ?rs = Some cr"
    and b: "final_action_in cr = Some Block" by auto
  have "list_all (\<lambda>r. pred_option wf_output (nr_output r)) ?rs"
    by (simp add: sample_node_result_def sample_result_def wf_result_def)
  from reduction_well_typed [OF cr this] cr b show ?thesis by blast
qed

text \<open>The decision of a nested Flow that ran out of time is discarded: whatever its own reducer
  decided, a block included, the decision of the parent is the one it takes without that node
  (nested Flows have no failure fallback), although its signals are still passed on.\<close>

theorem timed_out_child_ignored:
  assumes "fv_status (fr_evidence child) = F_TIMED_OUT"
    and "fallback_of dr flow (node_id (wi_node work)) = None"
  shows "detector_reduce dr flow (xs @ child_node_result work duration child # ys)
       = detector_reduce dr flow (xs @ ys)
    \<and> nr_signals (child_node_result work duration child :: detector_output node_result) = fr_signals child
    \<and> \<not> nr_stop_requested (child_node_result work duration child :: detector_output node_result)"
proof -
  have "contributions dr flow (child_node_result work duration child) = []"
    using assms by (simp add: contributions_def detection_result_of_def child_node_result_def child_status_def)
  then show ?thesis by (simp add: detector_reduce_def child_node_result_def Let_def)
qed

theorem timed_out_child_ignored_witness:
  "let child = \<lparr>fr_output = Some (Reduced
         \<lparr>red_final_action = Block, red_overall_risk_level = High,
          red_detector_results = [sample_result ''pii'' Block High], red_modifications = []\<rparr>),
       fr_signals = [''safety.block''], fr_node_results = [],
       fr_evidence = \<lparr>fv_execution_id = ''flow-1'', fv_parent_execution_id = None, fv_flow_id = ''child'',
        fv_flow_version = ''1.0.0'', fv_direction = Input, fv_stage = ''nested-flow'', fv_status = F_TIMED_OUT,
        fv_reason_code = ''flow_timeout'', fv_duration_ms = 1, fv_final_signals = [''safety.block''],
        fv_nodes = [], fv_evidence_persisted = True, fv_details_truncated = False\<rparr>,
       fr_children = []\<rparr>;
     work = \<lparr>wi_order = 0, wi_node_index = 0, wi_item_index = 0, wi_node = sample_nested, wi_item = None\<rparr>
   in map_option final_action_in
        (detector_reduce sample_detector_reducer sample_parent [child_node_result work 1 child]) = Some (Some Allow)
    \<and> nr_signals (child_node_result work 1 child) = [''safety.block'']"
proof -
  have fb: "fallback_of sample_detector_reducer sample_parent (node_id (wi_node
      \<lparr>wi_order = 0, wi_node_index = 0, wi_item_index = 0, wi_node = sample_nested, wi_item = None\<rparr>)) = None"
    by (simp add: fallback_of_def sample_detector_reducer_def sample_parent_def sample_nested_def)
  have empty: "map_option final_action_in (detector_reduce sample_detector_reducer sample_parent []) = Some (Some Allow)"
    by (simp add: detector_reduce_def aggregate_no_rule sample_detector_reducer_def final_action_Allow Let_def)
  show ?thesis
    unfolding Let_def
    using timed_out_child_ignored [OF _ fb, of _ "[]" _ "[]"] empty by simp
qed

text \<open>A modification found in a nested Flow loses the message it belongs to: in every decision,
  a modification with a message index comes from a detector of this Flow itself.\<close>

theorem modification_index_own:
  assumes "detector_reduce dr flow results = Some cr"
    and "m \<in> set (modifications_in cr)" and "mod_message_index m = Some k"
  shows "\<exists>r \<in> set results. \<exists>d. nr_status r = N_SUCCEEDED \<and> nr_output r = Some (Detected d)
    \<and> dr_action d = Modify \<and> dr_modified_content d = Some (mod_modified_content m)
    \<and> nr_item_index r < length (dre_message_indices dr) \<and> dre_message_indices dr ! nr_item_index r = Some k"
proof -
  obtain pairs where pairs: "pairs = concat (map (contributions dr flow) results)" by simp
  obtain a where a: "aggregate (dre_flag_escalation dr) (map fst pairs) (dre_priorities dr) (map snd pairs) = Inr a"
    and cr: "cr = reduction_result (map fst pairs) a"
    using assms(1) unfolding detector_reduce_Some pairs by blast
  define idx where "idx = (if map snd pairs = [] then replicate (length (map fst pairs)) None else map snd pairs)"
  have "m \<in> set (collect_modifications (dre_priorities dr) idx 0 (map fst pairs))"
    using assms(2) aggregate_Inr [OF a, folded idx_def] by (simp add: cr)
  then obtain j where j: "j < length pairs" "dr_action (fst (pairs ! j)) = Modify"
    "dr_modified_content (fst (pairs ! j)) = Some (mod_modified_content m)" "snd (pairs ! j) = Some k"
    using assms(3) by (auto simp: collect_modifications_mem idx_def split: if_splits)
  then have "pairs ! j \<in> set pairs" by simp
  then obtain r where r: "r \<in> set results" "pairs ! j \<in> set (contributions dr flow r)" unfolding pairs by auto
  with j(2-4) have "\<exists>d. nr_status r = N_SUCCEEDED \<and> nr_output r = Some (Detected d) \<and> d = fst (pairs ! j)
      \<and> nr_item_index r < length (dre_message_indices dr) \<and> dre_message_indices dr ! nr_item_index r = Some k"
    by (auto simp: contributions_def detection_result_of_def make_failure_result_def Let_def
        split: option.splits detector_output.splits if_splits bool.splits)
  with r(1) j show ?thesis by auto
qed

theorem modification_index_own_witness:
  "\<exists>cr. detector_reduce sample_detector_reducer sample_child
         [sample_node_result ''n'' N_SUCCEEDED (Some (Detected
            ((sample_result ''pii'' Modify Low)\<lparr>dr_modified_content := Some ''***''\<rparr>)))] = Some cr
     \<and> map mod_message_index (modifications_in cr) = [Some 0]
     \<and> dre_message_indices sample_detector_reducer ! 0 = Some 0"
proof -
  let ?d = "(sample_result ''pii'' Modify Low)\<lparr>dr_modified_content := Some ''***''\<rparr>"
  let ?rs = "[sample_node_result ''n'' N_SUCCEEDED (Some (Detected ?d))]"
  have "map (contributions sample_detector_reducer sample_child) ?rs = [[(?d, Some 0)]]"
    by (simp add: contributions_def detection_result_of_def sample_node_result_def sample_detector_reducer_def)
  then obtain cr where cr: "detector_reduce sample_detector_reducer sample_child ?rs = Some cr"
    and m: "modifications_in cr = [\<lparr>mod_detector_name = ''pii'', mod_modified_content = ''***'', mod_priority = 100,
        mod_message_index = Some 0\<rparr>]"
    by (simp add: detector_reduce_def Let_def aggregate_no_rule)
      (simp add: sample_detector_reducer_def aggregate_no_rule sample_result_def)
  from modification_index_own [OF cr, of "hd (modifications_in cr)" 0]
  have "dre_message_indices sample_detector_reducer ! 0 = Some 0"
    by (simp add: m sample_node_result_def)
  with cr m show ?thesis by simp
qed

end
