(* ===== verification/Circuit_Breaker.thy ===== *)
theory Circuit_Breaker
  imports Models
begin

text \<open>
  \<open>circuit_breaker/breaker.py\<close>: the three-state breaker in front of one detector. The
  monotonic clock is an argument of the two operations that read it. Logging is left out.

  The invariant says how the state, the failure count and the last failure time agree; every
  operation keeps it, so it holds in every state a run reaches. The functional lemmas are the
  transition table of the module's docstring.
\<close>

datatype circuit_state = CLOSED | OPEN | HALF_OPEN

record breaker =
  failure_threshold :: int
  recovery_timeout :: pyfloat
  fallback_action :: pystr
  cb_state :: circuit_state
  failure_count :: int
  last_failure_time :: "pyfloat option"

definition circuit_breaker :: "int \<Rightarrow> pyfloat \<Rightarrow> pystr \<Rightarrow> breaker" where
  "circuit_breaker threshold timeout fallback =
     \<lparr>failure_threshold = threshold, recovery_timeout = timeout, fallback_action = fallback,
      cb_state = CLOSED, failure_count = 0, last_failure_time = None\<rparr>"

definition cb_transition :: "circuit_state \<Rightarrow> breaker \<Rightarrow> breaker" where
  "cb_transition new_state b = b\<lparr>cb_state := new_state\<rparr>"

definition before_call :: "pyfloat \<Rightarrow> breaker \<Rightarrow> bool \<times> breaker" where
  "before_call now b =
     (case cb_state b of
        CLOSED \<Rightarrow> (True, b)
      | OPEN \<Rightarrow>
          (case last_failure_time b of
             None \<Rightarrow> (False, b)
           | Some t \<Rightarrow>
               let elapsed = now - t in
               if recovery_timeout b \<le> elapsed then (True, cb_transition HALF_OPEN b) else (False, b))
      | HALF_OPEN \<Rightarrow> (True, b))"

definition record_success :: "breaker \<Rightarrow> breaker" where
  "record_success b =
     (let b = b\<lparr>failure_count := 0\<rparr> in
      if cb_state b = HALF_OPEN then cb_transition CLOSED b else b)"

definition record_failure :: "pyfloat \<Rightarrow> breaker \<Rightarrow> breaker" where
  "record_failure now b =
     (let b = b\<lparr>failure_count := failure_count b + 1, last_failure_time := Some now\<rparr> in
      case cb_state b of
        CLOSED \<Rightarrow> if failure_count b \<ge> failure_threshold b then cb_transition OPEN b else b
      | HALF_OPEN \<Rightarrow> cb_transition OPEN b
      | OPEN \<Rightarrow> b)"

definition is_open :: "breaker \<Rightarrow> bool" where
  "is_open b \<longleftrightarrow> cb_state b = OPEN"

definition cb_reset :: "breaker \<Rightarrow> breaker" where
  "cb_reset b = b\<lparr>cb_state := CLOSED, failure_count := 0, last_failure_time := None\<rparr>"

subsection \<open>Runs\<close>

datatype breaker_op = BeforeCall pyfloat | RecordSuccess | RecordFailure pyfloat | Reset

fun breaker_step :: "breaker \<Rightarrow> breaker_op \<Rightarrow> breaker" where
  "breaker_step b (BeforeCall now) = snd (before_call now b)"
| "breaker_step b RecordSuccess = record_success b"
| "breaker_step b (RecordFailure now) = record_failure now b"
| "breaker_step b Reset = cb_reset b"

abbreviation breaker_run :: "breaker \<Rightarrow> breaker_op list \<Rightarrow> breaker" where
  "breaker_run \<equiv> run_steps breaker_step"

definition breaker_inv :: "breaker \<Rightarrow> bool" where
  "breaker_inv b \<longleftrightarrow>
     0 \<le> failure_count b
     \<and> (cb_state b = CLOSED \<longrightarrow> failure_count b < failure_threshold b)
     \<and> (cb_state b \<noteq> CLOSED \<longrightarrow> last_failure_time b \<noteq> None)
     \<and> (last_failure_time b = None \<longrightarrow> failure_count b = 0)
     \<and> 1 \<le> failure_threshold b"

lemmas breaker_defs =
  circuit_breaker_def before_call_def record_success_def record_failure_def cb_reset_def
  cb_transition_def is_open_def

lemma breaker_inv_init: "1 \<le> threshold \<Longrightarrow> breaker_inv (circuit_breaker threshold timeout fallback)"
  by (simp add: breaker_inv_def circuit_breaker_def)

lemma breaker_inv_step: "breaker_inv b \<Longrightarrow> breaker_inv (breaker_step b op)"
  by (cases op) (auto simp: breaker_inv_def breaker_defs Let_def
      split: circuit_state.splits option.splits)

interpretation cb: step_machine breaker_step "\<lambda>_. True" breaker_inv
  by unfold_locales (rule breaker_inv_step)

text \<open>The configuration of a breaker never changes.\<close>

lemma breaker_step_config:
  "failure_threshold (breaker_step b op) = failure_threshold b"
  "recovery_timeout (breaker_step b op) = recovery_timeout b"
  "fallback_action (breaker_step b op) = fallback_action b"
  by (cases op; auto simp: breaker_defs Let_def split: circuit_state.splits option.splits)+

lemma breaker_run_config:
  "failure_threshold (breaker_run b ops) = failure_threshold b"
  "recovery_timeout (breaker_run b ops) = recovery_timeout b"
  "fallback_action (breaker_run b ops) = fallback_action b"
  by (induction ops arbitrary: b) (auto simp: breaker_step_config)

text \<open>An open breaker stays open through any calls made before its recovery timeout.\<close>

definition early_call :: "breaker \<Rightarrow> breaker_op \<Rightarrow> bool" where
  "early_call b x \<longleftrightarrow>
     (case x of BeforeCall now \<Rightarrow>
        (case last_failure_time b of None \<Rightarrow> True | Some t \<Rightarrow> now - t < recovery_timeout b)
      | _ \<Rightarrow> False)"

lemma open_early_call:
  "cb_state b = OPEN \<Longrightarrow> early_call b (BeforeCall now) \<Longrightarrow> before_call now b = (False, b)"
  by (auto simp: early_call_def before_call_def Let_def split: option.splits)

lemma open_early_calls: "cb_state b = OPEN \<Longrightarrow> list_all (early_call b) ops \<Longrightarrow> breaker_run b ops = b"
proof (induction ops)
  case (Cons x ops)
  then obtain now where x: "x = BeforeCall now"
    by (cases x) (auto simp: early_call_def)
  with Cons.prems have "breaker_step b x = b" by (simp add: open_early_call)
  with Cons show ?case by simp
qed simp

text \<open>Failures counted from any closed state: fewer than the threshold keep the breaker closed.\<close>

lemma closed_failures:
  assumes "cb_state b = CLOSED" and "failure_count b + int (length ts) < failure_threshold b"
  shows "cb_state (breaker_run b (map RecordFailure ts)) = CLOSED
         \<and> failure_count (breaker_run b (map RecordFailure ts)) = failure_count b + int (length ts)"
  using assms
proof (induction ts arbitrary: b)
  case (Cons t ts)
  let ?b = "record_failure t b"
  have "cb_state ?b = CLOSED" "failure_count ?b = failure_count b + 1"
    "failure_threshold ?b = failure_threshold b"
    using Cons.prems by (auto simp: record_failure_def cb_transition_def Let_def)
  with Cons.IH [of ?b] Cons.prems show ?case by simp
qed simp

subsection \<open>Properties\<close>

text \<open>In every state a run of operations can reach from a fresh breaker with a positive
  threshold, the failure count is non-negative, a closed breaker has counted fewer failures than
  its threshold, and a breaker that is not closed knows when it last failed.\<close>

theorem breaker_reachable_inv:
  assumes "1 \<le> threshold"
  shows "breaker_inv (breaker_run (circuit_breaker threshold timeout fallback) ops)"
  using assms by (intro cb.run_inv breaker_inv_init) (simp_all add: list_all_iff)

theorem breaker_reachable_inv_witness:
  "breaker_inv (breaker_run (circuit_breaker 2 30 ''fail_closed'')
     [RecordFailure 1, RecordFailure 2, BeforeCall 40, RecordSuccess])"
  by (rule breaker_reachable_inv) simp

text \<open>The breaker trips: once the failures recorded in the closed state reach the threshold,
  the breaker is open, a call made before the recovery timeout has elapsed since the last failure
  is rejected and changes nothing, a later call is let through as a probe, and the probe's outcome
  decides: a success closes the breaker with a zero count, a failure opens it again.\<close>

theorem breaker_trips_and_recovers:
  assumes "cb_state b = CLOSED"
    and "failure_count b + int (length ts) + 1 = failure_threshold b"
    and "opened = breaker_run b (map RecordFailure ts @ [RecordFailure t])"
  shows "cb_state opened = OPEN
    \<and> (now - t < recovery_timeout b \<longrightarrow> before_call now opened = (False, opened))
    \<and> (recovery_timeout b \<le> now - t \<longrightarrow>
         before_call now opened = (True, opened\<lparr>cb_state := HALF_OPEN\<rparr>)
         \<and> record_success (snd (before_call now opened))
             = opened\<lparr>cb_state := CLOSED, failure_count := 0\<rparr>
         \<and> is_open (record_failure now' (snd (before_call now opened))))"
proof -
  let ?c = "breaker_run b (map RecordFailure ts)"
  have c: "cb_state ?c = CLOSED" "failure_count ?c + 1 = failure_threshold ?c"
    using closed_failures [of b ts] assms(1,2) by (simp_all add: breaker_run_config)
  have o: "opened = record_failure t ?c"
    by (simp add: assms(3) run_steps_append)
  then have st: "cb_state opened = OPEN" "last_failure_time opened = Some t"
    using c by (simp_all add: record_failure_def cb_transition_def Let_def)
  have "recovery_timeout opened = recovery_timeout b"
    by (simp only: assms(3) breaker_run_config)
  with st show ?thesis by (auto simp: breaker_defs)
qed

theorem breaker_trips_and_recovers_witness:
  "cb_state (breaker_run (circuit_breaker 2 30 ''fail_open'') (map RecordFailure [1] @ [RecordFailure 5]))
     = OPEN
   \<and> fst (before_call 20 (breaker_run (circuit_breaker 2 30 ''fail_open'')
       (map RecordFailure [1] @ [RecordFailure 5]))) = False
   \<and> fst (before_call 35 (breaker_run (circuit_breaker 2 30 ''fail_open'')
       (map RecordFailure [1] @ [RecordFailure 5]))) = True"
proof -
  have h: "cb_state (circuit_breaker 2 30 ''fail_open'') = CLOSED"
    "failure_count (circuit_breaker 2 30 ''fail_open'') + int (length [1::pyfloat]) + 1
       = failure_threshold (circuit_breaker 2 30 ''fail_open'')"
    by (simp_all add: circuit_breaker_def)
  have r: "recovery_timeout (circuit_breaker 2 30 ''fail_open'') = 30"
    by (simp add: circuit_breaker_def)
  show ?thesis
    using breaker_trips_and_recovers [OF h refl, of 5 20 0]
      breaker_trips_and_recovers [OF h refl, of 5 35 0]
    unfolding r by simp
qed

text \<open>The half-open state is not limited to one probe: every call that arrives while the
  breaker is half-open is let through and leaves it half-open, however many there are, until an
  outcome is recorded. (The source comments the branch as ``allow a single probe request''.)\<close>

theorem half_open_admits_every_call:
  assumes "cb_state b = HALF_OPEN"
  shows "breaker_run b (map BeforeCall ts) = b \<and> before_call now (breaker_run b (map BeforeCall ts)) = (True, b)"
proof -
  have step: "before_call t b = (True, b)" for t
    using assms by (simp add: before_call_def)
  have "breaker_run b (map BeforeCall ts) = b"
    by (induction ts) (simp_all add: step)
  with step show ?thesis by simp
qed

theorem half_open_admits_every_call_witness:
  "fst (before_call 33 (breaker_run ((circuit_breaker 1 30 ''fail_closed'')\<lparr>cb_state := HALF_OPEN\<rparr>)
     (map BeforeCall [31, 32]))) = True"
proof -
  have h: "cb_state ((circuit_breaker 1 30 ''fail_closed'')\<lparr>cb_state := HALF_OPEN\<rparr>) = HALF_OPEN"
    by simp
  show ?thesis
    using half_open_admits_every_call [OF h, of "[31, 32]" 33] by (metis fst_conv)
qed

end
