(* ===== verification/Pipeline_Engine.thy ===== *)
theory Pipeline_Engine
  imports Flow_Reducer Circuit_Breaker
begin

text \<open>
  \<open>pipeline/engine.py\<close>: the engine that turns detectors and their configuration into a Flow, runs
  it and returns the safety decision.

  A detector object is a record with its identity (\<open>det_id\<close>, what Python's \<open>is\<close> compares). The
  circuit breakers are shared, mutable objects: a configuration holds the address of its breaker in
  a store, and an invocation of a capability returns the updated store. What a detector's \<open>detect\<close>
  does is a \<open>detect_outcome\<close>; logging is left out.
\<close>

record detector =
  det_id :: nat
  det_name :: pystr
  det_version :: pystr
  det_category :: pystr

type_synonym breaker_store = "nat \<Rightarrow> breaker"

record detector_config =
  cfg_block_threshold :: "pyfloat option"
  cfg_flag_threshold :: "pyfloat option"
  cfg_on_error :: "pystr option"
  cfg_timeout_seconds :: "pyfloat option"
  cfg_priority :: "int option"
  cfg_circuit_breaker :: "nat option"

definition empty_config :: detector_config where
  "empty_config =
     \<lparr>cfg_block_threshold = None, cfg_flag_threshold = None, cfg_on_error = None,
      cfg_timeout_seconds = None, cfg_priority = None, cfg_circuit_breaker = None\<rparr>"

type_synonym detector_configs = "(pystr \<times> detector_config) list"

definition config_of :: "detector_configs \<Rightarrow> pystr \<Rightarrow> detector_config" where
  "config_of configs name = or_default (map_of configs name) empty_config"

definition max_pipeline_timeout_seconds :: pyfloat where
  "max_pipeline_timeout_seconds = 120"

definition timeout_seconds :: "detector_config \<Rightarrow> pyfloat" where
  "timeout_seconds config =
     (case cfg_timeout_seconds config of
        None \<Rightarrow> max_pipeline_timeout_seconds
      | Some v \<Rightarrow> max (1/1000) (min v max_pipeline_timeout_seconds))"

definition on_error_of :: "detector_config \<Rightarrow> fallback_policy" where
  "on_error_of config = (if cfg_on_error config = Some ''fail_closed'' then Fail_closed else Fail_open)"

definition config_priority :: "detector_config \<Rightarrow> int" where
  "config_priority config = or_default (cfg_priority config) 100"

subsection \<open>Contract identifiers from detector names\<close>

text \<open>\<open>_INVALID_ID_CHARACTERS.sub("-", value)\<close>: a run of other characters becomes one dash.\<close>

function dash_invalid :: "pystr \<Rightarrow> pystr" where
  "dash_invalid [] = []"
| "dash_invalid (c # cs) =
     (if contract_id_char c then c # dash_invalid cs
      else CHR ''-'' # dash_invalid (dropWhile (\<lambda>c. \<not> contract_id_char c) cs))"
  by pat_completeness auto
termination
  by (relation "measure length") (auto simp: le_imp_less_Suc length_dropWhile_le)

definition strip_dashes :: "pystr \<Rightarrow> pystr" where
  "strip_dashes s = rev (dropWhile (\<lambda>c. c = CHR ''-'') (rev (dropWhile (\<lambda>c. c = CHR ''-'') s)))"

definition safe_contract_component :: "pystr \<Rightarrow> pystr" where
  "safe_contract_component value =
     (let normalized = take 80 (strip_dashes (dash_invalid value)) in
      if normalized = [] then ''unnamed'' else normalized)"

subsection \<open>Invoking a detector\<close>

datatype detect_outcome = Detect_returned detection_result | Detect_raised | Detect_cancelled

definition safety_signal :: "action \<Rightarrow> pystr" where
  "safety_signal a = ''safety.'' @ action_str a"

definition summary_for :: "detection_result \<Rightarrow> safe_summary" where
  "summary_for result =
     empty_summary\<lparr>ss_action := Some (action_str (dr_action result)),
                   ss_risk_level := Some (risk_str (dr_risk_level result)),
                   ss_category := Some (dr_category result)\<rparr>"

definition capability_result :: "detection_result \<Rightarrow> detector_output cap_result" where
  "capability_result result =
     \<lparr>cr_output = Some (Detected result), cr_signals = [safety_signal (dr_action result)],
      cr_evidence_summary = Safe (summary_for result)\<rparr>"

text \<open>The action the engine gives a result: its own is replaced.\<close>

definition decide_result :: "detector_config \<Rightarrow> pyfloat \<Rightarrow> detection_result \<Rightarrow> detection_result" where
  "decide_result config duration_ms result =
     result\<lparr>dr_duration_ms := duration_ms,
            dr_action :=
              (if dr_modified_content result \<noteq> None then Modify
               else decide (dr_confidence result) (or_default (cfg_block_threshold config) 1)
                      (or_default (cfg_flag_threshold config) 1))\<rparr>"

text \<open>The lengths that \<open>SafeEvidenceSummary\<close> accepts; an action and a risk level always fit.\<close>

definition summary_accepted :: "detection_result \<Rightarrow> bool" where
  "summary_accepted result \<longleftrightarrow>
     length (action_str (dr_action result)) \<le> 32 \<and> length (risk_str (dr_risk_level result)) \<le> 32
     \<and> length (dr_category result) \<le> 64"

text \<open>
  \<open>_PipelineDetectorCapability.invoke\<close>, with the clock before the call and at its end. A
  cancellation (the runtime's timeout) is passed on. The breaker has counted a success before the
  summary is built, which raises for a category that is too long.
\<close>

definition capability_invoke ::
  "detector_config \<Rightarrow> pyfloat \<Rightarrow> pyfloat \<Rightarrow> detect_outcome \<Rightarrow> breaker_store
     \<Rightarrow> detector_output invoke_outcome \<times> breaker_store" where
  "capability_invoke config started ended outcome store =
     (let breaker = cfg_circuit_breaker config;
          (admitted, store) =
            (case breaker of
               None \<Rightarrow> (True, store)
             | Some a \<Rightarrow> let (ok, b) = before_call started (store a) in (ok, store(a := b)))
      in if \<not> admitted then (Invocation_error CIRCUIT_OPEN, store)
         else
           case outcome of
             Detect_cancelled \<Rightarrow> (Invoke_timed_out, store)
           | Detect_raised \<Rightarrow>
               (Invocation_error ERROR,
                case breaker of None \<Rightarrow> store | Some a \<Rightarrow> store(a := record_failure ended (store a)))
           | Detect_returned result \<Rightarrow>
               (let decided = decide_result config ((ended - started) * 1000) result in
                if summary_accepted decided then Returned (capability_result decided) else Raised,
                case breaker of None \<Rightarrow> store | Some a \<Rightarrow> store(a := record_success (store a))))"

subsection \<open>The legacy Flow\<close>

datatype pipeline_error =
    Invalid_short_circuit
  | Configured_stage_flow_missing
  | Configured_policy_missing pystr pystr pystr
  | Policy_conflict_error policy_conflict
  | Contract_error contract_error
  | Flow_error runtime_error
  | Detector_reducer_contract_violation

datatype short_circuit = On_block | On_block_and_modify

definition parse_short_circuit :: "pystr \<Rightarrow> pipeline_error + short_circuit" where
  "parse_short_circuit s =
     (if s = ''block'' then Inr On_block
      else if s = ''block_and_modify'' then Inr On_block_and_modify
      else Inl Invalid_short_circuit)"

fun stop_signals :: "short_circuit \<Rightarrow> pystr list" where
  "stop_signals On_block_and_modify = [''safety.block'', ''safety.modify'']"
| "stop_signals On_block = [''safety.block'']"

definition legacy_flow_id :: pystr where "legacy_flow_id = ''pipeline-compat-flow''"

definition legacy_capability_id :: "nat \<Rightarrow> detector \<Rightarrow> pystr" where
  "legacy_capability_id index d =
     ''pipeline.detector.'' @ show_nat index @ ''.'' @ safe_contract_component (det_name d)"

definition legacy_node_id :: "nat \<Rightarrow> detector \<Rightarrow> pystr" where
  "legacy_node_id index d = ''detector-'' @ show_nat index @ ''-'' @ safe_contract_component (det_name d)"

definition circuit_action :: "breaker_store \<Rightarrow> detector_config \<Rightarrow> fallback_policy" where
  "circuit_action store config =
     (case cfg_circuit_breaker config of
        Some a \<Rightarrow> if fallback_action (store a) = ''fail_closed'' then Fail_closed else on_error_of config
      | None \<Rightarrow> on_error_of config)"

definition legacy_policy_config :: "short_circuit \<Rightarrow> breaker_store \<Rightarrow> detector_config \<Rightarrow> node_policy_config" where
  "legacy_policy_config sc store config =
     \<lparr>npc_timeout = Some \<lparr>tp_seconds = timeout_seconds config, tp_action = on_error_of config\<rparr>,
      npc_failure = Some (on_error_of config),
      npc_availability = Some \<lparr>ap_required = False, ap_on_unavailable = on_error_of config,
                               ap_on_circuit_open = circuit_action store config\<rparr>,
      npc_degradation = Some \<lparr>gp_allowed = True, gp_emit_evidence = True, gp_emit_metrics = True\<rparr>,
      npc_stop = Some (stop_signals sc)\<rparr>"

definition legacy_policy ::
  "short_circuit \<Rightarrow> breaker_store \<Rightarrow> detector_config \<Rightarrow> pystr \<Rightarrow> policy_conflict + node_policy" where
  "legacy_policy sc store config nid =
     resolve_node_policy (legacy_policy_config sc store config) policy_defaults LEGACY
       (Some legacy_flow_id) (Some nid)"

definition legacy_fallback :: "breaker_store \<Rightarrow> detector_config \<Rightarrow> detector \<Rightarrow> failure_fallback" where
  "legacy_fallback store config d =
     \<lparr>ff_detector_name = det_name d, ff_on_error = fallback_str (on_error_of config),
      ff_breaker = map_option (\<lambda>a. fallback_action (store a)) (cfg_circuit_breaker config),
      ff_on_timeout = None, ff_on_unavailable = None, ff_on_circuit_open = None\<rparr>"

text \<open>
  The \<open>CapabilityDescriptor\<close> of a detector: its version, name and category have to be
  \<open>NonEmptyBoundedString\<close>s, which are kept without the white space around them.
\<close>

definition describable :: "detector \<Rightarrow> bool" where
  "describable d \<longleftrightarrow>
     (\<forall>value \<in> set [det_version d, det_name d, det_category d]. validate_non_empty_bounded value \<noteq> Inl ())"

definition detector_descriptor :: "pystr \<Rightarrow> detector \<Rightarrow> capability_descriptor" where
  "detector_descriptor capability_id d =
     \<lparr>cd_contract_version = ''1.0'', cd_capability_id = capability_id,
      cd_implementation_version = py_strip (det_version d), cd_input_schema = ''safety.text.v1'',
      cd_output_schema = ''safety.detector-result.v1'', cd_name = Some (py_strip (det_name d)),
      cd_category = Some (py_strip (det_category d))\<rparr>"

text \<open>What one detector adds to the Flow.\<close>

record legacy_entry =
  le_node :: node
  le_descriptor :: capability_descriptor
  le_policy :: node_policy
  le_fallback :: failure_fallback

definition legacy_entry ::
  "short_circuit \<Rightarrow> breaker_store \<Rightarrow> detector_configs \<Rightarrow> nat \<times> detector \<Rightarrow> pipeline_error + legacy_entry" where
  "legacy_entry sc store configs indexed =
     (let (index, d) = indexed;
          config = config_of configs (det_name d);
          nid = legacy_node_id index d;
          cid = legacy_capability_id index d in
      if \<not> describable d then Inl (Contract_error Invalid_non_empty_value)
      else case legacy_policy sc store config nid of
        Inl e \<Rightarrow> Inl (Policy_conflict_error e)
      | Inr policy \<Rightarrow> Inr
          \<lparr>le_node = Capability_node \<lparr>cn_node_id = nid, cn_capability_id = cid,
             cn_input_schema = ''safety.text.v1'', cn_output_schema = ''safety.detector-result.v1'',
             cn_priority = config_priority config\<rparr>,
           le_descriptor = detector_descriptor cid d, le_policy = policy,
           le_fallback = legacy_fallback store config d\<rparr>)"

record pipeline_plan =
  pp_flow :: flow_definition
  pp_registry :: registry
  pp_capabilities :: "pystr list"
  pp_policies :: "pystr \<times> pystr \<times> pystr \<rightharpoonup> node_policy"
  pp_fallbacks :: "pystr \<times> pystr \<rightharpoonup> failure_fallback"

definition legacy_flow :: "legacy_entry list \<Rightarrow> flow_definition" where
  "legacy_flow entries =
     \<lparr>fd_contract_version = ''1.0'', fd_flow_id = legacy_flow_id, fd_version = ''1.0.0'',
      fd_input_schema = ''safety.text.v1'', fd_output_schema = ''safety.detector-result.v1'',
      fd_nodes = map le_node entries, fd_reducer_capability_id = Some ''detector-result-reducer''\<rparr>"

definition build_flow ::
  "short_circuit \<Rightarrow> breaker_store \<Rightarrow> detector list \<Rightarrow> detector_configs \<Rightarrow> pipeline_error + pipeline_plan" where
  "build_flow sc store detectors configs =
     bind_res (map_res (legacy_entry sc store configs) (enumerate 0 detectors)) (\<lambda>entries.
       case validate_flow_definition (legacy_flow entries) of
         Inl e \<Rightarrow> Inl (Contract_error e)
       | Inr flow \<Rightarrow>
           (case flow_contract_registry (map le_descriptor entries) [flow] 8 256 of
              Inl e \<Rightarrow> Inl (Contract_error e)
            | Inr registry \<Rightarrow> Inr
                \<lparr>pp_flow = flow, pp_registry = registry,
                 pp_capabilities = map (cd_capability_id \<circ> le_descriptor) entries,
                 pp_policies = map_of (map (\<lambda>e. ((legacy_flow_id, ''1.0.0'', node_id (le_node e)), le_policy e)) entries),
                 pp_fallbacks = map_of (map (\<lambda>e. ((''*'', node_id (le_node e)), le_fallback e)) entries)\<rparr>))"

subsection \<open>Configured Flows\<close>

record engine =
  en_short_circuit :: short_circuit
  en_flag_escalation :: "rule option"
  en_configured_flows :: "flow_definition list"
  en_input_flow :: "flow_key option"
  en_output_flow :: "flow_key option"
  en_configured_policies :: "pystr \<times> pystr \<times> pystr \<rightharpoonup> node_policy"
  en_max_concurrency :: int
  en_absolute_timeout :: pyfloat
  en_max_evidence_size :: nat
  en_max_depth :: int
  en_max_nodes :: int

definition stage_flow :: "engine \<Rightarrow> direction \<Rightarrow> flow_key option" where
  "stage_flow e d = (case d of Input \<Rightarrow> en_input_flow e | Output \<Rightarrow> en_output_flow e)"

definition capability_nodes :: "flow_definition list \<Rightarrow> (flow_definition \<times> capability_node) list" where
  "capability_nodes flows =
     concat (map (\<lambda>f. List.map_filter
       (\<lambda>n. case n of Capability_node c \<Rightarrow> Some (f, c) | Flow_node m \<Rightarrow> None) (fd_nodes f)) flows)"

text \<open>\<open>setdefault\<close>: the first value of a key stays.\<close>

definition set_default :: "'k \<Rightarrow> 'v \<Rightarrow> ('k \<times> 'v) list \<Rightarrow> ('k \<times> 'v) list" where
  "set_default k v m = (if k \<in> fst ` set m then m else m @ [(k, v)])"

definition unavailable_descriptor :: "capability_node \<Rightarrow> capability_descriptor" where
  "unavailable_descriptor n =
     \<lparr>cd_contract_version = ''1.0'', cd_capability_id = cn_capability_id n,
      cd_implementation_version = ''unavailable'', cd_input_schema = cn_input_schema n,
      cd_output_schema = cn_output_schema n, cd_name = None, cd_category = None\<rparr>"

definition default_descriptors :: "flow_definition list \<Rightarrow> (pystr \<times> capability_descriptor) list" where
  "default_descriptors flows =
     fold (\<lambda>(f, n). set_default (cn_capability_id n) (unavailable_descriptor n)) (capability_nodes flows) []"

text \<open>The detectors by capability id; a later detector replaces one of the same name.\<close>

definition detector_by_capability :: "detector list \<Rightarrow> (pystr \<times> detector) list" where
  "detector_by_capability detectors =
     fold (\<lambda>d. AList.update (''detector.'' @ det_name d) d) detectors []"

definition available_capabilities :: "flow_definition list \<Rightarrow> detector list \<Rightarrow> (pystr \<times> detector) list" where
  "available_capabilities flows detectors =
     filter (\<lambda>(cid, d). cid \<in> (cn_capability_id \<circ> snd) ` set (capability_nodes flows))
       (detector_by_capability detectors)"

definition configured_descriptors :: "flow_definition list \<Rightarrow> detector list \<Rightarrow> capability_descriptor list" where
  "configured_descriptors flows detectors =
     map snd (fold (\<lambda>(cid, d). AList.update cid (detector_descriptor cid d))
       (available_capabilities flows detectors) (default_descriptors flows))"

definition configured_fallback ::
  "engine \<Rightarrow> breaker_store \<Rightarrow> detector_configs \<Rightarrow> flow_definition \<times> capability_node
     \<Rightarrow> pipeline_error + (pystr \<times> pystr) \<times> failure_fallback" where
  "configured_fallback e store configs fn =
     (let (f, n) = fn;
          detector_name = remove_prefix ''detector.'' (cn_capability_id n) in
      case en_configured_policies e (fd_flow_id f, fd_version f, cn_node_id n) of
        None \<Rightarrow> Inl (Configured_policy_missing (fd_flow_id f) (fd_version f) (cn_node_id n))
      | Some policy \<Rightarrow> Inr ((fd_flow_id f, cn_node_id n),
          \<lparr>ff_detector_name = detector_name, ff_on_error = fallback_str (np_failure policy),
           ff_breaker = map_option (\<lambda>a. fallback_action (store a)) (cfg_circuit_breaker (config_of configs detector_name)),
           ff_on_timeout = Some (fallback_str (tp_action (np_timeout policy))),
           ff_on_unavailable = Some (fallback_str (ap_on_unavailable (np_availability policy))),
           ff_on_circuit_open = Some (fallback_str (ap_on_circuit_open (np_availability policy)))\<rparr>))"

text \<open>A dict filled in order is looked up from its end.\<close>

definition dict_of :: "('k \<times> 'v) list \<Rightarrow> 'k \<rightharpoonup> 'v" where
  "dict_of al = map_of (rev al)"

definition build_configured_flow ::
  "engine \<Rightarrow> breaker_store \<Rightarrow> detector list \<Rightarrow> detector_configs \<Rightarrow> direction
     \<Rightarrow> pipeline_error + pipeline_plan" where
  "build_configured_flow e store detectors configs direction =
     (case stage_flow e direction of
        None \<Rightarrow> Inl Configured_stage_flow_missing
      | Some reference \<Rightarrow>
          (case dict_of (map (\<lambda>f. (flow_key f, f)) (en_configured_flows e)) reference of
             None \<Rightarrow> Inl Configured_stage_flow_missing
           | Some selected_flow \<Rightarrow>
               if \<not> list_all (\<lambda>(cid, d). describable d) (available_capabilities (en_configured_flows e) detectors)
               then Inl (Contract_error Invalid_non_empty_value)
               else
               (case flow_contract_registry (configured_descriptors (en_configured_flows e) detectors)
                       (en_configured_flows e) (en_max_depth e) (en_max_nodes e) of
                  Inl er \<Rightarrow> Inl (Contract_error er)
                | Inr registry \<Rightarrow>
                    bind_res (map_res (configured_fallback e store configs)
                                (capability_nodes (en_configured_flows e))) (\<lambda>fallbacks. Inr
                      \<lparr>pp_flow = selected_flow, pp_registry = registry,
                       pp_capabilities = map fst (available_capabilities (en_configured_flows e) detectors),
                       pp_policies = en_configured_policies e, pp_fallbacks = dict_of fallbacks\<rparr>))))"

subsection \<open>Plans and their cache\<close>

definition build_plan ::
  "engine \<Rightarrow> breaker_store \<Rightarrow> detector list \<Rightarrow> detector_configs \<Rightarrow> direction \<Rightarrow> pipeline_error + pipeline_plan" where
  "build_plan e store detectors configs direction =
     (if en_configured_flows e \<noteq> []
      then build_configured_flow e store detectors configs direction
      else build_flow (en_short_circuit e) store detectors configs)"

definition plan_runtime :: "engine \<Rightarrow> codec \<Rightarrow> pipeline_plan \<Rightarrow> runtime_error + detector_output runtime" where
  "plan_runtime e codec plan =
     flow_runtime
       \<lparr>rt_registry = pp_registry plan, rt_capabilities = pp_capabilities plan,
        rt_policies = pp_policies plan, rt_reducers = [], rt_max_concurrency = en_max_concurrency e,
        rt_absolute_timeout = en_absolute_timeout e, rt_max_evidence_size = en_max_evidence_size e,
        rt_codec = codec\<rparr>"

definition plan_priorities :: "detector list \<Rightarrow> detector_configs \<Rightarrow> pystr \<rightharpoonup> int" where
  "plan_priorities detectors configs =
     dict_of (map (\<lambda>d. (det_name d, config_priority (config_of configs (det_name d)))) detectors)"

record cached_plan =
  cp_direction :: direction
  cp_detectors :: "detector list"
  cp_detector_names :: "pystr list"
  cp_config_snapshot :: detector_configs
  cp_plan :: "pipeline_plan \<times> detector_output runtime \<times> (pystr \<rightharpoonup> int)"

text \<open>Equality of two dicts: the same keys with the same values.\<close>

definition dict_eq :: "('k \<times> 'v) list \<Rightarrow> ('k \<times> 'v) list \<Rightarrow> bool" where
  "dict_eq a b \<longleftrightarrow>
     list_all (\<lambda>(k, _). map_of a k = map_of b k) a \<and> list_all (\<lambda>(k, _). map_of a k = map_of b k) b"

definition plan_cache_matches :: "cached_plan \<Rightarrow> detector list \<Rightarrow> detector_configs \<Rightarrow> bool" where
  "plan_cache_matches cached detectors configs \<longleftrightarrow>
     dict_eq configs (cp_config_snapshot cached)
     \<and> length detectors = length (cp_detectors cached)
     \<and> map det_id detectors = map det_id (cp_detectors cached)
     \<and> map det_name detectors = cp_detector_names cached"

type_synonym ready_plan = "pipeline_plan \<times> detector_output runtime \<times> (pystr \<rightharpoonup> int)"

definition new_plan ::
  "engine \<Rightarrow> codec \<Rightarrow> breaker_store \<Rightarrow> detector list \<Rightarrow> detector_configs \<Rightarrow> direction \<Rightarrow> pipeline_error + ready_plan" where
  "new_plan e codec store detectors configs direction =
     bind_res (build_plan e store detectors configs direction) (\<lambda>plan.
       case plan_runtime e codec plan of
         Inl er \<Rightarrow> Inl (Flow_error er)
       | Inr runtime \<Rightarrow> Inr (plan, runtime, plan_priorities detectors configs))"

definition plan_for ::
  "engine \<Rightarrow> codec \<Rightarrow> breaker_store \<Rightarrow> cached_plan option \<Rightarrow> detector list \<Rightarrow> detector_configs \<Rightarrow> direction
     \<Rightarrow> pipeline_error + (ready_plan \<times> cached_plan)" where
  "plan_for e codec store cache detectors configs direction =
     (let fresh = bind_res (new_plan e codec store detectors configs direction) (\<lambda>plan. Inr
            (plan, \<lparr>cp_direction = direction, cp_detectors = detectors,
                    cp_detector_names = map det_name detectors, cp_config_snapshot = configs,
                    cp_plan = plan\<rparr>))
      in case cache of
           Some cached \<Rightarrow>
             if cp_direction cached = direction \<and> plan_cache_matches cached detectors configs
             then Inr (cp_plan cached, cached) else fresh
         | None \<Rightarrow> fresh)"

subsection \<open>Running a pipeline\<close>

record pipeline_result =
  pr_final_action :: action
  pr_overall_risk_level :: risk_level
  pr_detector_results :: "detection_result list"
  pr_modifications :: "modification list"
  pr_duration_ms :: pyfloat
  pr_flow_evidence :: "flow_evidence option"

definition empty_pipeline_result :: "pyfloat \<Rightarrow> pipeline_result" where
  "empty_pipeline_result duration =
     \<lparr>pr_final_action = Allow, pr_overall_risk_level = Low, pr_detector_results = [],
      pr_modifications = [], pr_duration_ms = duration, pr_flow_evidence = None\<rparr>"

text \<open>A context with its \<open>metadata["content"]\<close>.\<close>

definition pipeline_input :: "(detection_context \<times> pystr) list \<Rightarrow> flow_input" where
  "pipeline_input contexts =
     \<lparr>fin_items = map (\<lambda>(index, context, content).
          \<lparr>fi_item_id = ''context-'' @ show_nat index, fi_content = content,
           fi_detection_context = Some context\<rparr>) (enumerate 0 contexts),
      fin_context =
        (let first = fst (hd contexts) in
         \<lparr>fc_request_id = dc_request_id first, fc_correlation_id = dc_request_id first,
          fc_direction = dc_direction first, fc_stage = ''pipeline-compat'',
          fc_parent_execution_id = None\<rparr>)\<rparr>"

definition pipeline_reducer :: "engine \<Rightarrow> ready_plan \<Rightarrow> detection_context list \<Rightarrow> detector_reducer" where
  "pipeline_reducer e plan contexts =
     \<lparr>dre_priorities = snd (snd plan), dre_message_indices = map dc_message_index contexts,
      dre_flag_escalation = en_flag_escalation e, dre_failure_fallbacks = pp_fallbacks (fst plan)\<rparr>"

definition run_plan ::
  "detector_output env \<Rightarrow> pyfloat \<Rightarrow> engine \<Rightarrow> ready_plan \<Rightarrow> (detection_context \<times> pystr) list
     \<Rightarrow> pipeline_error + pipeline_result" where
  "run_plan env duration e plan contexts =
     (case execute env (fst (snd plan)) (detector_reduce (pipeline_reducer e plan (map fst contexts)))
             (pp_flow (fst plan)) (pipeline_input contexts) of
        Inl er \<Rightarrow> Inl (Flow_error er)
      | Inr execution \<Rightarrow>
          (case fr_output execution of
             Some (Reduced reduced) \<Rightarrow> Inr
               \<lparr>pr_final_action = red_final_action reduced,
                pr_overall_risk_level = red_overall_risk_level reduced,
                pr_detector_results = red_detector_results reduced,
                pr_modifications = red_modifications reduced, pr_duration_ms = duration,
                pr_flow_evidence = Some (fr_evidence execution)\<rparr>
           | _ \<Rightarrow> Inl Detector_reducer_contract_violation))"

definition pipeline_run ::
  "detector_output env \<Rightarrow> pyfloat \<Rightarrow> codec \<Rightarrow> engine \<Rightarrow> breaker_store \<Rightarrow> cached_plan option
     \<Rightarrow> detector list \<Rightarrow> (detection_context \<times> pystr) list \<Rightarrow> detector_configs
     \<Rightarrow> (pipeline_error + pipeline_result) \<times> cached_plan option" where
  "pipeline_run env duration codec e store cache detectors contexts configs =
     (if contexts = [] \<or> (detectors = [] \<and> en_configured_flows e = [])
      then (Inr (empty_pipeline_result duration), cache)
      else
        (case plan_for e codec store cache detectors configs (dc_direction (fst (hd contexts))) of
           Inl er \<Rightarrow> (Inl er, cache)
         | Inr (plan, cache) \<Rightarrow> (run_plan env duration e plan contexts, Some cache)))"

subsection \<open>Policies and fallbacks\<close>

lemma fallback_str_nonempty [simp]: "fallback_str a \<noteq> []"
  by (cases a) auto

lemma legacy_policy_resolves:
  "\<exists>p. legacy_policy sc store config nid = Inr p
     \<and> np_timeout p = \<lparr>tp_seconds = timeout_seconds config, tp_action = on_error_of config\<rparr>
     \<and> np_failure p = on_error_of config
     \<and> np_availability p = \<lparr>ap_required = False, ap_on_unavailable = on_error_of config,
                           ap_on_circuit_open = circuit_action store config\<rparr>
     \<and> np_stop p = stop_signals sc"
  by (simp add: legacy_policy_def resolve_node_policy_def legacy_policy_config_def or_default_def Let_def)

text \<open>A circuit that is open where the detector is fail-closed and its breaker is not.\<close>

definition open_circuit_mismatch :: "breaker_store \<Rightarrow> detector_config \<Rightarrow> bool" where
  "open_circuit_mismatch store config \<longleftrightarrow>
     on_error_of config = Fail_closed
     \<and> (case cfg_circuit_breaker config of
          Some a \<Rightarrow> fallback_action (store a) \<noteq> ''fail_closed'' | None \<Rightarrow> False)"

lemma legacy_agreement:
  assumes "legacy_policy sc store config nid = Inr p"
  shows "pdn_stop_requested (evaluate_failure p k) \<longleftrightarrow>
    action_for (legacy_fallback store config d) (failure_reasons k) = ''fail_closed''
    \<or> (k = CIRCUIT_OPEN \<and> open_circuit_mismatch store config)"
  using assms legacy_policy_resolves [of sc store config nid]
  by (cases k) (auto simp: evaluate_failure_def failure_action_def action_for_def legacy_fallback_def
      str_or_def open_circuit_mismatch_def circuit_action_def Let_def split: option.splits)

end
