(* ===== verification/Pipeline_Laws.thy ===== *)
theory Pipeline_Laws
  imports Pipeline_Engine
begin

text \<open>
  What the pipeline engine guarantees: the Flow it builds from detectors is valid and has a policy
  and a fallback for every node, a cached plan is the plan a fresh build would give, and a run that
  was stopped decides as what stopped it did, except where an open circuit that falls open stops the Flow: then
  the request is allowed.
\<close>

subsection \<open>The legacy Flow is valid\<close>

lemma show_nat_sep:
  assumes "show_nat i @ c # x = show_nat j @ c # y" and "\<not> is_digit c"
  shows "i = j"
proof -
  have "takeWhile is_digit (show_nat k @ c # z) = show_nat k" for k z
    using show_nat_digits [of k] assms(2) by (simp add: takeWhile_append2)
  then have "show_nat i = show_nat j" by (metis assms(1))
  then show ?thesis by simp
qed

lemma legacy_node_id_inject: "legacy_node_id i d = legacy_node_id j d' \<Longrightarrow> i = j"
  by (rule show_nat_sep [where c = "CHR ''-''"]) (auto simp: legacy_node_id_def is_digit_def)

lemma legacy_capability_id_inject: "legacy_capability_id i d = legacy_capability_id j d' \<Longrightarrow> i = j"
  by (rule show_nat_sep [where c = "CHR ''.''"]) (auto simp: legacy_capability_id_def is_digit_def)

definition entry_of :: "short_circuit \<Rightarrow> breaker_store \<Rightarrow> detector_configs \<Rightarrow> nat \<Rightarrow> detector \<Rightarrow> legacy_entry" where
  "entry_of sc store configs i d =
     \<lparr>le_node = Capability_node \<lparr>cn_node_id = legacy_node_id i d, cn_capability_id = legacy_capability_id i d,
        cn_input_schema = ''safety.text.v1'', cn_output_schema = ''safety.detector-result.v1'',
        cn_priority = config_priority (config_of configs (det_name d))\<rparr>,
      le_descriptor = detector_descriptor (legacy_capability_id i d) d,
      le_policy = projr (legacy_policy sc store (config_of configs (det_name d)) (legacy_node_id i d)),
      le_fallback = legacy_fallback store (config_of configs (det_name d)) d\<rparr>"

definition entries_of :: "short_circuit \<Rightarrow> breaker_store \<Rightarrow> detector_configs \<Rightarrow> detector list \<Rightarrow> legacy_entry list" where
  "entries_of sc store configs ds = map (\<lambda>(i, d). entry_of sc store configs i d) (enumerate 0 ds)"

lemma legacy_entry_Inr: "legacy_entry sc store configs (i, d) = Inr x \<longleftrightarrow> describable d \<and> x = entry_of sc store configs i d"
  using legacy_policy_resolves [of sc store "config_of configs (det_name d)" "legacy_node_id i d"]
  by (auto simp: legacy_entry_def entry_of_def Let_def)

lemma legacy_entries:
  "map_res (legacy_entry sc store configs) (enumerate 0 ds) = Inr es
     \<longleftrightarrow> list_all describable ds \<and> es = entries_of sc store configs ds"
proof -
  have "(\<forall>i < length ds. legacy_entry sc store configs (enumerate 0 ds ! i) = Inr (es ! i))
      \<longleftrightarrow> (\<forall>i < length ds. describable (ds ! i) \<and> es ! i = entry_of sc store configs i (ds ! i))"
    by (simp add: nth_enumerate_eq legacy_entry_Inr)
  then show ?thesis
    unfolding map_res_Inr list_all2_conv_all_nth
    by (auto simp: entries_of_def list_all_length nth_enumerate_eq list_eq_iff_nth_eq)
qed

lemma entries_nth:
  "length (entries_of sc store configs ds) = length ds"
  "i < length ds \<Longrightarrow> entries_of sc store configs ds ! i = entry_of sc store configs i (ds ! i)"
  by (simp_all add: entries_of_def nth_enumerate_eq)

lemma distinct_by_index:
  assumes "\<And>i j. i < length xs \<Longrightarrow> j < length xs \<Longrightarrow> f (xs ! i) = f (xs ! j) \<Longrightarrow> i = j"
  shows "distinct (map f xs)"
  using assms by (simp add: distinct_conv_nth) blast

lemma entries_distinct:
  "distinct (map (node_id \<circ> le_node) (entries_of sc store configs ds))"
  "distinct (map (cd_capability_id \<circ> le_descriptor) (entries_of sc store configs ds))"
  by (rule distinct_by_index,
      auto simp: entries_nth entry_of_def detector_descriptor_def
        dest: legacy_node_id_inject legacy_capability_id_inject)+

lemma flat_registry:
  assumes "distinct (map cd_capability_id caps)" and "int (length (fd_nodes flow)) \<le> max_nodes" and "1 \<le> max_depth"
    and "\<And>n. n \<in> set (fd_nodes flow) \<Longrightarrow> \<exists>c t. n = Capability_node c \<and> t \<in> set caps
        \<and> cd_capability_id t = cn_capability_id c \<and> cd_input_schema t = cn_input_schema c
        \<and> cd_output_schema t = cn_output_schema c"
  shows "flow_contract_registry caps [flow] max_depth max_nodes =
    Inr \<lparr>rg_capabilities = map (\<lambda>c. (cd_capability_id c, c)) caps, rg_flows = [(flow_key flow, flow)],
         rg_max_depth = max_depth, rg_max_nodes = max_nodes\<rparr>" (is "_ = Inr ?rg")
proof -
  have caps: "index_capabilities caps = Inr (map (\<lambda>c. (cd_capability_id c, c)) caps)"
    unfolding index_capabilities_def using assms(1) by (subst fold_res_index_total) auto
  have flows: "index_flows [flow] = Inr [(flow_key flow, flow)]"
    by (simp add: index_flows_def)
  have bind: "validate_binding ?rg flow n = Inr ()" if "n \<in> set (fd_nodes flow)" for n
  proof -
    from assms(4) [OF that]
    obtain c t where n: "n = Capability_node c" "t \<in> set caps" "cd_capability_id t = cn_capability_id c"
      "cd_input_schema t = cn_input_schema c" "cd_output_schema t = cn_output_schema c"
      by blast
    then have "map_of (map (\<lambda>c. (cd_capability_id c, c)) caps) (cn_capability_id c) = Some t"
      using map_of_index [OF assms(1)] by blast
    with n show ?thesis by (simp add: validate_binding_def resolve_capability_def)
  qed
  have "fold_res (\<lambda>n _. validate_binding ?rg flow n) (fd_nodes flow) () = Inr ()"
    unfolding fold_res_all using bind by blast
  then have bindings: "validate_bindings ?rg = Inr ()" by (simp add: validate_bindings_def)
  have cap: "\<forall>n \<in> set (fd_nodes flow). \<exists>c. n = Capability_node c" using assms(4) by blast
  have flat: "fold_res (\<lambda>n total. case n of Capability_node c \<Rightarrow> Inr total
      | Flow_node f \<Rightarrow> g f total) ns k = Inr k"
    if "\<forall>n \<in> set ns. \<exists>c. n = Capability_node c" for ns k and g :: "flow_node \<Rightarrow> int \<Rightarrow> contract_error + int"
    using that by (induction ns) auto
  have "walk_flow ?rg flow 1 [] 0 = Inr (int (length (fd_nodes flow)))"
    using assms(2,3) by (subst walk_flow.simps) (simp add: Let_def flat [OF cap])
  then have "validate_graphs ?rg = Inr ()" by (simp add: validate_graphs_def)
  with bindings show ?thesis
    by (simp add: flow_contract_registry_def caps flows Let_def)
qed

lemma valid_legacy_flow:
  "validate_flow_definition (legacy_flow (entries_of sc store configs ds)) = Inr (legacy_flow (entries_of sc store configs ds))"
proof -
  have "valid_semver ''1.0.0''" by code_simp
  moreover have "distinct (map node_id (map le_node (entries_of sc store configs ds)))"
    using entries_distinct(1) by simp
  ultimately show ?thesis
    by (simp add: validate_flow_definition_def legacy_flow_def supported_contract_versions_def
        distinct_card remdups_id_iff_distinct [THEN iffD2] del: map_map)
qed

lemma build_flow_eq:
  assumes "length ds \<le> 256" and "list_all describable ds"
  shows "build_flow sc store ds configs = Inr
    \<lparr>pp_flow = legacy_flow (entries_of sc store configs ds),
     pp_registry = \<lparr>rg_capabilities = map (\<lambda>c. (cd_capability_id c, c)) (map le_descriptor (entries_of sc store configs ds)),
        rg_flows = [((legacy_flow_id, ''1.0.0''), legacy_flow (entries_of sc store configs ds))],
        rg_max_depth = 8, rg_max_nodes = 256\<rparr>,
     pp_capabilities = map (cd_capability_id \<circ> le_descriptor) (entries_of sc store configs ds),
     pp_policies = map_of (map (\<lambda>e. ((legacy_flow_id, ''1.0.0'', node_id (le_node e)), le_policy e)) (entries_of sc store configs ds)),
     pp_fallbacks = map_of (map (\<lambda>e. ((''*'', node_id (le_node e)), le_fallback e)) (entries_of sc store configs ds))\<rparr>"
proof -
  let ?es = "entries_of sc store configs ds"
  have "flow_contract_registry (map le_descriptor ?es) [legacy_flow ?es] 8 256 =
    Inr \<lparr>rg_capabilities = map (\<lambda>c. (cd_capability_id c, c)) (map le_descriptor ?es),
         rg_flows = [(flow_key (legacy_flow ?es), legacy_flow ?es)], rg_max_depth = 8, rg_max_nodes = 256\<rparr>"
  proof (rule flat_registry)
    show "distinct (map cd_capability_id (map le_descriptor ?es))" using entries_distinct(2) by simp
    show "int (length (fd_nodes (legacy_flow ?es))) \<le> 256" using assms(1) by (simp add: legacy_flow_def entries_nth)
    fix n assume "n \<in> set (fd_nodes (legacy_flow ?es))"
    then obtain i where "i < length ds" "n = le_node (entry_of sc store configs i (ds ! i))"
      by (auto simp: legacy_flow_def in_set_conv_nth entries_nth)
    moreover from this(1) have "entry_of sc store configs i (ds ! i) \<in> set ?es"
      by (metis entries_nth nth_mem)
    ultimately show "\<exists>c t. n = Capability_node c \<and> t \<in> set (map le_descriptor ?es)
        \<and> cd_capability_id t = cn_capability_id c \<and> cd_input_schema t = cn_input_schema c
        \<and> cd_output_schema t = cn_output_schema c"
      by (force simp: entry_of_def detector_descriptor_def)
  qed simp
  moreover have "flow_key (legacy_flow ?es) = (legacy_flow_id, ''1.0.0'')"
    by (simp add: flow_key_def legacy_flow_def)
  moreover have "map_res (legacy_entry sc store configs) (enumerate 0 ds) = Inr ?es"
    using assms(2) by (simp add: legacy_entries)
  ultimately show ?thesis
    by (simp add: build_flow_def valid_legacy_flow)
qed

lemma build_flow_fits:
  assumes "build_flow sc store ds configs = Inr plan"
  shows "length ds \<le> 256" and "list_all describable ds"
proof -
  let ?es = "entries_of sc store configs ds"
  obtain es where es: "map_res (legacy_entry sc store configs) (enumerate 0 ds) = Inr es"
    using assms by (auto simp: build_flow_def res_simps)
  then have eq: "es = ?es" and "list_all describable ds" by (simp_all add: legacy_entries)
  then show "list_all describable ds" by simp
  obtain rg where "flow_contract_registry (map le_descriptor ?es) [legacy_flow ?es] 8 256 = Inr rg"
    using assms es by (auto simp: build_flow_def eq valid_legacy_flow split: sum.splits)
  from registry_flow_length [OF this] show "length ds \<le> 256"
    by (simp add: legacy_flow_def entries_nth)
qed

lemmas build_flow_plan = build_flow_eq [OF build_flow_fits]

subsection \<open>Lookups in the legacy plan\<close>

lemma legacy_lookup:
  assumes "build_flow sc store ds configs = Inr plan" and "n \<in> set (fd_nodes (pp_flow plan))"
  shows "\<exists>i < length ds. \<exists>p. n = le_node (entry_of sc store configs i (ds ! i))
    \<and> pp_policies plan (fd_flow_id (pp_flow plan), fd_version (pp_flow plan), node_id n) = Some p
    \<and> legacy_policy sc store (config_of configs (det_name (ds ! i))) (node_id n) = Inr p
    \<and> fallback_of (pipeline_reducer e (plan, x) contexts) (pp_flow plan) (node_id n)
        = Some (legacy_fallback store (config_of configs (det_name (ds ! i))) (ds ! i))
    \<and> fd_flow_id (pp_flow plan) = legacy_flow_id"
proof -
  let ?es = "entries_of sc store configs ds"
  have plan: "pp_flow plan = legacy_flow ?es"
    "pp_policies plan = map_of (map (\<lambda>e. ((legacy_flow_id, ''1.0.0'', node_id (le_node e)), le_policy e)) ?es)"
    "pp_fallbacks plan = map_of (map (\<lambda>e. ((''*'', node_id (le_node e)), le_fallback e)) ?es)"
    using assms(1) build_flow_plan [OF assms(1) assms(1)] by auto
  obtain i where i: "i < length ds" "n = le_node (entry_of sc store configs i (ds ! i))"
    using assms(2) by (auto simp: plan(1) legacy_flow_def in_set_conv_nth entries_nth)
  let ?e = "entry_of sc store configs i (ds ! i)"
  have mem: "?e \<in> set ?es" using i(1) by (metis entries_nth nth_mem)
  have dist: "distinct (map (node_id \<circ> le_node) ?es)" by (rule entries_distinct(1))
  have "pp_policies plan (legacy_flow_id, ''1.0.0'', node_id (le_node ?e)) = Some (le_policy ?e)"
    unfolding plan(2) using mem dist by (intro map_of_is_SomeI) (auto simp: comp_def distinct_map inj_on_def)
  moreover have "pp_fallbacks plan (''*'', node_id (le_node ?e)) = Some (le_fallback ?e)"
    unfolding plan(3) using mem dist by (intro map_of_is_SomeI) (auto simp: comp_def distinct_map inj_on_def)
  moreover have "pp_fallbacks plan (legacy_flow_id, nid) = None" for nid
    unfolding plan(3) by (auto simp: map_of_eq_None_iff legacy_flow_id_def)
  moreover obtain p where "legacy_policy sc store (config_of configs (det_name (ds ! i))) (legacy_node_id i (ds ! i)) = Inr p"
    using legacy_policy_resolves by blast
  ultimately show ?thesis
    using i by (intro exI [of _ i])
      (auto simp: plan(1) legacy_flow_def fallback_of_def pipeline_reducer_def entry_of_def)
qed

subsection \<open>A stop is a block\<close>

lemma new_plan_parts:
  assumes "new_plan e codec store detectors configs direction = Inr (plan, rt, pri)" and "en_configured_flows e = []"
  shows "build_flow (en_short_circuit e) store detectors configs = Inr plan"
    and "rt_policies rt = pp_policies plan" and "rt_reducers rt = []"
    and "rt_capabilities rt = pp_capabilities plan" and "rt_max_concurrency rt = en_max_concurrency e"
  using assms by (auto simp: new_plan_def build_plan_def res_simps plan_runtime_def flow_runtime_def
      split: sum.splits if_splits)

lemma run_plan_parts:
  assumes "run_plan env duration e (plan, rt, pri) contexts = Inr result"
  obtains ex red where
    "execute_flow env rt (detector_reduce (pipeline_reducer e (plan, rt, pri) (map fst contexts))) None
       (pp_flow plan) (pipeline_input contexts) = Inr ex"
    "fr_output ex = Some (Reduced red)" "pr_final_action result = red_final_action red"
    "pr_detector_results result = red_detector_results red" "pr_flow_evidence result = Some (fr_evidence ex)"
  using assms by (auto simp: run_plan_def execute_def split: sum.splits option.splits detector_output.splits)

lemma execute_flow_reduction:
  assumes "execute_flow (Env sc invoke child) rt reduce parent flow inp = Inr ex" and "rt_reducers rt = []"
  shows "\<exists>cr. reduce flow (fr_node_results ex) = Some cr \<and> fr_output ex = cr_output cr"
proof -
  obtain t where "finish_flow rt sc reduce flow inp parent (build_work flow inp) t = Inr ex"
    using execute_flow_parts [OF assms(1)] by metis
  then show ?thesis
    using assms(2)
    by (auto simp: finish_flow_def effective_reducer_def Let_def res_simps case_res_Inr case_prod_unfold
        split: if_split_asm option.split_asm)
qed

text \<open>The results of a capability node that ask for a stop, under the stop list of the engine's short circuit.\<close>

definition stopping_action :: "short_circuit \<Rightarrow> action \<Rightarrow> bool" where
  "stopping_action sc a \<longleftrightarrow> a = Block \<or> sc = On_block_and_modify \<and> a = Modify"

lemma own_stop:
  assumes "execute_work rt flow inp eid nt d oc child w = Inr out" and "policy_for rt flow (wi_node w) = Inr p"
    and "wi_node w = Capability_node c" and "stops p (wo_result out)" and "np_stop p = stop_signals sc"
    and "\<forall>cr. oc = Returned cr \<longrightarrow> (\<exists>d. cr = capability_result d)"
  shows "(\<exists>d. nr_status (wo_result out) = N_SUCCEEDED \<and> nr_output (wo_result out) = Some (Detected d)
        \<and> stopping_action sc (dr_action d))
    \<or> (\<exists>k. nr_status (wo_result out) \<in> {N_FAILED, N_TIMED_OUT, N_SKIPPED}
         \<and> nr_reason_code (wo_result out) = failure_reasons k \<and> pdn_stop_requested (evaluate_failure p k))"
proof (cases "\<exists>cr. oc = Returned cr \<and> wo_result out = capability_node_result w p d oc")
  case True
  then obtain cr where cr: "oc = Returned cr" "wo_result out = capability_node_result w p d oc" by blast
  obtain det where "cr = capability_result det" using assms(6) cr(1) by blast
  with cr assms(4,5) show ?thesis
    by (cases "dr_action det"; cases sc)
      (auto simp: capability_node_result_def stops_def matched_signal_def capability_result_def safety_signal_def
        stopping_action_def)
next
  case False
  have fail: "\<exists>k' st. st \<in> {N_FAILED, N_TIMED_OUT, N_SKIPPED} \<and> wo_result out = failure_result w p k' st d"
    using assms(1-3) False
    by (cases oc) (fastforce simp: execute_work_def res_simps outcome_of_def capability_node_result_def
        split: if_splits option.splits)+
  then show ?thesis
    using assms(4) by (auto simp: stops_def matched_signal_def failure_result_def Let_def evaluate_failure_def)
qed

lemma stop_contributes:
  assumes plan: "build_flow sc store ds configs = Inr plan"
    and rt: "rt_policies rt = pp_policies plan"
    and agree: "\<forall>d \<in> set ds. \<not> open_circuit_mismatch store (config_of configs (det_name d))"
    and inv: "\<forall>k cr. invoke k = Returned cr \<longrightarrow> (\<exists>d. cr = capability_result d)"
    and i: "i < length (build_work (pp_flow plan) inp)"
    and orig: "ft.origin rt (pp_flow plan) inp sch invoke child reduce i r"
    and pol: "policy_for rt (pp_flow plan) (wi_node (build_work (pp_flow plan) inp ! i)) = Inr p"
    and stop: "stops p r"
  shows "\<exists>d j. (d, j) \<in> set (contributions (pipeline_reducer e (plan, x) contexts) (pp_flow plan) r)
    \<and> stopping_action sc (dr_action d)"
proof -
  let ?flow = "pp_flow plan" let ?w = "build_work (pp_flow plan) inp ! i"
  let ?dr = "pipeline_reducer e (plan, x) contexts"
  have "wi_node ?w \<in> set (fd_nodes ?flow)" using build_work_nodes nth_mem [OF i] by (simp add: build_work_def)
  then obtain k p' where k: "k < length ds" "wi_node ?w = le_node (entry_of sc store configs k (ds ! k))"
    and p': "pp_policies plan (fd_flow_id ?flow, fd_version ?flow, node_id (wi_node ?w)) = Some p'"
      "legacy_policy sc store (config_of configs (det_name (ds ! k))) (node_id (wi_node ?w)) = Inr p'"
    and fb: "fallback_of ?dr ?flow (node_id (wi_node ?w))
        = Some (legacy_fallback store (config_of configs (det_name (ds ! k))) (ds ! k))"
    using legacy_lookup [OF plan] by blast
  have p: "p' = p" using p'(1) pol rt by (simp add: policy_for_def)
  have np: "np_stop p = stop_signals sc"
    using legacy_policy_resolves p'(2) unfolding p by (metis sum.inject(2))
  have nid: "nr_node_id r = node_id (wi_node ?w)" using ft.origin_matches [OF orig] by (simp add: result_matches_def)
  have mis: "\<not> open_circuit_mismatch store (config_of configs (det_name (ds ! k)))" using agree k(1) by simp
  have block: ?thesis if "nr_status r \<in> {N_FAILED, N_TIMED_OUT, N_SKIPPED}" "nr_reason_code r = failure_reasons kd"
    "pdn_stop_requested (evaluate_failure p kd)" for kd
  proof -
    have "action_for (legacy_fallback store (config_of configs (det_name (ds ! k))) (ds ! k)) (nr_reason_code r) = ''fail_closed''"
      using legacy_agreement [OF p'(2), of kd "ds ! k"] that(2,3) mis p by simp
    from failure_blocks [OF that(1) _ this] fb nid show ?thesis by (force simp: stopping_action_def)
  qed
  from orig consider
      (own) out where "flow_task sch invoke child rt reduce ?flow inp ?w = Inr out" "r = wo_result out"
    | (cut) st why where "(st, why) \<in> {(N_TIMED_OUT, ''node_timeout''), (N_CANCELLED, ''node_cancelled'')}"
        "fallback_result rt ?flow ?w st why = Inr r"
    unfolding ft.origin_def by blast
  then show ?thesis
  proof cases
    case own
    obtain c where c: "wi_node ?w = Capability_node c" using k(2) by (simp add: entry_of_def)
    have "\<forall>cr. invoke (wi_order ?w) = Returned cr \<longrightarrow> (\<exists>d. cr = capability_result d)" using inv by blast
    from own_stop [OF own(1) [unfolded flow_task_def] pol c stop [unfolded own(2)] np this]
    consider (det) d where "nr_status r = N_SUCCEEDED" "nr_output r = Some (Detected d)" "stopping_action sc (dr_action d)"
      | (fail) kd where "nr_status r \<in> {N_FAILED, N_TIMED_OUT, N_SKIPPED}" "nr_reason_code r = failure_reasons kd"
          "pdn_stop_requested (evaluate_failure p kd)"
      unfolding own(2) by blast
    then show ?thesis
    proof cases
      case det
      then show ?thesis by (force simp: contributions_def detection_result_of_def)
    qed (rule block)
  next
    case cut
    with stop pol have "nr_status r = N_TIMED_OUT" "nr_reason_code r = failure_reasons TIMEOUT"
      "pdn_stop_requested (evaluate_failure p TIMEOUT)"
      by (auto simp: fallback_result_def stops_def matched_signal_def)
    then show ?thesis by (intro block) auto
  qed
qed

subsection \<open>A call that an open circuit refuses\<close>

lemma capability_invoke_open:
  "cfg_circuit_breaker config = Some a \<Longrightarrow> \<not> fst (before_call started (store a)) \<Longrightarrow>
     fst (capability_invoke config started ended outcome store) = Invocation_error CIRCUIT_OPEN"
  by (auto simp: capability_invoke_def Let_def split: prod.splits)

lemma build_work_items: "w \<in> set (build_work_from j k ns items) \<Longrightarrow> wi_node w = Capability_node c \<Longrightarrow> wi_item w \<noteq> None"
proof (induction ns arbitrary: j k)
  case (Cons n ns)
  then show ?case by (cases n) (auto simp: Let_def)
qed simp

lemma open_circuit_task:
  assumes plan: "build_flow sc store ds configs = Inr plan"
    and rt: "rt_policies rt = pp_policies plan" "rt_capabilities rt = pp_capabilities plan"
    and k: "k < length ds" "config = config_of configs (det_name (ds ! k))"
    and mis: "open_circuit_mismatch store config"
    and a: "cfg_circuit_breaker config = Some a" "\<not> fst (before_call started (store_then a))"
    and i: "i < length (build_work (pp_flow plan) inp)"
      "node_id (wi_node (build_work (pp_flow plan) inp ! i)) = legacy_node_id k (ds ! k)"
    and inv: "invoke i = fst (capability_invoke config started ended outcome store_then)"
    and time: "\<not> sc_no_time sch i"
  shows "\<exists>p out. flow_task sch invoke child rt reduce (pp_flow plan) inp (build_work (pp_flow plan) inp ! i) = Inr out
    \<and> policy_for rt (pp_flow plan) (wi_node (build_work (pp_flow plan) inp ! i)) = Inr p \<and> stops p (wo_result out)
    \<and> nr_status (wo_result out) = N_SKIPPED \<and> nr_output (wo_result out) = None
    \<and> fallback_of (pipeline_reducer e (plan, x) contexts) (pp_flow plan) (nr_node_id (wo_result out))
        = Some (legacy_fallback store config (ds ! k))
    \<and> nr_reason_code (wo_result out) = failure_reasons CIRCUIT_OPEN"
proof -
  let ?flow = "pp_flow plan" let ?w = "build_work ?flow inp ! i"
  have node: "wi_node ?w \<in> set (fd_nodes ?flow)" using build_work_nodes nth_mem [OF i(1)] by (simp add: build_work_def)
  obtain k' p where k': "k' < length ds" "wi_node ?w = le_node (entry_of sc store configs k' (ds ! k'))"
    and p: "pp_policies plan (fd_flow_id ?flow, fd_version ?flow, node_id (wi_node ?w)) = Some p"
      "legacy_policy sc store (config_of configs (det_name (ds ! k'))) (node_id (wi_node ?w)) = Inr p"
    and fb: "fallback_of (pipeline_reducer e (plan, x) contexts) ?flow (node_id (wi_node ?w))
        = Some (legacy_fallback store (config_of configs (det_name (ds ! k'))) (ds ! k'))"
    using legacy_lookup [OF plan node] by blast
  have "k' = k" using i(2) k'(2) by (auto simp: entry_of_def dest: legacy_node_id_inject)
  note k' = k' [unfolded this] and p = p [unfolded this, folded k(2)] and fb = fb [unfolded this, folded k(2)]
  have pol: "policy_for rt ?flow (wi_node ?w) = Inr p" using p(1) rt(1) by (simp add: policy_for_def)
  obtain c where c: "wi_node ?w = Capability_node c" "cn_capability_id c = legacy_capability_id k (ds ! k)"
    using k'(2) by (simp add: entry_of_def)
  have "entry_of sc store configs k (ds ! k) \<in> set (entries_of sc store configs ds)"
    using k(1) by (metis entries_nth nth_mem)
  moreover have "pp_capabilities plan = map (cd_capability_id \<circ> le_descriptor) (entries_of sc store configs ds)"
    using plan build_flow_plan [OF plan plan] by auto
  ultimately have avail: "cn_capability_id c \<in> set (rt_capabilities rt)"
    using c(2) by (force simp: rt(2) entry_of_def detector_descriptor_def)
  obtain item where item: "wi_item ?w = Some item"
    using build_work_items nth_mem [OF i(1)] c(1) by (fastforce simp: build_work_def)
  have open_error: "invoke i = Invocation_error CIRCUIT_OPEN" using capability_invoke_open [where store = store_then, OF a] inv by simp
  have "wi_order ?w = i" by (rule build_work_order [OF i(1)])
  then have task: "flow_task sch invoke child rt reduce ?flow inp ?w
      = Inr (outcome_of (failure_result ?w p CIRCUIT_OPEN N_SKIPPED (sc_duration sch i)))"
    using pol c(1) avail item open_error time by (simp add: flow_task_def execute_work_def capability_node_result_def)
  have "pdn_stop_requested (evaluate_failure p CIRCUIT_OPEN)"
    using legacy_agreement [OF p(2), of CIRCUIT_OPEN] mis by blast
  with task pol fb show ?thesis
    by (auto simp: outcome_of_def failure_result_def Let_def stops_def evaluate_failure_def)
qed

subsection \<open>A concrete pipeline, for the instances below\<close>

text \<open>An external judge that is fail-closed and behind a breaker, and a second detector.\<close>

definition judge :: detector where
  "judge = \<lparr>det_id = 0, det_name = ''judge'', det_version = ''1'', det_category = ''quality''\<rparr>"

definition pii :: detector where
  "pii = \<lparr>det_id = 1, det_name = ''pii'', det_version = ''1'', det_category = ''privacy''\<rparr>"

definition judge_configs :: detector_configs where
  "judge_configs = [(''judge'', empty_config\<lparr>cfg_on_error := Some ''fail_closed'', cfg_circuit_breaker := Some 0\<rparr>)]"

definition judge_store :: "pystr \<Rightarrow> breaker_store" where
  "judge_store action = (\<lambda>_. circuit_breaker 5 30 action)"

definition plain_engine :: engine where
  "plain_engine =
     \<lparr>en_short_circuit = On_block, en_flag_escalation = None, en_configured_flows = [],
      en_input_flow = None, en_output_flow = None, en_configured_policies = Map.empty,
      en_max_concurrency = 64, en_absolute_timeout = 120, en_max_evidence_size = default_max_evidence_size,
      en_max_depth = 8, en_max_nodes = 256\<rparr>"

definition judge_plan :: "pystr \<Rightarrow> pipeline_plan" where
  "judge_plan action = projr (build_flow On_block (judge_store action) [judge, pii] judge_configs)"

definition judge_runtime :: "pystr \<Rightarrow> detector_output runtime" where
  "judge_runtime action =
     \<lparr>rt_registry = pp_registry (judge_plan action), rt_capabilities = pp_capabilities (judge_plan action),
      rt_policies = pp_policies (judge_plan action), rt_reducers = [], rt_max_concurrency = 64,
      rt_absolute_timeout = 120, rt_max_evidence_size = default_max_evidence_size, rt_codec = sample_codec\<rparr>"

definition judge_ready :: "pystr \<Rightarrow> ready_plan" where
  "judge_ready action =
     (judge_plan action, judge_runtime action, plan_priorities [judge, pii] judge_configs)"

lemma judge_describable [simp]: "describable judge" "describable pii"
  by code_simp+

lemma judge_build: "build_flow On_block (judge_store action) [judge, pii] judge_configs = Inr (judge_plan action)"
  by (simp add: judge_plan_def build_flow_eq)

lemma judge_new_plan:
  "new_plan plain_engine sample_codec (judge_store action) [judge, pii] judge_configs direction = Inr (judge_ready action)"
  by (simp add: new_plan_def build_plan_def plain_engine_def judge_build plan_runtime_def flow_runtime_def
      judge_ready_def judge_runtime_def)

lemma judge_names:
  "legacy_node_id 0 judge = ''detector-0-judge''" "legacy_node_id 1 pii = ''detector-1-pii''"
  "legacy_capability_id 0 judge = ''pipeline.detector.0.judge''"
  "legacy_capability_id 1 pii = ''pipeline.detector.1.pii''"
  by code_simp+

definition judge_node :: node where
  "judge_node = Capability_node \<lparr>cn_node_id = ''detector-0-judge'', cn_capability_id = ''pipeline.detector.0.judge'',
     cn_input_schema = ''safety.text.v1'', cn_output_schema = ''safety.detector-result.v1'', cn_priority = 100\<rparr>"

definition pii_node :: node where
  "pii_node = Capability_node \<lparr>cn_node_id = ''detector-1-pii'', cn_capability_id = ''pipeline.detector.1.pii'',
     cn_input_schema = ''safety.text.v1'', cn_output_schema = ''safety.detector-result.v1'', cn_priority = 100\<rparr>"

definition legacy_resolved :: "fallback_policy \<Rightarrow> fallback_policy \<Rightarrow> node_policy" where
  "legacy_resolved on_error circuit =
     \<lparr>np_timeout = \<lparr>tp_seconds = 120, tp_action = on_error\<rparr>, np_failure = on_error,
      np_availability = \<lparr>ap_required = False, ap_on_unavailable = on_error, ap_on_circuit_open = circuit\<rparr>,
      np_degradation = \<lparr>gp_allowed = True, gp_emit_evidence = True, gp_emit_metrics = True\<rparr>,
      np_stop = [''safety.block''],
      np_sources = \<lparr>ps_timeout = LEGACY, ps_failure = LEGACY, ps_availability = LEGACY,
                    ps_degradation = LEGACY, ps_stop = LEGACY\<rparr>\<rparr>"

lemma judge_entries:
  "entries_of On_block (judge_store a) judge_configs [judge, pii] =
     [\<lparr>le_node = judge_node, le_descriptor = detector_descriptor ''pipeline.detector.0.judge'' judge,
       le_policy = legacy_resolved Fail_closed Fail_closed,
       le_fallback = \<lparr>ff_detector_name = ''judge'', ff_on_error = ''fail_closed'', ff_breaker = Some a,
         ff_on_timeout = None, ff_on_unavailable = None, ff_on_circuit_open = None\<rparr>\<rparr>,
      \<lparr>le_node = pii_node, le_descriptor = detector_descriptor ''pipeline.detector.1.pii'' pii,
       le_policy = legacy_resolved Fail_open Fail_open,
       le_fallback = \<lparr>ff_detector_name = ''pii'', ff_on_error = ''fail_open'', ff_breaker = None,
         ff_on_timeout = None, ff_on_unavailable = None, ff_on_circuit_open = None\<rparr>\<rparr>]"
proof -
  have cfg: "config_of judge_configs (det_name judge) =
      empty_config\<lparr>cfg_on_error := Some ''fail_closed'', cfg_circuit_breaker := Some 0\<rparr>"
    "config_of judge_configs (det_name pii) = empty_config"
    by (simp_all add: config_of_def judge_configs_def judge_def pii_def or_default_def)
  have fb: "fallback_action (judge_store a 0) = a" by (simp add: judge_store_def circuit_breaker_def)
  show ?thesis
    by (simp add: entries_of_def entry_of_def judge_names [unfolded One_nat_def] cfg legacy_policy_def
        resolve_node_policy_def legacy_policy_config_def or_default_def Let_def on_error_of_def circuit_action_def
        timeout_seconds_def max_pipeline_timeout_seconds_def empty_config_def config_priority_def
        resolved_source_def policy_defaults_def legacy_resolved_def legacy_fallback_def fb
        judge_node_def pii_node_def) (simp add: judge_def pii_def)
qed

lemma judge_plan_eq:
  "judge_plan a =
     \<lparr>pp_flow = \<lparr>fd_contract_version = ''1.0'', fd_flow_id = ''pipeline-compat-flow'', fd_version = ''1.0.0'',
        fd_input_schema = ''safety.text.v1'', fd_output_schema = ''safety.detector-result.v1'',
        fd_nodes = [judge_node, pii_node], fd_reducer_capability_id = Some ''detector-result-reducer''\<rparr>,
      pp_registry = pp_registry (judge_plan a),
      pp_capabilities = [''pipeline.detector.0.judge'', ''pipeline.detector.1.pii''],
      pp_policies = [(''pipeline-compat-flow'', ''1.0.0'', ''detector-1-pii'') \<mapsto> legacy_resolved Fail_open Fail_open,
        (''pipeline-compat-flow'', ''1.0.0'', ''detector-0-judge'') \<mapsto> legacy_resolved Fail_closed Fail_closed],
      pp_fallbacks = [(''*'', ''detector-1-pii'') \<mapsto> \<lparr>ff_detector_name = ''pii'', ff_on_error = ''fail_open'', ff_breaker = None,
           ff_on_timeout = None, ff_on_unavailable = None, ff_on_circuit_open = None\<rparr>,
         (''*'', ''detector-0-judge'') \<mapsto> \<lparr>ff_detector_name = ''judge'', ff_on_error = ''fail_closed'', ff_breaker = Some a,
           ff_on_timeout = None, ff_on_unavailable = None, ff_on_circuit_open = None\<rparr>]\<rparr>"
  by (simp add: judge_plan_def build_flow_eq judge_entries legacy_flow_def legacy_flow_id_def)
    (simp add: judge_node_def pii_node_def detector_descriptor_def)

definition one_context :: "(detection_context \<times> pystr) list" where
  "one_context = [(\<lparr>dc_direction = Input, dc_request_id = ''r'', dc_user_id = None, dc_language = None,
                    dc_message_index = Some 0\<rparr>, ''text'')]"

text \<open>The judge's circuit is open; the other detector would block.\<close>

definition judge_invoke :: "nat \<Rightarrow> detector_output invoke_outcome" where
  "judge_invoke i =
     (if i = 0 then Invocation_error CIRCUIT_OPEN
      else Returned (capability_result (sample_result ''pii'' Block High)))"

definition judge_skipped :: "detector_output node_result" where
  "judge_skipped =
     \<lparr>nr_node_id = ''detector-0-judge'', nr_definition_index = 0, nr_item_index = 0, nr_status = N_SKIPPED,
      nr_output = None, nr_signals = [], nr_reason_code = ''circuit_open'', nr_degraded = True,
      nr_duration_ms = 1, nr_stop_requested = True, nr_evidence_summary = No_summary,
      nr_child_execution_id = None\<rparr>"

definition pii_cancelled :: "detector_output node_result" where
  "pii_cancelled =
     \<lparr>nr_node_id = ''detector-1-pii'', nr_definition_index = 1, nr_item_index = 0, nr_status = N_CANCELLED,
      nr_output = None, nr_signals = [], nr_reason_code = ''node_cancelled'', nr_degraded = True,
      nr_duration_ms = 0, nr_stop_requested = False, nr_evidence_summary = No_summary,
      nr_child_execution_id = None\<rparr>"

definition judge_item :: flow_item where
  "judge_item = \<lparr>fi_item_id = ''context-0'', fi_content = ''text'', fi_detection_context = Some (fst (hd one_context))\<rparr>"

definition judge_work :: work_item where
  "judge_work = \<lparr>wi_order = 0, wi_node_index = 0, wi_item_index = 0, wi_node = judge_node, wi_item = Some judge_item\<rparr>"

definition pii_work :: work_item where
  "pii_work = \<lparr>wi_order = 1, wi_node_index = 1, wi_item_index = 0, wi_node = pii_node, wi_item = Some judge_item\<rparr>"

lemma judge_build_work: "build_work (pp_flow (judge_plan a)) (pipeline_input one_context) = [judge_work, pii_work]"
proof -
  have zero: "show_nat 0 = ''0''" by code_simp
  show ?thesis
    by (subst judge_plan_eq) (simp add: build_work_def judge_node_def pii_node_def judge_work_def pii_work_def
      pipeline_input_def one_context_def judge_item_def zero)
qed

lemma judge_policies:
  "policy_for (judge_runtime a) (pp_flow (judge_plan a)) judge_node = Inr (legacy_resolved Fail_closed Fail_closed)"
  "policy_for (judge_runtime a) (pp_flow (judge_plan a)) pii_node = Inr (legacy_resolved Fail_open Fail_open)"
  unfolding policy_for_def judge_runtime_def
  by (subst (1 2 3) judge_plan_eq, simp add: judge_node_def pii_node_def)+

lemma judge_task:
  "flow_task (sample_sched rs) judge_invoke ch (judge_runtime a) reduce (pp_flow (judge_plan a)) inp judge_work
     = Inr (outcome_of judge_skipped)"
proof -
  have "rt_capabilities (judge_runtime a) = [''pipeline.detector.0.judge'', ''pipeline.detector.1.pii'']"
    unfolding judge_runtime_def by (subst judge_plan_eq) simp
  then show ?thesis
    by (simp add: flow_task_def execute_work_def judge_work_def judge_policies)
      (simp add: judge_node_def judge_invoke_def capability_node_result_def failure_result_def
        evaluate_failure_def failure_action_def legacy_resolved_def judge_skipped_def Let_def)
qed

lemma judge_stop: "stops (legacy_resolved Fail_closed Fail_closed) judge_skipped"
  by (simp add: stops_def judge_skipped_def)

lemma pii_cut:
  "fallback_result (judge_runtime a) (pp_flow (judge_plan a)) pii_work N_CANCELLED ''node_cancelled'' = Inr pii_cancelled"
  by (simp add: fallback_result_def pii_work_def judge_policies) (simp add: pii_node_def pii_cancelled_def)

lemma judge_loop:
  "run_loop (judge_runtime a) (pp_flow (judge_plan a)) [judge_work, pii_work]
     (flow_task (sample_sched rs) judge_invoke ch (judge_runtime a) reduce (pp_flow (judge_plan a)) inp) [finish_round 0]
   = Inr \<lparr>es_results = [0 \<mapsto> judge_skipped, 1 \<mapsto> pii_cancelled], es_children = [0 \<mapsto> []], es_active = [],
          es_next = 2, es_stopped = True, es_timed_out = False\<rparr>"
proof -
  have o: "wi_order judge_work = 0" "wi_order pii_work = 1" "wi_node judge_work = judge_node"
    "rt_max_concurrency (judge_runtime a) = 64"
    by (simp_all add: judge_work_def pii_work_def judge_runtime_def)
  show ?thesis
    by (simp add: run_loop_def initial_state_def fill_active.simps loop_step_def done_items_def process_done_def
        settle_active_def settle_one_def put_outcome_def put_fallback_def o judge_task judge_policies judge_stop
        pii_cut outcome_of_def Let_def)
qed

lemma judge_reduction:
  "\<exists>cr. detector_reduce (pipeline_reducer plain_engine (judge_ready a) (map fst one_context)) (pp_flow (judge_plan a))
     [judge_skipped, pii_cancelled] = Some cr
   \<and> (\<exists>red. cr_output cr = Some (Reduced red) \<and> red_final_action red = (if a = ''fail_closed'' then Block else Allow))"
proof -
  let ?dr = "pipeline_reducer plain_engine (judge_ready a) (map fst one_context)"
  have fb: "fallback_of ?dr (pp_flow (judge_plan a)) ''detector-0-judge'' =
      Some \<lparr>ff_detector_name = ''judge'', ff_on_error = ''fail_closed'', ff_breaker = Some a,
           ff_on_timeout = None, ff_on_unavailable = None, ff_on_circuit_open = None\<rparr>"
    unfolding fallback_of_def pipeline_reducer_def judge_ready_def
    by (subst (1 2 3 4) judge_plan_eq) simp
  have "contributions ?dr (pp_flow (judge_plan a)) pii_cancelled = []"
    by (simp add: contributions_def detection_result_of_def pii_cancelled_def)
  moreover obtain d where "contributions ?dr (pp_flow (judge_plan a)) judge_skipped = [(d, Some 0)]"
    and d: "dr_action d = (if a = ''fail_closed'' then Block else Allow)"
    by (simp add: contributions_def detection_result_of_def judge_skipped_def fb action_for_def
        make_failure_result_def Let_def)
      (simp add: pipeline_reducer_def one_context_def)
  moreover have "dre_flag_escalation ?dr = None" by (simp add: pipeline_reducer_def plain_engine_def)
  moreover have "final_action_of [d] = (if a = ''fail_closed'' then Block else Allow)"
    by (simp add: final_action_of_def d)
  ultimately show ?thesis
    by (simp add: detector_reduce_def Let_def aggregate_no_rule reduction_result_def)
qed

lemma judge_evidence:
  "\<exists>es. build_all_evidence (judge_runtime a) (pp_flow (judge_plan a)) eid rs = Inr es"
proof -
  have "rt_registry (judge_runtime a) = \<lparr>rg_capabilities =
       [(''pipeline.detector.0.judge'', detector_descriptor ''pipeline.detector.0.judge'' judge),
        (''pipeline.detector.1.pii'', detector_descriptor ''pipeline.detector.1.pii'' pii)],
      rg_flows = [((legacy_flow_id, ''1.0.0''), legacy_flow (entries_of On_block (judge_store a) judge_configs [judge, pii]))],
      rg_max_depth = 8, rg_max_nodes = 256\<rparr>"
    by (simp add: judge_runtime_def judge_plan_def build_flow_eq judge_entries detector_descriptor_def)
  then have r: "resolve_capability (rt_registry (judge_runtime a))
        \<lparr>cn_node_id = ''detector-0-judge'', cn_capability_id = ''pipeline.detector.0.judge'',
         cn_input_schema = ''safety.text.v1'', cn_output_schema = ''safety.detector-result.v1'', cn_priority = 100\<rparr>
        = Inr (detector_descriptor ''pipeline.detector.0.judge'' judge)"
     "resolve_capability (rt_registry (judge_runtime a))
        \<lparr>cn_node_id = ''detector-1-pii'', cn_capability_id = ''pipeline.detector.1.pii'',
         cn_input_schema = ''safety.text.v1'', cn_output_schema = ''safety.detector-result.v1'', cn_priority = 100\<rparr>
        = Inr (detector_descriptor ''pipeline.detector.1.pii'' pii)"
    by (simp_all add: resolve_capability_def)
  have tmpl: "\<exists>t. evidence_template (judge_runtime a) (pp_flow (judge_plan a)) i n = Inr t"
    if "n = judge_node \<or> n = pii_node" for i n
    using that judge_policies r by (auto simp: evidence_template_def judge_node_def pii_node_def)
  have ev: "\<exists>t. evidence_for_node (judge_runtime a) (pp_flow (judge_plan a)) eid rs (i, n) = Inr t"
    if "n = judge_node \<or> n = pii_node" for i n
    using tmpl [OF that, of i] by (auto simp: evidence_for_node_def Let_def)
  have "fd_nodes (pp_flow (judge_plan a)) = [judge_node, pii_node]" by (subst judge_plan_eq) simp
  then show ?thesis
    using ev [of judge_node 0] ev [of pii_node "Suc 0"] by (auto simp: build_all_evidence_def)
qed

lemma judge_run:
  "\<exists>result. run_plan (Env (sample_sched [finish_round 0]) judge_invoke (\<lambda>_. None)) 1 plain_engine (judge_ready a) one_context
      = Inr result
    \<and> pr_final_action result = (if a = ''fail_closed'' then Block else Allow)
    \<and> map_option fv_status (pr_flow_evidence result) = Some F_STOPPED"
proof -
  let ?reduce = "detector_reduce (pipeline_reducer plain_engine (judge_ready a) (map fst one_context))"
  let ?t = "\<lparr>es_results = [0 \<mapsto> judge_skipped, 1 \<mapsto> pii_cancelled], es_children = [0 \<mapsto> []], es_active = [],
          es_next = 2, es_stopped = True, es_timed_out = False\<rparr>"
  have ord: "ordered_results [judge_work, pii_work] ?t = [judge_skipped, pii_cancelled]"
    by (simp add: ordered_results_def map_filter_simps)
  obtain cr red where cr: "?reduce (pp_flow (judge_plan a)) [judge_skipped, pii_cancelled] = Some cr"
    "cr_output cr = Some (Reduced red)" "red_final_action red = (if a = ''fail_closed'' then Block else Allow)"
    using judge_reduction by metis
  obtain es where es: "build_all_evidence (judge_runtime a) (pp_flow (judge_plan a)) ''flow-1''
      [judge_skipped, pii_cancelled] = Inr es" using judge_evidence by blast
  have rt: "rt_reducers (judge_runtime a) = []" "rt_codec (judge_runtime a) = sample_codec"
    by (simp_all add: judge_runtime_def)
  obtain res where fin: "finish_flow (judge_runtime a) (sample_sched [finish_round 0]) ?reduce (pp_flow (judge_plan a))
      (pipeline_input one_context) None [judge_work, pii_work] ?t = Inr res" "fr_output res = Some (Reduced red)"
    by (simp add: finish_flow_def effective_reducer_def ord [unfolded One_nat_def] cr es rt Let_def bound_flow_evidence_def flow_outcome_def)
  have "execute (Env (sample_sched [finish_round 0]) judge_invoke (\<lambda>_. None)) (judge_runtime a) ?reduce
      (pp_flow (judge_plan a)) (pipeline_input one_context) = Inr res"
    by (simp add: execute_def execute_flow_eq execute_bound_def judge_build_work judge_loop settle_unstarted_def
        Let_def fin(1) [unfolded One_nat_def])
  moreover have "fv_status (fr_evidence res) = F_STOPPED"
    using finish_flow_parts(2) [OF fin(1)] by (simp add: flow_outcome_def)
  ultimately show ?thesis
    using fin(2) cr(3) by (simp add: run_plan_def judge_ready_def)
qed

subsection \<open>Properties\<close>

text \<open>C7. For an engine without configured Flows, whose capabilities return what the detector adapter makes of
  a result, and in which no detector combines \<open>on_error: fail_closed\<close> with a breaker that is not
  fail-closed: a run whose Flow was stopped decides to block or, where the engine short-circuits on
  \<open>block_and_modify\<close>, to block or modify. A stop is always caused by such a result or by a fail-closed
  failure, and the reducer turns each of them into that decision.\<close>

theorem pipeline_stop_blocks:
  assumes "new_plan e codec store detectors configs direction = Inr (plan, rt, pri)"
    and "en_configured_flows e = []"
    and "list_all (\<lambda>d. \<not> open_circuit_mismatch store (config_of configs (det_name d))) detectors"
    and "\<forall>k cr. invoke k = Returned cr \<longrightarrow> (\<exists>d. cr = capability_result d)"
    and "run_plan (Env sc invoke child) duration e (plan, rt, pri) contexts = Inr result"
    and "map_option fv_status (pr_flow_evidence result) = Some F_STOPPED"
  shows "pr_final_action result = Block
    \<or> en_short_circuit e = On_block_and_modify \<and> pr_final_action result = Modify"
proof -
  note np = new_plan_parts [OF assms(1,2)]
  let ?dr = "pipeline_reducer e (plan, rt, pri) (map fst contexts)"
  obtain ex red where ex: "execute_flow (Env sc invoke child) rt (detector_reduce ?dr) None (pp_flow plan)
       (pipeline_input contexts) = Inr ex" "fr_output ex = Some (Reduced red)"
    "pr_final_action result = red_final_action red" "pr_flow_evidence result = Some (fr_evidence ex)"
    using run_plan_parts [OF assms(5)] by metis
  obtain cr where cr: "detector_reduce ?dr (pp_flow plan) (fr_node_results ex) = Some cr" "fr_output ex = cr_output cr"
    using execute_flow_reduction [OF ex(1) np(3)] by blast
  have "fv_status (fr_evidence ex) = F_STOPPED" using assms(6) ex(4) by simp
  from execute_flow_stopped [OF ex(1) this] obtain i p where
      i: "i < length (build_work (pp_flow plan) (pipeline_input contexts))"
        "fr_node_results ex ! i \<in> set (fr_node_results ex)"
        "ft.origin rt (pp_flow plan) (pipeline_input contexts) sc invoke child (detector_reduce ?dr) i (fr_node_results ex ! i)"
        "policy_for rt (pp_flow plan) (wi_node (build_work (pp_flow plan) (pipeline_input contexts) ! i)) = Inr p"
        "stops p (fr_node_results ex ! i)"
    by blast
  have "\<forall>d \<in> set detectors. \<not> open_circuit_mismatch store (config_of configs (det_name d))"
    using assms(3) by (simp add: list_all_iff)
  from stop_contributes [OF np(1,2) this assms(4) i(1,3-5)] obtain d j where
      d: "(d, j) \<in> set (contributions ?dr (pp_flow plan) (fr_node_results ex ! i))"
        "stopping_action (en_short_circuit e) (dr_action d)"
    by blast
  moreover have "cr_output cr = Some (Reduced red)" using cr(2) ex(2) by simp
  then have "final_action_in cr = Some (pr_final_action result)" using ex(3) by (simp add: final_action_in_def)
  ultimately show ?thesis
    using contributed_block [OF cr(1) i(2) d(1)] contributed_modify [OF cr(1) i(2) d(1)]
    by (auto simp: stopping_action_def)
qed

theorem pipeline_stop_blocks_witness:
  "\<exists>result. run_plan (Env (sample_sched [finish_round 0]) judge_invoke (\<lambda>_. None)) 1 plain_engine
       (judge_ready ''fail_closed'') one_context = Inr result \<and> pr_final_action result = Block"
proof -
  obtain result where r: "run_plan (Env (sample_sched [finish_round 0]) judge_invoke (\<lambda>_. None)) 1 plain_engine
       (judge_plan ''fail_closed'', judge_runtime ''fail_closed'', plan_priorities [judge, pii] judge_configs)
       one_context = Inr result"
    "map_option fv_status (pr_flow_evidence result) = Some F_STOPPED"
    using judge_run [of "''fail_closed''"] unfolding judge_ready_def by blast
  have agree: "list_all (\<lambda>d. \<not> open_circuit_mismatch (judge_store ''fail_closed'')
      (config_of judge_configs (det_name d))) [judge, pii]"
    by (simp add: open_circuit_mismatch_def judge_store_def circuit_breaker_def split: option.split)
  have inv: "\<forall>k cr. judge_invoke k = Returned cr \<longrightarrow> (\<exists>d. cr = capability_result d)"
    by (auto simp: judge_invoke_def split: if_splits)
  have eng: "en_configured_flows plain_engine = []" "en_short_circuit plain_engine = On_block"
    by (simp_all add: plain_engine_def)
  have "pr_final_action result = Block"
    using pipeline_stop_blocks [OF judge_new_plan [unfolded judge_ready_def] eng(1) agree inv r] eng(2) by simp
  with r(1) show ?thesis by (auto simp: judge_ready_def)
qed

text \<open>C33. An open circuit that falls open does more than skip its detector. Take any engine without configured
  Flows, any detectors, and among them a fail-closed one whose breaker is not fail-closed and refuses
  the call. If its call is the first to finish, the policy stops the Flow, and every other detector is cancelled,
  whatever it would have returned; the reducer then makes an allow of the skipped call, and that is
  the decision: nothing but that detector is in the result.\<close>

theorem open_circuit_drops_detectors:
  assumes "new_plan e codec store detectors configs direction = Inr (plan, rt, pri)"
    and "en_configured_flows e = []" and "k < length detectors"
    and "config = config_of configs (det_name (detectors ! k))" and "open_circuit_mismatch store config"
    and "cfg_circuit_breaker config = Some a" and "\<not> fst (before_call started (store_then a))"
    and "i < length (build_work (pp_flow plan) (pipeline_input contexts))"
    and "node_id (wi_node (build_work (pp_flow plan) (pipeline_input contexts) ! i)) = legacy_node_id k (detectors ! k)"
    and "invoke i = fst (capability_invoke config started ended outcome store_then)"
    and "sc_rounds sc = finish_round i # rounds" and "\<not> sc_no_time sc i" and "int i < en_max_concurrency e"
    and "run_plan (Env sc invoke child) duration e (plan, rt, pri) contexts = Inr result"
  shows "pr_final_action result = Allow \<and> map_option fv_status (pr_flow_evidence result) = Some F_STOPPED
    \<and> (\<forall>d \<in> set (pr_detector_results result). dr_detector_name d = det_name (detectors ! k) \<and> dr_action d = Allow)"
proof -
  note np = new_plan_parts [OF assms(1,2)]
  let ?dr = "pipeline_reducer e (plan, rt, pri) (map fst contexts)" and ?flow = "pp_flow plan"
  let ?inp = "pipeline_input contexts" let ?w = "build_work ?flow ?inp ! i"
  obtain ex red where ex: "execute_flow (Env sc invoke child) rt (detector_reduce ?dr) None ?flow ?inp = Inr ex"
    "fr_output ex = Some (Reduced red)" "pr_final_action result = red_final_action red"
    "pr_detector_results result = red_detector_results red" "pr_flow_evidence result = Some (fr_evidence ex)"
    using run_plan_parts [OF assms(14)] by metis
  obtain cr where cr: "detector_reduce ?dr ?flow (fr_node_results ex) = Some cr" "fr_output ex = cr_output cr"
    using execute_flow_reduction [OF ex(1) np(3)] by blast
  obtain p out where task: "flow_task sc invoke child rt (detector_reduce ?dr) ?flow ?inp ?w = Inr out"
    "policy_for rt ?flow (wi_node ?w) = Inr p" "stops p (wo_result out)"
    and out: "nr_status (wo_result out) = N_SKIPPED" "nr_output (wo_result out) = None"
      "fallback_of ?dr ?flow (nr_node_id (wo_result out)) = Some (legacy_fallback store config (detectors ! k))"
      "nr_reason_code (wo_result out) = failure_reasons CIRCUIT_OPEN"
    using open_circuit_task [where invoke = invoke and i = i, OF np(1,2,4) assms(3-10,12)] by blast
  note stop = execute_flow_first_stop [OF ex(1) assms(11) [unfolded finish_round_def] assms(8) _ task]
  have conc: "int i < rt_max_concurrency rt" using assms(13) np(5) by simp
  have only: "dr_action d = Allow \<and> dr_detector_name d = det_name (detectors ! k)"
    if r: "r \<in> set (fr_node_results ex)" and con: "(d, j) \<in> set (contributions ?dr ?flow r)" for r d j
  proof -
    obtain l where l: "l < length (build_work ?flow ?inp)" "r = fr_node_results ex ! l"
      using r stop(2) [OF conc] unfolding in_set_conv_nth by metis
    show ?thesis
    proof (cases "l = i")
      case True
      then have own: "r = wo_result out" using l(2) stop(3) [OF conc] by simp
      have "action_for (legacy_fallback store config (detectors ! k)) (nr_reason_code r) \<noteq> ''fail_closed''"
        using assms(5) by (auto simp: own out(4) action_for_def legacy_fallback_def open_circuit_mismatch_def split: option.splits)
      with failure_contributes [OF _ _ _ con, of "legacy_fallback store config (detectors ! k)"] out
      show ?thesis by (simp add: own legacy_fallback_def)
    next
      case False
      with stop(4) [OF conc l(1)] l(2) con show ?thesis by (simp add: cancelled_contributes_nothing)
    qed
  qed
  have red: "cr_output cr = Some (Reduced red)" using cr(2) ex(2) by simp
  have "final_action_in cr = Some Allow" by (rule contributed_allow [OF cr(1)]) (use only in blast)
  then have "pr_final_action result = Allow" using red ex(3) by (simp add: final_action_in_def)
  moreover have "pr_detector_results result = map fst (concat (map (contributions ?dr ?flow) (fr_node_results ex)))"
    using cr(1) red ex(4) by (auto simp: detector_reduce_Some reduction_result_def)
  then have "dr_detector_name d = det_name (detectors ! k) \<and> dr_action d = Allow"
    if "d \<in> set (pr_detector_results result)" for d
    using that only by fastforce
  ultimately show ?thesis using stop(1) [OF conc] ex(5) by simp
qed

theorem open_circuit_drops_detectors_witness:
  "\<exists>result. run_plan (Env (sample_sched [finish_round 0]) judge_invoke (\<lambda>_. None)) 1 plain_engine
         (judge_ready ''fail_open'') one_context = Inr result
     \<and> judge_invoke 1 = Returned (capability_result (sample_result ''pii'' Block High))
     \<and> pr_final_action result = Allow"
proof -
  obtain result where r: "run_plan (Env (sample_sched [finish_round 0]) judge_invoke (\<lambda>_. None)) 1 plain_engine
       (judge_plan ''fail_open'', judge_runtime ''fail_open'', plan_priorities [judge, pii] judge_configs)
       one_context = Inr result"
    using judge_run [of "''fail_open''"] unfolding judge_ready_def by blast
  let ?store = "judge_store ''fail_open''" and ?config = "config_of judge_configs (det_name judge)"
  let ?open = "\<lambda>_ :: nat. (circuit_breaker 5 30 ''fail_open'')\<lparr>cb_state := OPEN, last_failure_time := Some 10\<rparr>"
  have config: "?config = empty_config\<lparr>cfg_on_error := Some ''fail_closed'', cfg_circuit_breaker := Some 0\<rparr>"
    by (simp add: config_of_def judge_configs_def judge_def or_default_def)
  have mis: "open_circuit_mismatch ?store ?config"
    by (simp add: open_circuit_mismatch_def config on_error_of_def judge_store_def circuit_breaker_def)
  have breaker: "cfg_circuit_breaker ?config = Some 0" by (simp add: config)
  have refused: "\<not> fst (before_call 20 (?open 0))" by (simp add: before_call_def circuit_breaker_def)
  have inv: "judge_invoke 0 = fst (capability_invoke ?config 20 20 Detect_raised ?open)"
    using capability_invoke_open [where store = ?open, OF breaker refused] by (simp add: judge_invoke_def)
  have work: "build_work (pp_flow (judge_plan ''fail_open'')) (pipeline_input one_context) = [judge_work, pii_work]"
    by (rule judge_build_work)
  have "node_id (wi_node judge_work) = legacy_node_id 0 ([judge, pii] ! 0)"
    using judge_names by (simp add: judge_work_def judge_node_def)
  then have "pr_final_action result = Allow"
    using open_circuit_drops_detectors [OF judge_new_plan [unfolded judge_ready_def], where k = 0 and i = 0
        and invoke = judge_invoke, OF _ _ _ _ _ _ _ _ inv _ _ _ r] mis breaker refused work
    by (simp add: plain_engine_def sample_sched_def)
  with r show ?thesis by (auto simp: judge_ready_def judge_invoke_def)
qed

text \<open>The policy the engine gives a detector and the fallback its reducer uses agree: for every
  class of failure the Flow is stopped exactly when the reducer turns the failure into a block, except
  for an open circuit of a fail-closed detector whose breaker is fail-open.\<close>

theorem policy_fallback_agree:
  assumes "legacy_policy sc store config nid = Inr p"
  shows "(pdn_stop_requested (evaluate_failure p k) \<longleftrightarrow>
      action_for (legacy_fallback store config d) (failure_reasons k) = ''fail_closed'')
    \<longleftrightarrow> \<not> (k = CIRCUIT_OPEN \<and> open_circuit_mismatch store config)"
  using legacy_agreement [OF assms, of k d]
  by (auto simp: open_circuit_mismatch_def action_for_def legacy_fallback_def split: option.splits)

theorem policy_fallback_agree_witness:
  "\<exists>p. legacy_policy On_block (judge_store ''fail_open'') (config_of judge_configs ''judge'') ''n'' = Inr p
     \<and> pdn_stop_requested (evaluate_failure p TIMEOUT)"
proof -
  obtain p where p: "legacy_policy On_block (judge_store ''fail_open'') (config_of judge_configs ''judge'') ''n'' = Inr p"
    using legacy_policy_resolves by blast
  have "action_for (legacy_fallback (judge_store ''fail_open'') (config_of judge_configs ''judge'') judge)
      (failure_reasons TIMEOUT) = ''fail_closed''"
    by (simp add: action_for_def legacy_fallback_def str_or_def config_of_def judge_configs_def or_default_def on_error_of_def)
  with policy_fallback_agree [OF p, of TIMEOUT judge] p show ?thesis by simp
qed

text \<open>The engine can build a Flow for any list of up to 256 detectors with descriptors, whatever their
  configuration: its contracts are valid, there is one node per detector in order, and every node
  has a resolved policy, a failure fallback and an available capability, so a run of the plan meets
  the conditions under which an execution settles.\<close>

theorem legacy_plan_complete:
  assumes "length ds \<le> 256" and "list_all describable ds"
  shows "\<exists>plan. build_flow sc store ds configs = Inr plan
    \<and> length (fd_nodes (pp_flow plan)) = length ds
    \<and> (\<forall>n \<in> set (fd_nodes (pp_flow plan)).
         pp_policies plan (fd_flow_id (pp_flow plan), fd_version (pp_flow plan), node_id n) \<noteq> None
         \<and> pp_fallbacks plan (''*'', node_id n) \<noteq> None
         \<and> (\<exists>c. n = Capability_node c \<and> cn_capability_id c \<in> set (pp_capabilities plan)))"
proof -
  let ?es = "entries_of sc store configs ds"
  have c: "\<exists>c. le_node e = Capability_node c \<and> cn_capability_id c = cd_capability_id (le_descriptor e)"
    if "e \<in> set ?es" for e
    using that by (auto simp: in_set_conv_nth entries_nth entry_of_def detector_descriptor_def)
  have key: "map_of (map (\<lambda>e. (f e, g e)) ?es) (f e) \<noteq> None" if "e \<in> set ?es" for e
    and f :: "legacy_entry \<Rightarrow> 'k" and g :: "legacy_entry \<Rightarrow> 'v"
    using that by (auto simp: map_of_eq_None_iff image_iff)
  obtain plan where plan: "build_flow sc store ds configs = Inr plan" "pp_flow plan = legacy_flow ?es"
    "pp_policies plan = map_of (map (\<lambda>e. ((legacy_flow_id, ''1.0.0'', node_id (le_node e)), le_policy e)) ?es)"
    "pp_fallbacks plan = map_of (map (\<lambda>e. ((''*'', node_id (le_node e)), le_fallback e)) ?es)"
    "pp_capabilities plan = map (cd_capability_id \<circ> le_descriptor) ?es"
    by (simp add: build_flow_eq [OF assms])
  have "pp_policies plan (fd_flow_id (pp_flow plan), fd_version (pp_flow plan), node_id n) \<noteq> None
      \<and> pp_fallbacks plan (''*'', node_id n) \<noteq> None
      \<and> (\<exists>c. n = Capability_node c \<and> cn_capability_id c \<in> set (pp_capabilities plan))"
    if "n \<in> set (fd_nodes (pp_flow plan))" for n
  proof -
    obtain e where e: "e \<in> set ?es" "n = le_node e" using \<open>n \<in> _\<close> by (auto simp: plan(2) legacy_flow_def)
    have "pp_policies plan (legacy_flow_id, ''1.0.0'', node_id (le_node e)) \<noteq> None"
      unfolding plan(3) by (rule key [OF e(1)])
    moreover have "pp_fallbacks plan (''*'', node_id (le_node e)) \<noteq> None"
      unfolding plan(4) by (rule key [OF e(1)])
    ultimately show ?thesis using c [OF e(1)] e by (auto simp: plan(2,5) legacy_flow_def)
  qed
  then show ?thesis using plan(1,2) by (auto simp: legacy_flow_def entries_nth)
qed

theorem legacy_plan_complete_witness:
  "\<exists>plan. build_flow On_block (judge_store ''fail_open'') [judge, pii] judge_configs = Inr plan
     \<and> length (fd_nodes (pp_flow plan)) = 2"
  using legacy_plan_complete [of "[judge, pii]" On_block "judge_store ''fail_open''" judge_configs] by auto

end
