(* ===== verification/Detector_Status.thy ===== *)
theory Detector_Status
  imports Pipeline_Engine
begin

text \<open>
  \<open>detectors/status.py\<close> and the readiness part of \<open>routes/health.py\<close>: the state of every configured detector, its transitions, and whether the
  application may accept traffic.

  The registry is a dict from direction and name to a status. What a detector answers to
  \<open>initialize\<close> and \<open>health_check\<close> is an argument; the lock is left out, since every operation of
  the registry is one step, and so are the metrics a transition callback records: a transition
  returns the pair of old and new status it is called with.
\<close>

datatype detector_state = CONFIGURED | INITIALIZING | HEALTHY | UNAVAILABLE_STATE | UNHEALTHY

datatype detector_reason = INITIALIZATION_ERROR | HEALTH_CHECK_ERROR | HEALTH_CHECK_TIMEOUT | HEALTH_CHECK_FAILED

fun state_str :: "detector_state \<Rightarrow> pystr" where
  "state_str CONFIGURED = ''configured''"
| "state_str INITIALIZING = ''initializing''"
| "state_str HEALTHY = ''healthy''"
| "state_str UNAVAILABLE_STATE = ''unavailable''"
| "state_str UNHEALTHY = ''unhealthy''"

fun reason_str :: "detector_reason \<Rightarrow> pystr" where
  "reason_str INITIALIZATION_ERROR = ''initialization_error''"
| "reason_str HEALTH_CHECK_ERROR = ''health_check_error''"
| "reason_str HEALTH_CHECK_TIMEOUT = ''health_check_timeout''"
| "reason_str HEALTH_CHECK_FAILED = ''health_check_failed''"

record detector_status =
  ds_direction :: direction
  ds_name :: pystr
  ds_detector_type :: pystr
  ds_required :: bool
  ds_on_error :: pystr
  ds_timeout_seconds :: pyfloat
  ds_state :: detector_state
  ds_reason_code :: "detector_reason option"
  ds_detector :: "detector option"

definition loaded :: "detector_status \<Rightarrow> bool" where
  "loaded s \<longleftrightarrow> ds_detector s \<noteq> None"

definition has_issue :: "detector_status \<Rightarrow> bool" where
  "has_issue s \<longleftrightarrow> ds_state s = UNAVAILABLE_STATE \<or> ds_state s = UNHEALTHY"

definition is_strict :: "detector_status \<Rightarrow> bool" where
  "is_strict s \<longleftrightarrow> ds_required s \<or> ds_on_error s = ''fail_closed''"

record availability_entry =
  av_name :: pystr
  av_direction :: pystr
  av_state :: pystr
  av_required :: bool
  av_on_error :: pystr
  av_reason_code :: pystr

definition to_availability_dict :: "detector_status \<Rightarrow> availability_entry" where
  "to_availability_dict s =
     \<lparr>av_name = ds_name s, av_direction = direction_str (ds_direction s), av_state = state_str (ds_state s),
      av_required = ds_required s, av_on_error = ds_on_error s,
      av_reason_code = (case ds_reason_code s of Some r \<Rightarrow> reason_str r | None \<Rightarrow> [])\<rparr>"

subsection \<open>The registry\<close>

type_synonym status_key = "direction \<times> pystr"
type_synonym status_registry = "(status_key \<times> detector_status) list"

datatype status_error = Already_registered status_key | Not_registered status_key

definition register_status ::
  "direction \<Rightarrow> pystr \<Rightarrow> pystr \<Rightarrow> bool \<Rightarrow> pystr \<Rightarrow> pyfloat \<Rightarrow> status_registry \<Rightarrow> status_error + status_registry" where
  "register_status direction name detector_type required on_error timeout reg =
     (if map_of reg (direction, name) \<noteq> None then Inl (Already_registered (direction, name))
      else Inr (AList.update (direction, name)
        \<lparr>ds_direction = direction, ds_name = name,
         ds_detector_type = (if detector_type = [] then ''builtin'' else detector_type),
         ds_required = required, ds_on_error = on_error, ds_timeout_seconds = timeout,
         ds_state = CONFIGURED, ds_reason_code = None, ds_detector = None\<rparr> reg))"

definition moved_status ::
  "detector_state \<Rightarrow> detector_reason option \<Rightarrow> detector option \<Rightarrow> detector_status \<Rightarrow> detector_status" where
  "moved_status state reason_code d old =
     old\<lparr>ds_state := state, ds_reason_code := (if state = HEALTHY then None else reason_code),
         ds_detector := (case d of None \<Rightarrow> ds_detector old | Some x \<Rightarrow> Some x)\<rparr>"

text \<open>With the pair the callback is notified of, if anything changed.\<close>

definition transition_status ::
  "direction \<Rightarrow> pystr \<Rightarrow> detector_state \<Rightarrow> detector_reason option \<Rightarrow> detector option \<Rightarrow> status_registry
     \<Rightarrow> status_error + (detector_status \<times> (detector_status \<times> detector_status) option \<times> status_registry)" where
  "transition_status direction name state reason_code d reg =
     (case map_of reg (direction, name) of
        None \<Rightarrow> Inl (Not_registered (direction, name))
      | Some old \<Rightarrow>
          let new = moved_status state reason_code d old in
          if new = old then Inr (old, None, reg)
          else Inr (new, Some (old, new), AList.update (direction, name) new reg))"

text \<open>\<open>sorted(..., key=lambda item: (item.direction, item.name))\<close>.\<close>

definition status_order :: "detector_status \<Rightarrow> pystr list" where
  "status_order s = [direction_str (ds_direction s), ds_name s]"

definition snapshot_statuses :: "status_registry \<Rightarrow> detector_status list" where
  "snapshot_statuses reg = sort_key status_order (map snd reg)"

definition status_issues :: "bool option \<Rightarrow> status_registry \<Rightarrow> detector_status list" where
  "status_issues strict reg =
     (let issues = filter has_issue (snapshot_statuses reg) in
      case strict of None \<Rightarrow> issues | Some b \<Rightarrow> filter (\<lambda>s. is_strict s = b) issues)"

text \<open>The registry as a machine: an operation that raises leaves it as it was.\<close>

datatype status_op =
    Register direction pystr pystr bool pystr pyfloat
  | Transition direction pystr detector_state "detector_reason option" "detector option"

definition status_step :: "status_registry \<Rightarrow> status_op \<Rightarrow> status_registry" where
  "status_step reg x =
     (case x of
        Register d n ty req oe t \<Rightarrow> (case register_status d n ty req oe t reg of Inl _ \<Rightarrow> reg | Inr r \<Rightarrow> r)
      | Transition d n st rc det \<Rightarrow>
          (case transition_status d n st rc det reg of Inl _ \<Rightarrow> reg | Inr (_, _, r) \<Rightarrow> r))"

subsection \<open>Readiness\<close>

datatype health_outcome = Answered bool | Health_timed_out | Health_raised

definition check_detector_health ::
  "(detector \<Rightarrow> health_outcome option) \<Rightarrow> detector_status \<Rightarrow> status_registry \<Rightarrow> status_error + status_registry" where
  "check_detector_health health status reg =
     (case ds_detector status of
        None \<Rightarrow> Inr reg
      | Some d \<Rightarrow>
          (case health d of
             None \<Rightarrow> Inr reg
           | Some outcome \<Rightarrow>
               let (state, reason) =
                 (case outcome of
                    Health_timed_out \<Rightarrow> (UNHEALTHY, Some HEALTH_CHECK_TIMEOUT)
                  | Health_raised \<Rightarrow> (UNHEALTHY, Some HEALTH_CHECK_ERROR)
                  | Answered healthy \<Rightarrow>
                      if healthy then (HEALTHY, None) else (UNHEALTHY, Some HEALTH_CHECK_FAILED))
               in (case transition_status (ds_direction status) (ds_name status) state reason None reg of
                     Inl e \<Rightarrow> Inl e | Inr (_, _, reg) \<Rightarrow> Inr reg)))"

text \<open>
  A detector without a \<open>health_check\<close> has no outcome. The checks of a batch run concurrently and
  each writes its own key.
\<close>

definition refresh_detector_health ::
  "(detector \<Rightarrow> health_outcome option) \<Rightarrow> nat option \<Rightarrow> status_registry \<Rightarrow> status_error + status_registry" where
  "refresh_detector_health health deadline reg =
     (let checks = filter loaded (snapshot_statuses reg) in
      fold_res (check_detector_health health) (case deadline of None \<Rightarrow> checks | Some n \<Rightarrow> take n checks) reg)"

text \<open>
  \<open>/ready\<close> for one registry: the status code and the body's two flags. A refresh that reached its
  deadline has made only the first \<open>n\<close> checks (\<open>deadline = Some n\<close>).
\<close>

definition ready_response ::
  "(detector \<Rightarrow> health_outcome option) \<Rightarrow> nat option \<Rightarrow> status_registry
     \<Rightarrow> status_error + ((nat \<times> bool \<times> bool) \<times> status_registry)" where
  "ready_response health deadline reg =
     bind_res (refresh_detector_health health deadline reg) (\<lambda>reg.
       let is_ready = (status_issues (Some True) reg = [] \<and> deadline = None) in
       Inr ((if is_ready then 200 else 503, is_ready, status_issues (Some False) reg \<noteq> []), reg))"

subsection \<open>The invariant of the registry\<close>

definition registry_inv :: "status_registry \<Rightarrow> bool" where
  "registry_inv reg \<longleftrightarrow>
     distinct (map fst reg)
     \<and> (\<forall>(key, s) \<in> set reg. key = (ds_direction s, ds_name s)
          \<and> (ds_state s = HEALTHY \<longrightarrow> ds_reason_code s = None))"

lemma set_update_subset: "set (AList.update k v al) \<subseteq> insert (k, v) (set al)"
  by (induction al) auto

lemma registry_inv_update:
  assumes "registry_inv reg" and "k = (ds_direction s, ds_name s)"
    and "ds_state s = HEALTHY \<longrightarrow> ds_reason_code s = None"
  shows "registry_inv (AList.update k s reg)"
  using assms set_update_subset [of k s reg] by (auto simp: registry_inv_def distinct_update)

lemma registry_inv_lookup:
  "registry_inv reg \<Longrightarrow> map_of reg (d, n) = Some s \<Longrightarrow> ds_direction s = d \<and> ds_name s = n"
  by (auto simp: registry_inv_def dest!: map_of_SomeD)

lemma registry_inv_register:
  "registry_inv reg \<Longrightarrow> register_status d n ty req oe t reg = Inr reg' \<Longrightarrow> registry_inv reg'"
  by (auto simp: register_status_def registry_inv_update split: if_splits)

lemma registry_inv_transition:
  assumes "registry_inv reg" and "transition_status d n st rc det reg = Inr (s, moved, reg')"
  shows "registry_inv reg'"
proof -
  obtain old where old: "map_of reg (d, n) = Some old"
    using assms(2) by (auto simp: transition_status_def split: option.splits)
  have "registry_inv (AList.update (d, n) (moved_status st rc det old) reg)"
    using registry_inv_lookup [OF assms(1) old]
    by (intro registry_inv_update [OF assms(1)]) (auto simp: moved_status_def)
  with assms old show ?thesis by (auto simp: transition_status_def Let_def split: if_splits)
qed

interpretation reg: step_machine status_step "\<lambda>_. True" registry_inv
proof
  fix s x
  assume "registry_inv s"
  then show "registry_inv (status_step s x)"
    by (cases x) (auto simp: status_step_def split: sum.split intro: registry_inv_register registry_inv_transition)
qed

text \<open>Whatever operations a registry went through, no identity is registered twice, every status stands under its own direction and name, a healthy detector carries no failure reason, and only detectors whose state is unavailable or unhealthy are issues.\<close>

theorem registry_reachable_inv:
  "distinct (map fst (run_steps status_step [] xs))
   \<and> list_all (\<lambda>(key, s). key = (ds_direction s, ds_name s) \<and> \<not> (ds_state s = HEALTHY \<and> ds_reason_code s \<noteq> None))
       (run_steps status_step [] xs)
   \<and> list_all (\<lambda>s. ds_state s = UNAVAILABLE_STATE \<or> ds_state s = UNHEALTHY)
       (status_issues strict (run_steps status_step [] xs))"
proof -
  have "registry_inv []" by (simp add: registry_inv_def)
  then have inv: "registry_inv (run_steps status_step [] xs)"
    by (rule reg.run_inv) (simp add: list_all_iff)
  moreover have "list_all has_issue (status_issues strict r)" for r
    by (auto simp: status_issues_def list_all_iff Let_def split: option.split)
  ultimately show ?thesis by (auto simp: registry_inv_def list_all_iff has_issue_def)
qed

subsection \<open>What a refresh reports\<close>

lemma transition_status_map:
  assumes "transition_status d n st rc det reg = Inr (s, moved, reg')"
  shows "map_of reg' = (map_of reg)((d, n) \<mapsto> s)
    \<and> (\<exists>old. map_of reg (d, n) = Some old \<and> s = moved_status st rc det old
         \<and> moved = (if s = old then None else Some (old, s)))"
  using assms by (auto simp: transition_status_def Let_def update_conv' split: option.splits if_splits)

lemma transition_status_total: "map_of reg (d, n) = Some old \<Longrightarrow> \<exists>r. transition_status d n st rc det reg = Inr r"
  by (auto simp: transition_status_def Let_def)

text \<open>The status a check leaves.\<close>

definition checked_status :: "(detector \<Rightarrow> health_outcome option) \<Rightarrow> detector_status \<Rightarrow> detector_status" where
  "checked_status health s =
     (case Option.bind (ds_detector s) health of
        None \<Rightarrow> s
      | Some (Answered True) \<Rightarrow> s\<lparr>ds_state := HEALTHY, ds_reason_code := None\<rparr>
      | Some (Answered False) \<Rightarrow> s\<lparr>ds_state := UNHEALTHY, ds_reason_code := Some HEALTH_CHECK_FAILED\<rparr>
      | Some Health_timed_out \<Rightarrow> s\<lparr>ds_state := UNHEALTHY, ds_reason_code := Some HEALTH_CHECK_TIMEOUT\<rparr>
      | Some Health_raised \<Rightarrow> s\<lparr>ds_state := UNHEALTHY, ds_reason_code := Some HEALTH_CHECK_ERROR\<rparr>)"

lemma check_detector_health_map:
  assumes "map_of reg (ds_direction s, ds_name s) = Some s"
  shows "\<exists>reg'. check_detector_health health s reg = Inr reg'
    \<and> map_of reg' = (map_of reg)((ds_direction s, ds_name s) \<mapsto> checked_status health s)"
proof (cases "Option.bind (ds_detector s) health")
  case None
  with assms show ?thesis
    by (auto simp: check_detector_health_def checked_status_def split: option.splits)
next
  case (Some outcome)
  then obtain d where d: "ds_detector s = Some d" "health d = Some outcome" by (auto split: bind_splits)
  let ?st = "case outcome of Health_timed_out \<Rightarrow> (UNHEALTHY, Some HEALTH_CHECK_TIMEOUT)
      | Health_raised \<Rightarrow> (UNHEALTHY, Some HEALTH_CHECK_ERROR)
      | Answered healthy \<Rightarrow> if healthy then (HEALTHY, None) else (UNHEALTHY, Some HEALTH_CHECK_FAILED)"
  obtain t moved reg' where tr: "transition_status (ds_direction s) (ds_name s) (fst ?st) (snd ?st) None reg = Inr (t, moved, reg')"
    using transition_status_total [OF assms] by (metis prod.collapse)
  have "t = checked_status health s"
    using transition_status_map [OF tr] assms d
    by (auto simp: checked_status_def moved_status_def split: health_outcome.splits bool.splits)
  moreover have "check_detector_health health s reg = Inr reg'"
    using d tr by (simp add: check_detector_health_def case_prod_beta)
  ultimately show ?thesis using transition_status_map [OF tr] by auto
qed

lemma check_detector_health_inv:
  "registry_inv reg \<Longrightarrow> check_detector_health health s reg = Inr reg' \<Longrightarrow> registry_inv reg'"
  by (auto simp: check_detector_health_def Let_def case_prod_beta dest: registry_inv_transition split: option.splits sum.splits)

abbreviation status_key_of :: "detector_status \<Rightarrow> status_key" where
  "status_key_of s \<equiv> (ds_direction s, ds_name s)"

lemma refresh_fold:
  assumes "distinct (map status_key_of ss)" and "\<And>s. s \<in> set ss \<Longrightarrow> map_of reg (status_key_of s) = Some s"
    and "registry_inv reg"
  shows "\<exists>reg'. fold_res (check_detector_health health) ss reg = Inr reg' \<and> registry_inv reg'
    \<and> (\<forall>s \<in> set ss. map_of reg' (status_key_of s) = Some (checked_status health s))
    \<and> (\<forall>k. k \<notin> status_key_of ` set ss \<longrightarrow> map_of reg' k = map_of reg k)"
  using assms
proof (induction ss arbitrary: reg)
  case (Cons s ss)
  obtain r1 where r1: "check_detector_health health s reg = Inr r1"
      "map_of r1 = (map_of reg)(status_key_of s \<mapsto> checked_status health s)"
    using check_detector_health_map [of reg s health] Cons.prems(2) [of s] by auto
  have new: "status_key_of s \<notin> status_key_of ` set ss" using Cons.prems(1) by simp
  have "map_of r1 (status_key_of t) = Some t" if "t \<in> set ss" for t
  proof -
    have "status_key_of t \<noteq> status_key_of s" using new that by (auto simp: image_iff)
    with r1(2) Cons.prems(2) [of t] that show ?thesis by auto
  qed
  moreover have "registry_inv r1" using check_detector_health_inv [OF Cons.prems(3) r1(1)] .
  ultimately obtain r2 where r2: "fold_res (check_detector_health health) ss r1 = Inr r2" "registry_inv r2"
      "\<forall>t \<in> set ss. map_of r2 (status_key_of t) = Some (checked_status health t)"
      "\<forall>k. k \<notin> status_key_of ` set ss \<longrightarrow> map_of r2 k = map_of r1 k"
    using Cons.IH [of r1] Cons.prems(1) by auto
  have "map_of r2 (status_key_of s) = Some (checked_status health s)" using r2(4) new r1(2) by simp
  moreover have "map_of r2 k = map_of reg k" if "k \<notin> status_key_of ` set (s # ss)" for k
    using that r2(4) r1(2) by (cases k) auto
  ultimately show ?case using r1(1) r2 by auto
qed simp

lemma checked_status_fixed [simp]:
  "is_strict (checked_status health s) = is_strict s" "status_key_of (checked_status health s) = status_key_of s"
  "\<not> loaded s \<Longrightarrow> checked_status health s = s"
  by (auto simp: checked_status_def is_strict_def loaded_def split: option.split health_outcome.split bool.split)

lemma registry_statuses: "registry_inv reg \<Longrightarrow> s \<in> snd ` set reg \<longleftrightarrow> map_of reg (status_key_of s) = Some s"
  by (auto simp: registry_inv_def image_iff intro: bexI [rotated] dest: map_of_SomeD)

lemma refresh_statuses:
  assumes inv: "registry_inv reg"
  shows "\<exists>reg'. refresh_detector_health health None reg = Inr reg'
    \<and> snd ` set reg' = checked_status health ` snd ` set reg"
proof -
  define ss where "ss = filter loaded (snapshot_statuses reg)"
  have keys: "map fst reg = map status_key_of (map snd reg)"
    using inv by (auto simp: registry_inv_def)
  moreover have "distinct (map fst reg)" using inv by (simp add: registry_inv_def)
  ultimately have "distinct (map status_key_of (map snd reg))" by (simp only:)
  then have "distinct (map snd reg)" "inj_on status_key_of (set (map snd reg))"
    by (rule distinct_map [THEN iffD1, THEN conjunct1], rule distinct_map [THEN iffD1, THEN conjunct2])
  then have "distinct (map status_key_of (snapshot_statuses reg))"
    unfolding snapshot_statuses_def by (intro distinct_map [THEN iffD2] conjI) (simp_all del: set_map)
  then have dist: "distinct (map status_key_of ss)" unfolding ss_def by (rule distinct_map_filter)
  have mem: "s \<in> set ss \<longleftrightarrow> loaded s \<and> map_of reg (status_key_of s) = Some s" for s
    using registry_statuses [OF inv, of s] by (auto simp: ss_def snapshot_statuses_def)
  obtain reg' where reg': "fold_res (check_detector_health health) ss reg = Inr reg'" "registry_inv reg'"
      "\<forall>s \<in> set ss. map_of reg' (status_key_of s) = Some (checked_status health s)"
      "\<forall>k. k \<notin> status_key_of ` set ss \<longrightarrow> map_of reg' k = map_of reg k"
    using refresh_fold [OF dist _ inv, of health] mem by blast
  have look: "map_of reg' (status_key_of s) = Some (checked_status health s)"
    if "map_of reg (status_key_of s) = Some s" for s
  proof (cases "loaded s")
    case True
    with that mem reg'(3) show ?thesis by blast
  next
    case False
    have "status_key_of s \<notin> status_key_of ` set ss"
    proof
      assume "status_key_of s \<in> status_key_of ` set ss"
      then obtain t where t: "t \<in> set ss" "status_key_of t = status_key_of s" by auto
      from t(1) have "loaded t" "map_of reg (status_key_of t) = Some t" using mem [of t] by blast+
      then have "Some t = Some s" using that unfolding t(2) by (simp only:)
      then have "t = s" by (rule option.inject [THEN iffD1])
      with \<open>loaded t\<close> False show False by simp
    qed
    then have "map_of reg' (status_key_of s) = map_of reg (status_key_of s)" using reg'(4) by blast
    with that checked_status_fixed(3) [OF False] show ?thesis by simp
  qed
  show ?thesis
  proof (intro exI conjI set_eqI iffI)
    show "refresh_detector_health health None reg = Inr reg'"
      using reg'(1) by (simp add: refresh_detector_health_def ss_def)
  next
    fix t assume "t \<in> checked_status health ` snd ` set reg"
    then obtain s where "map_of reg (status_key_of s) = Some s" "t = checked_status health s"
      using registry_statuses [OF inv] by (auto simp del: checked_status_fixed)
    with look [of s] show "t \<in> snd ` set reg'"
      using registry_statuses [OF reg'(2), of t] by simp
  next
    fix t assume "t \<in> snd ` set reg'"
    then have t: "map_of reg' (status_key_of t) = Some t" using registry_statuses [OF reg'(2)] by blast
    show "t \<in> checked_status health ` snd ` set reg"
    proof (cases "status_key_of t \<in> status_key_of ` set ss")
      case True
      then obtain s where s: "s \<in> set ss" "status_key_of s = status_key_of t" by auto
      with reg'(3) t have "t = checked_status health s" by (metis option.inject)
      then show ?thesis using mem [of s] s(1) registry_statuses [OF inv, of s] by auto
    next
      case False
      with reg'(4) t have "map_of reg (status_key_of t) = Some t" by simp
      with look [of t] t have "checked_status health t = t" by simp
      with \<open>map_of reg (status_key_of t) = Some t\<close> registry_statuses [OF inv, of t] show ?thesis
        by (metis image_eqI)
    qed
  qed
qed

text \<open>Readiness after a complete refresh: the application reports itself ready exactly when no required or fail-closed detector fails its health check, times out in it or is unavailable, and the answer is 200 or 503 accordingly; the refresh never raises.\<close>

theorem ready_reflects_health:
  "\<exists>is_ready degraded reg'.
     ready_response health None (run_steps status_step [] xs)
       = Inr ((if is_ready then 200 else 503, is_ready, degraded), reg')
     \<and> (is_ready \<longleftrightarrow> list_all (\<lambda>(_, s). \<not> (is_strict s \<and> has_issue (checked_status health s))) (run_steps status_step [] xs))
     \<and> (degraded \<longleftrightarrow> list_ex (\<lambda>(_, s). \<not> is_strict s \<and> has_issue (checked_status health s)) (run_steps status_step [] xs))"
proof -
  define r where "r = run_steps status_step [] xs"
  have "registry_inv []" by (simp add: registry_inv_def)
  then have "registry_inv r" unfolding r_def by (rule reg.run_inv) (simp add: list_all_iff)
  from refresh_statuses [OF this, of health] obtain reg' where
    reg': "refresh_detector_health health None r = Inr reg'" "snd ` set reg' = checked_status health ` snd ` set r"
    by blast
  have issues: "status_issues (Some b) reg' = [] \<longleftrightarrow> (\<forall>s \<in> snd ` set reg'. \<not> (has_issue s \<and> is_strict s = b))" for b
    by (auto simp: status_issues_def Let_def filter_empty_conv snapshot_statuses_def)
  have "status_issues (Some True) reg' = [] \<longleftrightarrow> list_all (\<lambda>(_, s). \<not> (is_strict s \<and> has_issue (checked_status health s))) r"
    "status_issues (Some False) reg' \<noteq> [] \<longleftrightarrow> list_ex (\<lambda>(_, s). \<not> is_strict s \<and> has_issue (checked_status health s)) r"
    unfolding issues reg'(2) by (force simp: list_all_iff list_ex_iff)+
  with reg'(1) show ?thesis by (auto simp: ready_response_def Let_def r_def [symmetric])
qed

end
