(* ===== verification/Snapshot.thy ===== *)
theory Snapshot
  imports Detector_Status
begin

text \<open>
  \<open>pipeline/snapshot.py\<close> and the admission of \<open>routes/chat.py\<close>: the availability of every detector is
  captured once per request; a request is rejected while a required or fail-closed detector is
  unavailable, and otherwise runs with the detectors that have no issue.

  The freezing of the configurations is the identity here; the snapshot's identifier is an argument.
\<close>

record flow_snapshot =
  fs_snapshot_id :: pystr
  fs_request_id :: pystr
  fs_statuses :: "detector_status list"
  fs_input_detectors :: "detector list"
  fs_output_detectors :: "detector list"
  fs_input_configs :: detector_configs
  fs_output_configs :: detector_configs
  fs_max_evidence_size :: nat
  fs_input_flow_identity :: "(pystr \<times> pystr) option"
  fs_output_flow_identity :: "(pystr \<times> pystr) option"
  fs_input_policies :: "pystr \<rightharpoonup> node_policy"
  fs_output_policies :: "pystr \<rightharpoonup> node_policy"

definition snapshot_issues :: "flow_snapshot \<Rightarrow> detector_status list" where
  "snapshot_issues snap = filter has_issue (fs_statuses snap)"

definition strict_issues :: "flow_snapshot \<Rightarrow> detector_status list" where
  "strict_issues snap = filter is_strict (snapshot_issues snap)"

definition degraded :: "flow_snapshot \<Rightarrow> bool" where
  "degraded snap \<longleftrightarrow> snapshot_issues snap \<noteq> []"

text \<open>What the request brings: the live detectors, their configurations and the Flow identities.\<close>

record request_runtime =
  rr_statuses :: "detector_status list"
  rr_input_detectors :: "detector list"
  rr_output_detectors :: "detector list"
  rr_input_configs :: detector_configs
  rr_output_configs :: detector_configs
  rr_max_evidence_size :: nat
  rr_input_flow_identity :: "(pystr \<times> pystr) option"
  rr_output_flow_identity :: "(pystr \<times> pystr) option"
  rr_input_policies :: "pystr \<rightharpoonup> node_policy"
  rr_output_policies :: "pystr \<rightharpoonup> node_policy"

text \<open>\<open>sorted(configs.items())\<close>, by name.\<close>

definition freeze_configs :: "detector_configs \<Rightarrow> detector_configs" where
  "freeze_configs configs = sort_key fst configs"

definition capture_flow_execution_snapshot :: "pystr \<Rightarrow> pystr \<Rightarrow> request_runtime \<Rightarrow> flow_snapshot" where
  "capture_flow_execution_snapshot snapshot_id request_id rr =
     (let frozen_statuses = sort_key status_order (rr_statuses rr);
          issue_detector_ids = map det_id (List.map_filter ds_detector (filter has_issue frozen_statuses));
          available = filter (\<lambda>d. det_id d \<notin> set issue_detector_ids)
      in \<lparr>fs_snapshot_id = snapshot_id,
          fs_request_id = (if request_id = [] then ''unknown-request'' else request_id),
          fs_statuses = frozen_statuses,
          fs_input_detectors = available (rr_input_detectors rr),
          fs_output_detectors = available (rr_output_detectors rr),
          fs_input_configs = freeze_configs (rr_input_configs rr),
          fs_output_configs = freeze_configs (rr_output_configs rr),
          fs_max_evidence_size = rr_max_evidence_size rr,
          fs_input_flow_identity = rr_input_flow_identity rr,
          fs_output_flow_identity = rr_output_flow_identity rr,
          fs_input_policies = rr_input_policies rr, fs_output_policies = rr_output_policies rr\<rparr>)"

subsection \<open>Evidence of the detectors that are skipped\<close>

definition status_policy_config :: "detector_status \<Rightarrow> node_policy_config" where
  "status_policy_config s =
     (let action = (if ds_on_error s = ''fail_closed'' then Fail_closed else Fail_open);
          availability_action = (if is_strict s then Fail_closed else Fail_open)
      in \<lparr>npc_timeout = Some \<lparr>tp_seconds = max (1/1000) (min (ds_timeout_seconds s) 120), tp_action = action\<rparr>,
          npc_failure = Some action,
          npc_availability = Some \<lparr>ap_required = ds_required s, ap_on_unavailable = availability_action,
                                   ap_on_circuit_open = availability_action\<rparr>,
          npc_degradation = Some \<lparr>gp_allowed = True, gp_emit_evidence = True, gp_emit_metrics = True\<rparr>,
          npc_stop = Some [''safety.block'']\<rparr>)"

definition status_policy :: "detector_status \<Rightarrow> policy_conflict + node_policy" where
  "status_policy s = resolve_node_policy (status_policy_config s) policy_defaults LEGACY None None"

definition skip_template ::
  "direction \<Rightarrow> pystr \<times> pystr \<Rightarrow> pystr \<Rightarrow> nat \<Rightarrow> detector_status \<Rightarrow> node_policy \<Rightarrow> node_evidence" where
  "skip_template direction identity execution_id index s policy =
     \<lparr>ne_flow_id = fst identity, ne_flow_version = snd identity, ne_execution_id = execution_id,
      ne_node_id = direction_str direction @ ''-'' @ ds_name s, ne_definition_index = index,
      ne_target_id = ''detector.'' @ ds_name s, ne_target_contract_version = ''1.0'',
      ne_target_implementation_version = (case ds_detector s of Some d \<Rightarrow> det_version d | None \<Rightarrow> ''unavailable''),
      ne_effective_policy = policy, ne_status = N_SKIPPED, ne_degraded = True, ne_reason_code = [],
      ne_duration_ms = 0, ne_item_count = 1, ne_succeeded_items = 0, ne_failed_items = 0,
      ne_skipped_items = 1, ne_cancelled_items = 0, ne_signals = [], ne_evidence_summary = None,
      ne_child_execution_id = None, ne_details_truncated = False, ne_evidence_rejected_reason = None\<rparr>"

definition skip_core :: "pystr \<Rightarrow> detector_status \<Rightarrow> core_fields" where
  "skip_core execution_id s =
     \<lparr>cf_execution_id = execution_id, cf_status = N_SKIPPED, cf_degraded = True,
      cf_reason_code = (case ds_reason_code s of Some r \<Rightarrow> reason_str r | None \<Rightarrow> ''capability_unavailable''),
      cf_duration_ms = 0, cf_item_count = 1, cf_succeeded_items = 0, cf_failed_items = 0,
      cf_skipped_items = 1, cf_cancelled_items = 0, cf_child_execution_id = None\<rparr>"

definition stage_identity :: "flow_snapshot \<Rightarrow> direction \<Rightarrow> pystr \<times> pystr" where
  "stage_identity snap direction =
     or_default (case direction of Input \<Rightarrow> fs_input_flow_identity snap | Output \<Rightarrow> fs_output_flow_identity snap)
       (''legacy-'' @ direction_str direction @ ''-detector-flow'', ''1.0.0'')"

definition stage_policies :: "flow_snapshot \<Rightarrow> direction \<Rightarrow> pystr \<rightharpoonup> node_policy" where
  "stage_policies snap direction =
     (case direction of Input \<Rightarrow> fs_input_policies snap | Output \<Rightarrow> fs_output_policies snap)"

text \<open>The node of one skipped detector; its policy is resolved also when a configured one replaces it.\<close>

definition skipped_node ::
  "codec \<Rightarrow> flow_snapshot \<Rightarrow> direction \<Rightarrow> pystr \<Rightarrow> nat \<times> detector_status \<Rightarrow> pipeline_error + node_evidence" where
  "skipped_node codec snap direction execution_id indexed =
     (let (index, s) = indexed in
      case status_policy s of
        Inl e \<Rightarrow> Inl (Policy_conflict_error e)
      | Inr p \<Rightarrow>
          let policy = or_default (stage_policies snap direction (ds_name s)) p in Inr
            (build_node_evidence (node_json_size codec) default_max_evidence_size
              (skip_template direction (stage_identity snap direction) execution_id index s policy)
              False No_summary [] (skip_core execution_id s)))"

definition stage_evidence ::
  "codec \<Rightarrow> flow_snapshot \<Rightarrow> direction \<Rightarrow> pystr \<Rightarrow> pipeline_error + flow_evidence option" where
  "stage_evidence codec snap direction stage =
     (let issues = filter (\<lambda>s. ds_direction s = direction) (snapshot_issues snap);
          execution_id = take 256 (fs_snapshot_id snap @ '':'' @ direction_str direction @ '':'' @ stage);
          strict = list_ex is_strict issues
      in bind_res (map_res (skipped_node codec snap direction execution_id) (enumerate 0 issues)) (\<lambda>nodes.
           case bound_flow_evidence (json_size codec) (sha256_hex codec) (digest_signals codec)
                  (fs_max_evidence_size snap)
                  \<lparr>fv_execution_id = execution_id, fv_parent_execution_id = None,
                   fv_flow_id = fst (stage_identity snap direction),
                   fv_flow_version = snd (stage_identity snap direction),
                   fv_direction = direction, fv_stage = stage,
                   fv_status = (if strict then F_FAILED else if issues \<noteq> [] then F_PARTIAL else F_COMPLETED),
                   fv_reason_code = (if issues \<noteq> [] then ''capability_unavailable'' else ''completed''),
                   fv_duration_ms = 0, fv_final_signals = [], fv_nodes = nodes,
                   fv_evidence_persisted = True, fv_details_truncated = False\<rparr> of
             Inl _ \<Rightarrow> Inr None
           | Inr e \<Rightarrow> Inr (Some e)))"

record stage_snapshot =
  st_direction :: direction
  st_stage :: pystr
  st_detectors :: "detector list"
  st_configs :: detector_configs
  st_evidence :: flow_evidence

text \<open>\<open>stage\<close>: a budget that the evidence cannot meet raises (\<open>None\<close>).\<close>

definition stage_view ::
  "codec \<Rightarrow> flow_snapshot \<Rightarrow> direction \<Rightarrow> pystr \<Rightarrow> pipeline_error + stage_snapshot option" where
  "stage_view codec snap direction stage =
     bind_res (stage_evidence codec snap direction stage) (\<lambda>evidence. Inr
       (map_option (\<lambda>e.
          \<lparr>st_direction = direction, st_stage = stage,
           st_detectors = (case direction of Input \<Rightarrow> fs_input_detectors snap | Output \<Rightarrow> fs_output_detectors snap),
           st_configs = (case direction of Input \<Rightarrow> fs_input_configs snap | Output \<Rightarrow> fs_output_configs snap),
           st_evidence = e\<rparr>) evidence))"

subsection \<open>Admission\<close>

datatype admission_error =
    Admission_unavailable safety_unavailable
  | Admission_fault pipeline_error
  | Evidence_budget_too_small

record admission =
  ad_snapshot :: flow_snapshot
  ad_evidence :: "flow_evidence list"
  ad_degraded :: bool
  ad_availability :: "availability_entry list"

text \<open>\<open>_record_snapshot_stage\<close>: the evidence is kept when it has nodes.\<close>

definition record_snapshot_stage ::
  "codec \<Rightarrow> flow_snapshot \<Rightarrow> direction \<Rightarrow> pystr \<Rightarrow> flow_evidence list
     \<Rightarrow> admission_error + (stage_snapshot \<times> flow_evidence list)" where
  "record_snapshot_stage codec snap direction stage evidence =
     (case stage_view codec snap direction stage of
        Inl e \<Rightarrow> Inl (Admission_fault e)
      | Inr None \<Rightarrow> Inl Evidence_budget_too_small
      | Inr (Some view) \<Rightarrow>
          Inr (view, if fv_nodes (st_evidence view) \<noteq> [] then evidence @ [st_evidence view] else evidence))"

definition enforce_detector_availability ::
  "codec \<Rightarrow> pystr \<Rightarrow> pystr \<Rightarrow> request_runtime \<Rightarrow> admission_error + admission" where
  "enforce_detector_availability codec snapshot_id request_id rr =
     (let snap = capture_flow_execution_snapshot snapshot_id request_id rr in
      bind_res (record_snapshot_stage codec snap Input ''admission'' []) (\<lambda>(_, evidence).
      bind_res (record_snapshot_stage codec snap Output ''admission'' evidence) (\<lambda>(_, evidence).
        if strict_issues snap \<noteq> []
        then Inl (Admission_unavailable (safety_unavailable_error
               (map (direction_str \<circ> ds_direction) (strict_issues snap)) (map ds_name (strict_issues snap))))
        else Inr \<lparr>ad_snapshot = snap, ad_evidence = evidence, ad_degraded = degraded snap,
                  ad_availability = map to_availability_dict (snapshot_issues snap)\<rparr>)))"

subsection \<open>Laws\<close>

lemma status_policy_total: "\<exists>p. status_policy s = Inr p"
  by (auto simp: status_policy_def resolve_node_policy_def status_policy_config_def or_default_def Let_def is_strict_def)

lemma set_sort_statuses [simp]: "set (fs_statuses (capture_flow_execution_snapshot i r rr)) = set (rr_statuses rr)"
  by (simp add: capture_flow_execution_snapshot_def Let_def)

lemma map_filter_mem: "y \<in> set (List.map_filter f xs) \<longleftrightarrow> (\<exists>x \<in> set xs. f x = Some y)"
  by (induction xs) (auto simp: List.map_filter_simps split: option.splits)

definition has_live_issue :: "detector_status list \<Rightarrow> detector \<Rightarrow> bool" where
  "has_live_issue statuses d \<longleftrightarrow>
     (\<exists>s \<in> set statuses. has_issue s \<and> (\<exists>x. ds_detector s = Some x \<and> det_id x = det_id d))"

lemma issue_detector_ids:
  "det_id d \<in> set (map det_id (List.map_filter ds_detector (filter has_issue (sort_key status_order statuses))))
     \<longleftrightarrow> has_live_issue statuses d"
  unfolding has_live_issue_def set_map image_iff Bex_def map_filter_mem by auto

lemma snapshot_detectors:
  "fs_input_detectors (capture_flow_execution_snapshot i r rr) =
     filter (\<lambda>d. \<not> has_live_issue (rr_statuses rr) d) (rr_input_detectors rr)"
  "fs_output_detectors (capture_flow_execution_snapshot i r rr) =
     filter (\<lambda>d. \<not> has_live_issue (rr_statuses rr) d) (rr_output_detectors rr)"
  by (simp_all only: capture_flow_execution_snapshot_def Let_def issue_detector_ids flow_snapshot.simps)

lemma strict_issues_iff:
  "strict_issues (capture_flow_execution_snapshot i r rr) = [] \<longleftrightarrow>
     (\<forall>s \<in> set (rr_statuses rr). \<not> (has_issue s \<and> is_strict s))"
  by (auto simp: strict_issues_def snapshot_issues_def filter_empty_conv)

text \<open>What the evidence of a stage keeps of every skipped detector.\<close>

lemma skipped_node_facts:
  "skipped_node codec snap d eid (i, s) = Inr n \<Longrightarrow>
     ne_status n = N_SKIPPED \<and> ne_degraded n \<and> ne_target_id n = ''detector.'' @ ds_name s"
  by (auto simp: skipped_node_def build_node_evidence_def skip_core_def skip_template_def apply_core_def
      sanitize_signals_def sanitize_summary_def Let_def split: sum.splits)

lemma stage_view_detectors:
  "stage_view codec snap d stage = Inr (Some view) \<Longrightarrow>
     st_detectors view = (case d of Input \<Rightarrow> fs_input_detectors snap | Output \<Rightarrow> fs_output_detectors snap)
     \<and> st_configs view = (case d of Input \<Rightarrow> fs_input_configs snap | Output \<Rightarrow> fs_output_configs snap)"
  by (auto simp: stage_view_def res_simps)

text \<open>A request that is admitted finds no required or fail-closed detector unavailable or unhealthy; the detectors it will run with are those configured, in order, except the ones some status reports as unavailable or unhealthy, and it is marked degraded exactly when there is such a status.\<close>

theorem admission_sound:
  assumes "enforce_detector_availability codec snapshot_id request_id rr = Inr ad"
  shows "list_all (\<lambda>s. \<not> (has_issue s \<and> is_strict s)) (rr_statuses rr)
    \<and> fs_input_detectors (ad_snapshot ad) = filter (\<lambda>d. \<not> has_live_issue (rr_statuses rr) d) (rr_input_detectors rr)
    \<and> fs_output_detectors (ad_snapshot ad) = filter (\<lambda>d. \<not> has_live_issue (rr_statuses rr) d) (rr_output_detectors rr)
    \<and> (ad_degraded ad \<longleftrightarrow> list_ex has_issue (rr_statuses rr))"
proof -
  let ?snap = "capture_flow_execution_snapshot snapshot_id request_id rr"
  have strict: "strict_issues ?snap = []" and ad: "ad_snapshot ad = ?snap" "ad_degraded ad = degraded ?snap"
    using assms by (auto simp: enforce_detector_availability_def Let_def res_simps split: if_splits)
  have "ad_degraded ad \<longleftrightarrow> list_ex has_issue (rr_statuses rr)"
    using ad(2) by (simp add: degraded_def snapshot_issues_def filter_empty_conv list_ex_iff)
  with strict ad(1) show ?thesis by (auto simp: snapshot_detectors strict_issues_iff list_all_iff)
qed

text \<open>C28. When the evidence of both directions fits its budget, a request is rejected exactly when some required or fail-closed detector has an issue, with the sorted names and directions of all of these.\<close>

theorem admission_rejects:
  assumes "\<And>d. \<exists>view. stage_view codec (capture_flow_execution_snapshot snapshot_id request_id rr) d ''admission'' = Inr (Some view)"
  shows "case enforce_detector_availability codec snapshot_id request_id rr of
      Inr _ \<Rightarrow> list_all (\<lambda>s. \<not> (has_issue s \<and> is_strict s)) (rr_statuses rr)
    | Inl (Admission_unavailable u) \<Rightarrow>
        list_ex (\<lambda>s. has_issue s \<and> is_strict s) (rr_statuses rr)
        \<and> set (su_detectors u) = ds_name ` {s \<in> set (rr_statuses rr). has_issue s \<and> is_strict s}
        \<and> set (su_affected_directions u) = (direction_str \<circ> ds_direction) ` {s \<in> set (rr_statuses rr). has_issue s \<and> is_strict s}
    | Inl _ \<Rightarrow> False"
proof -
  let ?snap = "capture_flow_execution_snapshot snapshot_id request_id rr"
  obtain v w where v: "stage_view codec ?snap Input ''admission'' = Inr (Some v)"
      "stage_view codec ?snap Output ''admission'' = Inr (Some w)"
    using assms [of Input] assms [of Output] by blast
  have strict: "set (strict_issues ?snap) = {s \<in> set (rr_statuses rr). has_issue s \<and> is_strict s}"
    by (auto simp: strict_issues_def snapshot_issues_def)
  show ?thesis
  proof (cases "strict_issues ?snap = []")
    case True
    with v strict show ?thesis
      by (simp add: enforce_detector_availability_def Let_def record_snapshot_stage_def list_all_iff)
  next
    case False
    then have "\<exists>s \<in> set (rr_statuses rr). has_issue s \<and> is_strict s" using strict_issues_iff by blast
    with False v strict show ?thesis
      by (simp add: enforce_detector_availability_def Let_def record_snapshot_stage_def
          safety_unavailable_error_def list_ex_iff image_comp [symmetric])
  qed
qed

subsection \<open>A concrete request\<close>

lemma stage_view_fits:
  assumes "\<And>e. json_size codec e \<le> fs_max_evidence_size snap"
  shows "\<exists>view. stage_view codec snap d stage = Inr (Some view)"
proof -
  have "\<exists>y. skipped_node codec snap d eid x = Inr y" for eid x
    using status_policy_total [of "snd x"] by (cases x) (auto simp: skipped_node_def Let_def)
  then have "\<exists>ns. map_res (skipped_node codec snap d eid) xs = Inr ns" for eid xs
    by (intro map_res_total) auto
  then obtain ns where "map_res (skipped_node codec snap d
      (take 256 (fs_snapshot_id snap @ '':'' @ direction_str d @ '':'' @ stage)))
      (enumerate 0 (filter (\<lambda>s. ds_direction s = d) (snapshot_issues snap))) = Inr ns" by blast
  with assms show ?thesis by (simp add: stage_view_def stage_evidence_def bound_flow_evidence_def Let_def)
qed

definition null_codec :: codec where
  "null_codec = \<lparr>json_size = (\<lambda>_. 0), node_json_size = (\<lambda>_. 0), sha256_hex = (\<lambda>s. s), digest_signals = (\<lambda>_. [])\<rparr>"

definition sample_status :: "pystr \<Rightarrow> bool \<Rightarrow> detector_state \<Rightarrow> nat \<Rightarrow> detector_status" where
  "sample_status name required state d =
     \<lparr>ds_direction = Input, ds_name = name, ds_detector_type = ''builtin'', ds_required = required,
      ds_on_error = ''fail_open'', ds_timeout_seconds = 5, ds_state = state, ds_reason_code = None,
      ds_detector = Some \<lparr>det_id = d, det_name = name, det_version = ''1'', det_category = name\<rparr>\<rparr>"

definition sample_request_runtime :: "bool \<Rightarrow> request_runtime" where
  "sample_request_runtime required =
     \<lparr>rr_statuses = [sample_status ''pii'' required UNHEALTHY 1, sample_status ''tox'' False HEALTHY 2],
      rr_input_detectors = [\<lparr>det_id = 1, det_name = ''pii'', det_version = ''1'', det_category = ''pii''\<rparr>,
                            \<lparr>det_id = 2, det_name = ''tox'', det_version = ''1'', det_category = ''tox''\<rparr>],
      rr_output_detectors = [], rr_input_configs = [], rr_output_configs = [], rr_max_evidence_size = 1000,
      rr_input_flow_identity = None, rr_output_flow_identity = None,
      rr_input_policies = Map.empty, rr_output_policies = Map.empty\<rparr>"

lemma sample_views:
  "\<exists>view. stage_view null_codec (capture_flow_execution_snapshot ''s'' ''r'' (sample_request_runtime b)) d ''admission'' = Inr (Some view)"
  by (rule stage_view_fits) (simp add: null_codec_def)

lemma sample_admitted:
  "\<exists>ad. enforce_detector_availability null_codec ''s'' ''r'' (sample_request_runtime False) = Inr ad"
proof -
  have "strict_issues (capture_flow_execution_snapshot ''s'' ''r'' (sample_request_runtime False)) = []"
    by (simp add: strict_issues_iff sample_request_runtime_def sample_status_def is_strict_def)
  then show ?thesis
    using sample_views [of False Input] sample_views [of False Output]
    by (auto simp: enforce_detector_availability_def Let_def record_snapshot_stage_def)
qed

theorem admission_sound_witness:
  "\<exists>ad. enforce_detector_availability null_codec ''s'' ''r'' (sample_request_runtime False) = Inr ad
     \<and> map det_id (fs_input_detectors (ad_snapshot ad)) = [2] \<and> ad_degraded ad"
proof -
  obtain ad where ad: "enforce_detector_availability null_codec ''s'' ''r'' (sample_request_runtime False) = Inr ad"
    using sample_admitted by blast
  from admission_sound [OF ad] ad show ?thesis
    by (auto simp: sample_request_runtime_def sample_status_def has_live_issue_def has_issue_def)
qed

theorem admission_rejects_witness:
  "case enforce_detector_availability null_codec ''s'' ''r'' (sample_request_runtime True) of
      Inl (Admission_unavailable u) \<Rightarrow> set (su_detectors u) = {''pii''}
    | _ \<Rightarrow> False"
proof -
  have issues: "{s \<in> set (rr_statuses (sample_request_runtime True)). has_issue s \<and> is_strict s} = {sample_status ''pii'' True UNHEALTHY 1}"
    by (auto simp: sample_request_runtime_def sample_status_def has_issue_def is_strict_def)
  have "\<not> list_all (\<lambda>s. \<not> (has_issue s \<and> is_strict s)) (rr_statuses (sample_request_runtime True))"
    by (simp add: sample_request_runtime_def sample_status_def has_issue_def is_strict_def)
  with admission_rejects [OF sample_views, of True] issues show ?thesis
    by (auto simp: sample_status_def split: sum.splits admission_error.splits)
qed

end
