(* ===== verification/Audit_Log.thy ===== *)
theory Audit_Log
  imports Snapshot
begin

text \<open>
  \<open>audit/models.py\<close>, \<open>audit/logger.py\<close> and the building of an entry in \<open>routes/chat.py\<close>: what is
  recorded of a decision, and what becomes of the record when a sink fails.

  The hash, the redaction of secrets and the writing to a sink are arguments: a sink is a file
  handler that may be missing and the outcomes of the two writes. Timestamps and the tenant context
  are left out.
\<close>

record detector_audit =
  da_name :: pystr
  da_action :: action
  da_confidence :: pyfloat
  da_risk_level :: risk_level
  da_duration_ms :: pyfloat
  da_error :: "pystr option"
  da_applied :: "bool option"

record audit_entry =
  ae_request_id :: pystr
  ae_direction :: direction
  ae_user_id :: "pystr option"
  ae_model :: "pystr option"
  ae_provider :: "pystr option"
  ae_content_hash :: "pystr option"
  ae_content_length :: nat
  ae_language :: "pystr option"
  ae_detectors :: "detector_audit list"
  ae_final_action :: action
  ae_final_risk_level :: risk_level
  ae_pipeline_duration_ms :: pyfloat
  ae_streaming :: bool
  ae_window_count :: "nat option"
  ae_recalled :: "bool option"
  ae_recall_method :: "pystr option"
  ae_async_detection :: "pystr option"
  ae_safety_degraded :: bool
  ae_detector_availability :: "availability_entry list"
  ae_flow_evidence :: "flow_evidence option"
  ae_evidence_persisted :: bool
  ae_content :: "pystr option"

subsection \<open>Building an entry\<close>

fun contains :: "pystr \<Rightarrow> pystr \<Rightarrow> bool" where
  "contains [] p = (p = [])"
| "contains (c # cs) p = (starts_with (c # cs) p \<or> contains cs p)"

definition stable_detector_error :: "detection_result \<Rightarrow> pystr option" where
  "stable_detector_error result =
     (case dr_error result of
        None \<Rightarrow> None
      | Some e \<Rightarrow>
          if dr_category result = ''circuit_breaker'' then Some ''circuit_open''
          else
            let low = map ascii_lower e in
            if contains low ''timeout'' \<or> contains low ''timed out'' then Some ''node_timeout''
            else Some ''capability_error'')"

definition detector_audit_record :: "bool option \<Rightarrow> detection_result \<Rightarrow> detector_audit" where
  "detector_audit_record applied_modify r =
     (let (a, applied) =
        (if dr_action r = Modify
         then (case applied_modify of
                 Some True \<Rightarrow> (Modify, Some True) | Some False \<Rightarrow> (Flag, Some False) | None \<Rightarrow> (Modify, None))
         else (dr_action r, None))
      in \<lparr>da_name = dr_detector_name r, da_action = a, da_confidence = dr_confidence r,
          da_risk_level = dr_risk_level r, da_duration_ms = dr_duration_ms r,
          da_error = stable_detector_error r, da_applied = applied\<rparr>)"

definition with_flow_evidence :: "flow_evidence \<Rightarrow> audit_entry \<Rightarrow> audit_entry" where
  "with_flow_evidence evidence e =
     e\<lparr>ae_flow_evidence := Some evidence, ae_evidence_persisted := fv_evidence_persisted evidence\<rparr>"

text \<open>The arguments of \<open>_build_audit_entry\<close>.\<close>

record audit_fields =
  af_request_id :: pystr
  af_direction :: direction
  af_user_id :: "pystr option"
  af_model :: "pystr option"
  af_provider :: "pystr option"
  af_content :: pystr
  af_language :: "pystr option"
  af_final_action :: action
  af_final_risk_level :: risk_level
  af_detector_results :: "detection_result list"
  af_applied_modify :: "bool option"
  af_pipeline_duration_ms :: pyfloat
  af_streaming :: bool
  af_window_count :: "nat option"
  af_recalled :: "bool option"
  af_recall_method :: "pystr option"
  af_async_detection :: "pystr option"
  af_safety_degraded :: bool
  af_detector_availability :: "availability_entry list"
  af_flow_evidence :: "flow_evidence option"

definition build_audit_entry :: "(pystr \<Rightarrow> pystr) \<Rightarrow> audit_fields \<Rightarrow> audit_entry" where
  "build_audit_entry digest f =
     (let entry =
        \<lparr>ae_request_id = af_request_id f, ae_direction = af_direction f, ae_user_id = af_user_id f,
         ae_model = af_model f, ae_provider = af_provider f,
         ae_content_hash = (if af_content f \<noteq> [] then Some (''sha256:'' @ digest (af_content f)) else None),
         ae_content_length = length (af_content f), ae_language = af_language f,
         ae_detectors = map (detector_audit_record (af_applied_modify f)) (af_detector_results f),
         ae_final_action = af_final_action f, ae_final_risk_level = af_final_risk_level f,
         ae_pipeline_duration_ms = af_pipeline_duration_ms f, ae_streaming = af_streaming f,
         ae_window_count = af_window_count f, ae_recalled = af_recalled f,
         ae_recall_method = af_recall_method f, ae_async_detection = af_async_detection f,
         ae_safety_degraded = af_safety_degraded f,
         ae_detector_availability = af_detector_availability f, ae_flow_evidence = None,
         ae_evidence_persisted = True, ae_content = None\<rparr>
      in case af_flow_evidence f of None \<Rightarrow> entry | Some evidence \<Rightarrow> with_flow_evidence evidence entry)"

subsection \<open>The logger\<close>

record audit_logger =
  al_enabled :: bool
  al_store_content :: bool
  al_sanitize_logs :: bool
  al_file_enabled :: bool
  al_file_handler :: bool
  al_stdout_enabled :: bool

text \<open>A line: the entry with the content it is written with.\<close>

definition render_line :: "(pystr \<Rightarrow> pystr) \<Rightarrow> audit_logger \<Rightarrow> audit_entry \<Rightarrow> audit_entry" where
  "render_line redact_secrets l e =
     (case ae_content e of
        None \<Rightarrow> e
      | Some content \<Rightarrow>
          if \<not> al_store_content l then e\<lparr>ae_content := None\<rparr>
          else e\<lparr>ae_content := Some (if al_sanitize_logs l then redact_secrets content else content)\<rparr>)"

record audit_write =
  aw_file_line :: "audit_entry option"
  aw_stdout_line :: "audit_entry option"
  aw_evidence :: "flow_evidence option"

text \<open>
  \<open>AuditLogger.record\<close> of an entry: \<open>file_ok\<close> and \<open>stdout_ok\<close> say whether each write succeeds. A line
  that could not be written is \<open>None\<close>.
\<close>

definition audit_record :: "(pystr \<Rightarrow> pystr) \<Rightarrow> audit_logger \<Rightarrow> bool \<Rightarrow> bool \<Rightarrow> audit_entry \<Rightarrow> audit_write" where
  "audit_record redact_secrets l file_ok stdout_ok e =
     (if \<not> al_enabled l then \<lparr>aw_file_line = None, aw_stdout_line = None, aw_evidence = None\<rparr>
      else
        let line = render_line redact_secrets l e;
            failed = (al_file_enabled l \<and> \<not> al_file_handler l
                      \<or> \<not> al_file_enabled l \<and> \<not> al_stdout_enabled l
                      \<or> al_file_handler l \<and> \<not> file_ok);
            line' = (if failed then render_line redact_secrets l (e\<lparr>ae_evidence_persisted := False\<rparr>) else line);
            failed' = (failed \<or> al_stdout_enabled l \<and> \<not> stdout_ok)
        in \<lparr>aw_file_line = (if al_file_handler l \<and> file_ok then Some line else None),
            aw_stdout_line = (if al_stdout_enabled l \<and> stdout_ok then Some line' else None),
            aw_evidence = map_option (\<lambda>ev. if failed' then ev\<lparr>fv_evidence_persisted := False\<rparr> else ev)
                            (ae_flow_evidence e)\<rparr>)"

subsection \<open>Laws\<close>

text \<open>The text that was scanned never reaches the audit log: no entry the route builds carries its content, so that no line has it, also when \<open>store_content\<close> is set; the hash and the length are always there.\<close>

theorem audit_content_never_stored:
  "(let e = build_audit_entry digest f; w = audit_record redact l file_ok stdout_ok e in
      ae_content e = None
      \<and> Option.bind (aw_file_line w) ae_content = None \<and> Option.bind (aw_stdout_line w) ae_content = None
      \<and> ae_content_length e = length (af_content f)
      \<and> (ae_content_hash e = None \<longleftrightarrow> af_content f = []))"
  by (auto simp: build_audit_entry_def audit_record_def render_line_def with_flow_evidence_def Let_def split: option.split)

text \<open>The evidence the logger hands back for the request is marked as not persisted whenever a sink it was configured with failed or there was none, and is unchanged otherwise.\<close>

theorem audit_persistence_truthful:
  assumes "al_enabled l" and "ae_flow_evidence e = Some ev" and "al_file_handler l \<longrightarrow> al_file_enabled l"
  shows "let w = audit_record redact l file_ok stdout_ok e in
    (aw_evidence w = Some (ev\<lparr>fv_evidence_persisted := False\<rparr>)
       \<longleftrightarrow> fv_evidence_persisted ev = False
         \<or> (al_file_enabled l \<and> aw_file_line w = None) \<or> (al_stdout_enabled l \<and> aw_stdout_line w = None)
         \<or> (\<not> al_file_enabled l \<and> \<not> al_stdout_enabled l))
    \<and> (aw_evidence w = Some ev \<or> aw_evidence w = Some (ev\<lparr>fv_evidence_persisted := False\<rparr>))"
  using assms by (cases ev) (auto simp: audit_record_def Let_def)

definition sample_logger :: audit_logger where
  "sample_logger =
     \<lparr>al_enabled = True, al_store_content = True, al_sanitize_logs = False, al_file_enabled = True,
      al_file_handler = True, al_stdout_enabled = False\<rparr>"

definition sample_fields :: audit_fields where
  "sample_fields =
     \<lparr>af_request_id = ''r'', af_direction = Input, af_user_id = None, af_model = None, af_provider = None,
      af_content = ''text'', af_language = None, af_final_action = Allow, af_final_risk_level = Low,
      af_detector_results = [], af_applied_modify = None, af_pipeline_duration_ms = 0, af_streaming = False,
      af_window_count = None, af_recalled = None, af_recall_method = None, af_async_detection = None,
      af_safety_degraded = False, af_detector_availability = [],
      af_flow_evidence = Some \<lparr>fv_execution_id = ''e'', fv_parent_execution_id = None, fv_flow_id = ''f'',
        fv_flow_version = ''1.0.0'', fv_direction = Input, fv_stage = ''input'', fv_status = F_COMPLETED,
        fv_reason_code = ''completed'', fv_duration_ms = 1, fv_final_signals = [], fv_nodes = [],
        fv_evidence_persisted = True, fv_details_truncated = False\<rparr>\<rparr>"

theorem audit_persistence_truthful_witness:
  "aw_evidence (audit_record (\<lambda>s. s) sample_logger False True (build_audit_entry (\<lambda>s. s) sample_fields))
     = map_option (fv_evidence_persisted_update (\<lambda>_. False)) (af_flow_evidence sample_fields)"
proof -
  obtain ev where ev: "af_flow_evidence sample_fields = Some ev" by (simp add: sample_fields_def)
  then have "ae_flow_evidence (build_audit_entry (\<lambda>s. s) sample_fields) = Some ev"
    by (simp add: build_audit_entry_def Let_def with_flow_evidence_def)
  note truthful = audit_persistence_truthful [OF _ this, of sample_logger "\<lambda>s. s" False True, unfolded Let_def]
  have "aw_file_line (audit_record (\<lambda>s. s) sample_logger False True e) = None" for e
    by (simp add: audit_record_def Let_def sample_logger_def)
  moreover have "al_enabled sample_logger" "al_file_handler sample_logger \<longrightarrow> al_file_enabled sample_logger"
      "al_file_enabled sample_logger"
    by (simp_all add: sample_logger_def)
  ultimately have "aw_evidence (audit_record (\<lambda>s. s) sample_logger False True (build_audit_entry (\<lambda>s. s) sample_fields))
      = Some (ev\<lparr>fv_evidence_persisted := False\<rparr>)"
    using truthful by blast
  with ev show ?thesis by simp
qed

end
