(* ===== verification/Json.thy ===== *)
theory Json
  imports Prelude
begin

text \<open>
  JSON values as Python holds them: an object is a dict, a list of pairs with distinct keys in the
  order of insertion. Reading a value of the wrong kind raises what Python raises.
\<close>

datatype json = JNull | JBool bool | JNum pyfloat | JStr pystr | JArr "json list" | JObj "(pystr \<times> json) list"

datatype py_exception = Attribute_exception | Type_exception | Key_exception

text \<open>\<open>obj["k"]\<close> where it succeeds.\<close>

definition json_field :: "pystr \<Rightarrow> json \<Rightarrow> json option" where
  "json_field k j = (case j of JObj fs \<Rightarrow> map_of fs k | _ \<Rightarrow> None)"

definition json_head :: "json \<Rightarrow> json option" where
  "json_head j = (case j of JArr (x # _) \<Rightarrow> Some x | _ \<Rightarrow> None)"

text \<open>\<open>value.get(k, default)\<close>: only a dict has it.\<close>

definition json_get :: "pystr \<Rightarrow> json \<Rightarrow> json \<Rightarrow> py_exception + json" where
  "json_get k dflt j =
     (case j of JObj fs \<Rightarrow> Inr (case map_of fs k of Some v \<Rightarrow> v | None \<Rightarrow> dflt) | _ \<Rightarrow> Inl Attribute_exception)"

text \<open>\<open>obj[k] = v\<close> on a dict.\<close>

definition json_set :: "pystr \<Rightarrow> json \<Rightarrow> json \<Rightarrow> json" where
  "json_set k v j = (case j of JObj fs \<Rightarrow> JObj (AList.update k v fs) | _ \<Rightarrow> j)"

definition is_object :: "json \<Rightarrow> bool" where
  "is_object j = (case j of JObj _ \<Rightarrow> True | _ \<Rightarrow> False)"

text \<open>\<open>for x in value\<close>.\<close>

definition json_items :: "json \<Rightarrow> py_exception + json list" where
  "json_items j =
     (case j of
        JArr xs \<Rightarrow> Inr xs | JStr s \<Rightarrow> Inr (map (\<lambda>c. JStr [c]) s) | JObj fs \<Rightarrow> Inr (map (JStr \<circ> fst) fs)
      | _ \<Rightarrow> Inl Type_exception)"

text \<open>Truth value.\<close>

fun truthy :: "json \<Rightarrow> bool" where
  "truthy JNull = False"
| "truthy (JBool b) = b"
| "truthy (JNum x) = (x \<noteq> 0)"
| "truthy (JStr s) = (s \<noteq> [])"
| "truthy (JArr xs) = (xs \<noteq> [])"
| "truthy (JObj fs) = (fs \<noteq> [])"

lemma json_field_set [simp]:
  "is_object j \<Longrightarrow> json_field k (json_set k' v j) = (if k = k' then Some v else json_field k j)"
  by (cases j) (auto simp: json_field_def json_set_def is_object_def update_conv')

lemma json_get_object: "is_object j \<Longrightarrow> json_get k d j = Inr (case json_field k j of Some v \<Rightarrow> v | None \<Rightarrow> d)"
  by (cases j) (auto simp: json_field_def json_get_def is_object_def)

lemma is_object_set [simp]: "is_object (json_set k v j) = is_object j"
  by (cases j) (auto simp: json_set_def is_object_def)

lemma json_get_Inr: "json_get k d j = Inr v \<Longrightarrow> is_object j"
  by (cases j) (auto simp: json_get_def is_object_def)

end
