(* ===== verification/Content.thy ===== *)
theory Content
  imports Models Json
begin

text \<open>
  \<open>content/extractor.py\<close> and \<open>content/writeback.py\<close>: the texts of a request that are scanned, and
  the writing of a modified text to the message it came from.
\<close>

subsection \<open>Extraction\<close>

definition extractable_roles :: "pystr list" where
  "extractable_roles = [''user'', ''system'', ''developer'']"

fun newline_join :: "pystr list \<Rightarrow> pystr" where
  "newline_join [] = []"
| "newline_join [t] = t"
| "newline_join (t # u # us) = t @ CHR 0x0A # newline_join (u # us)"

text \<open>\<open>isinstance(part, dict) and part.get("type") == "text"\<close>.\<close>

definition is_text_part :: "json \<Rightarrow> bool" where
  "is_text_part part \<longleftrightarrow> json_field ''type'' part = Some (JStr ''text'')"

definition part_text :: "json \<Rightarrow> json" where
  "part_text part = (case json_field ''text'' part of Some t \<Rightarrow> t | None \<Rightarrow> JStr [])"

fun json_str :: "json \<Rightarrow> py_exception + pystr" where
  "json_str (JStr s) = Inr s"
| "json_str _ = Inl Type_exception"

text \<open>A part whose text is not a string makes the join raise.\<close>

definition extract_text_from_content :: "json \<Rightarrow> py_exception + pystr option" where
  "extract_text_from_content content =
     (case content of
        JStr s \<Rightarrow> Inr (Some s)
      | JArr parts \<Rightarrow>
          let text_parts = map part_text (filter is_text_part parts) in
          if text_parts = [] then Inr None
          else bind_res (map_res json_str text_parts) (\<lambda>texts. Inr (Some (newline_join texts)))
      | _ \<Rightarrow> Inr None)"

text \<open>\<open>role not in EXTRACTABLE_ROLES\<close>: a role that cannot be hashed raises.\<close>

definition role_extractable :: "json \<Rightarrow> py_exception + pystr option" where
  "role_extractable role =
     (case role of
        JStr s \<Rightarrow> Inr (if s \<in> set extractable_roles then Some s else None)
      | JArr _ \<Rightarrow> Inl Type_exception | JObj _ \<Rightarrow> Inl Type_exception | _ \<Rightarrow> Inr None)"

definition extract_message :: "nat \<times> json \<Rightarrow> py_exception + extracted_content list" where
  "extract_message indexed =
     (let (index, message) = indexed in
      bind_res (json_get ''role'' (JStr []) message) (\<lambda>role.
      bind_res (role_extractable role) (\<lambda>r.
        case r of
          None \<Rightarrow> Inr []
        | Some role \<Rightarrow>
            bind_res (json_get ''content'' JNull message) (\<lambda>content.
            bind_res (extract_text_from_content content) (\<lambda>t. Inr
              (case t of None \<Rightarrow> []
               | Some s \<Rightarrow> [\<lparr>ec_message_index = int index, ec_role = role, ec_text = s\<rparr>]))))))"

definition extract_content :: "json \<Rightarrow> py_exception + extracted_content list" where
  "extract_content messages =
     bind_res (json_items messages) (\<lambda>ms.
     bind_res (map_res extract_message (enumerate 0 ms)) (\<lambda>found. Inr (concat found)))"

subsection \<open>Writeback\<close>

text \<open>The first text part gets the new text, the others are emptied.\<close>

fun write_parts :: "pystr \<Rightarrow> bool \<Rightarrow> json list \<Rightarrow> json list" where
  "write_parts t first_text_found [] = []"
| "write_parts t first_text_found (part # parts) =
     (if is_text_part part
      then json_set ''text'' (JStr (if first_text_found then [] else t)) part # write_parts t True parts
      else part # write_parts t first_text_found parts)"

definition apply_modification_to_message :: "json \<Rightarrow> modification \<Rightarrow> py_exception + json" where
  "apply_modification_to_message message m =
     bind_res (json_get ''content'' JNull message) (\<lambda>content. Inr
       (case content of
          JStr _ \<Rightarrow> json_set ''content'' (JStr (mod_modified_content m)) message
        | JArr parts \<Rightarrow> json_set ''content'' (JArr (write_parts (mod_modified_content m) False parts)) message
        | _ \<Rightarrow> message))"

text \<open>One turn of the loop over the modifications, on \<open>messages\<close>.\<close>

definition apply_one :: "modification \<Rightarrow> json \<Rightarrow> py_exception + json" where
  "apply_one m messages =
     (case mod_message_index m of
        None \<Rightarrow> Inr messages
      | Some i \<Rightarrow>
          if i < 0 then Inr messages
          else (case messages of
                  JArr ms \<Rightarrow>
                    if i \<ge> int (length ms) then Inr messages
                    else bind_res (apply_modification_to_message (ms ! nat i) m) (\<lambda>message.
                           Inr (JArr (ms[nat i := message])))
                | JStr s \<Rightarrow> if i \<ge> int (length s) then Inr messages else Inl Attribute_exception
                | JObj fs \<Rightarrow> if i \<ge> int (length fs) then Inr messages else Inl Key_exception
                | _ \<Rightarrow> Inl Type_exception))"

text \<open>
  The request is copied; its \<open>messages\<close> are changed in the copy. A request without messages keeps
  none: \<open>result.get("messages", [])\<close> is then a list of its own.
\<close>

definition apply_modifications :: "json \<Rightarrow> modification list \<Rightarrow> py_exception + json" where
  "apply_modifications request modifications =
     (if modifications = [] then Inr request
      else
        bind_res (json_get ''messages'' (JArr []) request) (\<lambda>messages.
        bind_res (fold_res apply_one (sort_key mod_priority modifications) messages) (\<lambda>messages. Inr
          (if json_field ''messages'' request = None then request
           else json_set ''messages'' messages request))))"

subsection \<open>Laws of the writeback\<close>

text \<open>What one modification makes of a message that is an object.\<close>

definition write_message :: "pystr \<Rightarrow> json \<Rightarrow> json" where
  "write_message t message =
     (case json_field ''content'' message of
        Some (JStr _) \<Rightarrow> json_set ''content'' (JStr t) message
      | Some (JArr parts) \<Rightarrow> json_set ''content'' (JArr (write_parts t False parts)) message
      | _ \<Rightarrow> message)"

lemma apply_modification_object:
  "is_object message \<Longrightarrow>
     apply_modification_to_message message m = Inr (write_message (mod_modified_content m) message)"
  by (auto simp: apply_modification_to_message_def write_message_def json_get_object split: option.split json.split)

lemma is_object_write [simp]: "is_object (write_message t message) = is_object message"
  by (auto simp: write_message_def split: option.split json.split)

lemma update_twice: "AList.update k v (AList.update k w al) = AList.update k v al"
  by (induction al) auto

lemma json_set_twice [simp]: "json_set k v (json_set k w j) = json_set k v j"
  by (cases j) (simp_all add: json_set_def update_twice)

lemma is_text_part_object: "is_text_part part \<Longrightarrow> is_object part"
  by (cases part) (auto simp: is_text_part_def json_field_def is_object_def)

lemma is_text_part_set [simp]: "is_text_part (json_set ''text'' v part) = is_text_part part"
proof (cases "is_object part")
  case False
  then show ?thesis by (cases part) (auto simp: is_object_def json_set_def)
qed (simp add: is_text_part_def)

lemma write_parts_twice [simp]: "write_parts t b (write_parts u b parts) = write_parts t b parts"
  by (induction t b parts rule: write_parts.induct) auto

text \<open>A second writing replaces the first one whole.\<close>

lemma write_message_twice: "write_message t (write_message u message) = write_message t message"
proof (cases "is_object message")
  case False
  then show ?thesis by (cases message) (auto simp: write_message_def json_field_def is_object_def)
next
  case True
  then show ?thesis by (auto simp: write_message_def split: option.split json.split)
qed

definition write_last :: "modification list \<Rightarrow> json \<Rightarrow> json" where
  "write_last ms message = (if ms = [] then message else write_message (mod_modified_content (last ms)) message)"

definition modifications_of :: "nat \<Rightarrow> modification list \<Rightarrow> modification list" where
  "modifications_of i ms = filter (\<lambda>m. mod_message_index m = Some (int i)) ms"

lemma fold_apply_one:
  assumes "list_all is_object ms"
  shows "\<exists>ms'. fold_res apply_one mods (JArr ms) = Inr (JArr ms') \<and> length ms' = length ms
    \<and> (\<forall>i < length ms. ms' ! i = write_last (modifications_of i mods) (ms ! i))"
  using assms
proof (induction mods arbitrary: ms)
  case Nil
  then show ?case by (simp add: write_last_def modifications_of_def)
next
  case (Cons m mods)
  show ?case
  proof (cases "\<exists>i < length ms. mod_message_index m = Some (int i)")
    case False
    have "apply_one m (JArr ms) = Inr (JArr ms)"
    proof (cases "mod_message_index m")
      case (Some j)
      with False have "j < 0 \<or> int (length ms) \<le> j" by (metis linorder_not_le nat_0_le nat_less_iff)
      with Some show ?thesis by (auto simp: apply_one_def)
    qed (simp add: apply_one_def)
    moreover have "modifications_of i (m # mods) = modifications_of i mods" if "i < length ms" for i
      using False that by (auto simp: modifications_of_def)
    ultimately show ?thesis using Cons by auto
  next
    case True
    then obtain i where i: "i < length ms" "mod_message_index m = Some (int i)" by auto
    define w where "w = write_message (mod_modified_content m) (ms ! i)"
    have "is_object (ms ! i)" using Cons.prems i(1) by (simp add: list_all_length)
    then have one: "apply_one m (JArr ms) = Inr (JArr (ms[i := w]))"
      using i by (simp add: apply_one_def apply_modification_object w_def)
    have "list_all is_object (ms[i := w])"
      using Cons.prems i(1) by (auto simp: list_all_length w_def nth_list_update)
    from Cons.IH [OF this] obtain ms' where ms': "fold_res apply_one mods (JArr (ms[i := w])) = Inr (JArr ms')"
        "length ms' = length ms"
        "\<And>k. k < length ms \<Longrightarrow> ms' ! k = write_last (modifications_of k mods) (ms[i := w] ! k)"
      by auto
    have "write_last (modifications_of k mods) (ms[i := w] ! k)
        = write_last (modifications_of k (m # mods)) (ms ! k)" if "k < length ms" for k
      using i by (cases "k = i") (auto simp: modifications_of_def write_last_def w_def write_message_twice that)
    with one ms' show ?thesis by auto
  qed
qed

text \<open>Applying modifications to a request changes exactly the messages they name: each gets the text of the last of its modifications in the order of priority, so that an earlier one leaves no trace; every other message and every other field of the request stays as it was.\<close>

theorem apply_modifications_last_wins:
  assumes "json_field ''messages'' request = Some (JArr ms)" and "list_all is_object ms"
  shows "\<exists>request' ms'. apply_modifications request mods = Inr request'
    \<and> json_field ''messages'' request' = Some (JArr ms') \<and> length ms' = length ms
    \<and> (\<forall>i < length ms. ms' ! i = write_last (modifications_of i (sort_key mod_priority mods)) (ms ! i))
    \<and> (\<forall>k. k \<noteq> ''messages'' \<longrightarrow> json_field k request' = json_field k request)"
proof (cases "mods = []")
  case True
  with assms show ?thesis by (auto simp: apply_modifications_def write_last_def modifications_of_def)
next
  case False
  have obj: "is_object request" using assms(1) by (cases request) (auto simp: json_field_def is_object_def)
  obtain ms' where "fold_res apply_one (sort_key mod_priority mods) (JArr ms) = Inr (JArr ms')"
      "length ms' = length ms"
      "\<forall>i < length ms. ms' ! i = write_last (modifications_of i (sort_key mod_priority mods)) (ms ! i)"
    using fold_apply_one [OF assms(2)] by blast
  with False assms(1) obj show ?thesis by (simp add: apply_modifications_def json_get_object)
qed

subsection \<open>What a detector would read of the written message\<close>

lemma extract_message_Inr:
  assumes "is_object message" and "json_field ''role'' message = Some (JStr role)" and "role \<in> set extractable_roles"
    and "json_field ''content'' message = Some content"
  shows "extract_message (i, message) =
    bind_res (extract_text_from_content content) (\<lambda>t. Inr
      (case t of None \<Rightarrow> [] | Some s \<Rightarrow> [\<lparr>ec_message_index = int i, ec_role = role, ec_text = s\<rparr>]))"
  using assms by (simp add: extract_message_def json_get_object role_extractable_def)

text \<open>Extraction reads back what was written: a message with a text content whose text was replaced yields the new text under the same index and role.\<close>

theorem extract_written_message:
  assumes "is_object message" and "json_field ''role'' message = Some (JStr role)" and "role \<in> set extractable_roles"
    and "json_field ''content'' message = Some (JStr old)"
  shows "extract_message (i, message) = Inr [\<lparr>ec_message_index = int i, ec_role = role, ec_text = old\<rparr>]
    \<and> extract_message (i, write_message new message)
        = Inr [\<lparr>ec_message_index = int i, ec_role = role, ec_text = new\<rparr>]"
proof -
  have "json_field ''role'' (write_message new message) = Some (JStr role)"
    "json_field ''content'' (write_message new message) = Some (JStr new)"
    using assms by (simp_all add: write_message_def)
  with assms show ?thesis by (simp add: extract_message_Inr extract_text_from_content_def)
qed

subsection \<open>A concrete request\<close>

definition sample_message :: "pystr \<Rightarrow> pystr \<Rightarrow> json" where
  "sample_message role t = JObj [(''role'', JStr role), (''content'', JStr t)]"

definition sample_request :: json where
  "sample_request = JObj [(''model'', JStr ''m''), (''messages'', JArr [sample_message ''user'' ''a b''])]"

definition sample_modification :: "int \<Rightarrow> pystr \<Rightarrow> modification" where
  "sample_modification priority t =
     \<lparr>mod_detector_name = ''d'', mod_modified_content = t, mod_priority = priority, mod_message_index = Some 0\<rparr>"

theorem apply_modifications_last_wins_witness:
  "\<exists>request' ms'. apply_modifications sample_request [sample_modification 20 ''a *'', sample_modification 10 ''* b''] = Inr request'
    \<and> json_field ''messages'' request' = Some (JArr ms') \<and> ms' ! 0 = sample_message ''user'' ''a *''"
proof -
  have ms: "json_field ''messages'' sample_request = Some (JArr [sample_message ''user'' ''a b''])" by code_simp
  have obj: "list_all is_object [sample_message ''user'' ''a b'']" by code_simp
  have written: "write_last (modifications_of 0 (sort_key mod_priority
      [sample_modification 20 ''a *'', sample_modification 10 ''* b''])) (sample_message ''user'' ''a b'')
      = sample_message ''user'' ''a *''"
    by (simp add: write_last_def modifications_of_def sample_modification_def write_message_def sample_message_def
        json_field_def json_set_def)
  show ?thesis
    using apply_modifications_last_wins [OF ms obj, of "[sample_modification 20 ''a *'', sample_modification 10 ''* b'']"]
      written by auto
qed

theorem extract_written_message_witness:
  "extract_message (3, write_message ''new'' (sample_message ''user'' ''old''))
     = Inr [\<lparr>ec_message_index = 3, ec_role = ''user'', ec_text = ''new''\<rparr>]"
  using extract_written_message [of "sample_message ''user'' ''old''" "''user''" "''old''" 3 "''new''"]
  by (simp add: sample_message_def is_object_def json_field_def extractable_roles_def)

end
