(* ===== verification/Router.thy ===== *)
theory Router
  imports Prelude
begin

text \<open>
  \<open>providers/router.py\<close>: the provider of a model name is that of the first routing rule whose glob
  matches. \<open>fnmatch.fnmatch\<close> is modelled on POSIX, where it keeps the case; an adapter is its name.
\<close>

subsection \<open>Globs\<close>

datatype glob_item = Any_string | Any_char | Literal char | Char_class bool pystr

text \<open>The members of a bracket: ranges \<open>a-z\<close> and single characters, from left to right.\<close>

fun class_member :: "pystr \<Rightarrow> char \<Rightarrow> bool" where
  "class_member (a # d # b # rest) c =
     (if d = CHR ''-''
      then (of_char a \<le> (of_char c :: nat) \<and> of_char c \<le> (of_char b :: nat)) \<or> class_member rest c
      else a = c \<or> class_member (d # b # rest) c)"
| "class_member (a # rest) c = (a = c \<or> class_member rest c)"
| "class_member [] c = False"

text \<open>
  The end of a bracket that starts after \<open>[\<close>: an optional \<open>!\<close>, then at least one character up to
  the next \<open>]\<close>. Without an end the \<open>[\<close> is a character of its own.
\<close>

definition class_body :: "pystr \<Rightarrow> bool \<times> pystr" where
  "class_body s = (case s of [] \<Rightarrow> (False, s) | c # cs \<Rightarrow> if c = CHR ''!'' then (True, cs) else (False, s))"

definition split_class :: "pystr \<Rightarrow> (bool \<times> pystr \<times> pystr) option" where
  "split_class s =
     (let (negated, body) = class_body s;
          stuff = takeWhile (\<lambda>c. c \<noteq> CHR '']'') (drop 1 body);
          rest = dropWhile (\<lambda>c. c \<noteq> CHR '']'') (drop 1 body)
      in case rest of [] \<Rightarrow> None | _ # after \<Rightarrow> Some (negated, take 1 body @ stuff, after))"

lemma split_class_shorter: "split_class s = Some r \<Longrightarrow> length (snd (snd r)) < length s"
proof -
  assume r: "split_class s = Some r"
  have body: "length (snd (class_body s)) \<le> length s" by (auto simp: class_body_def split: list.split)
  obtain d where "dropWhile (\<lambda>c. c \<noteq> CHR '']'') (drop 1 (snd (class_body s))) = d # snd (snd r)"
    using r by (auto simp: split_class_def Let_def case_prod_beta split: list.splits)
  then have "Suc (length (snd (snd r))) \<le> length (drop 1 (snd (class_body s)))"
    by (metis length_Cons length_dropWhile_le)
  with body show ?thesis by simp
qed

function compile_glob :: "pystr \<Rightarrow> glob_item list" where
  "compile_glob [] = []"
| "compile_glob (c # cs) =
     (if c = CHR ''*'' then Any_string # compile_glob cs
      else if c = CHR ''?'' then Any_char # compile_glob cs
      else if c = CHR ''['' then
        (case split_class cs of
           None \<Rightarrow> Literal c # compile_glob cs
         | Some (negated, stuff, after) \<Rightarrow> Char_class negated stuff # compile_glob after)
      else Literal c # compile_glob cs)"
  by pat_completeness auto
termination
  by (relation "measure length") (use split_class_shorter in fastforce)+

definition item_matches :: "glob_item \<Rightarrow> char \<Rightarrow> bool" where
  "item_matches i c =
     (case i of Any_string \<Rightarrow> False | Any_char \<Rightarrow> True | Literal d \<Rightarrow> c = d
      | Char_class negated stuff \<Rightarrow> class_member stuff c \<noteq> negated)"

fun glob_matches :: "glob_item list \<Rightarrow> pystr \<Rightarrow> bool" where
  "glob_matches [] s = (s = [])"
| "glob_matches (Any_string # is) [] = glob_matches is []"
| "glob_matches (Any_string # is) (c # cs) = (glob_matches is (c # cs) \<or> glob_matches (Any_string # is) cs)"
| "glob_matches (i # is) [] = False"
| "glob_matches (i # is) (c # cs) = (item_matches i c \<and> glob_matches is cs)"

definition fnmatch :: "pystr \<Rightarrow> pystr \<Rightarrow> bool" where
  "fnmatch name pattern = glob_matches (compile_glob pattern) name"

subsection \<open>Routing\<close>

record routing_rule =
  rl_pattern :: pystr
  rl_provider :: pystr

datatype routing_error =
    No_matching_rule
  | Unknown_provider pystr
  | No_providers
  | Route_limit_exceeded
  | Route_conflict
  | Route_provider_not_found
  | Models_provider_not_allowed

definition matching_rule :: "routing_rule list \<Rightarrow> pystr \<Rightarrow> routing_rule option" where
  "matching_rule rules model = List.find (\<lambda>r. fnmatch model (rl_pattern r)) rules"

text \<open>\<open>ModelRouter.route\<close> over the names of the instances.\<close>

definition route :: "routing_rule list \<Rightarrow> pystr list \<Rightarrow> pystr \<Rightarrow> routing_error + pystr" where
  "route rules instances model =
     (case matching_rule rules model of
        None \<Rightarrow> Inl No_matching_rule
      | Some r \<Rightarrow> if rl_provider r \<in> set instances then Inr (rl_provider r) else Inl (Unknown_provider (rl_provider r)))"

definition models_provider :: "pystr list \<Rightarrow> routing_error + pystr" where
  "models_provider providers = (case providers of [] \<Rightarrow> Inl No_providers | p # _ \<Rightarrow> Inr p)"

text \<open>The pairs of rules \<open>_detect_conflicts\<close> warns of.\<close>

definition detect_conflicts :: "routing_rule list \<Rightarrow> (nat \<times> nat) list" where
  "detect_conflicts rules =
     concat (map (\<lambda>i. map (Pair i) (filter
       (\<lambda>j. fnmatch (rl_pattern (rules ! i)) (rl_pattern (rules ! j))
            \<or> fnmatch (rl_pattern (rules ! j)) (rl_pattern (rules ! i)))
       [i + 1..<length rules])) [0..<length rules])"

subsection \<open>Tenant views\<close>

definition max_tenant_policy_routes :: nat where
  "max_tenant_policy_routes = 256"

record tenant_view =
  tv_rules :: "routing_rule list"
  tv_instances :: "pystr list"
  tv_models_provider :: pystr

text \<open>The loop over the rules: the providers by pattern and the allowed names so far.\<close>

definition check_tenant_rule ::
  "pystr list \<Rightarrow> routing_rule \<Rightarrow> (pystr \<times> pystr) list \<times> pystr list
     \<Rightarrow> routing_error + (pystr \<times> pystr) list \<times> pystr list" where
  "check_tenant_rule instances r acc =
     (let (by_pattern, allowed) = acc in
      case map_of by_pattern (rl_pattern r) of
        Some previous \<Rightarrow>
          if previous \<noteq> rl_provider r then Inl Route_conflict
          else if rl_provider r \<notin> set instances then Inl Route_provider_not_found
          else Inr (AList.update (rl_pattern r) (rl_provider r) by_pattern, List.insert (rl_provider r) allowed)
      | None \<Rightarrow>
          if rl_provider r \<notin> set instances then Inl Route_provider_not_found
          else Inr (AList.update (rl_pattern r) (rl_provider r) by_pattern, List.insert (rl_provider r) allowed))"

definition tenant_router_view ::
  "pystr list \<Rightarrow> routing_rule list \<Rightarrow> pystr \<Rightarrow> routing_error + tenant_view" where
  "tenant_router_view instances rules models_name =
     (if length rules > max_tenant_policy_routes then Inl Route_limit_exceeded
      else
        bind_res (fold_res (check_tenant_rule instances) rules ([], [])) (\<lambda>(_, allowed).
          if models_name \<notin> set instances then Inl Route_provider_not_found
          else if models_name \<notin> set allowed then Inl Models_provider_not_allowed
          else Inr \<lparr>tv_rules = rules, tv_instances = allowed, tv_models_provider = models_name\<rparr>))"

text \<open>\<open>TenantRouterView.resolve\<close>: the provider and the number of comparisons.\<close>

fun tenant_resolve :: "nat \<Rightarrow> routing_rule list \<Rightarrow> pystr \<Rightarrow> (pystr \<times> nat) option" where
  "tenant_resolve comparisons [] model = None"
| "tenant_resolve comparisons (r # rs) model =
     (if fnmatch model (rl_pattern r) then Some (rl_provider r, comparisons + 1)
      else tenant_resolve (comparisons + 1) rs model)"

subsection \<open>Laws\<close>

lemma fold_check_tenant:
  assumes "fold_res (check_tenant_rule instances) rules (bp, al) = Inr (bp', al')"
  shows "set al' = set al \<union> rl_provider ` set rules \<and> rl_provider ` set rules \<subseteq> set instances"
  using assms
proof (induction rules arbitrary: bp al)
  case (Cons r rs)
  obtain bp1 al1 where s: "check_tenant_rule instances r (bp, al) = Inr (bp1, al1)"
      "fold_res (check_tenant_rule instances) rs (bp1, al1) = Inr (bp', al')"
    using Cons.prems by (auto simp: res_simps)
  have "set al1 = insert (rl_provider r) (set al)" "rl_provider r \<in> set instances"
    using s(1) by (auto simp: check_tenant_rule_def split: option.splits if_splits)
  with Cons.IH [OF s(2)] show ?case by auto
qed simp

lemma tenant_resolve_spec:
  "tenant_resolve c rules model =
     (case List.find (\<lambda>i. fnmatch model (rl_pattern (rules ! i))) [0..<length rules] of
        None \<Rightarrow> None | Some i \<Rightarrow> Some (rl_provider (rules ! i), c + i + 1))"
proof (induction rules arbitrary: c)
  case (Cons r rs)
  have find_map: "List.find P (map f xs) = map_option f (List.find (P \<circ> f) xs)" for P :: "nat \<Rightarrow> bool" and f xs
    by (induction xs) auto
  have "[0..<length (r # rs)] = 0 # map Suc [0..<length rs]"
    by (simp add: upt_conv_Cons map_Suc_upt del: upt_Suc)
  then have "List.find P [0..<length (r # rs)] =
      (if P 0 then Some 0 else map_option Suc (List.find (\<lambda>i. P (Suc i)) [0..<length rs]))" for P
    by (simp only: List.find.simps find_map comp_def)
  then show ?case
    using Cons.IH [of "Suc c"] by (simp del: upt_Suc length_Cons split: option.split)
qed simp

text \<open>A tenant view that compiled resolves every model inside its own rules: to the provider of the first rule that matches, which is one of the initialised adapters and one the rules name, after as many comparisons as the rule's position and never more than the limit; without a match it resolves to nothing.\<close>

theorem tenant_view_confined:
  assumes "tenant_router_view instances rules models_name = Inr view"
  shows "case tenant_resolve 0 (tv_rules view) model of
      None \<Rightarrow> list_all (\<lambda>r. \<not> fnmatch model (rl_pattern r)) rules
    | Some (provider, comparisons) \<Rightarrow>
        provider \<in> set instances \<and> provider \<in> set (tv_instances view)
        \<and> 1 \<le> comparisons \<and> comparisons \<le> max_tenant_policy_routes
        \<and> rl_provider (rules ! (comparisons - 1)) = provider
        \<and> fnmatch model (rl_pattern (rules ! (comparisons - 1)))
        \<and> list_all (\<lambda>r. \<not> fnmatch model (rl_pattern r)) (take (comparisons - 1) rules)"
proof -
  obtain bp allowed where fold: "fold_res (check_tenant_rule instances) rules ([], []) = Inr (bp, allowed)"
    and len: "length rules \<le> max_tenant_policy_routes"
    and view: "tv_rules view = rules" "tv_instances view = allowed"
    using assms by (auto simp: tenant_router_view_def res_simps split: if_splits)
  note names = fold_check_tenant [OF fold]
  show ?thesis
  proof (cases "List.find (\<lambda>i. fnmatch model (rl_pattern (rules ! i))) [0..<length rules]")
    case None
    then have "\<forall>i < length rules. \<not> fnmatch model (rl_pattern (rules ! i))" by (simp add: find_None_iff)
    with None view show ?thesis by (simp add: tenant_resolve_spec list_all_length)
  next
    case (Some i)
    then have i: "i < length rules" "fnmatch model (rl_pattern (rules ! i))"
        "\<forall>j < i. \<not> fnmatch model (rl_pattern (rules ! j))"
      unfolding find_Some_iff by auto
    then have "rl_provider (rules ! i) \<in> rl_provider ` set rules" by simp
    with names have "rl_provider (rules ! i) \<in> set instances" "rl_provider (rules ! i) \<in> set allowed" by auto
    with Some i view len show ?thesis by (simp add: tenant_resolve_spec list_all_length)
  qed
qed

theorem tenant_view_confined_witness:
  "\<exists>view. tenant_router_view [''openai'', ''local''] [\<lparr>rl_pattern = ''gpt-*'', rl_provider = ''openai''\<rparr>] ''openai'' = Inr view
     \<and> tenant_resolve 0 (tv_rules view) ''gpt-4'' = Some (''openai'', 1)
     \<and> ''openai'' \<in> set (tv_instances view)"
proof -
  let ?rules = "[\<lparr>rl_pattern = ''gpt-*'', rl_provider = ''openai''\<rparr>]"
  obtain view where v: "tenant_router_view [''openai'', ''local''] ?rules ''openai'' = Inr view"
    by (simp add: tenant_router_view_def check_tenant_rule_def max_tenant_policy_routes_def)
  have "tv_rules view = ?rules"
    using v by (auto simp: tenant_router_view_def check_tenant_rule_def max_tenant_policy_routes_def)
  moreover have "tenant_resolve 0 ?rules ''gpt-4'' = Some (''openai'', 1)" by code_simp
  ultimately show ?thesis using tenant_view_confined [OF v, of "''gpt-4''"] v by simp
qed

end
