(* ===== verification/Streaming.thy ===== *)
theory Streaming
  imports Pipeline_Engine Json
begin

text \<open>
  \<open>streaming/\<close>: the size limit, the sliding window, the reassembly of server-sent events, and the
  handler that forwards a provider's stream while it is scanned.

  A chunk of the stream yields events to the client and a new handler state; an exception of the
  engine ends the stream after the events yielded so far. The engine is the function \<open>run\<close> from the
  number of the window and its content to a pipeline result. \<open>json.loads\<close> is a parameter that
  yields a JSON value; what the handler reads of it is modelled.
\<close>

subsection \<open>Size limit\<close>

datatype stream_error =
    Invalid_size_limit | Invalid_on_max_size | Invalid_window_size | Invalid_overlap
  | Engine_error pipeline_error

definition size_multipliers :: "pystr \<rightharpoonup> nat" where
  "size_multipliers = map_of [('''', 1), (''b'', 1), (''kb'', 1024), (''mb'', 1024 * 1024), (''gb'', 1024 ^ 3)]"

text \<open>\<open>^(\d+)\s*(b|kb|mb|gb)?$\<close>, case-insensitive, on the stripped value.\<close>

definition parse_size :: "pystr \<Rightarrow> stream_error + nat" where
  "parse_size value =
     (let s = py_strip value;
          digits = takeWhile is_digit s;
          unit = map ascii_lower (dropWhile py_isspace (dropWhile is_digit s)) in
      if digits = [] then Inl Invalid_size_limit
      else case size_multipliers unit of
             None \<Rightarrow> Inl Invalid_size_limit
           | Some m \<Rightarrow> Inr (nat (digits_val digits) * m))"

text \<open>The length in UTF-8 bytes; the code points are below 256.\<close>

definition utf8_size :: "pystr \<Rightarrow> nat" where
  "utf8_size s = sum_list (map (\<lambda>c. if (of_char c :: nat) < 128 then 1 else 2) s)"

datatype max_size_policy = Block_on_max | Truncate_on_max

definition parse_on_max_size :: "pystr \<Rightarrow> stream_error + max_size_policy" where
  "parse_on_max_size s =
     (if s = ''block'' then Inr Block_on_max
      else if s = ''truncate'' then Inr Truncate_on_max else Inl Invalid_on_max_size)"

record streaming_memory =
  sm_limit :: nat
  sm_policy :: max_size_policy

definition make_memory :: "pystr \<Rightarrow> pystr \<Rightarrow> stream_error + streaming_memory" where
  "make_memory max_response_size on_max_size =
     bind_res (parse_on_max_size on_max_size) (\<lambda>policy.
     bind_res (parse_size max_response_size) (\<lambda>limit. Inr \<lparr>sm_limit = limit, sm_policy = policy\<rparr>))"

definition check_exceeded :: "streaming_memory \<Rightarrow> pystr \<Rightarrow> bool" where
  "check_exceeded m accumulated \<longleftrightarrow> utf8_size accumulated \<ge> sm_limit m"

subsection \<open>Sliding window\<close>

record window =
  w_size :: nat
  w_overlap :: nat
  w_buffer :: pystr

definition make_window :: "int \<Rightarrow> int \<Rightarrow> stream_error + window" where
  "make_window window_size overlap =
     (if window_size \<le> 0 then Inl Invalid_window_size
      else if overlap < 0 \<or> overlap \<ge> window_size then Inl Invalid_overlap
      else Inr \<lparr>w_size = nat window_size, w_overlap = nat overlap, w_buffer = []\<rparr>)"

definition window_append :: "pystr \<Rightarrow> window \<Rightarrow> window" where
  "window_append text w = w\<lparr>w_buffer := w_buffer w @ text\<rparr>"

definition window_ready :: "window \<Rightarrow> bool" where
  "window_ready w \<longleftrightarrow> length (w_buffer w) \<ge> w_size w"

definition consume_window :: "window \<Rightarrow> (pystr \<times> pystr) \<times> window" where
  "consume_window w =
     (if length (w_buffer w) < w_size w then (([], w_buffer w), w)
      else let content = take (w_size w) (w_buffer w);
               retained = drop (w_size w - w_overlap w) (w_buffer w)
           in ((content, retained), w\<lparr>w_buffer := retained\<rparr>))"

subsection \<open>Server-sent events\<close>

definition newline :: char where "newline = CHR 0x0A"

text \<open>\<open>index\<close> of the blank line and the two slices around it.\<close>

fun cut_boundary :: "pystr \<Rightarrow> (pystr \<times> pystr) option" where
  "cut_boundary (c # d # cs) =
     (if c = newline \<and> d = newline then Some ([c, d], cs)
      else map_option (\<lambda>(event, rest). (c # event, rest)) (cut_boundary (d # cs)))"
| "cut_boundary _ = None"

lemma cut_boundary_Some:
  "cut_boundary s = Some (event, rest) \<Longrightarrow> s = event @ rest \<and> 2 \<le> length event \<and> ends_with event [newline, newline]"
  by (induction s arbitrary: event rule: cut_boundary.induct)
    (auto simp: ends_with_iff split: if_splits)

lemma cut_boundary_shorter: "Some (event, rest) = cut_boundary s \<Longrightarrow> length rest < length s"
  using cut_boundary_Some [of s event rest] by auto

function sse_split :: "pystr \<Rightarrow> pystr list \<times> pystr" where
  "sse_split buffer =
     (case cut_boundary buffer of
        None \<Rightarrow> ([], buffer)
      | Some (event, rest) \<Rightarrow> let (events, residue) = sse_split rest in (event # events, residue))"
  by pat_completeness auto
termination
  by (relation "measure length") (auto simp: cut_boundary_shorter)

declare sse_split.simps [simp del]

text \<open>\<open>SSEBuffer.feed\<close> and \<open>flush\<close>, on the buffer's content.\<close>

definition sse_feed :: "pystr \<Rightarrow> pystr \<Rightarrow> pystr list \<times> pystr" where
  "sse_feed chunk buffer = sse_split (buffer @ chunk)"

definition sse_flush :: "pystr \<Rightarrow> pystr option \<times> pystr" where
  "sse_flush buffer = (if buffer \<noteq> [] then (Some buffer, []) else (None, buffer))"

subsection \<open>The text of an event\<close>

text \<open>
  \<open>obj["choices"][0]["delta"]\<close> and then \<open>delta.get("content", "")\<close>. A delta that is not an object has
  no \<open>get\<close>: the AttributeError is not caught (\<open>Inl\<close>); the other failures give the empty string.
\<close>

definition delta_text :: "json \<Rightarrow> py_exception + pystr" where
  "delta_text obj =
     (case Option.bind (Option.bind (json_field ''choices'' obj) json_head) (json_field ''delta'') of
        None \<Rightarrow> Inr []
      | Some (JObj fs) \<Rightarrow>
          (case map_of fs ''content'' of Some (JStr s) \<Rightarrow> Inr s | _ \<Rightarrow> Inr [])
      | Some _ \<Rightarrow> Inl Attribute_exception)"

definition extract_delta_text :: "(pystr \<Rightarrow> json option) \<Rightarrow> pystr \<Rightarrow> py_exception + pystr" where
  "extract_delta_text json_loads chunk =
     (if \<not> starts_with chunk ''data:'' then Inr []
      else let payload = py_strip (drop 5 chunk) in
        if payload = [] \<or> payload = ''[DONE]'' then Inr []
        else (case json_loads payload of None \<Rightarrow> Inr [] | Some obj \<Rightarrow> delta_text obj))"

subsection \<open>The handler\<close>

record safety_payload =
  sp_by :: pystr
  sp_category :: pystr
  sp_risk_level :: risk_level
  sp_confidence :: pyfloat
  sp_text :: pystr

text \<open>What the client receives: a provider's event as it came, or an event of the gateway.\<close>

datatype client_event =
    Forwarded pystr
  | Safety_block pystr safety_payload
  | Safety_flag pystr safety_payload
  | Provider_failure pystr
  | Done

record handler_config =
  hc_send_flag_events :: bool
  hc_request_id :: pystr
  hc_memory :: streaming_memory

record handler =
  h_window :: window
  h_sse_buffer :: pystr
  h_blocked :: bool
  h_accumulated :: pystr
  h_completed :: bool
  h_output_action :: action
  h_output_risk_level :: risk_level
  h_window_count :: nat
  h_detector_results :: "detection_result list"

definition make_handler :: "int \<Rightarrow> int \<Rightarrow> stream_error + handler" where
  "make_handler window_size overlap =
     bind_res (make_window window_size overlap) (\<lambda>w. Inr
       \<lparr>h_window = w, h_sse_buffer = [], h_blocked = False, h_accumulated = [], h_completed = False,
        h_output_action = Allow, h_output_risk_level = Low, h_window_count = 0,
        h_detector_results = []\<rparr>)"

definition higher_risk :: "risk_level \<Rightarrow> risk_level \<Rightarrow> risk_level" where
  "higher_risk a b = (if risk_level_order a \<ge> risk_level_order b then a else b)"

definition update_output_state :: "pipeline_result \<Rightarrow> handler \<Rightarrow> handler" where
  "update_output_state result h =
     h\<lparr>h_output_action :=
         (if action_precedence (pr_final_action result) > action_precedence (h_output_action h)
          then pr_final_action result else h_output_action h),
       h_output_risk_level := higher_risk (h_output_risk_level h) (pr_overall_risk_level result)\<rparr>"

definition limit_block :: "handler_config \<Rightarrow> client_event" where
  "limit_block cfg = Safety_block (hc_request_id cfg)
     \<lparr>sp_by = ''streaming_limit'', sp_category = ''response_too_long'', sp_risk_level = Medium,
      sp_confidence = 1, sp_text = ''Response exceeded max_response_size (block)''\<rparr>"

definition result_block :: "handler_config \<Rightarrow> pipeline_result \<Rightarrow> client_event" where
  "result_block cfg result = Safety_block (hc_request_id cfg)
     (case find_result_by_action (pr_detector_results result) [Block] of
        Some block \<Rightarrow>
          \<lparr>sp_by = dr_detector_name block, sp_category = dr_category block,
           sp_risk_level = pr_overall_risk_level result, sp_confidence = dr_confidence block,
           sp_text = dr_message block\<rparr>
      | None \<Rightarrow>
          \<lparr>sp_by = ''unknown'', sp_category = ''unknown'',
           sp_risk_level = pr_overall_risk_level result, sp_confidence = 0,
           sp_text = ''Blocked by detector''\<rparr>)"

fun comma_join :: "pystr list \<Rightarrow> pystr" where
  "comma_join [] = []"
| "comma_join [t] = t"
| "comma_join (t # u # us) = t @ CHR '','' # comma_join (u # us)"

definition result_flag :: "handler_config \<Rightarrow> pipeline_result \<Rightarrow> client_event" where
  "result_flag cfg result = Safety_flag (hc_request_id cfg)
     (let first = find_result_by_action (pr_detector_results result) [Flag, Modify];
          flagged_by = comma_join (map dr_detector_name (pr_detector_results result)) in
      \<lparr>sp_by = (if flagged_by = [] then ''unknown'' else flagged_by),
       sp_category = (case first of Some r \<Rightarrow> dr_category r | None \<Rightarrow> ''unknown''),
       sp_risk_level = pr_overall_risk_level result,
       sp_confidence = (case first of Some r \<Rightarrow> dr_confidence r | None \<Rightarrow> 0),
       sp_text = ''Streaming window flagged''\<rparr>)"

text \<open>
  The loop over the ready windows. The fuel bounds its turns: every turn takes \<open>w_size - w_overlap\<close>
  characters off the buffer, so its length is enough (\<open>detect_settles\<close>).
\<close>

type_synonym step_result = "client_event list \<times> handler \<times> stream_error option"

definition next_window :: "handler \<Rightarrow> pystr \<times> handler" where
  "next_window h =
     (let ((content, _), w) = consume_window (h_window h)
      in (content, h\<lparr>h_window := w, h_window_count := h_window_count h + 1\<rparr>))"

definition absorb_result :: "pipeline_result \<Rightarrow> handler \<Rightarrow> handler" where
  "absorb_result result h =
     (let h = update_output_state result h
      in h\<lparr>h_detector_results := h_detector_results h @ pr_detector_results result\<rparr>)"

fun detect_windows ::
  "nat \<Rightarrow> handler_config \<Rightarrow> (nat \<Rightarrow> pystr \<Rightarrow> pipeline_error + pipeline_result) \<Rightarrow> handler \<Rightarrow> step_result" where
  "detect_windows 0 cfg run h = ([], h, None)"
| "detect_windows (Suc n) cfg run h =
     (if \<not> window_ready (h_window h) \<or> h_blocked h then ([], h, None)
      else
        let (content, h) = next_window h
        in case run (h_window_count h - 1) content of
             Inl e \<Rightarrow> ([], h, Some (Engine_error e))
           | Inr result \<Rightarrow>
               let h = absorb_result result h
               in if pr_final_action result = Block
                  then ([result_block cfg result, Done], h\<lparr>h_blocked := True\<rparr>, None)
                  else
                    let (events, h', error) = detect_windows n cfg run h
                    in ((if pr_final_action result \<in> {Flag, Modify} \<and> hc_send_flag_events cfg
                         then [result_flag cfg result] else []) @ events, h', error))"

text \<open>The accumulation of a text, the size limit and the detection of \<open>_process_event\<close>.\<close>

definition process_text ::
  "handler_config \<Rightarrow> (nat \<Rightarrow> pystr \<Rightarrow> pipeline_error + pipeline_result) \<Rightarrow> pystr \<Rightarrow> handler \<Rightarrow> step_result" where
  "process_text cfg run text h =
     (let h = h\<lparr>h_accumulated := h_accumulated h @ text, h_window := window_append text (h_window h)\<rparr>;
          exceeded = check_exceeded (hc_memory cfg) (h_accumulated h)
      in if exceeded \<and> sm_policy (hc_memory cfg) = Block_on_max
         then ([limit_block cfg, Done],
               h\<lparr>h_blocked := True, h_output_action := Block,
                 h_output_risk_level := higher_risk (h_output_risk_level h) Medium\<rparr>, None)
         else
           let h = (if exceeded then h\<lparr>h_accumulated := []\<rparr> else h)
           in detect_windows (length (w_buffer (h_window h))) cfg run h)"

datatype stream_fault = Stream_error stream_error | Stream_exception py_exception

definition process_event ::
  "handler_config \<Rightarrow> (pystr \<Rightarrow> json option) \<Rightarrow> (nat \<Rightarrow> pystr \<Rightarrow> pipeline_error + pipeline_result)
     \<Rightarrow> pystr \<Rightarrow> handler \<Rightarrow> client_event list \<times> handler \<times> stream_fault option" where
  "process_event cfg json_loads run event h =
     (let forwarded = (if h_blocked h then [] else [Forwarded event])
      in case extract_delta_text json_loads event of
           Inl e \<Rightarrow> (forwarded, h, Some (Stream_exception e))
         | Inr text \<Rightarrow>
             if text = [] \<or> h_blocked h then (forwarded, h, None)
             else let (events, h', error) = process_text cfg run text h
                  in (forwarded @ events, h', map_option Stream_error error))"

fun process_events ::
  "handler_config \<Rightarrow> (pystr \<Rightarrow> json option) \<Rightarrow> (nat \<Rightarrow> pystr \<Rightarrow> pipeline_error + pipeline_result)
     \<Rightarrow> pystr list \<Rightarrow> handler \<Rightarrow> client_event list \<times> handler \<times> stream_fault option" where
  "process_events cfg json_loads run [] h = ([], h, None)"
| "process_events cfg json_loads run (event # rest) h =
     (let (events, h', error) = process_event cfg json_loads run event h
      in if error \<noteq> None \<or> h_blocked h' then (events, h', error)
         else let (events', h'', error') = process_events cfg json_loads run rest h'
              in (events @ events', h'', error'))"

definition process_chunk ::
  "handler_config \<Rightarrow> (pystr \<Rightarrow> json option) \<Rightarrow> (nat \<Rightarrow> pystr \<Rightarrow> pipeline_error + pipeline_result)
     \<Rightarrow> pystr \<Rightarrow> handler \<Rightarrow> client_event list \<times> handler \<times> stream_fault option" where
  "process_chunk cfg json_loads run chunk h =
     (if h_blocked h then ([], h, None)
      else let (events, residue) = sse_feed chunk (h_sse_buffer h)
           in process_events cfg json_loads run events (h\<lparr>h_sse_buffer := residue\<rparr>))"

definition drain ::
  "handler_config \<Rightarrow> (pystr \<Rightarrow> json option) \<Rightarrow> (nat \<Rightarrow> pystr \<Rightarrow> pipeline_error + pipeline_result)
     \<Rightarrow> handler \<Rightarrow> client_event list \<times> handler \<times> stream_fault option" where
  "drain cfg json_loads run h =
     (if h_blocked h then ([], h, None)
      else let (residual, buffer) = sse_flush (h_sse_buffer h);
               h = h\<lparr>h_sse_buffer := buffer\<rparr>
           in case residual of None \<Rightarrow> ([], h, None)
              | Some event \<Rightarrow> process_event cfg json_loads run event h)"

definition finish_stream :: "handler \<Rightarrow> handler" where
  "finish_stream h = h\<lparr>h_completed := True\<rparr>"

subsection \<open>The sliding-window stream of the route\<close>

text \<open>
  The loop of \<open>_generate\<close> over the provider's chunks, which end normally or with a ProviderError.
  A blocked handler stops the loop when the next chunk arrives.
\<close>

datatype stream_outcome = Stream_ended | Provider_failed pystr | Faulted stream_fault

fun stream_chunks ::
  "handler_config \<Rightarrow> (pystr \<Rightarrow> json option) \<Rightarrow> (nat \<Rightarrow> pystr \<Rightarrow> pipeline_error + pipeline_result)
     \<Rightarrow> pystr list \<Rightarrow> pystr option \<Rightarrow> handler \<Rightarrow> client_event list \<times> handler \<times> stream_outcome" where
  "stream_chunks cfg json_loads run [] failure h =
     ([], h, case failure of None \<Rightarrow> Stream_ended | Some message \<Rightarrow> Provider_failed message)"
| "stream_chunks cfg json_loads run (chunk # rest) failure h =
     (if h_blocked h then ([], h, Stream_ended)
      else let (events, h', fault) = process_chunk cfg json_loads run chunk h
           in case fault of
                Some f \<Rightarrow> (events, h', Faulted f)
              | None \<Rightarrow> let (events', h'', outcome) = stream_chunks cfg json_loads run rest failure h'
                        in (events @ events', h'', outcome))"

definition sliding_stream ::
  "handler_config \<Rightarrow> (pystr \<Rightarrow> json option) \<Rightarrow> (nat \<Rightarrow> pystr \<Rightarrow> pipeline_error + pipeline_result)
     \<Rightarrow> pystr list \<Rightarrow> pystr option \<Rightarrow> handler \<Rightarrow> client_event list \<times> handler \<times> stream_outcome" where
  "sliding_stream cfg json_loads run chunks failure h =
     (let (events, h, outcome) = stream_chunks cfg json_loads run chunks failure h in
      case outcome of
        Faulted f \<Rightarrow> (events, h, outcome)
      | Provider_failed message \<Rightarrow> (events @ [Provider_failure message, Done], h, outcome)
      | Stream_ended \<Rightarrow>
          if h_blocked h then (events, h, outcome)
          else let (drained, h, fault) = drain cfg json_loads run h in
            (case fault of
               Some f \<Rightarrow> (events @ drained, h, Faulted f)
             | None \<Rightarrow> (events @ drained @ [Done], finish_stream h, outcome)))"

end
