(* ===== verification/Post_Audit.thy ===== *)
theory Post_Audit
  imports Streaming
begin

text \<open>
  \<open>post_audit/audit.py\<close>, \<open>recall/webhook.py\<close> and the streaming response of \<open>routes/chat.py\<close>
  (\<open>_build_streaming_response\<close>): the two modes of a stream and what follows a stream that was already
  sent.

  The engine that scans a whole text is a function from the text to a pipeline result; the HTTP
  client of the webhook is the list of its answers, one per attempt.
\<close>

subsection \<open>Post-audit\<close>

record post_audit_outcome =
  po_effective_action :: action
  po_original_action :: action
  po_applied :: bool
  po_risk_level :: risk_level
  po_category :: "pystr option"
  po_reason :: "pystr option"
  po_recall_needed :: bool
  po_detector_results :: "detection_result list"
  po_flow_evidence :: "flow_evidence option"

definition post_audit_run :: "(pystr \<Rightarrow> pipeline_error + pipeline_result) \<Rightarrow> pystr \<Rightarrow> pipeline_error + post_audit_outcome" where
  "post_audit_run run content =
     bind_res (run content) (\<lambda>result.
       let original = pr_final_action result;
           effective = (if original = Modify then Flag else original);
           applied = (original \<noteq> Modify);
           trigger = find_result_by_action (pr_detector_results result) [original]
       in Inr \<lparr>po_effective_action = effective, po_original_action = original, po_applied = applied,
               po_risk_level = pr_overall_risk_level result,
               po_category = map_option dr_category trigger, po_reason = map_option dr_message trigger,
               po_recall_needed = (effective = Block), po_detector_results = pr_detector_results result,
               po_flow_evidence = pr_flow_evidence result\<rparr>)"

subsection \<open>Webhook recall\<close>

record webhook_result =
  wr_delivered :: bool
  wr_attempts :: nat

datatype http_answer = Http_status int | Http_error

definition http_ok :: "http_answer \<Rightarrow> bool" where
  "http_ok a = (case a of Http_status code \<Rightarrow> 200 \<le> code \<and> code < 300 | Http_error \<Rightarrow> False)"

text \<open>
  The loop \<open>for attempt in range(max_retries)\<close>, with the delays slept. \<open>answers\<close> is what the attempts
  meet, from the first.
\<close>

fun webhook_attempts :: "nat \<Rightarrow> nat \<Rightarrow> pyfloat list \<Rightarrow> (nat \<Rightarrow> http_answer) \<Rightarrow> nat \<Rightarrow> webhook_result \<times> pyfloat list" where
  "webhook_attempts 0 max_retries backoff answers attempt = (\<lparr>wr_delivered = False, wr_attempts = attempt\<rparr>, [])"
| "webhook_attempts (Suc left) max_retries backoff answers attempt =
     (if http_ok (answers attempt) then (\<lparr>wr_delivered = True, wr_attempts = attempt + 1\<rparr>, [])
      else
        let (result, slept) = webhook_attempts left max_retries backoff answers (attempt + 1)
        in (result, if attempt + 1 < max_retries \<and> attempt < length backoff then backoff ! attempt # slept else slept))"

definition webhook_send :: "pystr \<Rightarrow> nat \<Rightarrow> pyfloat list \<Rightarrow> (nat \<Rightarrow> http_answer) \<Rightarrow> webhook_result \<times> pyfloat list" where
  "webhook_send webhook_url max_retries backoff answers =
     (if webhook_url = [] then (\<lparr>wr_delivered = False, wr_attempts = 0\<rparr>, [])
      else webhook_attempts max_retries max_retries backoff answers 0)"

subsection \<open>Buffer mode\<close>

text \<open>The text of the buffered events; an AttributeError of a delta is not caught.\<close>

definition buffered_content :: "(pystr \<Rightarrow> json option) \<Rightarrow> pystr list \<Rightarrow> py_exception + pystr" where
  "buffered_content json_loads chunks =
     (let (texts, residue) =
        fold (\<lambda>chunk (events, buffer).
                let (new, buffer) = sse_feed chunk buffer in (events @ new, buffer)) chunks ([], [])
      in bind_res (map_res (extract_delta_text json_loads)
                    (texts @ (case fst (sse_flush residue) of None \<Rightarrow> [] | Some event \<Rightarrow> [event]))) (\<lambda>parts.
           Inr (concat parts)))"

datatype route_fault = Route_exception py_exception | Route_pipeline pipeline_error | Route_stream stream_fault

text \<open>\<open>_generate\<close> in buffer mode: the events, or the fault that ends the response.\<close>

definition buffer_stream ::
  "handler_config \<Rightarrow> (pystr \<Rightarrow> json option) \<Rightarrow> (pystr \<Rightarrow> pipeline_error + pipeline_result) \<Rightarrow> pystr list
     \<Rightarrow> pystr option \<Rightarrow> client_event list \<times> route_fault option" where
  "buffer_stream cfg json_loads run chunks failure =
     (case failure of
        Some message \<Rightarrow> ([Provider_failure message, Done], None)
      | None \<Rightarrow>
          (case buffered_content json_loads chunks of
             Inl e \<Rightarrow> ([], Some (Route_exception e))
           | Inr full_content \<Rightarrow>
               (case run full_content of
                  Inl e \<Rightarrow> ([], Some (Route_pipeline e))
                | Inr result \<Rightarrow>
                    if pr_final_action result = Block then ([result_block cfg result, Done], None)
                    else (map Forwarded chunks @ [Done], None))))"

subsection \<open>Sliding-window mode with post-audit\<close>

datatype recall_method = Recall_sse | Recall_webhook | Recall_both

record stream_options =
  so_post_audit :: bool
  so_recall :: recall_method
  so_webhook :: bool

text \<open>What the route does after the last window: a recall to the client, to the webhook, or neither.\<close>

datatype route_event = Client client_event | Client_recall post_audit_outcome | Webhook_recall post_audit_outcome

definition recall_events :: "stream_options \<Rightarrow> post_audit_outcome \<Rightarrow> route_event list" where
  "recall_events opts outcome =
     (if po_recall_needed outcome
      then (if so_recall opts \<in> {Recall_sse, Recall_both} then [Client_recall outcome] else [])
           @ (if so_recall opts \<in> {Recall_webhook, Recall_both} \<and> so_webhook opts then [Webhook_recall outcome] else [])
      else [])"

definition sliding_response ::
  "stream_options \<Rightarrow> handler_config \<Rightarrow> (pystr \<Rightarrow> json option) \<Rightarrow> (nat \<Rightarrow> pystr \<Rightarrow> pipeline_error + pipeline_result)
     \<Rightarrow> (pystr \<Rightarrow> pipeline_error + pipeline_result) \<Rightarrow> pystr list \<Rightarrow> pystr option \<Rightarrow> handler
     \<Rightarrow> route_event list \<times> handler \<times> post_audit_outcome option \<times> route_fault option" where
  "sliding_response opts cfg json_loads run audit chunks failure h =
     (let (events, h, outcome) = sliding_stream cfg json_loads run chunks failure h;
          sent = map Client events
      in case outcome of
           Faulted f \<Rightarrow> (sent, h, None, Some (Route_stream f))
         | Provider_failed _ \<Rightarrow> (sent, h, None, None)
         | Stream_ended \<Rightarrow>
             if so_post_audit opts
             then (case post_audit_run audit (h_accumulated h) of
                     Inl e \<Rightarrow> (sent, h, None, Some (Route_pipeline e))
                   | Inr po \<Rightarrow> (sent @ recall_events opts po, h, Some po, None))
             else (sent, h, None, None))"

subsection \<open>Laws\<close>

text \<open>Post-audit never reports an action it could not take: a modification is downgraded to a flag that is not applied, every other action is kept, and a recall is asked for exactly when the text is blocked.\<close>

theorem post_audit_downgrades:
  assumes "post_audit_run run content = Inr outcome" and "run content = Inr result"
  shows "po_effective_action outcome \<noteq> Modify
    \<and> (pr_final_action result = Modify \<longrightarrow> po_effective_action outcome = Flag \<and> \<not> po_applied outcome)
    \<and> (pr_final_action result \<noteq> Modify \<longrightarrow> po_effective_action outcome = pr_final_action result \<and> po_applied outcome)
    \<and> (po_recall_needed outcome \<longleftrightarrow> pr_final_action result = Block)"
  using assms by (auto simp: post_audit_run_def Let_def split: if_splits)

theorem post_audit_downgrades_witness:
  "\<exists>outcome. post_audit_run (\<lambda>_. Inr ((empty_pipeline_result 0)\<lparr>pr_final_action := Modify\<rparr>)) ''t'' = Inr outcome
     \<and> po_effective_action outcome = Flag \<and> \<not> po_applied outcome"
proof -
  let ?r = "(empty_pipeline_result 0)\<lparr>pr_final_action := Modify\<rparr>"
  obtain outcome where o: "post_audit_run (\<lambda>_. Inr ?r) ''t'' = Inr outcome"
    by (simp add: post_audit_run_def Let_def)
  from post_audit_downgrades [OF o, of ?r] o show ?thesis by auto
qed

lemma webhook_attempts_spec:
  "fst (webhook_attempts left m backoff answers attempt) =
     (case List.find (\<lambda>i. http_ok (answers i)) [attempt..<attempt + left] of
        Some i \<Rightarrow> \<lparr>wr_delivered = True, wr_attempts = i + 1\<rparr>
      | None \<Rightarrow> \<lparr>wr_delivered = False, wr_attempts = attempt + left\<rparr>)"
proof (induction left arbitrary: attempt)
  case (Suc left)
  have "[attempt..<attempt + Suc left] = attempt # [Suc attempt..<Suc attempt + left]"
    by (simp add: upt_conv_Cons)
  with Suc.IH [of "Suc attempt"] show ?case by (simp add: case_prod_beta split: option.splits)
qed simp

text \<open>A recall is delivered exactly when one of the first \<open>max_retries\<close> attempts is answered with a 2xx status; the attempts stop at the first such answer and never exceed the maximum.\<close>

theorem webhook_send_delivers:
  "let (result, slept) = webhook_send url max_retries backoff answers in
     (wr_delivered result \<longleftrightarrow> url \<noteq> [] \<and> list_ex (\<lambda>i. http_ok (answers i)) [0..<max_retries])
     \<and> wr_attempts result \<le> max_retries
     \<and> list_all (\<lambda>i. \<not> http_ok (answers i)) [0..<wr_attempts result - (if wr_delivered result then 1 else 0)]"
proof (cases "url = []")
  case True
  then show ?thesis by (simp add: webhook_send_def)
next
  case url: False
  let ?find = "List.find (\<lambda>i. http_ok (answers i)) [0..<max_retries]"
  note spec = webhook_attempts_spec [of max_retries max_retries backoff answers 0, unfolded add_0]
  show ?thesis
  proof (cases ?find)
    case None
    then have "fst (webhook_send url max_retries backoff answers) = \<lparr>wr_delivered = False, wr_attempts = max_retries\<rparr>"
      using spec url by (simp add: webhook_send_def)
    moreover have "\<forall>i < max_retries. \<not> http_ok (answers i)"
      using None by (simp add: find_None_iff)
    ultimately show ?thesis by (simp add: case_prod_beta list_ex_iff list_all_iff)
  next
    case (Some i)
    then have "fst (webhook_send url max_retries backoff answers) = \<lparr>wr_delivered = True, wr_attempts = i + 1\<rparr>"
      using spec url by (simp add: webhook_send_def)
    moreover have "i < max_retries" "http_ok (answers i)" "\<forall>j < i. \<not> http_ok (answers j)"
      using Some unfolding find_Some_iff by auto
    ultimately show ?thesis using url by (auto simp: case_prod_beta list_ex_iff list_all_iff)
  qed
qed

text \<open>In buffer mode the client receives the provider's chunks only if the whole text was scanned and not blocked, and then receives all of them in order.\<close>

theorem buffer_stream_scanned:
  assumes "buffer_stream cfg json_loads run chunks failure = (events, fault)"
    and "Forwarded c \<in> set events"
  shows "\<exists>content result. buffered_content json_loads chunks = Inr content \<and> run content = Inr result
    \<and> pr_final_action result \<noteq> Block \<and> events = map Forwarded chunks @ [Done] \<and> fault = None"
  using assms
  by (auto simp: buffer_stream_def result_block_def split: option.splits sum.splits if_splits)

theorem buffer_stream_scanned_witness:
  "\<exists>content result.
     buffered_content (\<lambda>_. None) [''x''] = Inr content
     \<and> (\<lambda>_. Inr (empty_pipeline_result 0) :: pipeline_error + pipeline_result) content = Inr result
     \<and> pr_final_action result \<noteq> Block"
proof -
  let ?cfg = "\<lparr>hc_send_flag_events = False, hc_request_id = ''r'', hc_memory = \<lparr>sm_limit = 1, sm_policy = Block_on_max\<rparr>\<rparr>"
  let ?run = "\<lambda>_. Inr (empty_pipeline_result 0) :: pipeline_error + pipeline_result"
  have content: "buffered_content (\<lambda>_. None) [''x''] = Inr []" by code_simp
  have "buffer_stream ?cfg (\<lambda>_. None) ?run [''x''] None = (map Forwarded [''x''] @ [Done], None)"
    by (simp add: buffer_stream_def content empty_pipeline_result_def)
  from buffer_stream_scanned [OF this, of "''x''"] show ?thesis by auto
qed

end
