(* ===== verification/Chat.thy ===== *)
theory Chat
  imports Audit_Log Content Router Post_Audit
begin

text \<open>
  \<open>routes/chat.py\<close> and \<open>language/detector.py\<close>: a chat completion from the parsed body to the
  response, through admission, routing, the input pipeline, the provider and the output pipeline.

  A handler is a function of the request; every early return and exception is a value of
  \<open>chat_error\<close>. The engine's run, the provider, \<open>langdetect\<close> and the JSON library are fields of the
  environment, and so is the audit logger (\<open>Audit_Log.audit_record\<close>), where one is enabled. The tenant
  bundle, metrics and logging are left out.
\<close>

datatype chat_error =
    Bad_request pystr
  | Not_admitted admission_error
  | Routing_failed routing_error
  | Provider_error pystr
  | Safety_block_error direction detection_result
  | Python_error py_exception
  | Pipeline_raised pipeline_error

datatype 'a timed = Timed_out | Finished 'a

type_synonym pipeline_call =
  "detector list \<Rightarrow> (detection_context \<times> pystr) list \<Rightarrow> detector_configs \<Rightarrow> pipeline_error + pipeline_result"

record chat_env =
  ch_codec :: codec
  ch_snapshot_id :: pystr
  ch_request_id :: pystr
  ch_runtime :: request_runtime
  ch_has_engine :: bool
  ch_run :: pipeline_call
  ch_run_output :: "detector list \<Rightarrow> (detection_context \<times> pystr) list \<Rightarrow> detector_configs
     \<Rightarrow> (pipeline_error + pipeline_result) timed"
  ch_rules :: "routing_rule list"
  ch_instances :: "pystr list"
  ch_provider :: "pystr \<Rightarrow> json \<Rightarrow> pystr + pystr \<times> nat"
  ch_detect :: "pystr \<Rightarrow> pystr option"
  ch_loads :: "pystr \<Rightarrow> json option"
  ch_dumps :: "json \<Rightarrow> pystr"
  ch_async :: bool
  ch_webhook :: bool
  ch_audit_log :: "(audit_entry \<Rightarrow> flow_evidence option) option"

subsection \<open>Language\<close>

text \<open>\<open>langdetect.detect\<close> is \<open>detect\<close>; a LangDetectException is \<open>None\<close>.\<close>

definition detect_language :: "(pystr \<Rightarrow> pystr option) \<Rightarrow> pystr \<Rightarrow> pystr option" where
  "detect_language detect t = (if t = [] \<or> py_strip t = [] then None else detect t)"

fun detect_language_for_messages :: "(pystr \<Rightarrow> pystr option) \<Rightarrow> extracted_content list \<Rightarrow> pystr option" where
  "detect_language_for_messages detect [] = None"
| "detect_language_for_messages detect (c # cs) =
     (case detect_language detect (ec_text c) of
        Some l \<Rightarrow> Some l | None \<Rightarrow> detect_language_for_messages detect cs)"

subsection \<open>Shared steps\<close>

definition higher_risk_option :: "risk_level option \<Rightarrow> risk_level option \<Rightarrow> risk_level option" where
  "higher_risk_option a b =
     (case a of None \<Rightarrow> b
      | Some x \<Rightarrow> (case b of None \<Rightarrow> a
                   | Some y \<Rightarrow> if risk_level_order x \<ge> risk_level_order y then a else b))"

definition stage_flow_enabled :: "chat_env \<Rightarrow> direction \<Rightarrow> detector list \<Rightarrow> bool" where
  "stage_flow_enabled env direction detectors \<longleftrightarrow>
     ch_has_engine env
     \<and> (detectors \<noteq> []
        \<or> (case direction of Input \<Rightarrow> rr_input_flow_identity (ch_runtime env)
            | Output \<Rightarrow> rr_output_flow_identity (ch_runtime env)) \<noteq> None)"

text \<open>
  What both pipelines do with a result: a block whose blocking detector is found raises. A block
  without one goes on.
\<close>

definition raise_block :: "direction \<Rightarrow> pipeline_result \<Rightarrow> chat_error + unit" where
  "raise_block direction result =
     (if pr_final_action result = Block
      then (case find_result_by_action (pr_detector_results result) [Block] of
              Some r \<Rightarrow> Inl (Safety_block_error direction r) | None \<Rightarrow> Inr ())
      else Inr ())"

record chat_state =
  cs_safety_action :: action
  cs_safety_risk_level :: "risk_level option"
  cs_evidence :: "flow_evidence list"

subsection \<open>The input pipeline\<close>

record input_stage =
  is_body :: json
  is_result :: "pipeline_result option"
  is_extracted :: "extracted_content list option"
  is_language :: "pystr option"

definition input_context :: "chat_env \<Rightarrow> pystr option \<Rightarrow> extracted_content \<Rightarrow> detection_context \<times> pystr" where
  "input_context env language ec =
     (\<lparr>dc_direction = Input, dc_request_id = ch_request_id env, dc_user_id = None, dc_language = language,
       dc_message_index = Some (ec_message_index ec)\<rparr>, ec_text ec)"

definition python :: "py_exception + 'a \<Rightarrow> chat_error + 'a" where
  "python r = (case r of Inl e \<Rightarrow> Inl (Python_error e) | Inr a \<Rightarrow> Inr a)"

definition run_pipeline :: "pipeline_error + pipeline_result \<Rightarrow> chat_error + pipeline_result" where
  "run_pipeline r = (case r of Inl e \<Rightarrow> Inl (Pipeline_raised e) | Inr a \<Rightarrow> Inr a)"

definition modify_request :: "json \<Rightarrow> pipeline_result \<Rightarrow> chat_error + json" where
  "modify_request body result =
     (if pr_final_action result = Modify \<and> pr_modifications result \<noteq> []
      then python (apply_modifications body (pr_modifications result)) else Inr body)"

text \<open>The scan of the extracted messages and what its result does to the request.\<close>

definition scan_messages ::
  "chat_env \<Rightarrow> stage_snapshot \<Rightarrow> json \<Rightarrow> extracted_content list \<Rightarrow> chat_state \<Rightarrow> chat_error + (input_stage \<times> chat_state)" where
  "scan_messages env stage body extracted state =
     (let language = detect_language_for_messages (ch_detect env) extracted in
      bind_res (run_pipeline (ch_run env (st_detectors stage)
                  (map (input_context env language) extracted) (st_configs stage))) (\<lambda>result.
      bind_res (raise_block Input result) (\<lambda>_.
      bind_res (modify_request body result) (\<lambda>body'.
        Inr (\<lparr>is_body = body', is_result = Some result, is_extracted = Some extracted,
              is_language = language\<rparr>,
             state\<lparr>cs_safety_action := pr_final_action result,
                   cs_safety_risk_level := Some (pr_overall_risk_level result)\<rparr>)))))"

definition input_pipeline :: "chat_env \<Rightarrow> stage_snapshot \<Rightarrow> json \<Rightarrow> chat_state \<Rightarrow> chat_error + (input_stage \<times> chat_state)" where
  "input_pipeline env stage body state =
     (if \<not> stage_flow_enabled env Input (st_detectors stage)
      then Inr (\<lparr>is_body = body, is_result = None, is_extracted = None, is_language = None\<rparr>,
                state\<lparr>cs_safety_action := Allow\<rparr>)
      else
        bind_res (python (json_get ''messages'' (JArr []) body)) (\<lambda>messages.
        bind_res (python (extract_content messages)) (\<lambda>extracted.
          if extracted = []
          then Inr (\<lparr>is_body = body, is_result = None, is_extracted = Some extracted, is_language = None\<rparr>,
                    state\<lparr>cs_safety_action := Allow\<rparr>)
          else scan_messages env stage body extracted state)))"

subsection \<open>Up to the provider\<close>

text \<open>\<open>body.get("model")\<close>: missing, empty or not a string is a 400.\<close>

definition model_of :: "json \<Rightarrow> chat_error + pystr" where
  "model_of body =
     bind_res (python (json_get ''model'' JNull body)) (\<lambda>m.
       case m of JStr s \<Rightarrow> if s = [] then Inl (Bad_request ''missing_model'') else Inr s
       | _ \<Rightarrow> Inl (Bad_request ''missing_model''))"

record forwarded =
  fw_provider :: pystr
  fw_model :: pystr
  fw_stage :: input_stage
  fw_admission :: admission
  fw_state :: chat_state

definition admit :: "chat_env \<Rightarrow> chat_error + admission" where
  "admit env =
     (case enforce_detector_availability (ch_codec env) (ch_snapshot_id env) (ch_request_id env) (ch_runtime env) of
        Inl e \<Rightarrow> Inl (Not_admitted e) | Inr ad \<Rightarrow> Inr ad)"

definition record_stage :: "chat_env \<Rightarrow> admission \<Rightarrow> direction \<Rightarrow> pystr \<Rightarrow> chat_state \<Rightarrow> chat_error + (stage_snapshot \<times> chat_state)" where
  "record_stage env ad direction stage state =
     (case record_snapshot_stage (ch_codec env) (ad_snapshot ad) direction stage (cs_evidence state) of
        Inl e \<Rightarrow> Inl (Not_admitted e)
      | Inr (view, evidence) \<Rightarrow> Inr (view, state\<lparr>cs_evidence := evidence\<rparr>))"

definition route_model :: "chat_env \<Rightarrow> pystr \<Rightarrow> chat_error + pystr" where
  "route_model env model =
     (case route (ch_rules env) (ch_instances env) model of Inl e \<Rightarrow> Inl (Routing_failed e) | Inr p \<Rightarrow> Inr p)"

text \<open>Steps 1 to 5 of \<open>chat_completions\<close>: what the request has become when its scan is over. The
  audit of step 5b, which follows in \<open>audited_forward\<close>, is all that is left before the provider.\<close>

definition forward :: "chat_env \<Rightarrow> pystr \<Rightarrow> chat_error + forwarded" where
  "forward env raw =
     (case ch_loads env raw of
        None \<Rightarrow> Inl (Bad_request ''invalid_json'')
      | Some body \<Rightarrow>
          bind_res (model_of body) (\<lambda>model.
          bind_res (admit env) (\<lambda>ad.
          bind_res (route_model env model) (\<lambda>provider.
          bind_res (record_stage env ad Input ''input''
                     \<lparr>cs_safety_action = Allow, cs_safety_risk_level = None, cs_evidence = ad_evidence ad\<rparr>) (\<lambda>(view, state).
          bind_res (input_pipeline env view body state) (\<lambda>(stage, state). Inr
            \<lparr>fw_provider = provider, fw_model = model, fw_stage = stage, fw_admission = ad, fw_state = state\<rparr>))))))"

subsection \<open>The output pipeline\<close>

definition timeout_result :: "detector_configs \<Rightarrow> detector \<Rightarrow> detection_result" where
  "timeout_result configs d =
     (let name = det_name d;
          closed = (cfg_on_error (config_of configs name) = Some ''fail_closed'')
      in \<lparr>dr_detector_name = name, dr_category = ''error'', dr_action = (if closed then Block else Allow),
          dr_confidence = (if closed then 1 else 0), dr_risk_level = (if closed then High else Low),
          dr_message = ''Detector '' @ quoted name @
            (if closed then '' timed out (fail_closed): '' else '' timed out (fail_open): '')
            @ ''Pipeline sync_timeout exceeded'',
          dr_modified_content = None, dr_duration_ms = 0, dr_error = Some ''Pipeline sync_timeout exceeded''\<rparr>)"

definition handle_sync_timeout :: "detector list \<Rightarrow> detector_configs \<Rightarrow> pipeline_result" where
  "handle_sync_timeout detectors configs =
     (let error_results = map (timeout_result configs) detectors;
          final_action = (if list_ex (\<lambda>r. dr_action r = Block) error_results then Block else Allow)
      in \<lparr>pr_final_action = final_action, pr_overall_risk_level = (if final_action = Block then High else Low),
          pr_detector_results = error_results, pr_modifications = [], pr_duration_ms = 0,
          pr_flow_evidence = None\<rparr>)"

text \<open>
  The text of \<open>choices[0].message.content\<close>. Reading a field of something that is not an object raises
  AttributeError, which the handler does not catch; anything else that is missing means no text.
\<close>

definition first_choice :: "json \<Rightarrow> py_exception + json option" where
  "first_choice response =
     bind_res (json_get ''choices'' (JArr []) response) (\<lambda>choices. Inr (json_head choices))"

definition choice_message :: "json \<Rightarrow> py_exception + json" where
  "choice_message c = (if is_object c then json_get ''message'' (JObj []) c else Inr (JObj []))"

definition output_text :: "json \<Rightarrow> py_exception + pystr option" where
  "output_text response =
     bind_res (first_choice response) (\<lambda>c.
       case c of
         None \<Rightarrow> Inr None
       | Some c \<Rightarrow>
           bind_res (choice_message c) (\<lambda>message.
           bind_res (json_get ''content'' (JStr []) message) (\<lambda>content. Inr
             (case content of JStr t \<Rightarrow> if t = [] then None else Some t | _ \<Rightarrow> None))))"

text \<open>\<open>message_obj["content"] = modified_content\<close>, inside the response.\<close>

definition set_output_text :: "pystr \<Rightarrow> json \<Rightarrow> json" where
  "set_output_text t response =
     (case json_field ''choices'' response of
        Some (JArr (c # cs)) \<Rightarrow>
          (case json_field ''message'' c of
             Some message \<Rightarrow>
               json_set ''choices'' (JArr (json_set ''message'' (json_set ''content'' (JStr t) message) c # cs)) response
           | None \<Rightarrow> response)
      | _ \<Rightarrow> response)"

definition output_context :: "chat_env \<Rightarrow> pystr \<Rightarrow> detection_context \<times> pystr" where
  "output_context env t =
     (\<lparr>dc_direction = Output, dc_request_id = ch_request_id env, dc_user_id = None,
       dc_language = detect_language (ch_detect env) t, dc_message_index = None\<rparr>, t)"

text \<open>
  The sync pipeline's result for a text. The \<open>except\<close> of the handler names TypeError, which is what
  an escalation rule raises at its evaluation: the output is then passed on (\<open>None\<close>).
\<close>

definition output_result :: "chat_env \<Rightarrow> detector list \<Rightarrow> detector_configs \<Rightarrow> pystr \<Rightarrow> chat_error + pipeline_result option" where
  "output_result env detectors configs t =
     (case ch_run_output env detectors [output_context env t] configs of
        Timed_out \<Rightarrow> Inr (Some (handle_sync_timeout detectors configs))
      | Finished (Inr result) \<Rightarrow> Inr (Some result)
      | Finished (Inl (Flow_error Reducer_raised)) \<Rightarrow> Inr None
      | Finished (Inl e) \<Rightarrow> Inl (Pipeline_raised e))"

definition output_state :: "pipeline_result \<Rightarrow> chat_state \<Rightarrow> chat_state" where
  "output_state result state =
     state\<lparr>cs_safety_action :=
             (if action_precedence (pr_final_action result) > action_precedence (cs_safety_action state)
              then pr_final_action result else cs_safety_action state),
           cs_safety_risk_level :=
             higher_risk_option (cs_safety_risk_level state) (Some (pr_overall_risk_level result))\<rparr>"

record output_stage =
  os_content :: pystr
  os_text :: pystr
  os_result :: "pipeline_result option"

definition sync_output ::
  "chat_env \<Rightarrow> detector list \<Rightarrow> detector_configs \<Rightarrow> pystr \<Rightarrow> chat_state \<Rightarrow> chat_error + (output_stage \<times> chat_state)" where
  "sync_output env detectors configs content state =
     (let pass = \<lambda>t. (\<lparr>os_content = content, os_text = t, os_result = None\<rparr>, state) in
      if \<not> stage_flow_enabled env Output detectors then Inr (pass [])
      else
        (case ch_loads env content of
           None \<Rightarrow> Inr (pass [])
         | Some response \<Rightarrow>
             bind_res (python (output_text response)) (\<lambda>t.
               case t of
                 None \<Rightarrow> Inr (pass [])
               | Some t \<Rightarrow>
                   bind_res (output_result env detectors configs t) (\<lambda>r.
                     case r of
                       None \<Rightarrow> Inr (pass t)
                     | Some result \<Rightarrow>
                         bind_res (raise_block Output result) (\<lambda>_. Inr
                           (if pr_final_action result = Modify \<and> pr_modifications result \<noteq> []
                            then let m = mod_modified_content (hd (pr_modifications result)) in
                              \<lparr>os_content = ch_dumps env (set_output_text m response), os_text = m, os_result = Some result\<rparr>
                            else \<lparr>os_content = content, os_text = t, os_result = Some result\<rparr>,
                            output_state result state))))))"

text \<open>
  Async mode: the response is returned as it came; the background task scans it afterwards, recalls
  through the webhook and swallows every exception (\<open>None\<close>).
\<close>

definition async_background ::
  "chat_env \<Rightarrow> detector list \<Rightarrow> detector_configs \<Rightarrow> pystr \<Rightarrow> (pipeline_result \<times> detection_result option) option" where
  "async_background env detectors configs content =
     (case Option.bind (ch_loads env content) (\<lambda>response. case output_text response of Inr t \<Rightarrow> t | Inl _ \<Rightarrow> None) of
        None \<Rightarrow> None
      | Some t \<Rightarrow>
          (case ch_run env detectors [output_context env t] configs of
             Inl _ \<Rightarrow> None
           | Inr result \<Rightarrow> Some (result,
               if pr_final_action result \<in> {Block, Modify} \<and> ch_webhook env
               then find_result_by_action (pr_detector_results result) [Block] else None)))"

subsection \<open>Audit entries\<close>

definition applied_modify_of :: "pipeline_result option \<Rightarrow> bool option" where
  "applied_modify_of r =
     (case r of Some result \<Rightarrow>
        if pr_final_action result = Modify \<and> pr_modifications result \<noteq> [] then Some True else None
      | None \<Rightarrow> None)"

definition latest_flow_evidence :: "direction \<Rightarrow> flow_evidence list \<Rightarrow> flow_evidence option" where
  "latest_flow_evidence direction evidence = List.find (\<lambda>e. fv_direction e = direction) (rev evidence)"

text \<open>The nodes of the request's skipped detectors, as nodes of the primary evidence.\<close>

definition availability_node :: "flow_evidence \<Rightarrow> nat \<times> node_evidence \<Rightarrow> node_evidence" where
  "availability_node primary indexed =
     (let (index, n) = indexed in
      n\<lparr>ne_flow_id := fv_flow_id primary, ne_flow_version := fv_flow_version primary,
        ne_execution_id := fv_execution_id primary,
        ne_node_id := take 256 (''availability-'' @ ne_node_id n),
        ne_definition_index := length (fv_nodes primary) + index\<rparr>)"

definition combine_evidence :: "flow_evidence \<Rightarrow> flow_evidence \<Rightarrow> flow_evidence" where
  "combine_evidence primary supplemental =
     (let completed = (fv_status primary = F_COMPLETED) in
      primary\<lparr>fv_status := (if completed then F_PARTIAL else fv_status primary),
              fv_reason_code := (if completed then ''capability_unavailable'' else fv_reason_code primary),
              fv_nodes := fv_nodes primary @ map (availability_node primary) (enumerate 0 (fv_nodes supplemental)),
              fv_details_truncated := (fv_details_truncated primary \<or> fv_details_truncated supplemental)\<rparr>)"

definition combined_flow_evidence ::
  "chat_env \<Rightarrow> direction \<Rightarrow> flow_evidence list \<Rightarrow> flow_evidence option \<Rightarrow> chat_error + flow_evidence option" where
  "combined_flow_evidence env direction evidence primary =
     (let supplemental = latest_flow_evidence direction evidence in
      case primary of
        None \<Rightarrow> Inr supplemental
      | Some p \<Rightarrow>
          (case supplemental of
             None \<Rightarrow> Inr (Some p)
           | Some s \<Rightarrow>
               if fv_nodes s = [] then Inr (Some p)
               else
                 (let codec = ch_codec env in
                  case bound_flow_evidence (json_size codec) (sha256_hex codec) (digest_signals codec)
                         (rr_max_evidence_size (ch_runtime env)) (combine_evidence p s) of
                    Inl _ \<Rightarrow> Inl (Not_admitted Evidence_budget_too_small)
                  | Inr e \<Rightarrow> Inr (Some e))))"

text \<open>The fields both directions share; \<open>result\<close> is the direction's own pipeline result.\<close>

definition audit_fields_of ::
  "chat_env \<Rightarrow> direction \<Rightarrow> forwarded \<Rightarrow> pipeline_result option \<Rightarrow> pystr \<Rightarrow> pystr option \<Rightarrow> chat_state \<Rightarrow> chat_error + audit_fields" where
  "audit_fields_of env direction fw result content language state =
     bind_res (combined_flow_evidence env direction (cs_evidence state) (Option.bind result pr_flow_evidence)) (\<lambda>evidence. Inr
     \<lparr>af_request_id = ch_request_id env, af_direction = direction, af_user_id = None,
      af_model = Some (fw_model fw), af_provider = Some (fw_provider fw), af_content = content,
      af_language = language, af_final_action = cs_safety_action state,
      af_final_risk_level = or_default (cs_safety_risk_level state) Low,
      af_detector_results = (case result of Some r \<Rightarrow> pr_detector_results r | None \<Rightarrow> []),
      af_applied_modify = applied_modify_of result,
      af_pipeline_duration_ms = (case result of Some r \<Rightarrow> pr_duration_ms r | None \<Rightarrow> 0),
      af_streaming = False, af_window_count = None, af_recalled = None, af_recall_method = None,
      af_async_detection = None, af_safety_degraded = ad_degraded (fw_admission fw),
      af_detector_availability = ad_availability (fw_admission fw),
      af_flow_evidence = evidence\<rparr>)"

definition input_audit :: "chat_env \<Rightarrow> forwarded \<Rightarrow> chat_error + audit_fields" where
  "input_audit env fw =
     audit_fields_of env Input fw (is_result (fw_stage fw))
       (case is_extracted (fw_stage fw) of Some cs \<Rightarrow> unwords (map ec_text cs) | None \<Rightarrow> [])
       (is_language (fw_stage fw)) (fw_state fw)"

definition sync_output_audit :: "chat_env \<Rightarrow> forwarded \<Rightarrow> output_stage \<Rightarrow> chat_state \<Rightarrow> chat_error + audit_fields" where
  "sync_output_audit env fw stage state =
     audit_fields_of env Output fw (os_result stage) (os_text stage) None state"

text \<open>
  \<open>_record_request_audit\<close>: the entry goes to the logger, which hands back the evidence with its truthful
  persistence mark; that evidence replaces the request's own one of the same execution, or is added.
  Building the entry may raise before anything is written. Without a logger nothing happens.
\<close>

definition same_execution :: "flow_evidence \<Rightarrow> flow_evidence \<Rightarrow> bool" where
  "same_execution a b \<longleftrightarrow>
     fv_direction a = fv_direction b \<and> fv_stage a = fv_stage b \<and> fv_execution_id a = fv_execution_id b"

fun retain_persisted :: "flow_evidence \<Rightarrow> flow_evidence list \<Rightarrow> flow_evidence list" where
  "retain_persisted persisted [] = [persisted]"
| "retain_persisted persisted (e # es) =
     (if same_execution e persisted then persisted # es else e # retain_persisted persisted es)"

definition record_request_audit ::
  "chat_env \<Rightarrow> chat_error + audit_fields \<Rightarrow> chat_state \<Rightarrow> chat_error + chat_state" where
  "record_request_audit env entry state =
     (case ch_audit_log env of
        None \<Rightarrow> Inr state
      | Some record_entry \<Rightarrow>
          bind_res entry (\<lambda>fs. Inr
            (case record_entry (build_audit_entry (sha256_hex (ch_codec env)) fs) of
               None \<Rightarrow> state
             | Some persisted \<Rightarrow> state\<lparr>cs_evidence := retain_persisted persisted (cs_evidence state)\<rparr>)))"

text \<open>Step 5b: the input decision is audited before anything is sent.\<close>

definition audited_forward :: "chat_env \<Rightarrow> pystr \<Rightarrow> chat_error + forwarded" where
  "audited_forward env raw =
     bind_res (forward env raw) (\<lambda>fw.
     bind_res (record_request_audit env (input_audit env fw) (fw_state fw)) (\<lambda>state.
       Inr (fw\<lparr>fw_state := state\<rparr>)))"

subsection \<open>The handler\<close>

datatype chat_response =
    Streaming_response forwarded
  | Plain_response pystr nat

definition streams :: "json \<Rightarrow> bool" where
  "streams body \<longleftrightarrow> json_field ''stream'' body = Some (JBool True)"

definition chat_completions :: "chat_env \<Rightarrow> pystr \<Rightarrow> chat_error + (chat_response \<times> chat_state)" where
  "chat_completions env raw =
     bind_res (audited_forward env raw) (\<lambda>fw.
       let body = is_body (fw_stage fw) in
       if streams body then Inr (Streaming_response fw, fw_state fw)
       else
         (case ch_provider env (fw_provider fw) body of
            Inl message \<Rightarrow> Inl (Provider_error message)
          | Inr (content, status) \<Rightarrow>
              bind_res (record_stage env (fw_admission fw) Output
                          (if ch_async env then ''async-output'' else ''sync-output'') (fw_state fw)) (\<lambda>(view, state).
                if ch_async env \<and> stage_flow_enabled env Output (st_detectors view)
                then Inr (Plain_response content status, state)
                else
                  bind_res (sync_output env (st_detectors view) (st_configs view) content state) (\<lambda>(stage, state).
                  bind_res (record_request_audit env (sync_output_audit env fw stage state) state) (\<lambda>state. Inr
                    (Plain_response (os_content stage) status, state))))))"

end
