(* ===== verification/Chat_Laws.thy ===== *)
theory Chat_Laws
  imports Chat
begin

text \<open>
  The laws of the chat route: what reaches the provider, what the client gets back, and where the
  decision of the pipeline is not what the route enforces.
\<close>

lemmas chat_simps = python_def run_pipeline_def raise_block_def modify_request_def

lemma python_Inr: "python r = Inr a \<longleftrightarrow> r = Inr a"
  by (auto simp: python_def split: sum.splits)

lemma run_pipeline_Inr: "run_pipeline r = Inr a \<longleftrightarrow> r = Inr a"
  by (auto simp: run_pipeline_def split: sum.splits)

lemma raise_block_Inr:
  "raise_block d result = Inr u \<longleftrightarrow>
     pr_final_action result = Block \<longrightarrow> list_all (\<lambda>r. dr_action r \<noteq> Block) (pr_detector_results result)"
  using find_result_by_action_None [of "pr_detector_results result" "[Block]"]
  by (auto simp: raise_block_def list_all_iff split: option.split dest: find_result_by_action_Some)

lemma scan_messages_Inr:
  "scan_messages env view body extracted state = Inr (stage, state') \<Longrightarrow>
     \<exists>result. is_result stage = Some result \<and> is_extracted stage = Some extracted
       \<and> ch_run env (st_detectors view)
           (map (input_context env (detect_language_for_messages (ch_detect env) extracted)) extracted)
           (st_configs view) = Inr result
       \<and> (pr_final_action result = Block \<longrightarrow> list_all (\<lambda>r. dr_action r \<noteq> Block) (pr_detector_results result))
       \<and> modify_request body result = Inr (is_body stage) \<and> cs_safety_action state' = pr_final_action result"
  by (auto simp: scan_messages_def Let_def res_simps run_pipeline_Inr raise_block_Inr)

lemma input_pipeline_Inr:
  assumes "input_pipeline env view body state = Inr (stage, state')" and "stage_flow_enabled env Input (st_detectors view)"
  shows "\<exists>messages extracted. json_get ''messages'' (JArr []) body = Inr messages \<and> extract_content messages = Inr extracted
    \<and> is_extracted stage = Some extracted
    \<and> (if extracted = [] then is_body stage = body \<and> cs_safety_action state' = Allow
       else scan_messages env view body extracted state = Inr (stage, state'))"
proof -
  obtain messages extracted where m: "json_get ''messages'' (JArr []) body = Inr messages"
      "extract_content messages = Inr extracted"
      "(if extracted = []
          then Inr (\<lparr>is_body = body, is_result = None, is_extracted = Some extracted, is_language = None\<rparr>,
                    state\<lparr>cs_safety_action := Allow\<rparr>)
          else scan_messages env view body extracted state) = Inr (stage, state')"
    using assms by (auto simp: input_pipeline_def res_simps python_Inr)
  then have "is_extracted stage = Some extracted"
    using scan_messages_Inr [of env view body extracted state stage state'] by (auto split: if_splits)
  moreover have "if extracted = [] then is_body stage = body \<and> cs_safety_action state' = Allow
       else scan_messages env view body extracted state = Inr (stage, state')"
    using m(3) by (auto split: if_splits)
  ultimately show ?thesis using m(1,2) by blast
qed

lemma route_model_Inr: "route_model env model = Inr p \<longleftrightarrow> route (ch_rules env) (ch_instances env) model = Inr p"
  by (auto simp: route_model_def split: sum.splits)

lemma forward_Inr:
  "forward env raw = Inr fw \<longleftrightarrow>
     (\<exists>body ad view state. ch_loads env raw = Some body \<and> model_of body = Inr (fw_model fw) \<and> admit env = Inr ad
        \<and> route (ch_rules env) (ch_instances env) (fw_model fw) = Inr (fw_provider fw)
        \<and> record_stage env ad Input ''input''
            \<lparr>cs_safety_action = Allow, cs_safety_risk_level = None, cs_evidence = ad_evidence ad\<rparr> = Inr (view, state)
        \<and> input_pipeline env view body state = Inr (fw_stage fw, fw_state fw) \<and> fw_admission fw = ad)"
  (is "?l = ?r")
proof
  assume ?l
  then show ?r by (auto simp: forward_def res_simps route_model_Inr split: option.splits)
next
  assume ?r
  then show ?l by (cases fw) (auto simp: forward_def route_model_Inr [THEN iffD2])
qed

lemma audited_forward_Inr:
  "audited_forward env raw = Inr fw \<Longrightarrow>
     \<exists>fw'. forward env raw = Inr fw' \<and> fw_stage fw = fw_stage fw' \<and> fw_provider fw = fw_provider fw'
       \<and> fw_admission fw = fw_admission fw' \<and> cs_safety_action (fw_state fw) = cs_safety_action (fw_state fw')"
  by (auto simp: audited_forward_def record_request_audit_def res_simps split: option.splits)

lemma record_stage_view:
  "record_stage env ad d stage st = Inr (view, st') \<Longrightarrow>
     st_detectors view = (case d of Input \<Rightarrow> fs_input_detectors (ad_snapshot ad) | Output \<Rightarrow> fs_output_detectors (ad_snapshot ad))
     \<and> st_configs view = (case d of Input \<Rightarrow> fs_input_configs (ad_snapshot ad) | Output \<Rightarrow> fs_output_configs (ad_snapshot ad))"
  by (auto simp: record_stage_def record_snapshot_stage_def split: sum.splits option.splits dest: stage_view_detectors)

subsection \<open>The input side\<close>

definition input_available :: "chat_env \<Rightarrow> detector list" where
  "input_available env =
     filter (\<lambda>d. \<not> has_live_issue (rr_statuses (ch_runtime env)) d) (rr_input_detectors (ch_runtime env))"

lemma admit_sound:
  "admit env = Inr ad \<Longrightarrow>
     list_all (\<lambda>s. \<not> (has_issue s \<and> is_strict s)) (rr_statuses (ch_runtime env))
     \<and> fs_input_detectors (ad_snapshot ad) = input_available env"
  by (auto simp: admit_def enforce_detector_availability_def Let_def res_simps snapshot_detectors input_available_def
      strict_issues_iff list_all_iff split: sum.splits if_splits)


text \<open>C8. A block that no single detector asked for, which is what flag escalation decides, is not enforced: the request is forwarded unchanged, although its recorded action is a block.\<close>

theorem escalated_block_forwarded:
  assumes "ch_loads env raw = Some body" and "model_of body = Inr model" and "admit env = Inr ad"
    and "route (ch_rules env) (ch_instances env) model = Inr provider"
    and "record_stage env ad Input ''input''
      \<lparr>cs_safety_action = Allow, cs_safety_risk_level = None, cs_evidence = ad_evidence ad\<rparr> = Inr (view, state)"
    and "stage_flow_enabled env Input (st_detectors view)"
    and "json_get ''messages'' (JArr []) body = Inr messages" and "extract_content messages = Inr extracted"
    and "extracted \<noteq> []"
    and "ch_run env (st_detectors view)
      (map (input_context env (detect_language_for_messages (ch_detect env) extracted)) extracted)
      (st_configs view) = Inr result"
    and "aggregate (Some rule) results priorities indices = Inr aggregated"
    and "final_action_of results = Flag" and "ag_final_action aggregated = Block"
    and "pr_final_action result = ag_final_action aggregated" and "pr_detector_results result = results"
  shows "\<exists>fw. forward env raw = Inr fw \<and> is_body (fw_stage fw) = body \<and> fw_provider fw = provider
    \<and> cs_safety_action (fw_state fw) = Block"
proof -
  have "dr_action r \<noteq> Block" if "r \<in> set results" for r
    using that assms(12) final_action_Block [of results] by auto
  then have quiet: "raise_block Input result = Inr ()"
    using assms(15) by (simp add: raise_block_Inr list_all_iff)
  have "\<exists>stage state'. scan_messages env view body extracted state = Inr (stage, state') \<and> is_body stage = body
      \<and> cs_safety_action state' = Block"
    using assms(10,13,14) quiet by (simp add: scan_messages_def Let_def run_pipeline_def modify_request_def)
  then obtain stage state' where st: "scan_messages env view body extracted state = Inr (stage, state')"
    "is_body stage = body" "cs_safety_action state' = Block" by blast
  have "input_pipeline env view body state = Inr (stage, state')"
    using assms(6-9) st(1) by (simp add: input_pipeline_def python_def)
  with assms(1-5) have "forward env raw = Inr
      \<lparr>fw_provider = provider, fw_model = model, fw_stage = stage, fw_admission = ad, fw_state = state'\<rparr>"
    by (simp add: forward_def route_model_Inr [THEN iffD2])
  with st show ?thesis by auto
qed

subsection \<open>The output side\<close>

lemma json_get_set_object:
  "is_object j \<Longrightarrow> json_get k d (json_set k' v j) = (if k = k' then Inr v else json_get k d j)"
  by (simp add: json_get_object)

lemma output_text_Some:
  assumes "output_text response = Inr (Some t)"
  shows "\<exists>c cs message. is_object response \<and> json_field ''choices'' response = Some (JArr (c # cs))
    \<and> is_object c \<and> json_field ''message'' c = Some message \<and> is_object message
    \<and> json_field ''content'' message = Some (JStr t) \<and> t \<noteq> []"
proof -
  have obj: "is_object response"
    using assms by (auto simp: output_text_def first_choice_def res_simps dest: json_get_Inr)
  then obtain c where c: "json_head (case json_field ''choices'' response of Some v \<Rightarrow> v | None \<Rightarrow> JArr []) = Some c"
      "bind_res (choice_message c) (\<lambda>message.
           bind_res (json_get ''content'' (JStr []) message) (\<lambda>content. Inr
             (case content of JStr t \<Rightarrow> if t = [] then None else Some t | _ \<Rightarrow> None))) = Inr (Some t)"
    using assms by (auto simp: output_text_def first_choice_def json_get_object split: option.splits)
  from c(1) obtain cs where ch: "json_field ''choices'' response = Some (JArr (c # cs))"
    by (auto simp: json_head_def split: option.splits json.splits list.splits)
  from c(2) obtain message content where m: "choice_message c = Inr message"
      "json_get ''content'' (JStr []) message = Inr content"
      "(case content of JStr t \<Rightarrow> if t = [] then None else Some t | _ \<Rightarrow> None) = Some t"
    by (auto simp: res_simps)
  have t: "content = JStr t" "t \<noteq> []" using m(3) by (auto split: json.splits if_splits)
  have mo: "is_object message" using m(2) by (rule json_get_Inr)
  then have cont: "json_field ''content'' message = Some (JStr t)"
    using m(2) t by (auto simp: json_get_object split: option.splits)
  have co: "is_object c" "json_field ''message'' c = Some message"
    using m(1) cont by (auto simp: choice_message_def json_get_object json_field_def split: if_splits option.splits)
  from obj ch co mo cont t(2) show ?thesis by blast
qed

text \<open>Writing a modified text back into a response and reading it again gives the text, and no other field of the response, of the first choice or of its message changes; the other choices stay as they were.\<close>

theorem output_text_roundtrip:
  assumes "output_text response = Inr (Some old)" and "t \<noteq> []"
  shows "output_text (set_output_text t response) = Inr (Some t)
    \<and> (\<forall>k. k \<noteq> ''choices'' \<longrightarrow> json_field k (set_output_text t response) = json_field k response)
    \<and> (\<exists>c c' cs. json_field ''choices'' response = Some (JArr (c # cs))
         \<and> json_field ''choices'' (set_output_text t response) = Some (JArr (c' # cs))
         \<and> (\<forall>k. k \<noteq> ''message'' \<longrightarrow> json_field k c' = json_field k c))"
proof -
  obtain c cs message where r: "is_object response" "json_field ''choices'' response = Some (JArr (c # cs))"
    "is_object c" "json_field ''message'' c = Some message" "is_object message"
    using output_text_Some [OF assms(1)] by blast
  let ?m = "json_set ''content'' (JStr t) message"
  let ?c = "json_set ''message'' ?m c"
  have set: "set_output_text t response = json_set ''choices'' (JArr (?c # cs)) response"
    using r by (simp add: set_output_text_def)
  have "output_text (set_output_text t response) = Inr (Some t)"
    unfolding set using r assms(2)
    by (simp add: output_text_def first_choice_def json_get_object json_head_def choice_message_def)
  with r set show ?thesis by auto
qed

text \<open>With several modifications of an output only the first one is written, whatever the later ones are; a response without a modification is returned byte for byte.\<close>

theorem output_modification_first:
  assumes "sync_output env detectors configs content state = Inr (stage, state')"
    and "stage_flow_enabled env Output detectors" and "ch_loads env content = Some response"
    and "output_text response = Inr (Some t)" and "output_result env detectors configs t = Inr (Some result)"
  shows "os_content stage =
      (if pr_final_action result = Modify \<and> pr_modifications result \<noteq> []
       then ch_dumps env (set_output_text (mod_modified_content (hd (pr_modifications result))) response)
       else content)
    \<and> (pr_final_action result = Block \<longrightarrow> list_all (\<lambda>r. dr_action r \<noteq> Block) (pr_detector_results result))
    \<and> action_precedence (pr_final_action result) \<le> action_precedence (cs_safety_action state')
    \<and> action_precedence (cs_safety_action state) \<le> action_precedence (cs_safety_action state')"
proof -
  from assms have rb: "raise_block Output result = Inr ()"
    and st: "(stage, state') = (if pr_final_action result = Modify \<and> pr_modifications result \<noteq> []
        then let m = mod_modified_content (hd (pr_modifications result)) in
          \<lparr>os_content = ch_dumps env (set_output_text m response), os_text = m, os_result = Some result\<rparr>
        else \<lparr>os_content = content, os_text = t, os_result = Some result\<rparr>,
        output_state result state)"
    by (auto simp: sync_output_def Let_def python_def res_simps)
  from rb st show ?thesis by (auto simp: raise_block_Inr output_state_def Let_def)
qed

text \<open>When the output pipeline exceeds its time the decision depends on the configuration alone: it is a block exactly when some detector is fail-closed, and what a detector had found by then is dropped.\<close>

theorem sync_timeout_ignores_results:
  assumes "ch_run_output env detectors [output_context env t] configs = Timed_out"
  shows "\<exists>result. output_result env detectors configs t = Inr (Some result)
    \<and> pr_final_action result =
        (if list_ex (\<lambda>d. cfg_on_error (config_of configs (det_name d)) = Some ''fail_closed'') detectors then Block else Allow)
    \<and> map dr_detector_name (pr_detector_results result) = map det_name detectors"
  using assms
  by (simp add: output_result_def handle_sync_timeout_def Let_def timeout_result_def list_ex_iff)

subsection \<open>A concrete gateway\<close>

text \<open>One available detector, an engine that returns a given result, one rule for every model.\<close>

definition gateway_detector :: detector where
  "gateway_detector = \<lparr>det_id = 2, det_name = ''tox'', det_version = ''1'', det_category = ''tox''\<rparr>"

definition gateway_runtime :: request_runtime where
  "gateway_runtime =
     \<lparr>rr_statuses = [], rr_input_detectors = [gateway_detector], rr_output_detectors = [gateway_detector],
      rr_input_configs = [], rr_output_configs = [], rr_max_evidence_size = 1000,
      rr_input_flow_identity = None, rr_output_flow_identity = None,
      rr_input_policies = Map.empty, rr_output_policies = Map.empty\<rparr>"

definition sample_response :: "pystr \<Rightarrow> json" where
  "sample_response t =
     JObj [(''choices'', JArr [JObj [(''index'', JNum 0), (''message'', sample_message ''assistant'' t)], JNull])]"

text \<open>Bodies are named by the text ''q'' for the request and ''a'' for the response.\<close>

definition gateway :: "pipeline_result \<Rightarrow> pipeline_result timed \<Rightarrow> chat_env" where
  "gateway result output =
     \<lparr>ch_codec = null_codec, ch_snapshot_id = ''s'', ch_request_id = ''r'', ch_runtime = gateway_runtime,
      ch_has_engine = True, ch_run = (\<lambda>_ _ _. Inr result),
      ch_run_output = (\<lambda>_ _ _. case output of Timed_out \<Rightarrow> Timed_out | Finished r \<Rightarrow> Finished (Inr r)),
      ch_rules = [\<lparr>rl_pattern = ''*'', rl_provider = ''openai''\<rparr>], ch_instances = [''openai''],
      ch_provider = (\<lambda>_ _. Inr (''a'', 200)), ch_detect = (\<lambda>_. None),
      ch_loads = (\<lambda>s. if s = ''q'' then Some sample_request else if s = ''a'' then Some (sample_response ''old'') else None),
      ch_dumps = (\<lambda>_. ''dumped''), ch_async = False, ch_webhook = False,
      ch_audit_log = None\<rparr>"

lemma gateway_selectors [simp]:
  "ch_codec (gateway r s) = null_codec" "ch_runtime (gateway r s) = gateway_runtime"
  "ch_loads (gateway r s) ''q'' = Some sample_request" "ch_loads (gateway r s) ''a'' = Some (sample_response ''old'')"
  "ch_has_engine (gateway r s)" "ch_run (gateway r s) ds cs fs = Inr r"
  "ch_rules (gateway r s) = [\<lparr>rl_pattern = ''*'', rl_provider = ''openai''\<rparr>]"
  "ch_instances (gateway r s) = [''openai'']" "ch_dumps (gateway r s) j = ''dumped''"
  "ch_run_output (gateway r s) ds cs fs = (case s of Timed_out \<Rightarrow> Timed_out | Finished r \<Rightarrow> Finished (Inr r))"
  by (simp_all add: gateway_def)

lemma gateway_admit:
  "\<exists>ad view state. admit (gateway r s) = Inr ad
     \<and> record_stage (gateway r s) ad Input ''input''
         \<lparr>cs_safety_action = Allow, cs_safety_risk_level = None, cs_evidence = ad_evidence ad\<rparr> = Inr (view, state)
     \<and> st_detectors view = [gateway_detector]"
proof -
  let ?snap = "capture_flow_execution_snapshot (ch_snapshot_id (gateway r s)) (ch_request_id (gateway r s)) gateway_runtime"
  have views: "\<exists>v. stage_view null_codec ?snap d stage = Inr (Some v)" for d stage
    by (rule stage_view_fits) (simp add: null_codec_def)
  have "strict_issues ?snap = []" by (simp add: strict_issues_iff gateway_runtime_def)
  then obtain ad where ad: "admit (gateway r s) = Inr ad" "ad_snapshot ad = ?snap"
    using views [of Input "''admission''"] views [of Output "''admission''"]
    by (auto simp: admit_def enforce_detector_availability_def Let_def record_snapshot_stage_def)
  obtain view state where rec: "record_stage (gateway r s) ad Input ''input''
         \<lparr>cs_safety_action = Allow, cs_safety_risk_level = None, cs_evidence = ad_evidence ad\<rparr> = Inr (view, state)"
    using views [of Input "''input''"] ad(2) by (auto simp: record_stage_def record_snapshot_stage_def)
  have "st_detectors view = [gateway_detector]"
    using record_stage_view [OF rec] ad(2)
    by (simp add: snapshot_detectors has_live_issue_def gateway_runtime_def)
  with ad rec show ?thesis by blast
qed

lemma gateway_request:
  "model_of sample_request = Inr ''m''"
  "json_get ''messages'' (JArr []) sample_request = Inr (JArr [sample_message ''user'' ''a b''])"
  "extract_content (JArr [sample_message ''user'' ''a b''])
     = Inr [\<lparr>ec_message_index = 0, ec_role = ''user'', ec_text = ''a b''\<rparr>]"
  "route [\<lparr>rl_pattern = ''*'', rl_provider = ''openai''\<rparr>] [''openai''] ''m'' = Inr ''openai''"
  by code_simp+

definition escalated_results :: "detection_result list" where
  "escalated_results = [sample_result ''pii'' Flag High, sample_result ''tox'' Flag Low]"

definition escalation_rule :: rule where
  "escalation_rule = \<lparr>rule_first = Compare Count Ge (VInt 2), rule_rest = []\<rparr>"

lemma escalated:
  "final_action_of escalated_results = Flag"
  "\<exists>a. aggregate (Some escalation_rule) escalated_results Map.empty [] = Inr a \<and> ag_final_action a = Block"
proof -
  show f: "final_action_of escalated_results = Flag"
    by (simp add: final_action_of_def escalated_results_def sample_result_def)
  have "evaluate_rule escalation_rule (filter (\<lambda>r. dr_action r = Flag) escalated_results) = Inr True"
    by (simp add: evaluate_rule_def eval_rule_def rule_context_def escalated_results_def sample_result_def escalation_rule_def)
  with f show "\<exists>a. aggregate (Some escalation_rule) escalated_results Map.empty [] = Inr a \<and> ag_final_action a = Block"
    by (simp add: aggregate_def Let_def)
qed

definition result_with :: "action \<Rightarrow> detection_result list \<Rightarrow> modification list \<Rightarrow> pipeline_result" where
  "result_with a rs ms = (empty_pipeline_result 0)\<lparr>pr_final_action := a, pr_detector_results := rs, pr_modifications := ms\<rparr>"

lemma result_with_selectors [simp]:
  "pr_final_action (result_with a rs ms) = a" "pr_detector_results (result_with a rs ms) = rs"
  "pr_modifications (result_with a rs ms) = ms"
  by (simp_all add: result_with_def empty_pipeline_result_def)

theorem escalated_block_forwarded_witness:
  "\<exists>fw. forward (gateway (result_with Block escalated_results []) Timed_out) ''q'' = Inr fw
     \<and> is_body (fw_stage fw) = sample_request \<and> cs_safety_action (fw_state fw) = Block"
proof -
  let ?env = "gateway (result_with Block escalated_results []) Timed_out"
  obtain ad view state where ad: "admit ?env = Inr ad"
      "record_stage ?env ad Input ''input''
         \<lparr>cs_safety_action = Allow, cs_safety_risk_level = None, cs_evidence = ad_evidence ad\<rparr> = Inr (view, state)"
      "st_detectors view = [gateway_detector]"
    using gateway_admit by blast
  obtain ag where ag: "aggregate (Some escalation_rule) escalated_results Map.empty [] = Inr ag" "ag_final_action ag = Block"
    using escalated(2) by blast
  show ?thesis
    using escalated_block_forwarded [of ?env "''q''" sample_request "''m''" ad "''openai''" view state
      "JArr [sample_message ''user'' ''a b'']" "[\<lparr>ec_message_index = 0, ec_role = ''user'', ec_text = ''a b''\<rparr>]"
      "result_with Block escalated_results []" escalation_rule escalated_results Map.empty "[]" ag]
      ad ag escalated(1) gateway_request
    by (auto simp: stage_flow_enabled_def)
qed

lemma gateway_forwards:
  "\<exists>fw. forward (gateway (result_with Flag [] []) output) ''q'' = Inr fw"
proof -
  let ?env = "gateway (result_with Flag [] []) output"
  obtain ad view state where ad: "admit ?env = Inr ad"
      "record_stage ?env ad Input ''input''
         \<lparr>cs_safety_action = Allow, cs_safety_risk_level = None, cs_evidence = ad_evidence ad\<rparr> = Inr (view, state)"
      "st_detectors view = [gateway_detector]"
    using gateway_admit by blast
  then show ?thesis
    using gateway_request
    by (simp add: forward_def route_model_Inr [THEN iffD2] input_pipeline_def stage_flow_enabled_def python_def
        scan_messages_def Let_def run_pipeline_def raise_block_def modify_request_def)
qed


lemma sample_output_text: "output_text (sample_response ''old'') = Inr (Some ''old'')"
  by code_simp

theorem output_text_roundtrip_witness:
  "output_text (set_output_text ''new'' (sample_response ''old'')) = Inr (Some ''new'')"
  using output_text_roundtrip [OF sample_output_text, of "''new''"] by simp

theorem output_modification_first_witness:
  "\<exists>stage state' result. sync_output (gateway (result_with Flag [] []) (Finished result)) [gateway_detector] [] ''a''
        \<lparr>cs_safety_action = Allow, cs_safety_risk_level = None, cs_evidence = []\<rparr> = Inr (stage, state')
     \<and> os_content stage = ''dumped'' \<and> action_precedence Modify \<le> action_precedence (cs_safety_action state')"
proof -
  let ?r = "result_with Modify [] [sample_modification 1 ''first'', sample_modification 2 ''second'']"
  let ?env = "gateway (result_with Flag [] []) (Finished ?r)"
  let ?st = "\<lparr>cs_safety_action = Allow, cs_safety_risk_level = None, cs_evidence = []\<rparr>"
  have enabled: "stage_flow_enabled ?env Output [gateway_detector]" by (simp add: stage_flow_enabled_def)
  have res: "output_result ?env [gateway_detector] [] ''old'' = Inr (Some ?r)" by (simp add: output_result_def)
  obtain stage state' where o: "sync_output ?env [gateway_detector] [] ''a'' ?st = Inr (stage, state')"
    using enabled res sample_output_text
    by (simp add: sync_output_def Let_def python_def raise_block_def)
  from output_modification_first [OF o enabled _ sample_output_text res] o show ?thesis by auto
qed

theorem sync_timeout_ignores_results_witness:
  "\<exists>result. output_result (gateway (result_with Flag [] []) Timed_out) [gateway_detector] [] ''t'' = Inr (Some result)
     \<and> pr_final_action result = Allow"
  using sync_timeout_ignores_results [of "gateway (result_with Flag [] []) Timed_out" "[gateway_detector]" "''t''" "[]"]
  by (auto simp: config_of_def or_default_def empty_config_def)

end
