(* ===== verification/Streaming_Laws.thy ===== *)
theory Streaming_Laws
  imports Streaming
begin

text \<open>
  The laws of the stream: the events and the decision do not depend on how the transport cut the
  bytes, unless the provider fails after a block; every full window of the text is scanned; after a block
  no text of the provider follows.
\<close>

subsection \<open>Reassembly\<close>

lemma cut_boundary_append: "cut_boundary s = Some (event, rest) \<Longrightarrow> cut_boundary (s @ t) = Some (event, rest @ t)"
  by (induction s arbitrary: event rule: cut_boundary.induct) (auto split: if_splits)

lemma cut_boundary_first: "cut_boundary s = Some (event, rest) \<Longrightarrow> cut_boundary (butlast event) = None"
proof (induction s arbitrary: event rule: cut_boundary.induct)
  case (1 c d cs)
  show ?case
  proof (cases "c = newline \<and> d = newline")
    case True
    with 1 show ?thesis by auto
  next
    case False
    with 1 obtain e where e: "event = c # e" "cut_boundary (d # cs) = Some (e, rest)" by auto
    with 1 False have IH: "cut_boundary (butlast e) = None" by auto
    obtain e' where e': "e = d # e'" "e' \<noteq> []"
      using cut_boundary_Some [OF e(2)] by (cases e) fastforce+
    with e IH False show ?thesis by (cases e') auto
  qed
qed auto

lemma sse_split_append:
  "sse_split s = (events, residue) \<Longrightarrow>
     sse_split (s @ t) = (events @ fst (sse_split (residue @ t)), snd (sse_split (residue @ t)))"
proof (induction s arbitrary: events residue rule: sse_split.induct)
  case (1 s)
  show ?case
  proof (cases "cut_boundary s")
    case None
    with 1 show ?thesis by (simp add: sse_split.simps [of s])
  next
    case (Some er)
    obtain event rest where er: "er = (event, rest)" by (cases er)
    obtain es where es: "sse_split rest = (es, residue)" "events = event # es"
      using 1(2) Some er by (auto simp: sse_split.simps [of s] split: prod.splits)
    have "sse_split (rest @ t) = (es @ fst (sse_split (residue @ t)), snd (sse_split (residue @ t)))"
      using 1(1) [OF Some er [symmetric] es(1)] .
    then show ?thesis
      using Some er es cut_boundary_append [of s event rest t] by (simp add: sse_split.simps [of "s @ t"])
  qed
qed

definition sse_event :: "pystr \<Rightarrow> bool" where
  "sse_event e \<longleftrightarrow> ends_with e [newline, newline] \<and> cut_boundary (butlast e) = None"

lemma sse_split_sound:
  "sse_split s = (events, residue) \<Longrightarrow>
     concat events @ residue = s \<and> list_all sse_event events \<and> cut_boundary residue = None"
proof (induction s arbitrary: events residue rule: sse_split.induct)
  case (1 s)
  show ?case
  proof (cases "cut_boundary s")
    case None
    with 1 show ?thesis by (simp add: sse_split.simps [of s])
  next
    case (Some er)
    obtain event rest where er: "er = (event, rest)" by (cases er)
    obtain es where es: "sse_split rest = (es, residue)" "events = event # es"
      using 1(2) Some er by (auto simp: sse_split.simps [of s] split: prod.splits)
    show ?thesis
      using 1(1) [OF Some er [symmetric] es(1)] cut_boundary_Some [of s event rest] cut_boundary_first [of s event rest]
        Some er es(2) by (simp add: sse_event_def)
  qed
qed

text \<open>A sequence of chunks fed to the buffer.\<close>

fun sse_feeds :: "pystr list \<Rightarrow> pystr \<Rightarrow> pystr list \<times> pystr" where
  "sse_feeds [] buffer = ([], buffer)"
| "sse_feeds (chunk # chunks) buffer =
     (let (events, buffer) = sse_feed chunk buffer; (events', buffer) = sse_feeds chunks buffer
      in (events @ events', buffer))"

lemma sse_split_residue: "cut_boundary s = None \<Longrightarrow> sse_split s = ([], s)"
  by (simp add: sse_split.simps [of s])

lemma sse_feeds_split: "cut_boundary buffer = None \<Longrightarrow> sse_feeds chunks buffer = sse_split (buffer @ concat chunks)"
proof (induction chunks arbitrary: buffer)
  case Nil
  then show ?case by (simp add: sse_split_residue)
next
  case (Cons c cs)
  obtain es r where r: "sse_split (buffer @ c) = (es, r)" by (cases "sse_split (buffer @ c)")
  then have "sse_feeds cs r = sse_split (r @ concat cs)"
    using Cons.IH sse_split_sound by blast
  then show ?case
    using sse_split_append [OF r, of "concat cs"] r
    by (simp add: sse_feed_def split: prod.splits)
qed

text \<open>The events of a stream do not depend on how it was cut into chunks: they are the pieces of the whole text up to each blank line, none is lost or changed, each ends with its first blank line, and what remains has none.\<close>

theorem sse_reassembles:
  "sse_feeds chunks [] = sse_split (concat chunks)
   \<and> (case sse_feeds chunks [] of (events, residue) \<Rightarrow>
        concat events @ residue = concat chunks
        \<and> list_all (\<lambda>e. ends_with e [newline, newline] \<and> cut_boundary (butlast e) = None) events
        \<and> cut_boundary residue = None)"
proof -
  have eq: "sse_feeds chunks [] = sse_split (concat chunks)" by (simp add: sse_feeds_split)
  obtain es r where "sse_split (concat chunks) = (es, r)" by (cases "sse_split (concat chunks)")
  then show ?thesis using sse_split_sound [of "concat chunks" es r] eq by (simp add: sse_event_def [abs_def])
qed

subsection \<open>The handler and its buffer\<close>

text \<open>Only \<open>process_chunk\<close> and \<open>drain\<close> touch the event buffer.\<close>

abbreviation with_buffer :: "pystr \<Rightarrow> 'a \<times> handler \<times> 'b \<Rightarrow> 'a \<times> handler \<times> 'b" where
  "with_buffer b r \<equiv> (fst r, (fst (snd r))\<lparr>h_sse_buffer := b\<rparr>, snd (snd r))"

lemma next_window_buffer:
  "next_window (h\<lparr>h_sse_buffer := b\<rparr>) = (fst (next_window h), (snd (next_window h))\<lparr>h_sse_buffer := b\<rparr>)"
  by (simp add: next_window_def split: prod.splits)

lemma absorb_result_buffer: "absorb_result r (h\<lparr>h_sse_buffer := b\<rparr>) = (absorb_result r h)\<lparr>h_sse_buffer := b\<rparr>"
  by (simp add: absorb_result_def update_output_state_def)

lemma blocked_buffer: "(h\<lparr>h_sse_buffer := b\<rparr>)\<lparr>h_blocked := c\<rparr> = (h\<lparr>h_blocked := c\<rparr>)\<lparr>h_sse_buffer := b\<rparr>"
  by simp

lemma detect_windows_buffer:
  "detect_windows n cfg run (h\<lparr>h_sse_buffer := b\<rparr>) = with_buffer b (detect_windows n cfg run h)"
proof (induction n arbitrary: h)
  case (Suc n)
  obtain content h1 where n: "next_window h = (content, h1)" by (cases "next_window h")
  show ?case
    using n Suc.IH
    by (simp add: next_window_buffer absorb_result_buffer Let_def case_prod_beta split: sum.split)
qed simp

lemma process_text_buffer:
  "process_text cfg run text (h\<lparr>h_sse_buffer := b\<rparr>) = with_buffer b (process_text cfg run text h)"
proof -
  have upd: "h\<lparr>h_sse_buffer := b, h_accumulated := a, h_window := w\<rparr>
      = h\<lparr>h_accumulated := a, h_window := w, h_sse_buffer := b\<rparr>"
    "h\<lparr>h_sse_buffer := b, h_window := w, h_accumulated := a\<rparr>
      = h\<lparr>h_window := w, h_accumulated := a, h_sse_buffer := b\<rparr>"
    "h\<lparr>h_window := w, h_sse_buffer := b, h_accumulated := a\<rparr>
      = h\<lparr>h_window := w, h_accumulated := a, h_sse_buffer := b\<rparr>" for a w
    by (cases h; simp)+
  show ?thesis
    unfolding process_text_def Let_def
    by (simp add: upd detect_windows_buffer)
qed

lemma process_event_buffer:
  "process_event cfg j run event (h\<lparr>h_sse_buffer := b\<rparr>) = with_buffer b (process_event cfg j run event h)"
  by (simp add: process_event_def process_text_buffer Let_def case_prod_beta split: sum.split)

lemma process_events_buffer:
  "process_events cfg j run events (h\<lparr>h_sse_buffer := b\<rparr>) = with_buffer b (process_events cfg j run events h)"
proof (induction events arbitrary: h)
  case (Cons e es)
  show ?case
    by (cases "process_event cfg j run e h")
      (simp add: process_event_buffer Cons.IH split: prod.splits)
qed simp

text \<open>A run of events is a run of their prefix and then of the rest, unless it stopped.\<close>

lemma process_events_append:
  assumes "\<not> h_blocked h" and "process_events cfg j run es h = (out, h', fault)"
  shows "process_events cfg j run (es @ fs) h =
    (if fault \<noteq> None \<or> h_blocked h' then (out, h', fault)
     else let (out', h'', fault') = process_events cfg j run fs h' in (out @ out', h'', fault'))"
  using assms
proof (induction es arbitrary: h out)
  case (Cons e es)
  obtain ev h1 fl where e: "process_event cfg j run e h = (ev, h1, fl)"
    by (cases "process_event cfg j run e h")
  show ?case
  proof (cases "fl \<noteq> None \<or> h_blocked h1")
    case True
    with Cons.prems e show ?thesis by auto
  next
    case False
    obtain out1 where o: "process_events cfg j run es h1 = (out1, h', fault)" "out = ev @ out1"
      using Cons.prems e False by (auto split: prod.splits)
    with Cons.IH [of h1 out1] e False show ?thesis by (auto split: prod.splits)
  qed
qed (simp split: prod.splits)

text \<open>A stream processed in one piece.\<close>

definition process_all ::
  "handler_config \<Rightarrow> (pystr \<Rightarrow> json option) \<Rightarrow> (nat \<Rightarrow> pystr \<Rightarrow> pipeline_error + pipeline_result)
     \<Rightarrow> pystr \<Rightarrow> handler \<Rightarrow> client_event list \<times> handler \<times> stream_fault option" where
  "process_all cfg json_loads run text h =
     process_events cfg json_loads run (fst (sse_split (h_sse_buffer h @ text))) h"

definition outcome_of :: "stream_fault option \<Rightarrow> stream_outcome" where
  "outcome_of fault = (case fault of None \<Rightarrow> Stream_ended | Some f \<Rightarrow> Faulted f)"

lemma process_event_keeps_buffer: "h_sse_buffer (fst (snd (process_event cfg j run e h))) = h_sse_buffer h"
  using process_event_buffer [of cfg j run e "h_sse_buffer h" h]
  by (metis fst_conv handler.surjective handler.select_convs(2) handler.update_convs(2) snd_conv)

lemma process_events_keeps_buffer: "h_sse_buffer (fst (snd (process_events cfg j run es h))) = h_sse_buffer h"
  using process_events_buffer [of cfg j run es "h_sse_buffer h" h]
  by (metis fst_conv handler.surjective handler.select_convs(2) handler.update_convs(2) snd_conv)

lemma stream_chunks_all:
  assumes "\<not> h_blocked h" and "cut_boundary (h_sse_buffer h) = None"
    and "process_all cfg j run (concat chunks) h = (out, h', fault)"
  shows "\<exists>b. stream_chunks cfg j run chunks None h = (out, h'\<lparr>h_sse_buffer := b\<rparr>, outcome_of fault)
    \<and> (fault = None \<and> \<not> h_blocked h' \<longrightarrow> b = snd (sse_split (h_sse_buffer h @ concat chunks)))"
  using assms
proof (induction chunks arbitrary: h h' out)
  case Nil
  then show ?case
    by (auto simp: process_all_def sse_split_residue outcome_of_def intro: exI [of _ "h_sse_buffer h"])
next
  case (Cons c cs)
  obtain es r where r: "sse_split (h_sse_buffer h @ c) = (es, r)" by (cases "sse_split (h_sse_buffer h @ c)")
  have all: "sse_split (h_sse_buffer h @ c @ concat cs)
      = (es @ fst (sse_split (r @ concat cs)), snd (sse_split (r @ concat cs)))"
    using sse_split_append [OF r, of "concat cs"] by simp
  obtain ev h1 fl where e: "process_events cfg j run es h = (ev, h1, fl)"
    by (cases "process_events cfg j run es h")
  have chunk: "process_chunk cfg j run c h = (ev, h1\<lparr>h_sse_buffer := r\<rparr>, fl)"
    using Cons.prems(1) r e by (simp add: process_chunk_def sse_feed_def process_events_buffer)
  note app = process_events_append [OF Cons.prems(1) e, of "fst (sse_split (r @ concat cs))"]
  show ?case
  proof (cases "fl \<noteq> None \<or> h_blocked h1")
    case True
    then have "(out, h', fault) = (ev, h1, fl)"
      using Cons.prems(3) app all by (simp add: process_all_def)
    with True chunk Cons.prems(1) show ?thesis
      by (cases cs) (auto simp: outcome_of_def split: option.splits)
  next
    case False
    obtain out1 where o: "process_events cfg j run (fst (sse_split (r @ concat cs))) h1 = (out1, h', fault)"
        "out = ev @ out1"
      using Cons.prems(3) app all False by (auto simp: process_all_def split: prod.splits)
    have "process_all cfg j run (concat cs) (h1\<lparr>h_sse_buffer := r\<rparr>) = (out1, h'\<lparr>h_sse_buffer := r\<rparr>, fault)"
      using o(1) by (simp add: process_all_def process_events_buffer)
    moreover have "cut_boundary r = None" using sse_split_sound [OF r] by simp
    ultimately obtain b where "stream_chunks cfg j run cs None (h1\<lparr>h_sse_buffer := r\<rparr>)
        = (out1, h'\<lparr>h_sse_buffer := b\<rparr>, outcome_of fault)"
      "fault = None \<and> \<not> h_blocked h' \<longrightarrow> b = snd (sse_split (r @ concat cs))"
      using Cons.IH [of "h1\<lparr>h_sse_buffer := r\<rparr>" out1 "h'\<lparr>h_sse_buffer := r\<rparr>"] False by auto
    with False chunk Cons.prems(1) o(2) all show ?thesis by (auto intro: exI [of _ b])
  qed
qed

lemma make_handler_Inr:
  "make_handler ws ov = Inr h \<longleftrightarrow> 0 \<le> ov \<and> ov < ws
     \<and> h = \<lparr>h_window = \<lparr>w_size = nat ws, w_overlap = nat ov, w_buffer = []\<rparr>, h_sse_buffer = [],
            h_blocked = False, h_accumulated = [], h_completed = False, h_output_action = Allow,
            h_output_risk_level = Low, h_window_count = 0, h_detector_results = []\<rparr>"
  by (auto simp: make_handler_def make_window_def res_simps split: if_splits)

lemma drain_buffer:
  "\<not> h_blocked h \<Longrightarrow> drain cfg j run (h\<lparr>h_sse_buffer := b\<rparr>) =
     (if b = [] then ([], h\<lparr>h_sse_buffer := []\<rparr>, None)
      else with_buffer [] (process_event cfg j run b h))"
  by (simp add: drain_def sse_flush_def process_event_buffer)

text \<open>What the provider's failure at the end of its stream changes: how the loop ends, where nothing was blocked.\<close>

definition end_of_stream :: "pystr option \<Rightarrow> stream_outcome" where
  "end_of_stream failure = (case failure of None \<Rightarrow> Stream_ended | Some message \<Rightarrow> Provider_failed message)"

lemma stream_chunks_failure:
  assumes "stream_chunks cfg j run cs None h = (ev, h', outcome)"
  shows "\<exists>outcome'. stream_chunks cfg j run cs failure h = (ev, h', outcome')
    \<and> (\<not> h_blocked h' \<longrightarrow> outcome' = (if outcome = Stream_ended then end_of_stream failure else outcome))
    \<and> (case outcome of Faulted f \<Rightarrow> outcome' = outcome | _ \<Rightarrow> outcome' \<in> {Stream_ended, end_of_stream failure})"
  using assms
proof (induction cs arbitrary: h ev)
  case Nil
  then show ?case by (auto simp: end_of_stream_def)
next
  case (Cons c cs)
  show ?case
  proof (cases "h_blocked h")
    case True
    with Cons.prems show ?thesis by auto
  next
    case False
    obtain ev1 h1 fault where c: "process_chunk cfg j run c h = (ev1, h1, fault)"
      by (cases "process_chunk cfg j run c h")
    show ?thesis
    proof (cases fault)
      case (Some f)
      with Cons.prems c False show ?thesis by auto
    next
      case None
      with Cons.prems c False obtain ev2 where rest: "stream_chunks cfg j run cs None h1 = (ev2, h', outcome)"
          "ev = ev1 @ ev2"
        by (auto split: prod.splits)
      from Cons.IH [OF rest(1)] obtain outcome' where "stream_chunks cfg j run cs failure h1 = (ev2, h', outcome')"
        "\<not> h_blocked h' \<longrightarrow> outcome' = (if outcome = Stream_ended then end_of_stream failure else outcome)"
        "case outcome of Faulted f \<Rightarrow> outcome' = outcome | _ \<Rightarrow> outcome' \<in> {Stream_ended, end_of_stream failure}"
        by blast
      then show ?thesis using c False None rest(2) by (intro exI [of _ outcome']) simp
    qed
  qed
qed

text \<open>C21. What the client receives from a stream, how the stream ends and the handler's decision depend only on the text the provider sent, not on how the transport cut it into chunks, for a stream that the provider ended normally, and for one that it broke off unless something was blocked in it.\<close>

theorem stream_cut_irrelevant:
  assumes "make_handler window_size overlap = Inr h" and "concat cs = concat ds"
    and "sliding_stream cfg j run cs failure h = (out, h1, outcome)"
    and "sliding_stream cfg j run ds failure h = (out', h2, outcome')"
    and "failure = None \<or> \<not> h_blocked h1"
  shows "out = out' \<and> outcome = outcome' \<and> h1\<lparr>h_sse_buffer := []\<rparr> = h2\<lparr>h_sse_buffer := []\<rparr>"
proof -
  have h: "\<not> h_blocked h" "cut_boundary (h_sse_buffer h) = None"
    using assms(1) by (auto simp: make_handler_Inr)
  obtain ev h' fault where all: "process_all cfg j run (concat cs) h = (ev, h', fault)"
    by (cases "process_all cfg j run (concat cs) h")
  obtain b c where b: "stream_chunks cfg j run cs None h = (ev, h'\<lparr>h_sse_buffer := b\<rparr>, outcome_of fault)"
      "fault = None \<and> \<not> h_blocked h' \<longrightarrow> b = snd (sse_split (h_sse_buffer h @ concat cs))"
    and c: "stream_chunks cfg j run ds None h = (ev, h'\<lparr>h_sse_buffer := c\<rparr>, outcome_of fault)"
      "fault = None \<and> \<not> h_blocked h' \<longrightarrow> c = snd (sse_split (h_sse_buffer h @ concat ds))"
    using stream_chunks_all [OF h, of cfg j run cs] stream_chunks_all [OF h, of cfg j run ds] all assms(2)
    by metis
  obtain ob oc where ob: "stream_chunks cfg j run cs failure h = (ev, h'\<lparr>h_sse_buffer := b\<rparr>, ob)"
      "\<not> h_blocked h' \<longrightarrow> ob = (if outcome_of fault = Stream_ended then end_of_stream failure else outcome_of fault)"
      "case outcome_of fault of Faulted f \<Rightarrow> ob = outcome_of fault | _ \<Rightarrow> ob \<in> {Stream_ended, end_of_stream failure}"
    and oc: "stream_chunks cfg j run ds failure h = (ev, h'\<lparr>h_sse_buffer := c\<rparr>, oc)"
      "\<not> h_blocked h' \<longrightarrow> oc = (if outcome_of fault = Stream_ended then end_of_stream failure else outcome_of fault)"
      "case outcome_of fault of Faulted f \<Rightarrow> oc = outcome_of fault | _ \<Rightarrow> oc \<in> {Stream_ended, end_of_stream failure}"
    using stream_chunks_failure [OF b(1), of failure] stream_chunks_failure [OF c(1), of failure] by auto
  consider (open_end) "fault = None" "\<not> h_blocked h'" | (raised) f where "fault = Some f"
    | (blocked) "fault = None" "h_blocked h'" by (cases fault) auto
  then show ?thesis
  proof cases
    case open_end
    with b c assms(2) have "b = c" by simp
    with ob oc open_end have "sliding_stream cfg j run cs failure h = sliding_stream cfg j run ds failure h"
      by (simp add: sliding_stream_def)
    with assms(3,4) show ?thesis by auto
  next
    case raised
    with ob oc assms(3,4) show ?thesis by (auto simp: sliding_stream_def outcome_of_def)
  next
    case blocked
    have "failure = None"
    proof (rule ccontr)
      assume "failure \<noteq> None"
      then have "h_blocked h1"
        using ob(1,3) blocked assms(3)
        by (auto simp: sliding_stream_def outcome_of_def end_of_stream_def)
      with \<open>failure \<noteq> None\<close> assms(5) show False by simp
    qed
    with b(1) c(1) blocked assms(3,4) show ?thesis by (auto simp: sliding_stream_def outcome_of_def)
  qed
qed

subsection \<open>The windows of a text\<close>

definition window_at :: "nat \<Rightarrow> nat \<Rightarrow> nat \<Rightarrow> pystr \<Rightarrow> pystr" where
  "window_at ws ov k text = take ws (drop (k * (ws - ov)) text)"

text \<open>The windows scanned so far, of the text received so far: each was complete, and the engine let it pass.\<close>

definition scan_inv ::
  "nat \<Rightarrow> nat \<Rightarrow> (nat \<Rightarrow> pystr \<Rightarrow> pipeline_error + pipeline_result) \<Rightarrow> pystr \<Rightarrow> handler \<Rightarrow> bool" where
  "scan_inv ws ov run text h \<longleftrightarrow>
     w_size (h_window h) = ws \<and> w_overlap (h_window h) = ov
     \<and> h_window_count h * (ws - ov) \<le> length text
     \<and> w_buffer (h_window h) = drop (h_window_count h * (ws - ov)) text
     \<and> (\<forall>k < h_window_count h. k * (ws - ov) + ws \<le> length text
          \<and> (\<exists>r. run k (window_at ws ov k text) = Inr r \<and> pr_final_action r \<noteq> Block))"

lemma next_window_fields [simp]:
  "h_blocked (snd (next_window h)) = h_blocked h"
  "h_window_count (snd (next_window h)) = Suc (h_window_count h)"
  "h_output_action (snd (next_window h)) = h_output_action h"
  by (simp_all add: next_window_def split: prod.splits)

lemma absorb_result_fields [simp]:
  "h_blocked (absorb_result r h) = h_blocked h"
  "h_window (absorb_result r h) = h_window h"
  "h_window_count (absorb_result r h) = h_window_count h"
  "h_accumulated (absorb_result r h) = h_accumulated h"
  by (simp_all add: absorb_result_def update_output_state_def)

lemma next_window_ready:
  "window_ready (h_window h) \<Longrightarrow>
     fst (next_window h) = take (w_size (h_window h)) (w_buffer (h_window h))
     \<and> h_window (snd (next_window h)) = (h_window h)\<lparr>w_buffer :=
          drop (w_size (h_window h) - w_overlap (h_window h)) (w_buffer (h_window h))\<rparr>"
  by (simp add: next_window_def consume_window_def window_ready_def Let_def)

lemma scan_next:
  assumes inv: "scan_inv ws ov run text h" and "ov < ws" and ready: "window_ready (h_window h)"
    and run: "run (h_window_count h) (fst (next_window h)) = Inr r" "pr_final_action r \<noteq> Block"
  shows "scan_inv ws ov run text (absorb_result r (snd (next_window h)))"
proof -
  let ?n = "h_window_count h"
  have buf: "w_buffer (h_window h) = drop (?n * (ws - ov)) text" "w_size (h_window h) = ws" "w_overlap (h_window h) = ov"
    using inv by (auto simp: scan_inv_def)
  have len: "?n * (ws - ov) + ws \<le> length text"
    using ready buf inv by (auto simp: scan_inv_def window_ready_def)
  have content: "fst (next_window h) = window_at ws ov ?n text"
    using next_window_ready [OF ready] buf by (simp add: window_at_def)
  have "Suc ?n * (ws - ov) \<le> length text" using len assms(2) by simp
  moreover have "h_window (snd (next_window h)) =
      \<lparr>w_size = ws, w_overlap = ov, w_buffer = drop (Suc ?n * (ws - ov)) text\<rparr>"
    using next_window_ready [OF ready] buf by (cases "h_window h") (simp add: add.commute)
  ultimately show ?thesis
    using inv run len content by (auto simp: scan_inv_def less_Suc_eq)
qed

lemma detect_ready:
  assumes "window_ready (h_window h)" and "\<not> h_blocked h"
  shows "detect_windows (Suc n) cfg run h =
    (case run (h_window_count h) (fst (next_window h)) of
       Inl e \<Rightarrow> ([], snd (next_window h), Some (Engine_error e))
     | Inr r \<Rightarrow>
         if pr_final_action r = Block
         then ([result_block cfg r, Done], (absorb_result r (snd (next_window h)))\<lparr>h_blocked := True\<rparr>, None)
         else let rest = detect_windows n cfg run (absorb_result r (snd (next_window h)))
              in ((if pr_final_action r \<in> {Flag, Modify} \<and> hc_send_flag_events cfg
                   then [result_flag cfg r] else []) @ fst rest, snd rest))"
proof -
  obtain content h1 where "next_window h = (content, h1)" by (cases "next_window h")
  with assms next_window_fields(2) [of h] show ?thesis
    by (simp add: Let_def case_prod_beta split: sum.split)
qed

lemma detect_scan:
  assumes "detect_windows n cfg run h = (out, h', None)" and "\<not> h_blocked h'"
    and "scan_inv ws ov run text h" and "ov < ws"
  shows "scan_inv ws ov run text h'
    \<and> (length (w_buffer (h_window h)) \<le> n \<longrightarrow> \<not> window_ready (h_window h'))"
  using assms
proof (induction n arbitrary: h out)
  case 0
  then show ?case by (auto simp: scan_inv_def window_ready_def)
next
  case (Suc n)
  show ?case
  proof (cases "window_ready (h_window h)")
    case False
    with Suc.prems show ?thesis by simp
  next
    case ready: True
    obtain content h1 where n: "next_window h = (content, h1)" by (cases "next_window h")
    have unblocked: "\<not> h_blocked h" using Suc.prems(1,2) by (auto split: if_splits)
    obtain r where r: "run (h_window_count h) content = Inr r" "pr_final_action r \<noteq> Block"
      using Suc.prems(1,2) n detect_ready [OF ready unblocked, of n cfg run]
      by (auto simp: Let_def simp del: detect_windows.simps split: sum.splits if_splits)
    obtain out1 where out1: "detect_windows n cfg run (absorb_result r h1) = (out1, h', None)"
      using Suc.prems(1) n detect_ready [OF ready unblocked, of n cfg run] r
      by (auto simp: Let_def prod_eq_iff simp del: detect_windows.simps)
    have inv: "scan_inv ws ov run text (absorb_result r h1)"
      using scan_next [OF Suc.prems(3,4) ready, of r] r n by simp
    have "w_size (h_window h) = ws" "w_overlap (h_window h) = ov" using Suc.prems(3) by (auto simp: scan_inv_def)
    then have "length (w_buffer (h_window h1)) < length (w_buffer (h_window h))"
      using next_window_ready [OF ready] n Suc.prems(4) ready by (auto simp: window_ready_def)
    with Suc.IH [OF out1 Suc.prems(2) inv Suc.prems(4)] show ?thesis by simp
  qed
qed

lemma scan_append:
  assumes "scan_inv ws ov run text h"
  shows "scan_inv ws ov run (text @ t) (h\<lparr>h_accumulated := a, h_window := window_append t (h_window h)\<rparr>)"
proof -
  have "window_at ws ov k (text @ t) = window_at ws ov k text" if "k * (ws - ov) + ws \<le> length text" for k
    using that by (simp add: window_at_def)
  with assms show ?thesis by (force simp: scan_inv_def window_append_def)
qed

lemma scan_append_window: "scan_inv ws ov run text h \<Longrightarrow> scan_inv ws ov run (text @ t) (h\<lparr>h_window := window_append t (h_window h)\<rparr>)"
  using scan_append [of ws ov run "text" h t "h_accumulated h"] by (simp add: scan_inv_def)

text \<open>The state between two events: everything that is ready was scanned.\<close>

definition settled_scan ::
  "nat \<Rightarrow> nat \<Rightarrow> (nat \<Rightarrow> pystr \<Rightarrow> pipeline_error + pipeline_result) \<Rightarrow> pystr \<Rightarrow> handler \<Rightarrow> bool" where
  "settled_scan ws ov run text h \<longleftrightarrow> scan_inv ws ov run text h \<and> \<not> window_ready (h_window h)"

lemma process_text_scan:
  assumes "process_text cfg run t h = (out, h', None)" and "\<not> h_blocked h'"
    and "settled_scan ws ov run text h" and "ov < ws"
  shows "settled_scan ws ov run (text @ t) h'"
proof -
  define h1 where "h1 = h\<lparr>h_accumulated := h_accumulated h @ t, h_window := window_append t (h_window h)\<rparr>"
  define h2 where "h2 = (if check_exceeded (hc_memory cfg) (h_accumulated h1) then h1\<lparr>h_accumulated := []\<rparr> else h1)"
  have inv: "scan_inv ws ov run (text @ t) h2"
    using assms(3) scan_append [of ws ov run "text" h t]
    unfolding h1_def h2_def by (simp add: settled_scan_def scan_append_window scan_inv_def)
  have "detect_windows (length (w_buffer (h_window h2))) cfg run h2 = (out, h', None)"
    using assms(1,2) unfolding process_text_def h2_def h1_def Let_def by (auto split: if_splits)
  from detect_scan [OF this assms(2) inv assms(4)] show ?thesis by (simp add: settled_scan_def)
qed

definition text_of :: "(pystr \<Rightarrow> json option) \<Rightarrow> pystr \<Rightarrow> pystr" where
  "text_of json_loads event = (case extract_delta_text json_loads event of Inr t \<Rightarrow> t | Inl _ \<Rightarrow> [])"

lemma process_event_scan:
  assumes "process_event cfg j run e h = (out, h', None)" and "\<not> h_blocked h'"
    and "settled_scan ws ov run text h" and "ov < ws"
  shows "settled_scan ws ov run (text @ text_of j e) h'"
proof -
  obtain t where t: "extract_delta_text j e = Inr t"
    using assms(1) by (auto simp: process_event_def Let_def split: sum.splits)
  show ?thesis
  proof (cases "t = [] \<or> h_blocked h")
    case True
    with t assms show ?thesis by (auto simp: process_event_def text_of_def)
  next
    case False
    obtain ev where "process_text cfg run t h = (ev, h', None)"
      using assms(1) t False by (auto simp: process_event_def Let_def split: prod.splits)
    from process_text_scan [OF this assms(2-4)] t show ?thesis by (simp add: text_of_def)
  qed
qed

lemma process_events_scan:
  assumes "process_events cfg j run es h = (out, h', None)" and "\<not> h_blocked h'"
    and "settled_scan ws ov run text h" and "ov < ws"
  shows "settled_scan ws ov run (text @ concat (map (text_of j) es)) h'"
  using assms
proof (induction es arbitrary: h out "text")
  case (Cons e es)
  obtain ev h1 fl where e: "process_event cfg j run e h = (ev, h1, fl)"
    by (cases "process_event cfg j run e h")
  have ok: "fl = None" "\<not> h_blocked h1"
    using Cons.prems(1,2) e by (auto split: if_splits prod.splits)
  obtain out1 where "process_events cfg j run es h1 = (out1, h', None)"
    using Cons.prems(1) e ok by (auto split: prod.splits)
  moreover have "settled_scan ws ov run (text @ text_of j e) h1"
    using process_event_scan [of cfg j run e h ev h1] e ok Cons.prems(3,4) by simp
  ultimately show ?case using Cons.IH [of h1 out1 "text @ text_of j e"] Cons.prems(2,4) by simp
qed simp

text \<open>The text a provider sent, over all its events and what remained at the end.\<close>

definition sent_text :: "(pystr \<Rightarrow> json option) \<Rightarrow> pystr list \<Rightarrow> pystr" where
  "sent_text json_loads chunks =
     (let (events, residue) = sse_split (concat chunks)
      in concat (map (text_of json_loads) (events @ [residue])))"

lemma text_of_Nil [simp]: "text_of j [] = []"
  by (simp add: text_of_def extract_delta_text_def)

lemma settled_with_buffer [simp]: "settled_scan ws ov run text (h\<lparr>h_sse_buffer := b\<rparr>) = settled_scan ws ov run text h"
  by (simp add: settled_scan_def scan_inv_def)

lemma settled_finish [simp]: "settled_scan ws ov run text (finish_stream h) = settled_scan ws ov run text h"
  by (simp add: settled_scan_def scan_inv_def finish_stream_def)

lemma sliding_stream_scan:
  assumes "make_handler window_size overlap = Inr h"
    and "sliding_stream cfg j run chunks None h = (out, h', Stream_ended)" and "\<not> h_blocked h'"
  shows "settled_scan (nat window_size) (nat overlap) run (sent_text j chunks) h'"
proof -
  have h: "\<not> h_blocked h" "h_sse_buffer h = []" "cut_boundary (h_sse_buffer h) = None"
      "settled_scan (nat window_size) (nat overlap) run [] h" and ov: "nat overlap < nat window_size"
    using assms(1) by (auto simp: make_handler_Inr settled_scan_def scan_inv_def window_ready_def)
  obtain es residue where split: "sse_split (concat chunks) = (es, residue)" by (cases "sse_split (concat chunks)")
  obtain ev h1 fault where all: "process_all cfg j run (concat chunks) h = (ev, h1, fault)"
    by (cases "process_all cfg j run (concat chunks) h")
  obtain b where b: "stream_chunks cfg j run chunks None h = (ev, h1\<lparr>h_sse_buffer := b\<rparr>, outcome_of fault)"
      "fault = None \<and> \<not> h_blocked h1 \<longrightarrow> b = residue"
    using stream_chunks_all [OF h(1,3) all] h(2) split by auto
  have ok: "fault = None" "\<not> h_blocked h1"
    using assms(2,3) b(1) by (auto simp: sliding_stream_def outcome_of_def split: option.splits)
  have "process_events cfg j run es h = (ev, h1, None)" using all h(2) split ok by (simp add: process_all_def)
  from process_events_scan [OF this ok(2) h(4) ov]
  have events: "settled_scan (nat window_size) (nat overlap) run (concat (map (text_of j) es)) h1" by simp
  show ?thesis
  proof (cases "residue = []")
    case True
    with assms(2) b ok events split show ?thesis
      by (auto simp: sliding_stream_def outcome_of_def drain_buffer sent_text_def)
  next
    case False
    obtain ev2 h2 f2 where e: "process_event cfg j run residue h1 = (ev2, h2, f2)"
      by (cases "process_event cfg j run residue h1")
    have "f2 = None" "h' = finish_stream (h2\<lparr>h_sse_buffer := []\<rparr>)"
      using assms(2) b ok e False
      by (auto simp: sliding_stream_def outcome_of_def drain_buffer split: option.splits)
    with process_event_scan [of cfg j run residue h1 ev2 h2, OF _ _ events ov] e assms(3) split
    show ?thesis by (simp add: sent_text_def finish_stream_def settled_scan_def scan_inv_def)
  qed
qed

lemma scan_count:
  assumes "settled_scan ws ov run text h" and "ov < ws"
  shows "h_window_count h = (if length text < ws then 0 else Suc ((length text - ws) div (ws - ov)))"
    and "length text < h_window_count h * (ws - ov) + ws"
proof -
  define n step where "n = h_window_count h" and "step = ws - ov"
  have n: "n * step \<le> length text" "length text < n * step + ws"
    and each: "\<And>k. k < n \<Longrightarrow> k * step + ws \<le> length text"
    using assms(1) by (auto simp: settled_scan_def scan_inv_def window_ready_def n_def step_def)
  then show "length text < h_window_count h * (ws - ov) + ws" by (simp add: n_def step_def)
  have "n = (if length text < ws then 0 else Suc ((length text - ws) div step))"
  proof (cases n)
    case 0
    with n show ?thesis by simp
  next
    case (Suc m)
    with each [of m] n(2) have m: "step * m \<le> length text - ws" "length text - ws < step * Suc m" "ws \<le> length text"
      by (auto simp: mult.commute)
    then have "(length text - ws) div step = m" by (simp only: div_nat_eqI)
    with Suc m(3) show ?thesis by simp
  qed
  then show "h_window_count h = (if length text < ws then 0 else Suc ((length text - ws) div (ws - ov)))"
    by (simp add: n_def step_def)
qed

text \<open>A stream that ended without being blocked had every window of its text scanned, in order, and none of them was blocked: the windows are the slices of \<open>window_size\<close> characters at every multiple of \<open>window_size - overlap\<close>, as many as fit.\<close>

theorem stream_scans_windows:
  assumes "make_handler window_size overlap = Inr h"
    and "sliding_stream cfg j run chunks None h = (out, h', Stream_ended)" and "\<not> h_blocked h'"
  shows "h_window_count h' =
      (if length (sent_text j chunks) < nat window_size then 0
       else Suc ((length (sent_text j chunks) - nat window_size) div (nat window_size - nat overlap)))
    \<and> (\<forall>k < h_window_count h'. \<exists>r.
         run k (take (nat window_size) (drop (k * (nat window_size - nat overlap)) (sent_text j chunks))) = Inr r
         \<and> pr_final_action r \<noteq> Block)"
proof -
  have ov: "nat overlap < nat window_size" using assms(1) by (auto simp: make_handler_Inr)
  note scan = sliding_stream_scan [OF assms]
  show ?thesis
    using scan_count(1) [OF scan ov] scan unfolding settled_scan_def scan_inv_def window_at_def by blast
qed

lemma window_contains:
  assumes "i \<le> length a" and "length a + length p \<le> i + ws"
  shows "take ws (drop i (a @ p @ b)) = drop i a @ p @ take (i + ws - length a - length p) b"
  using assms by (simp add: add.commute)

text \<open>C22. When the engine blocks every window with a given pattern of at most \<open>overlap + 1\<close> characters, a stream that ended without a block has it only in the tail of fewer than \<open>window_size - overlap\<close> characters that no window covers, or is shorter than a window.\<close>

theorem blocked_pattern_only_in_tail:
  assumes "make_handler window_size overlap = Inr h"
    and "sliding_stream cfg j run chunks None h = (out, h', Stream_ended)" and "\<not> h_blocked h'"
    and blocks: "\<forall>k before after r. run k (before @ pattern @ after) = Inr r \<longrightarrow> pr_final_action r = Block"
    and "length pattern \<le> nat overlap + 1"
    and "sent_text j chunks = before @ pattern @ after"
  shows "length (sent_text j chunks) < nat window_size \<or> length after < nat window_size - nat overlap"
proof (rule ccontr)
  assume "\<not> ?thesis"
  define ws ov T where "ws = nat window_size" and "ov = nat overlap" and "T = sent_text j chunks"
  define step where "step = ws - ov"
  from \<open>\<not> ?thesis\<close> have long: "ws \<le> length T" "step \<le> length after" by (auto simp: ws_def ov_def T_def step_def)
  have ov: "ov < ws" using assms(1) by (auto simp: make_handler_Inr ws_def ov_def)
  then have step: "0 < step" "ws = step + ov" by (auto simp: step_def)
  have scan: "settled_scan ws ov run T h'" using sliding_stream_scan [OF assms(1-3)] by (simp add: ws_def ov_def T_def)
  define n k where "n = h_window_count h'" and "k = min (length before div step) (n - 1)"
  have T: "T = before @ pattern @ after" and len: "length pattern \<le> ov + 1" using assms(5,6) by (auto simp: T_def ov_def)
  have "length T < n * step + ws" using scan_count(2) [OF scan ov] by (simp only: n_def step_def)
  moreover have "0 < n" using scan_count(1) [OF scan ov] long(1) by (simp add: n_def)
  ultimately have n: "0 < n" "length T < n * step + ws" by auto
  have low: "k * step \<le> length before"
  proof -
    have "k \<le> length before div step" by (simp add: k_def)
    from mult_le_mono1 [OF this, of step] show ?thesis
      using div_times_less_eq_dividend [of "length before" step] by linarith
  qed
  have high: "length before + length pattern \<le> k * step + ws"
  proof (cases "length before div step \<le> n - 1")
    case True
    then have "length before < k * step + step"
      using dividend_less_div_times [OF step(1), of "length before"] by (simp add: k_def add.commute)
    with len step(2) show ?thesis by simp
  next
    case False
    then have "n = Suc k" using n(1) by (simp add: k_def)
    then have "k * step + step = n * step" by simp
    with n(2) T long(2) show ?thesis by simp
  qed
  have "k < n" using n(1) by (auto simp: k_def)
  then obtain r where r: "run k (window_at ws ov k T) = Inr r" "pr_final_action r \<noteq> Block"
    using scan by (auto simp: settled_scan_def scan_inv_def n_def)
  have "window_at ws ov k T = drop (k * step) before @ pattern @ take (k * step + ws - length before - length pattern) after"
    unfolding window_at_def step_def [symmetric] T by (rule window_contains [OF low high])
  with r blocks show False by auto
qed

subsection \<open>A block ends the stream\<close>

fun terminal :: "client_event \<Rightarrow> bool" where
  "terminal (Safety_block _ _) = True"
| "terminal Done = True"
| "terminal _ = False"

text \<open>The output of one step: nothing terminal, or a block followed by the end as its last events.\<close>

definition block_last :: "client_event list \<Rightarrow> handler \<Rightarrow> bool" where
  "block_last out h \<longleftrightarrow>
     (if h_blocked h
      then \<exists>before who payload. out = before @ [Safety_block who payload, Done] \<and> list_all (\<lambda>e. \<not> terminal e) before
      else list_all (\<lambda>e. \<not> terminal e) out)"

lemma block_last_append:
  "list_all (\<lambda>e. \<not> terminal e) xs \<Longrightarrow> block_last out h \<Longrightarrow> block_last (xs @ out) h"
  by (auto simp: block_last_def split: if_splits)

lemma block_last_Cons: "\<not> terminal e \<Longrightarrow> block_last out h \<Longrightarrow> block_last (e # out) h"
  using block_last_append [of "[e]"] by simp

lemma result_flag_terminal [simp]: "\<not> terminal (result_flag cfg r)"
  by (simp add: result_flag_def Let_def)

lemma block_last_cong: "h_blocked h = h_blocked h' \<Longrightarrow> block_last out h = block_last out h'"
  by (simp add: block_last_def)

lemma block_last_simps [simp]: "block_last out (h\<lparr>h_sse_buffer := b\<rparr>) = block_last out h"
  by (simp add: block_last_def)

text \<open>Also, the action is a block exactly for a blocked stream.\<close>

definition ends_well :: "client_event list \<times> handler \<times> 'a \<Rightarrow> bool" where
  "ends_well r \<longleftrightarrow> block_last (fst r) (fst (snd r))
     \<and> (h_output_action (fst (snd r)) = Block \<longleftrightarrow> h_blocked (fst (snd r)))"

definition open_stream :: "handler \<Rightarrow> bool" where
  "open_stream h \<longleftrightarrow> \<not> h_blocked h \<and> h_output_action h \<noteq> Block"

lemma absorb_result_action:
  "h_output_action h \<noteq> Block \<Longrightarrow> h_output_action (absorb_result r h) = Block \<longleftrightarrow> pr_final_action r = Block"
  by (cases "pr_final_action r"; cases "h_output_action h") (auto simp: absorb_result_def update_output_state_def)

lemma detect_windows_ends_well: "open_stream h \<Longrightarrow> ends_well (detect_windows n cfg run h)"
proof (induction n arbitrary: h)
  case 0
  then show ?case by (simp add: ends_well_def block_last_def open_stream_def)
next
  case (Suc n)
  show ?case
  proof (cases "window_ready (h_window h)")
    case False
    with Suc.prems show ?thesis by (simp add: ends_well_def block_last_def open_stream_def)
  next
    case True
    have unblocked: "\<not> h_blocked h" using Suc.prems by (simp add: open_stream_def)
    let ?h = "snd (next_window h)"
    show ?thesis
    proof (cases "run (h_window_count h) (fst (next_window h))")
      case (Inl e)
      with Suc.prems detect_ready [OF True unblocked, of n cfg run] show ?thesis
        by (simp add: ends_well_def block_last_def open_stream_def del: detect_windows.simps)
    next
      case (Inr r)
      have act: "h_output_action ?h \<noteq> Block" using Suc.prems by (simp add: open_stream_def)
      show ?thesis
      proof (cases "pr_final_action r = Block")
        case blk: True
        have "block_last ([] @ [result_block cfg r, Done]) ((absorb_result r ?h)\<lparr>h_blocked := True\<rparr>)"
          unfolding block_last_def result_block_def by auto
        with blk Inr detect_ready [OF True unblocked, of n cfg run] absorb_result_action [OF act, of r]
        show ?thesis by (simp add: ends_well_def del: detect_windows.simps)
      next
        case False
        then have "open_stream (absorb_result r ?h)"
          using Suc.prems absorb_result_action [OF act, of r] by (simp add: open_stream_def)
        from Suc.IH [OF this] False Inr detect_ready [OF True unblocked, of n cfg run]
        show ?thesis
          by (auto simp: ends_well_def Let_def block_last_Cons simp del: detect_windows.simps)
      qed
    qed
  qed
qed

lemma process_text_ends_well: "open_stream h \<Longrightarrow> ends_well (process_text cfg run t h)"
proof -
  assume h: "open_stream h"
  have "block_last ([] @ [limit_block cfg, Done]) (g\<lparr>h_blocked := True\<rparr>)" for g
    unfolding block_last_def limit_block_def by auto
  then have lim: "ends_well ([limit_block cfg, Done], g\<lparr>h_blocked := True, h_output_action := Block,
      h_output_risk_level := r\<rparr>, None :: stream_error option)" for g r
    by (simp add: ends_well_def block_last_def)
  have step: "ends_well (detect_windows n cfg run (h\<lparr>h_accumulated := a, h_window := w\<rparr>))"
    "ends_well (detect_windows n cfg run (h\<lparr>h_window := w, h_accumulated := a\<rparr>))" for n a w
    using h by (auto intro!: detect_windows_ends_well simp: open_stream_def)
  show ?thesis
    unfolding process_text_def Let_def using lim step by simp
qed

lemma process_event_ends_well:
  assumes "open_stream h"
  shows "ends_well (process_event cfg j run e h)"
proof -
  have quiet: "block_last [Forwarded e] h" using assms by (simp add: block_last_def open_stream_def)
  have "ends_well (process_text cfg run t h)" for t by (rule process_text_ends_well [OF assms])
  with assms quiet show ?thesis
    by (auto simp: process_event_def ends_well_def open_stream_def Let_def case_prod_beta block_last_Cons split: sum.split)
qed

lemma process_events_ends_well: "open_stream h \<Longrightarrow> ends_well (process_events cfg j run es h)"
proof (induction es arbitrary: h)
  case Nil
  then show ?case by (simp add: ends_well_def block_last_def open_stream_def)
next
  case (Cons e es)
  obtain ev h1 fl where e: "process_event cfg j run e h = (ev, h1, fl)"
    by (cases "process_event cfg j run e h")
  have ev: "ends_well (ev, h1, fl)" using process_event_ends_well [OF Cons.prems, of cfg j run e] e by simp
  show ?case
  proof (cases "fl \<noteq> None \<or> h_blocked h1")
    case True
    with e ev show ?thesis by (simp add: ends_well_def)
  next
    case False
    with ev have "open_stream h1" "list_all (\<lambda>e. \<not> terminal e) ev"
      by (auto simp: ends_well_def open_stream_def block_last_def)
    with Cons.IH [OF this(1)] e False show ?thesis
      by (auto simp: ends_well_def case_prod_beta intro: block_last_append)
  qed
qed

lemma stream_chunks_ends_well: "open_stream h \<Longrightarrow> ends_well (stream_chunks cfg j run chunks failure h)"
proof (induction chunks arbitrary: h)
  case Nil
  then show ?case by (simp add: ends_well_def block_last_def open_stream_def)
next
  case (Cons c cs)
  obtain ev h1 fl where c: "process_chunk cfg j run c h = (ev, h1, fl)"
    by (cases "process_chunk cfg j run c h")
  have "open_stream (h\<lparr>h_sse_buffer := b\<rparr>)" for b using Cons.prems by (simp add: open_stream_def)
  from process_events_ends_well [OF this] have ev: "ends_well (ev, h1, fl)"
    using c Cons.prems by (simp add: process_chunk_def open_stream_def case_prod_beta) metis
  have unblocked: "\<not> h_blocked h" using Cons.prems by (simp add: open_stream_def)
  show ?case
  proof (cases "fl \<noteq> None \<or> h_blocked h1")
    case True
    with c ev unblocked show ?thesis
      by (cases cs) (auto simp: ends_well_def split: option.splits)
  next
    case False
    with ev have "open_stream h1" "list_all (\<lambda>e. \<not> terminal e) ev"
      by (auto simp: ends_well_def open_stream_def block_last_def)
    with Cons.IH [OF this(1)] c False unblocked show ?thesis
      by (auto simp: ends_well_def case_prod_beta intro: block_last_append)
  qed
qed

lemma stream_chunks_fails:
  "stream_chunks cfg j run cs failure h = (ev, h', Provider_failed m) \<Longrightarrow> failure = Some m"
proof (induction cs arbitrary: h ev)
  case Nil
  then show ?case by (auto split: option.splits)
next
  case (Cons c cs)
  then show ?case by (auto split: if_splits prod.splits option.splits)
qed

lemma make_handler_open: "make_handler window_size overlap = Inr h \<Longrightarrow> open_stream h"
  by (auto simp: make_handler_Inr open_stream_def)

lemma drain_ends_well:
  assumes "open_stream h"
  shows "ends_well (drain cfg j run h)"
proof -
  have h: "open_stream (h\<lparr>h_sse_buffer := []\<rparr>)" using assms by (simp add: open_stream_def)
  then have "ends_well ([], h\<lparr>h_sse_buffer := []\<rparr>, None :: stream_fault option)"
    by (simp add: ends_well_def block_last_def open_stream_def)
  with process_event_ends_well [OF h] assms show ?thesis
    by (simp add: drain_def sse_flush_def open_stream_def)
qed

text \<open>
  The events the route appends after the handler's own: the error of a provider that failed, and an end
  marker, which follows the one of a block where the failure or the drained rest come after it.
\<close>

definition closing_events :: "pystr option \<Rightarrow> client_event list set" where
  "closing_events failure =
     {[], [Done]} \<union> (case failure of None \<Rightarrow> {} | Some message \<Rightarrow> {[Provider_failure message, Done]})"

lemma closing_events_mem [simp]: "[] \<in> closing_events f" "[Done] \<in> closing_events f"
    "[Provider_failure m, Done] \<in> closing_events (Some m)"
  by (simp_all add: closing_events_def)

lemma blocked_closing:
  assumes "block_last ev h" and "h_blocked h" and "rest \<in> closing_events failure"
  shows "\<exists>before who payload after. ev @ rest = before @ [Safety_block who payload, Done] @ after
    \<and> list_all (\<lambda>e. \<not> terminal e) before \<and> after \<in> closing_events failure"
proof -
  obtain before who payload where "ev = before @ [Safety_block who payload, Done]" "list_all (\<lambda>e. \<not> terminal e) before"
    using assms(1,2) by (auto simp: block_last_def)
  then have "ev @ rest = before @ [Safety_block who payload, Done] @ rest" "list_all (\<lambda>e. \<not> terminal e) before"
    by simp_all
  with assms(3) show ?thesis by blast
qed

lemma open_closing: "block_last ev h \<Longrightarrow> \<not> h_blocked h \<Longrightarrow> list_all (\<lambda>e. \<not> terminal e) ev"
  by (simp add: block_last_def)

text \<open>C23. Of the whole sliding-window stream as the client sees it: as long as it is not blocked there is no safety block in it, and it closes as it ended, with the end marker, with the provider's error and the end marker, or, when an exception left it, with neither. A blocked stream has, after what was let through, one block and the end marker; nothing of the provider's text comes after them, at most the provider's error and a second end marker. The recorded action is a block exactly for a blocked stream.\<close>

theorem block_ends_stream:
  assumes "make_handler window_size overlap = Inr h"
    and "sliding_stream cfg j run chunks failure h = (out, h', outcome)"
  shows "(h_output_action h' = Block \<longleftrightarrow> h_blocked h')
    \<and> (if h_blocked h'
       then \<exists>before who payload after. out = before @ [Safety_block who payload, Done] @ after
              \<and> list_all (\<lambda>e. \<not> terminal e) before \<and> after \<in> closing_events failure
       else \<exists>before. list_all (\<lambda>e. \<not> terminal e) before
              \<and> out = before @ (case outcome of Stream_ended \<Rightarrow> [Done]
                  | Provider_failed message \<Rightarrow> [Provider_failure message, Done] | Faulted _ \<Rightarrow> []))"
proof -
  obtain ev h1 oc where c: "stream_chunks cfg j run chunks failure h = (ev, h1, oc)"
    by (cases "stream_chunks cfg j run chunks failure h")
  have "ends_well (ev, h1, oc)"
    using stream_chunks_ends_well [OF make_handler_open [OF assms(1)], of cfg j run chunks failure] c by simp
  then have well: "block_last ev h1" "h_output_action h1 = Block \<longleftrightarrow> h_blocked h1" by (simp_all add: ends_well_def)
  show ?thesis
  proof (cases oc)
    case (Faulted f)
    then have "out = ev @ []" "h' = h1" "outcome = Faulted f" using c assms(2) by (auto simp: sliding_stream_def)
    with well blocked_closing [OF well(1), of "[]" failure] open_closing [OF well(1)] show ?thesis by auto
  next
    case (Provider_failed m)
    then have "out = ev @ [Provider_failure m, Done]" "h' = h1" "outcome = Provider_failed m" "failure = Some m"
      using c assms(2) stream_chunks_fails by (auto simp: sliding_stream_def)
    with well blocked_closing [OF well(1), of "[Provider_failure m, Done]" failure] open_closing [OF well(1)]
    show ?thesis by auto
  next
    case Stream_ended
    show ?thesis
    proof (cases "h_blocked h1")
      case True
      then have "out = ev @ []" "h' = h1" using Stream_ended c assms(2) by (auto simp: sliding_stream_def)
      with True well blocked_closing [OF well(1), of "[]" failure] show ?thesis by auto
    next
      case False
      then have "open_stream h1" using well(2) by (simp add: open_stream_def)
      obtain dr h2 fault where d: "drain cfg j run h1 = (dr, h2, fault)" by (cases "drain cfg j run h1")
      have "ends_well (dr, h2, fault)" using drain_ends_well [OF \<open>open_stream h1\<close>, of cfg j run] d by simp
      then have dw: "block_last (ev @ dr) h2" "h_output_action h2 = Block \<longleftrightarrow> h_blocked h2"
        using open_closing [OF well(1) False] by (auto simp: ends_well_def intro: block_last_append)
      show ?thesis
      proof (cases fault)
        case None
        then have "out = (ev @ dr) @ [Done]" "h' = finish_stream h2" "outcome = Stream_ended"
          using assms(2) c Stream_ended False d by (auto simp: sliding_stream_def)
        with dw blocked_closing [OF dw(1), of "[Done]" failure] open_closing [OF dw(1)]
        show ?thesis by (auto simp: finish_stream_def simp del: append_assoc)
      next
        case (Some f)
        then have "out = (ev @ dr) @ []" "h' = h2" "outcome = Faulted f"
          using assms(2) c Stream_ended False d by (auto simp: sliding_stream_def)
        with dw blocked_closing [OF dw(1), of "[]" failure] open_closing [OF dw(1)]
        show ?thesis by (auto simp del: append_assoc)
      qed
    qed
  qed
qed

subsection \<open>A short stream\<close>

text \<open>Below a window's length nothing depends on the engine.\<close>

lemma process_text_short:
  assumes "length (w_buffer (h_window h) @ t) < w_size (h_window h)"
  shows "process_text cfg run t h = process_text cfg run' t h
    \<and> h_window (fst (snd (process_text cfg run t h))) = window_append t (h_window h)"
proof -
  have quiet: "detect_windows n cfg r (h\<lparr>h_accumulated := a, h_window := window_append t (h_window h)\<rparr>)
      = ([], h\<lparr>h_accumulated := a, h_window := window_append t (h_window h)\<rparr>, None)"
    "detect_windows n cfg r (h\<lparr>h_window := window_append t (h_window h), h_accumulated := a\<rparr>)
      = ([], h\<lparr>h_window := window_append t (h_window h), h_accumulated := a\<rparr>, None)" for n r a
    using assms by (cases n; simp add: window_ready_def window_append_def)+
  show ?thesis by (simp add: process_text_def Let_def quiet)
qed

lemma process_event_short:
  assumes "length (w_buffer (h_window h) @ text_of j e) < w_size (h_window h)"
  shows "process_event cfg j run e h = process_event cfg j run' e h
    \<and> (\<not> h_blocked (fst (snd (process_event cfg j run e h))) \<longrightarrow>
         h_window (fst (snd (process_event cfg j run e h))) = window_append (text_of j e) (h_window h))"
proof (cases "extract_delta_text j e")
  case (Inl u)
  then show ?thesis by (simp add: process_event_def text_of_def window_append_def)
next
  case (Inr t)
  with assms process_text_short [of h t cfg run run'] show ?thesis
    by (auto simp: process_event_def text_of_def window_append_def Let_def case_prod_beta)
qed

lemma process_events_short:
  assumes "length (w_buffer (h_window h) @ concat (map (text_of j) es)) < w_size (h_window h)"
  shows "process_events cfg j run es h = process_events cfg j run' es h
    \<and> (\<not> h_blocked (fst (snd (process_events cfg j run es h))) \<and> snd (snd (process_events cfg j run es h)) = None \<longrightarrow>
         h_window (fst (snd (process_events cfg j run es h))) = window_append (concat (map (text_of j) es)) (h_window h))"
  using assms
proof (induction es arbitrary: h)
  case Nil
  then show ?case by (simp add: window_append_def)
next
  case (Cons e es)
  obtain ev h1 fl where e: "process_event cfg j run e h = (ev, h1, fl)"
    by (cases "process_event cfg j run e h")
  have "length (w_buffer (h_window h) @ text_of j e) < w_size (h_window h)" using Cons.prems by simp
  from process_event_short [OF this, of cfg run run'] e
  have e': "process_event cfg j run' e h = (ev, h1, fl)"
    and win: "\<not> h_blocked h1 \<Longrightarrow> h_window h1 = window_append (text_of j e) (h_window h)" by auto
  show ?case
  proof (cases "fl \<noteq> None \<or> h_blocked h1")
    case True
    with e e' show ?thesis by auto
  next
    case False
    with win have w: "h_window h1 = window_append (text_of j e) (h_window h)" by simp
    then have "length (w_buffer (h_window h1) @ concat (map (text_of j) es)) < w_size (h_window h1)"
      using Cons.prems by (simp add: window_append_def)
    from Cons.IH [OF this] e e' False w show ?thesis
      by (auto simp: window_append_def case_prod_beta)
  qed
qed

text \<open>A stream whose text is shorter than a window is forwarded without any detection: what the client gets, the outcome and the recorded action are the same for every engine.\<close>

theorem short_stream_unscanned:
  assumes "make_handler window_size overlap = Inr h"
    and "length (sent_text j chunks) < nat window_size"
    and "sliding_stream cfg j run chunks None h = (out, h1, outcome)"
    and "sliding_stream cfg j run' chunks None h = (out', h2, outcome')"
  shows "out = out' \<and> outcome = outcome' \<and> h1\<lparr>h_sse_buffer := []\<rparr> = h2\<lparr>h_sse_buffer := []\<rparr>"
proof -
  have h: "\<not> h_blocked h" "h_sse_buffer h = []" "cut_boundary (h_sse_buffer h) = None"
      "w_buffer (h_window h) = []" "w_size (h_window h) = nat window_size"
    using assms(1) by (auto simp: make_handler_Inr)
  obtain es residue where split: "sse_split (concat chunks) = (es, residue)" by (cases "sse_split (concat chunks)")
  have len: "length (concat (map (text_of j) es) @ text_of j residue) < nat window_size"
    using assms(2) split by (simp add: sent_text_def)
  obtain ev g fault where all: "process_all cfg j run (concat chunks) h = (ev, g, fault)"
    by (cases "process_all cfg j run (concat chunks) h")
  note short = process_events_short [of h j es cfg run run']
  have all': "process_all cfg j run' (concat chunks) h = (ev, g, fault)"
    using short len h split all by (simp add: process_all_def)
  obtain b where b: "stream_chunks cfg j run chunks None h = (ev, g\<lparr>h_sse_buffer := b\<rparr>, outcome_of fault)"
      "fault = None \<and> \<not> h_blocked g \<longrightarrow> b = residue"
    using stream_chunks_all [OF h(1,3) all] h(2) split by auto
  obtain c where c: "stream_chunks cfg j run' chunks None h = (ev, g\<lparr>h_sse_buffer := c\<rparr>, outcome_of fault)"
      "fault = None \<and> \<not> h_blocked g \<longrightarrow> c = residue"
    using stream_chunks_all [OF h(1,3) all'] h(2) split by auto
  show ?thesis
  proof (cases "fault = None \<and> \<not> h_blocked g")
    case False
    with b(1) c(1) assms(3,4) show ?thesis
      by (auto simp: sliding_stream_def outcome_of_def split: option.splits)
  next
    case True
    have w: "h_window g = window_append (concat (map (text_of j) es)) (h_window h)"
      using short len h split all True by (auto simp: process_all_def)
    then have "length (w_buffer (h_window g) @ text_of j residue) < w_size (h_window g)"
      using len h by (simp add: window_append_def)
    from process_event_short [OF this, of cfg run run'] b c True
    have "sliding_stream cfg j run chunks None h = sliding_stream cfg j run' chunks None h"
      by (simp add: sliding_stream_def outcome_of_def drain_buffer)
    with assms(3,4) show ?thesis by simp
  qed
qed

subsection \<open>Concrete streams\<close>

text \<open>
  Windows of four characters that overlap by two; an engine that blocks every window with a \<open>k\<close>;
  a JSON reader that takes the payload itself as the content.
\<close>

definition sample_handler :: handler where
  "sample_handler =
     \<lparr>h_window = \<lparr>w_size = 4, w_overlap = 2, w_buffer = []\<rparr>, h_sse_buffer = [], h_blocked = False,
      h_accumulated = [], h_completed = False, h_output_action = Allow, h_output_risk_level = Low,
      h_window_count = 0, h_detector_results = []\<rparr>"

definition sample_stream_config :: handler_config where
  "sample_stream_config =
     \<lparr>hc_send_flag_events = False, hc_request_id = ''r'',
      hc_memory = \<lparr>sm_limit = 1000, sm_policy = Block_on_max\<rparr>\<rparr>"

definition sample_json :: "pystr \<Rightarrow> json option" where
  "sample_json payload =
     Some (JObj [(''choices'', JArr [JObj [(''delta'', JObj [(''content'', JStr payload)])]])])"

definition sample_engine :: "nat \<Rightarrow> pystr \<Rightarrow> pipeline_error + pipeline_result" where
  "sample_engine k content =
     Inr ((empty_pipeline_result 0)\<lparr>pr_final_action := (if CHR ''k'' \<in> set content then Block else Allow)\<rparr>)"

abbreviation sample_run :: "pystr list \<Rightarrow> client_event list \<times> handler \<times> stream_outcome" where
  "sample_run chunks \<equiv> sliding_stream sample_stream_config sample_json sample_engine chunks None sample_handler"

definition sample_event :: "pystr \<Rightarrow> pystr" where
  "sample_event t = ''data: '' @ t @ [newline, newline]"

lemma make_sample_handler: "make_handler 4 2 = Inr sample_handler"
  by (simp add: make_handler_Inr sample_handler_def)

lemma sample_run_abcdk:
  "snd (snd (sample_run [sample_event ''abc'', sample_event ''dk''])) = Stream_ended"
  "\<not> h_blocked (fst (snd (sample_run [sample_event ''abc'', sample_event ''dk''])))"
  "h_window_count (fst (snd (sample_run [sample_event ''abc'', sample_event ''dk'']))) = 1"
  "sent_text sample_json [sample_event ''abc'', sample_event ''dk''] = ''abcdk''"
  by code_simp+

theorem stream_cut_irrelevant_witness:
  "\<exists>out h1 outcome out' h2 outcome'.
     sample_run [sample_event ''abc'', sample_event ''dk''] = (out, h1, outcome)
     \<and> sample_run (map (\<lambda>c. [c]) (concat [sample_event ''abc'', sample_event ''dk''])) = (out', h2, outcome')
     \<and> out = out' \<and> outcome = outcome' \<and> h1\<lparr>h_sse_buffer := []\<rparr> = h2\<lparr>h_sse_buffer := []\<rparr>"
proof -
  obtain out h1 outcome where a: "sample_run [sample_event ''abc'', sample_event ''dk''] = (out, h1, outcome)"
    by (metis prod.collapse)
  obtain out' h2 outcome' where b:
    "sample_run (map (\<lambda>c. [c]) (concat [sample_event ''abc'', sample_event ''dk''])) = (out', h2, outcome')"
    by (metis prod.collapse)
  show ?thesis using stream_cut_irrelevant [OF make_sample_handler _ a b] a b by auto
qed

theorem stream_scans_windows_witness:
  "\<exists>out h'. sample_run [sample_event ''abc'', sample_event ''dk''] = (out, h', Stream_ended)
     \<and> h_window_count h' = 1 \<and> (\<exists>r. sample_engine 0 ''abcd'' = Inr r \<and> pr_final_action r \<noteq> Block)"
proof -
  obtain out h' where a: "sample_run [sample_event ''abc'', sample_event ''dk''] = (out, h', Stream_ended)"
    using sample_run_abcdk(1) by (metis prod.collapse)
  have "\<not> h_blocked h'" using sample_run_abcdk(2) a by simp
  from stream_scans_windows [OF make_sample_handler a this] a show ?thesis
    by (auto simp: sample_run_abcdk(4))
qed

theorem blocked_pattern_only_in_tail_witness:
  "\<exists>out h'. sample_run [sample_event ''abc'', sample_event ''dk''] = (out, h', Stream_ended) \<and> \<not> h_blocked h'
     \<and> (length (sent_text sample_json [sample_event ''abc'', sample_event ''dk'']) < nat 4
        \<or> length ([] :: pystr) < nat 4 - nat 2)"
proof -
  obtain out h' where a: "sample_run [sample_event ''abc'', sample_event ''dk''] = (out, h', Stream_ended)"
    using sample_run_abcdk(1) by (metis prod.collapse)
  have u: "\<not> h_blocked h'" using sample_run_abcdk(2) a by simp
  have blocks: "\<forall>k before after r. sample_engine k (before @ ''k'' @ after) = Inr r \<longrightarrow> pr_final_action r = Block"
    by (auto simp: sample_engine_def)
  show ?thesis
    using blocked_pattern_only_in_tail [OF make_sample_handler a u blocks, of "''abcd''" "[]"] a u
    by (simp add: sample_run_abcdk(4))
qed

theorem block_ends_stream_witness:
  "\<exists>out h' outcome before who payload after.
     sliding_stream sample_stream_config sample_json sample_engine
       [sample_event ''abck'', sample_event ''def''] (Some ''lost'') sample_handler = (out, h', outcome)
     \<and> h_blocked h' \<and> h_output_action h' = Block
     \<and> out = before @ [Safety_block who payload, Done] @ after
     \<and> list_all (\<lambda>e. \<not> terminal e) before \<and> after \<in> closing_events (Some ''lost'')"
proof -
  let ?run = "sliding_stream sample_stream_config sample_json sample_engine
       [sample_event ''abck'', sample_event ''def''] (Some ''lost'') sample_handler"
  obtain out h' outcome where a: "?run = (out, h', outcome)" by (metis prod.collapse)
  have "h_blocked (fst (snd ?run))" by code_simp
  then have "h_blocked h'" using a by simp
  with block_ends_stream [OF make_sample_handler a] a show ?thesis by auto
qed

theorem short_stream_unscanned_witness:
  "\<exists>out h1 outcome out' h2 outcome'.
     sample_run [sample_event ''k''] = (out, h1, outcome)
     \<and> sliding_stream sample_stream_config sample_json (\<lambda>_ _. Inl Invalid_short_circuit) [sample_event ''k''] None
         sample_handler = (out', h2, outcome')
     \<and> out = out' \<and> outcome = outcome' \<and> h1\<lparr>h_sse_buffer := []\<rparr> = h2\<lparr>h_sse_buffer := []\<rparr>
     \<and> fst (sample_run [sample_event ''k'']) = [Forwarded (sample_event ''k''), Done]"
proof -
  obtain out h1 outcome where a: "sample_run [sample_event ''k''] = (out, h1, outcome)"
    by (metis prod.collapse)
  obtain out' h2 outcome' where b:
    "sliding_stream sample_stream_config sample_json (\<lambda>_ _. Inl Invalid_short_circuit) [sample_event ''k''] None
         sample_handler = (out', h2, outcome')"
    by (metis prod.collapse)
  have short: "length (sent_text sample_json [sample_event ''k'']) < nat 4" by code_simp
  have out: "fst (sample_run [sample_event ''k'']) = [Forwarded (sample_event ''k''), Done]" by code_simp
  show ?thesis using short_stream_unscanned [OF make_sample_handler short a b] a b out by auto
qed

end
