(* ===== verification/Lifecycle.thy ===== *)
theory Lifecycle
  imports Detector_Status "HOL-Library.Multiset" "HOL-Library.Sublist"
begin

text \<open>
  \<open>flow/detector_adapter.py\<close>: the coordinator that registers detectors, initializes and checks each
  instance once, and shuts down what it initialized.

  What a detector does when it is initialized and checked is a \<open>plugin\<close>; the calls made to detectors
  are kept in order as a trace, from which the laws are stated. A shutdown that fails or times out is
  logged by the code and changes nothing; one that is cancelled ends the loop of \<open>shutdown_all\<close>. The start-up
  awaits \<open>initialize\<close> without a limit of time, so a call may never return, and then the start-up does
  not either (\<open>initialize_awaited\<close>); the other operations are about calls that return. The configurations
  passed on are left out.
\<close>

subsection \<open>Adapters\<close>

definition capability_id :: "pystr \<Rightarrow> unit + pystr" where
  "capability_id detector_name =
     (let normalized = strip_dashes (dash_invalid detector_name) in
      if normalized = [] then Inl () else Inr (''detector.'' @ normalized))"

text \<open>The descriptor of a \<open>DetectorCapabilityAdapter\<close>, with the checks its fields make.\<close>

definition detector_adapter :: "detector \<Rightarrow> unit + capability_descriptor" where
  "detector_adapter d =
     bind_res (capability_id (det_name d)) (\<lambda>cid.
     bind_res (guard_res (valid_contract_id cid) ()) (\<lambda>_.
     bind_res (validate_non_empty_bounded (det_version d)) (\<lambda>version.
     bind_res (validate_non_empty_bounded (det_name d)) (\<lambda>name.
     bind_res (validate_non_empty_bounded (det_category d)) (\<lambda>category. Inr
       \<lparr>cd_contract_version = ''1.0'', cd_capability_id = cid, cd_implementation_version = version,
        cd_input_schema = ''safety.text.v1'', cd_output_schema = ''safety.detector-result.v1'',
        cd_name = Some name, cd_category = Some category\<rparr>)))))"

subsection \<open>The coordinator\<close>

record registration =
  rn_direction :: direction
  rn_name :: pystr
  rn_detector :: detector
  rn_timeout_seconds :: pyfloat

record coordinator =
  co_registry :: status_registry
  co_registrations :: "registration list"
  co_adapters :: "(status_key \<times> capability_descriptor) list"
  co_initialized :: "detector list"
  co_initialized_ids :: "nat list"

definition new_coordinator :: coordinator where
  "new_coordinator =
     \<lparr>co_registry = [], co_registrations = [], co_adapters = [], co_initialized = [], co_initialized_ids = []\<rparr>"

definition register_detector ::
  "direction \<Rightarrow> detector \<Rightarrow> pystr \<Rightarrow> bool \<Rightarrow> pystr \<Rightarrow> pyfloat \<Rightarrow> coordinator \<Rightarrow> status_error + coordinator" where
  "register_detector direction d detector_type required on_error timeout co =
     bind_res (register_status direction (det_name d) detector_type required on_error timeout (co_registry co)) (\<lambda>reg.
       Inr (co\<lparr>co_registry := reg,
               co_registrations := co_registrations co
                 @ [\<lparr>rn_direction = direction, rn_name = det_name d, rn_detector = d, rn_timeout_seconds = timeout\<rparr>]\<rparr>))"

datatype life_event = Initialize detector | Health_check detector | Shutdown detector

datatype init_outcome = Init_done | Init_raised | Init_cancelled

datatype check_outcome = Checked health_outcome | Check_cancelled

record plugin =
  pl_initialize :: init_outcome
  pl_health_check :: check_outcome

datatype interruption = Cancelled_error | Adapter_error

text \<open>The registrations of each instance, in the order of their first one.\<close>

function group_registrations :: "registration list \<Rightarrow> registration list list" where
  "group_registrations [] = []"
| "group_registrations (r # rs) =
     (let same = (\<lambda>x. det_id (rn_detector x) = det_id (rn_detector r)) in
      (r # filter same rs) # group_registrations (filter (\<lambda>x. \<not> same x) rs))"
  by pat_completeness auto
termination
  by (relation "measure length") (auto simp: le_imp_less_Suc)

definition transition_all ::
  "registration list \<Rightarrow> detector_state \<Rightarrow> detector_reason option \<Rightarrow> detector option \<Rightarrow> status_registry
     \<Rightarrow> status_error + status_registry" where
  "transition_all rs state reason_code d =
     fold_res (\<lambda>r reg. bind_res (transition_status (rn_direction r) (rn_name r) state reason_code d reg)
                         (\<lambda>(_, _, reg). Inr reg)) rs"

fun health_state :: "health_outcome \<Rightarrow> detector_state \<times> detector_reason option" where
  "health_state Health_timed_out = (UNHEALTHY, Some HEALTH_CHECK_TIMEOUT)"
| "health_state Health_raised = (UNHEALTHY, Some HEALTH_CHECK_ERROR)"
| "health_state (Answered healthy) =
     (if healthy then (HEALTHY, None) else (UNHEALTHY, Some HEALTH_CHECK_FAILED))"

text \<open>
  One turn of the loop of \<open>initialize_all\<close> whose calls return: the coordinator, the calls made and the
  exception that leaves the loop, if any. A cancellation that reaches the clean-up of a call that raised
  leaves the loop as \<open>Init_cancelled\<close> does; a second one, during the clean-up of a cancelled health check, is
  left out.
\<close>

definition initialize_group ::
  "(detector \<Rightarrow> plugin) \<Rightarrow> registration list \<Rightarrow> coordinator
     \<Rightarrow> status_error + (coordinator \<times> life_event list \<times> interruption option)" where
  "initialize_group plugins rs co =
     (let d = rn_detector (hd rs) in
      if det_id d \<in> set (co_initialized_ids co) then Inr (co, [], None)
      else
        bind_res (transition_all rs INITIALIZING None None (co_registry co)) (\<lambda>reg.
        let co = co\<lparr>co_registry := reg\<rparr> in
        case pl_initialize (plugins d) of
          Init_cancelled \<Rightarrow> Inr (co, [Initialize d, Shutdown d], Some Cancelled_error)
        | Init_raised \<Rightarrow>
            bind_res (transition_all rs UNAVAILABLE_STATE (Some INITIALIZATION_ERROR) None reg) (\<lambda>reg.
              Inr (co\<lparr>co_registry := reg\<rparr>, [Initialize d, Shutdown d], None))
        | Init_done \<Rightarrow>
            let live = co\<lparr>co_initialized_ids := det_id d # co_initialized_ids co,
                          co_initialized := co_initialized co @ [d]\<rparr> in
            (case detector_adapter d of
               Inl _ \<Rightarrow> Inr (live, [Initialize d], Some Adapter_error)
             | Inr adapter \<Rightarrow>
                 (case pl_health_check (plugins d) of
                    Check_cancelled \<Rightarrow> Inr (co, [Initialize d, Health_check d, Shutdown d], Some Cancelled_error)
                  | Checked outcome \<Rightarrow>
                      (let (state, reason) = health_state outcome in
                       bind_res (transition_all rs state reason (Some d) reg) (\<lambda>reg.
                         Inr (live\<lparr>co_registry := reg,
                                co_adapters := fold (\<lambda>r. AList.update (rn_direction r, rn_name r) adapter) rs
                                                 (co_adapters co)\<rparr>,
                              [Initialize d, Health_check d], None)))))))"

fun initialize_groups ::
  "(detector \<Rightarrow> plugin) \<Rightarrow> registration list list \<Rightarrow> coordinator
     \<Rightarrow> status_error + (coordinator \<times> life_event list \<times> interruption option)" where
  "initialize_groups plugins [] co = Inr (co, [], None)"
| "initialize_groups plugins (g # gs) co =
     bind_res (initialize_group plugins g co) (\<lambda>(co, events, raised).
       case raised of
         Some e \<Rightarrow> Inr (co, events, Some e)
       | None \<Rightarrow>
           bind_res (initialize_groups plugins gs co) (\<lambda>(co, events', raised).
             Inr (co, events @ events', raised)))"

definition initialize_all ::
  "(detector \<Rightarrow> plugin) \<Rightarrow> coordinator \<Rightarrow> status_error + (coordinator \<times> life_event list \<times> interruption option)" where
  "initialize_all plugins co = initialize_groups plugins (group_registrations (co_registrations co)) co"

text \<open>
  The start-up with calls that may never return: \<open>hangs\<close> says whose \<open>initialize\<close> does not, and \<open>None\<close> is a
  start-up that does not return. The health check is bounded by its timeout and always does.
\<close>

fun await_groups ::
  "(detector \<Rightarrow> bool) \<Rightarrow> (detector \<Rightarrow> plugin) \<Rightarrow> registration list list \<Rightarrow> coordinator
     \<Rightarrow> (status_error + (coordinator \<times> life_event list \<times> interruption option)) option" where
  "await_groups hangs plugins [] co = Some (Inr (co, [], None))"
| "await_groups hangs plugins (g # gs) co =
     (if hangs (rn_detector (hd g)) \<and> det_id (rn_detector (hd g)) \<notin> set (co_initialized_ids co) then None
      else
        (case initialize_group plugins g co of
           Inl e \<Rightarrow> Some (Inl e)
         | Inr (co, events, Some e) \<Rightarrow> Some (Inr (co, events, Some e))
         | Inr (co, events, None) \<Rightarrow>
             map_option (\<lambda>rest. bind_res rest (\<lambda>(co, events', raised). Inr (co, events @ events', raised)))
               (await_groups hangs plugins gs co)))"

definition initialize_awaited ::
  "(detector \<Rightarrow> bool) \<Rightarrow> (detector \<Rightarrow> plugin) \<Rightarrow> coordinator
     \<Rightarrow> (status_error + (coordinator \<times> life_event list \<times> interruption option)) option" where
  "initialize_awaited hangs plugins co = await_groups hangs plugins (group_registrations (co_registrations co)) co"

text \<open>
  The loop of \<open>shutdown_all\<close>: a failed or late shutdown is logged, a cancelled one is raised again and
  leaves the loop before the lists are cleared.
\<close>

fun shutdown_in_turn :: "(detector \<Rightarrow> bool) \<Rightarrow> detector list \<Rightarrow> life_event list \<times> bool" where
  "shutdown_in_turn cancelled [] = ([], False)"
| "shutdown_in_turn cancelled (d # ds) =
     (if cancelled d then ([Shutdown d], True)
      else let (events, raised) = shutdown_in_turn cancelled ds in (Shutdown d # events, raised))"

definition shutdown_coordinator ::
  "(detector \<Rightarrow> bool) \<Rightarrow> coordinator \<Rightarrow> coordinator \<times> life_event list \<times> interruption option" where
  "shutdown_coordinator cancelled co =
     (let (events, raised) = shutdown_in_turn cancelled (rev (co_initialized co)) in
      if raised then (co, events, Some Cancelled_error)
      else (co\<lparr>co_initialized := [], co_initialized_ids := []\<rparr>, events, None))"

text \<open>A shutdown that nobody cancels.\<close>

definition shutdown_all :: "coordinator \<Rightarrow> coordinator \<times> life_event list" where
  "shutdown_all co = (let (co, events, raised) = shutdown_coordinator (\<lambda>_. False) co in (co, events))"

lemma shutdown_in_turn_all: "\<not> list_ex cancelled ds \<Longrightarrow> shutdown_in_turn cancelled ds = (map Shutdown ds, False)"
  by (induction ds) auto

lemma shutdown_all_eq:
  "shutdown_all co = (co\<lparr>co_initialized := [], co_initialized_ids := []\<rparr>, map Shutdown (rev (co_initialized co)))"
  by (simp add: shutdown_all_def shutdown_coordinator_def shutdown_in_turn_all list_ex_iff)

definition coordinator_snapshot ::
  "coordinator \<Rightarrow> detector_status list \<times> (status_key \<times> capability_descriptor) list" where
  "coordinator_snapshot co = (snapshot_statuses (co_registry co), co_adapters co)"

subsection \<open>Every initialized detector is shut down once\<close>

fun inits :: "life_event list \<Rightarrow> detector list" where
  "inits [] = []"
| "inits (Initialize d # es) = d # inits es"
| "inits (_ # es) = inits es"

fun shutdowns :: "life_event list \<Rightarrow> detector list" where
  "shutdowns [] = []"
| "shutdowns (Shutdown d # es) = d # shutdowns es"
| "shutdowns (_ # es) = shutdowns es"

lemma inits_append [simp]: "inits (es @ es') = inits es @ inits es'"
  by (induction es rule: inits.induct) auto

lemma shutdowns_append [simp]: "shutdowns (es @ es') = shutdowns es @ shutdowns es'"
  by (induction es rule: shutdowns.induct) auto

lemma shutdowns_map [simp]: "shutdowns (map Shutdown ds) = ds"
  by (induction ds) auto

definition group_id :: "registration list \<Rightarrow> nat" where
  "group_id g = det_id (rn_detector (hd g))"

lemma initialize_group_cases:
  assumes "initialize_group plugins g co = Inr (co', es, raised)" and "d = rn_detector (hd g)"
  obtains (skipped) "det_id d \<in> set (co_initialized_ids co)" "co' = co" "es = []" "raised = None"
  | (cancelled) reg where "transition_all g INITIALIZING None None (co_registry co) = Inr reg"
      "co' = co\<lparr>co_registry := reg\<rparr>" "es = [Initialize d, Shutdown d] \<or> es = [Initialize d, Health_check d, Shutdown d]"
      "raised = Some Cancelled_error"
  | (failed) reg reg' where "transition_all g INITIALIZING None None (co_registry co) = Inr reg"
      "transition_all g UNAVAILABLE_STATE (Some INITIALIZATION_ERROR) None reg = Inr reg'"
      "pl_initialize (plugins d) = Init_raised"
      "co' = co\<lparr>co_registry := reg'\<rparr>" "es = [Initialize d, Shutdown d]" "raised = None"
  | (no_adapter) reg where "co' = co\<lparr>co_registry := reg, co_initialized_ids := det_id d # co_initialized_ids co,
        co_initialized := co_initialized co @ [d]\<rparr>" "es = [Initialize d]" "raised = Some Adapter_error"
  | (checked) reg reg' adapter outcome where
      "transition_all g INITIALIZING None None (co_registry co) = Inr reg"
      "transition_all g (fst (health_state outcome)) (snd (health_state outcome)) (Some d) reg = Inr reg'"
      "pl_initialize (plugins d) = Init_done" "pl_health_check (plugins d) = Checked outcome"
      "detector_adapter d = Inr adapter"
      "co' = co\<lparr>co_registry := reg', co_initialized_ids := det_id d # co_initialized_ids co,
         co_initialized := co_initialized co @ [d],
         co_adapters := fold (\<lambda>r. AList.update (rn_direction r, rn_name r) adapter) g (co_adapters co)\<rparr>"
      "es = [Initialize d, Health_check d]" "raised = None"
proof (cases "det_id d \<in> set (co_initialized_ids co)")
  case True
  then show thesis using assms by (intro skipped) (simp_all add: initialize_group_def)
next
  case False
  with assms obtain reg where reg: "transition_all g INITIALIZING None None (co_registry co) = Inr reg"
    by (auto simp: initialize_group_def Let_def res_simps)
  note unfolded = assms(1) [unfolded initialize_group_def assms(2) [symmetric] reg Let_def]
  show thesis
  proof (cases "pl_initialize (plugins d)")
    case Init_done
    show thesis
    proof (cases "detector_adapter d")
      case (Inl e)
      then show thesis using unfolded False Init_done by (intro no_adapter [of reg]) simp_all
    next
      case adapter: (Inr adapter)
      show thesis
      proof (cases "pl_health_check (plugins d)")
        case (Checked outcome)
        obtain reg' where reg': "transition_all g (fst (health_state outcome)) (snd (health_state outcome)) (Some d) reg = Inr reg'"
          using unfolded False Init_done adapter Checked by (auto simp: res_simps case_prod_beta)
        then show thesis
          using unfolded False Init_done adapter Checked
          by (intro checked [OF reg reg' Init_done Checked adapter]) (auto simp: case_prod_beta)
      next
        case Check_cancelled
        then show thesis using unfolded False Init_done adapter by (intro cancelled [OF reg]) simp_all
      qed
    qed
  next
    case Init_raised
    then obtain reg' where reg': "transition_all g UNAVAILABLE_STATE (Some INITIALIZATION_ERROR) None reg = Inr reg'"
      using unfolded False by (auto simp: res_simps)
    then show thesis using unfolded False Init_raised by (intro failed [OF reg reg' Init_raised]) simp_all
  next
    case Init_cancelled
    then show thesis using unfolded False by (intro cancelled [OF reg]) simp_all
  qed
qed

lemma initialize_group_trace:
  assumes "initialize_group plugins g co = Inr (co', es, raised)"
  shows "mset (inits es) + mset (co_initialized co) = mset (shutdowns es) + mset (co_initialized co')
    \<and> (\<exists>ds. co_initialized co' = co_initialized co @ ds \<and> subseq ds (inits es))
    \<and> (es = [] \<or> inits es = [rn_detector (hd g)])
    \<and> co_registrations co' = co_registrations co"
  by (rule initialize_group_cases [OF assms refl]) auto

lemma initialize_groups_trace:
  assumes "initialize_groups plugins gs co = Inr (co', es, raised)"
  shows "mset (inits es) + mset (co_initialized co) = mset (shutdowns es) + mset (co_initialized co')
    \<and> (\<exists>ds. co_initialized co' = co_initialized co @ ds \<and> subseq ds (inits es))
    \<and> subseq (map det_id (inits es)) (map group_id gs)
    \<and> co_registrations co' = co_registrations co"
  using assms
proof (induction gs arbitrary: co es)
  case Nil
  then show ?case by simp
next
  case (Cons g gs)
  then obtain co1 es1 raised1 where g: "initialize_group plugins g co = Inr (co1, es1, raised1)"
    by (auto simp: res_simps)
  note 1 = initialize_group_trace [OF g]
  have ids: "subseq (map det_id (inits es1)) [group_id g]" using 1 by (auto simp: group_id_def)
  show ?case
  proof (cases raised1)
    case (Some e)
    with Cons.prems g have "co' = co1" "es = es1" by auto
    with 1 ids show ?thesis by (auto simp: subseq_singleton_left intro: subseq_order.trans)
  next
    case None
    with Cons.prems g obtain es2 where rest: "initialize_groups plugins gs co1 = Inr (co', es2, raised)" "es = es1 @ es2"
      by (auto simp: res_simps)
    note 2 = Cons.IH [OF rest(1)]
    obtain ds1 ds2 where ds: "co_initialized co1 = co_initialized co @ ds1" "subseq ds1 (inits es1)"
      "co_initialized co' = co_initialized co1 @ ds2" "subseq ds2 (inits es2)" using 1 2 by blast
    have "subseq (map det_id (inits es1) @ map det_id (inits es2)) ([group_id g] @ map group_id gs)"
      using ids 2 by (blast intro: list_emb_append_mono)
    moreover have "subseq (ds1 @ ds2) (inits es1 @ inits es2)" using ds by (blast intro: list_emb_append_mono)
    moreover have "mset (inits es1) + mset (inits es2) + mset (co_initialized co)
        = mset (shutdowns es1) + mset (shutdowns es2) + mset (co_initialized co')"
      using 1 2 by (smt (verit, best) union_assoc union_commute)
    ultimately show ?thesis using ds rest 1 2 by auto
  qed
qed

lemma subseq_distinct: "subseq xs ys \<Longrightarrow> distinct ys \<Longrightarrow> distinct xs"
  by (induction rule: list_emb.induct) (auto elim: list_emb_set)

lemma group_ids_subset: "group_id ` set (group_registrations rs) \<subseteq> (\<lambda>r. det_id (rn_detector r)) ` set rs"
  by (induction rs rule: group_registrations.induct) (auto simp: group_id_def Let_def)

lemma group_ids_distinct: "distinct (map group_id (group_registrations rs))"
proof (induction rs rule: group_registrations.induct)
  case (2 r rs)
  let ?rest = "filter (\<lambda>x. \<not> det_id (rn_detector x) = det_id (rn_detector r)) rs"
  have "det_id (rn_detector r) \<notin> group_id ` set (group_registrations ?rest)"
    using group_ids_subset [of ?rest] by auto
  with 2 show ?case by (simp add: group_id_def)
qed simp

subsection \<open>What the statuses are afterwards\<close>

definition rn_key :: "registration \<Rightarrow> status_key" where
  "rn_key r = (rn_direction r, rn_name r)"

lemma moved_status_twice [simp]: "moved_status st rc d (moved_status st rc d s) = moved_status st rc d s"
  by (simp add: moved_status_def split: option.split)

lemma transition_all_map:
  assumes "\<forall>r \<in> set rs. map_of reg (rn_key r) \<noteq> None"
  shows "\<exists>reg'. transition_all rs st rc d reg = Inr reg'
    \<and> map_of reg' = (\<lambda>k. if k \<in> rn_key ` set rs then map_option (moved_status st rc d) (map_of reg k) else map_of reg k)"
  using assms
proof (induction rs arbitrary: reg)
  case Nil
  then show ?case by (simp add: transition_all_def)
next
  case (Cons r rs)
  obtain old where old: "map_of reg (rn_key r) = Some old" using Cons.prems by auto
  then obtain s moved reg1 where t: "transition_status (rn_direction r) (rn_name r) st rc d reg = Inr (s, moved, reg1)"
    using transition_status_total [of reg "rn_direction r" "rn_name r" old st rc d] by (auto simp: rn_key_def)
  have map1: "map_of reg1 = (map_of reg)(rn_key r \<mapsto> moved_status st rc d old)"
    using transition_status_map [OF t] old by (auto simp: rn_key_def)
  have in_rest: "\<forall>r \<in> set rs. map_of reg1 (rn_key r) \<noteq> None" using map1 Cons.prems by simp
  obtain reg' where "transition_all rs st rc d reg1 = Inr reg'"
    and map2: "map_of reg' = (\<lambda>k. if k \<in> rn_key ` set rs then map_option (moved_status st rc d) (map_of reg1 k) else map_of reg1 k)"
    using Cons.IH [of reg1] in_rest by blast
  then have "transition_all (r # rs) st rc d reg = Inr reg'" using t by (simp add: transition_all_def)
  moreover have "map_of reg' = (\<lambda>k. if k \<in> rn_key ` set (r # rs)
      then map_option (moved_status st rc d) (map_of reg k) else map_of reg k)"
    using old by (auto simp: map2 map1)
  ultimately show ?case by blast
qed

lemma fold_adapters_map:
  "map_of (fold (\<lambda>r. AList.update (rn_direction r, rn_name r) a) rs al) k
     = (if k \<in> rn_key ` set rs then Some a else map_of al k)"
  by (induction rs arbitrary: al) (auto simp: update_conv' rn_key_def)

text \<open>The status and the adapter a complete initialization leaves for one registration.\<close>

definition settled :: "(detector \<Rightarrow> plugin) \<Rightarrow> coordinator \<Rightarrow> registration \<Rightarrow> detector \<Rightarrow> bool" where
  "settled plugins co r d \<longleftrightarrow>
     (\<exists>s. map_of (co_registry co) (rn_key r) = Some s
        \<and> (case pl_initialize (plugins d) of
             Init_cancelled \<Rightarrow> False
           | Init_raised \<Rightarrow>
               ds_state s = UNAVAILABLE_STATE \<and> ds_reason_code s = Some INITIALIZATION_ERROR
               \<and> map_of (co_adapters co) (rn_key r) = None
           | Init_done \<Rightarrow>
               (\<exists>outcome. pl_health_check (plugins d) = Checked outcome
                  \<and> (ds_state s, ds_reason_code s) = health_state outcome \<and> ds_detector s = Some d)
               \<and> (\<exists>adapter. detector_adapter d = Inr adapter \<and> map_of (co_adapters co) (rn_key r) = Some adapter)))"

lemma health_state_reason: "health_state outcome = (st, rc) \<Longrightarrow> st = HEALTHY \<Longrightarrow> rc = None"
  by (cases outcome) (auto split: if_splits)

lemma initialize_group_settles:
  assumes keys: "\<forall>r \<in> set g. map_of (co_registry co) (rn_key r) \<noteq> None \<and> map_of (co_adapters co) (rn_key r) = None"
    and fresh: "group_id g \<notin> set (co_initialized_ids co)"
  shows "\<exists>co' es raised. initialize_group plugins g co = Inr (co', es, raised)
    \<and> (\<forall>k. k \<notin> rn_key ` set g \<longrightarrow>
         map_of (co_registry co') k = map_of (co_registry co) k \<and> map_of (co_adapters co') k = map_of (co_adapters co) k)
    \<and> (\<forall>k. map_of (co_registry co') k = None \<longleftrightarrow> map_of (co_registry co) k = None)
    \<and> set (co_initialized_ids co') \<subseteq> insert (group_id g) (set (co_initialized_ids co))
    \<and> (raised = None \<longrightarrow> (\<forall>r \<in> set g. settled plugins co' r (rn_detector (hd g))))"
proof -
  define d where "d = rn_detector (hd g)"
  obtain reg where reg: "transition_all g INITIALIZING None None (co_registry co) = Inr reg"
    and map1: "map_of reg = (\<lambda>k. if k \<in> rn_key ` set g
      then map_option (moved_status INITIALIZING None None) (map_of (co_registry co) k) else map_of (co_registry co) k)"
    using transition_all_map [of g "co_registry co" INITIALIZING None None] keys by blast
  have keys1: "\<forall>r \<in> set g. map_of reg (rn_key r) \<noteq> None" using keys by (simp add: map1)
  note defs = initialize_group_def d_def [symmetric] reg Let_def
  have fresh': "det_id d \<notin> set (co_initialized_ids co)" using fresh by (simp add: group_id_def d_def)
  show ?thesis
  proof (cases "pl_initialize (plugins d)")
    case Init_cancelled
    then show ?thesis using fresh' by (auto simp: defs map1)
  next
    case Init_raised
    obtain reg' where reg': "transition_all g UNAVAILABLE_STATE (Some INITIALIZATION_ERROR) None reg = Inr reg'"
      and map2: "map_of reg' = (\<lambda>k. if k \<in> rn_key ` set g
        then map_option (moved_status UNAVAILABLE_STATE (Some INITIALIZATION_ERROR) None) (map_of reg k) else map_of reg k)"
      using transition_all_map [OF keys1] by blast
    have "settled plugins (co\<lparr>co_registry := reg'\<rparr>) r d" if "r \<in> set g" for r
      using that keys Init_raised by (auto simp: settled_def map1 map2 moved_status_def)
    then show ?thesis using fresh' Init_raised reg' by (auto simp: defs map1 map2)
  next
    case Init_done
    show ?thesis
    proof (cases "detector_adapter d")
      case (Inl e)
      then show ?thesis using fresh' Init_done by (auto simp: defs map1 group_id_def)
    next
      case adapter: (Inr a)
      show ?thesis
      proof (cases "pl_health_check (plugins d)")
        case Check_cancelled
        then show ?thesis using fresh' Init_done adapter by (auto simp: defs map1)
      next
        case (Checked outcome)
        obtain st rc where h: "health_state outcome = (st, rc)" by (cases "health_state outcome")
        obtain reg' where reg': "transition_all g st rc (Some d) reg = Inr reg'"
          and map2: "map_of reg' = (\<lambda>k. if k \<in> rn_key ` set g
            then map_option (moved_status st rc (Some d)) (map_of reg k) else map_of reg k)"
          using transition_all_map [OF keys1] by blast
        let ?co = "co\<lparr>co_initialized_ids := det_id d # co_initialized_ids co,
          co_initialized := co_initialized co @ [d], co_registry := reg',
          co_adapters := fold (\<lambda>r. AList.update (rn_direction r, rn_name r) a) g (co_adapters co)\<rparr>"
        have "settled plugins ?co r d" if "r \<in> set g" for r
          using that keys Init_done Checked h adapter health_state_reason [OF h]
          by (auto simp: settled_def map1 map2 moved_status_def fold_adapters_map)
        then show ?thesis using fresh' Init_done adapter Checked h reg'
          by (auto simp: defs map1 map2 group_id_def fold_adapters_map)
      qed
    qed
  qed
qed

lemma settled_cong:
  "map_of (co_registry co') (rn_key r) = map_of (co_registry co) (rn_key r) \<Longrightarrow>
   map_of (co_adapters co') (rn_key r) = map_of (co_adapters co) (rn_key r) \<Longrightarrow>
   settled plugins co' r d \<longleftrightarrow> settled plugins co r d"
  by (cases "pl_initialize (plugins d)") (simp_all add: settled_def)

lemma initialize_groups_settles:
  assumes "\<forall>r \<in> set (concat gs). map_of (co_registry co) (rn_key r) \<noteq> None \<and> map_of (co_adapters co) (rn_key r) = None"
    and "distinct (map group_id gs)" and "\<forall>g \<in> set gs. group_id g \<notin> set (co_initialized_ids co)"
    and "distinct (map rn_key (concat gs))"
  shows "\<exists>co' es raised. initialize_groups plugins gs co = Inr (co', es, raised)
    \<and> (\<forall>k. k \<notin> rn_key ` set (concat gs) \<longrightarrow>
         map_of (co_registry co') k = map_of (co_registry co) k \<and> map_of (co_adapters co') k = map_of (co_adapters co) k)
    \<and> (raised = None \<longrightarrow> (\<forall>g \<in> set gs. \<forall>r \<in> set g. settled plugins co' r (rn_detector (hd g))))"
  using assms
proof (induction gs arbitrary: co)
  case Nil
  then show ?case by simp
next
  case (Cons g gs)
  have "\<forall>r \<in> set g. map_of (co_registry co) (rn_key r) \<noteq> None \<and> map_of (co_adapters co) (rn_key r) = None"
    "group_id g \<notin> set (co_initialized_ids co)" using Cons.prems(1,3) by auto
  from initialize_group_settles [OF this] obtain co1 es1 raised1
    where g: "initialize_group plugins g co = Inr (co1, es1, raised1)"
    and frame: "\<And>k. k \<notin> rn_key ` set g \<Longrightarrow>
         map_of (co_registry co1) k = map_of (co_registry co) k \<and> map_of (co_adapters co1) k = map_of (co_adapters co) k"
    and ids: "set (co_initialized_ids co1) \<subseteq> insert (group_id g) (set (co_initialized_ids co))"
    and settled1: "raised1 = None \<longrightarrow> (\<forall>r \<in> set g. settled plugins co1 r (rn_detector (hd g)))" by blast
  have disjoint: "rn_key ` set g \<inter> rn_key ` set (concat gs) = {}"
    using Cons.prems(4) by (simp only: concat.simps map_append distinct_append set_map)
  then have apart: "rn_key r \<notin> rn_key ` set g" if "r \<in> set (concat gs)" for r
    using that by blast
  show ?case
  proof (cases raised1)
    case (Some e)
    with g frame show ?thesis by auto
  next
    case None
    have "\<forall>r \<in> set (concat gs). map_of (co_registry co1) (rn_key r) \<noteq> None \<and> map_of (co_adapters co1) (rn_key r) = None"
      using Cons.prems(1) frame apart by simp
    moreover have "\<forall>g' \<in> set gs. group_id g' \<notin> set (co_initialized_ids co1)"
    proof
      fix g' assume "g' \<in> set gs"
      then have "group_id g' \<noteq> group_id g" "group_id g' \<notin> set (co_initialized_ids co)"
        using Cons.prems(2,3) by (auto simp: image_iff)
      then show "group_id g' \<notin> set (co_initialized_ids co1)" using ids by blast
    qed
    moreover have "distinct (map group_id gs)" "distinct (map rn_key (concat gs))" using Cons.prems(2,4) by simp_all
    ultimately obtain co2 es2 raised2 where rest: "initialize_groups plugins gs co1 = Inr (co2, es2, raised2)"
      and frame2: "\<And>k. k \<notin> rn_key ` set (concat gs) \<Longrightarrow>
         map_of (co_registry co2) k = map_of (co_registry co1) k \<and> map_of (co_adapters co2) k = map_of (co_adapters co1) k"
      and settled2: "raised2 = None \<longrightarrow> (\<forall>g \<in> set gs. \<forall>r \<in> set g. settled plugins co2 r (rn_detector (hd g)))"
      using Cons.IH [of co1] by blast
    have "rn_key r \<notin> rn_key ` set (concat gs)" if "r \<in> set g" for r
      using disjoint that by blast
    then have "settled plugins co2 r (rn_detector (hd g))" if "r \<in> set g" for r
      using settled1 None that frame2 settled_cong [of co2 r co1] by blast
    then have "\<forall>g' \<in> set (g # gs). \<forall>r \<in> set g'. settled plugins co2 r (rn_detector (hd g'))" if "raised2 = None"
      using settled2 that by auto
    moreover have "map_of (co_registry co2) k = map_of (co_registry co) k \<and> map_of (co_adapters co2) k = map_of (co_adapters co) k"
      if "k \<notin> rn_key ` set (concat (g # gs))" for k
      using that frame [of k] frame2 [of k] by (simp add: image_Un)
    moreover have "initialize_groups plugins (g # gs) co = Inr (co2, es1 @ es2, raised2)"
      using g None rest by simp
    ultimately show ?thesis by blast
  qed
qed

lemma mset_groups: "mset (concat (group_registrations rs)) = mset rs"
proof (induction rs rule: group_registrations.induct)
  case (2 r rs)
  let ?P = "\<lambda>x. det_id (rn_detector x) = det_id (rn_detector r)"
  have "mset (concat (group_registrations (r # rs))) = add_mset r (mset (filter ?P rs) + mset (filter (\<lambda>x. \<not> ?P x) rs))"
    using 2 by (simp add: Let_def)
  then show ?case by simp
qed simp

lemma groups_same_id:
  "g \<in> set (group_registrations rs) \<Longrightarrow> r \<in> set g \<Longrightarrow> det_id (rn_detector r) = det_id (rn_detector (hd g))"
  by (induction rs rule: group_registrations.induct) (auto simp: Let_def)

lemma shutdown_in_turn_parts:
  "shutdown_in_turn cancelled ds = (es, False) \<Longrightarrow> shutdowns es = ds"
  "shutdown_in_turn cancelled ds = (es, True) \<Longrightarrow>
     \<exists>done_ds d left. ds = done_ds @ d # left \<and> cancelled d \<and> shutdowns es = done_ds @ [d]"
proof (induction ds arbitrary: es)
  case (Cons d ds)
  {
    case 1
    with Cons.IH(1) show ?case by (auto split: prod.splits if_splits)
  next
    case 2
    show ?case
    proof (cases "cancelled d")
      case True
      with 2 have "d # ds = [] @ d # ds" "shutdowns es = [] @ [d]" by auto
      with True show ?thesis by blast
    next
      case False
      with 2 obtain es2 where es2: "shutdown_in_turn cancelled ds = (es2, True)" "es = Shutdown d # es2"
        by (auto split: prod.splits)
      from Cons.IH(2) [OF es2(1)] obtain done_ds d' left
        where "ds = done_ds @ d' # left" "cancelled d'" "shutdowns es2 = done_ds @ [d']" by blast
      then have "d # ds = (d # done_ds) @ d' # left" "cancelled d'" "shutdowns es = (d # done_ds) @ [d']"
        using es2(2) by auto
      then show ?thesis by blast
    qed
  }
qed auto

lemma await_groups_returns:
  assumes "initialize_groups plugins gs co = Inr (co1, es, raised)"
  shows "await_groups hangs plugins gs co = (if list_ex hangs (inits es) then None else Some (Inr (co1, es, raised)))"
  using assms
proof (induction gs arbitrary: co es)
  case (Cons g gs)
  then obtain co' es1 raised1 where g: "initialize_group plugins g co = Inr (co', es1, raised1)"
    by (auto simp: res_simps)
  let ?d = "rn_detector (hd g)"
  have inits1: "inits es1 = (if det_id ?d \<in> set (co_initialized_ids co) then [] else [?d])"
    by (rule initialize_group_cases [OF g refl]) (use g in \<open>auto simp: initialize_group_def Let_def res_simps\<close>)
  show ?case
  proof (cases raised1)
    case (Some e)
    with Cons.prems g inits1 show ?thesis by auto
  next
    case None
    with Cons.prems g obtain es2 where rest: "initialize_groups plugins gs co' = Inr (co1, es2, raised)" "es = es1 @ es2"
      by (auto simp: res_simps)
    from Cons.IH [OF rest(1)] rest(2) None g inits1 show ?thesis by auto
  qed
qed simp

lemma initialize_awaited_returns:
  "initialize_all plugins co = Inr (co1, es, raised) \<Longrightarrow>
     initialize_awaited hangs plugins co = (if list_ex hangs (inits es) then None else Some (Inr (co1, es, raised)))"
  unfolding initialize_all_def initialize_awaited_def by (rule await_groups_returns)

text \<open>Coordinators as they are built: by registrations only.\<close>

inductive registered :: "coordinator \<Rightarrow> bool" where
  registered_new: "registered new_coordinator"
| registered_more: "registered co \<Longrightarrow> register_detector dir d ty req oe t co = Inr co' \<Longrightarrow> registered co'"

lemma registered_inv:
  "registered co \<Longrightarrow>
     (\<forall>r \<in> set (co_registrations co). map_of (co_registry co) (rn_key r) \<noteq> None)
     \<and> distinct (map rn_key (co_registrations co))
     \<and> co_adapters co = [] \<and> co_initialized co = [] \<and> co_initialized_ids co = []"
proof (induction rule: registered.induct)
  case registered_new
  then show ?case by (simp add: new_coordinator_def)
next
  case (registered_more co dir d ty req oe t co')
  obtain reg where reg: "register_status dir (det_name d) ty req oe t (co_registry co) = Inr reg"
    and co': "co' = co\<lparr>co_registry := reg, co_registrations := co_registrations co
      @ [\<lparr>rn_direction = dir, rn_name = det_name d, rn_detector = d, rn_timeout_seconds = t\<rparr>]\<rparr>"
    using registered_more.hyps(2) by (auto simp: register_detector_def res_simps)
  have "map_of (co_registry co) (dir, det_name d) = None"
    and "\<exists>s. map_of reg = (map_of (co_registry co))((dir, det_name d) \<mapsto> s)"
    using reg by (auto simp: register_status_def update_conv' split: if_splits)
  then show ?case using registered_more.IH co' by (force simp: rn_key_def)
qed

subsection \<open>Properties\<close>

text \<open>C29. Of one coordinator, no detector is initialized twice, and an instance on which \<open>initialize\<close> was called is
  shut down exactly once, at once when it failed or the start-up was cancelled, and by \<open>shutdown_all\<close>
  otherwise, in the reverse of the order of initialization. A \<open>shutdown_all\<close> that is cancelled stops at the
  instance it was at: the instances before it in the order of initialization are left running, and the coordinator
  still holds all of them.\<close>

theorem lifecycle_balanced:
  assumes "registered co" and "initialize_all plugins co = Inr (co1, es, raised)"
    and "shutdown_coordinator cancelled co1 = (co2, es', stopped)"
  shows "distinct (map det_id (inits es)) \<and> subseq (rev (shutdowns es')) (inits es)
    \<and> (if stopped = None then mset (shutdowns (es @ es')) = mset (inits es) \<and> co_initialized co2 = []
       else co2 = co1
         \<and> (\<exists>d left. cancelled d \<and> co_initialized co1 = left @ d # tl (rev (shutdowns es')) \<and> last (shutdowns es') = d
              \<and> mset (inits es) = mset (shutdowns (es @ es')) + mset left))"
proof -
  note trace = initialize_groups_trace [OF assms(2) [unfolded initialize_all_def]]
  have "subseq (map det_id (inits es)) (map group_id (group_registrations (co_registrations co)))" using trace by blast
  then have distinct: "distinct (map det_id (inits es))" using group_ids_distinct subseq_distinct by blast
  have balance: "mset (inits es) = mset (shutdowns es) + mset (co_initialized co1)"
    and started: "subseq (co_initialized co1) (inits es)"
    using trace registered_inv [OF assms(1)] by auto
  obtain r where turn: "shutdown_in_turn cancelled (rev (co_initialized co1)) = (es', r)"
    and co2: "(co2, stopped) = (if r then (co1, Some Cancelled_error)
        else (co1\<lparr>co_initialized := [], co_initialized_ids := []\<rparr>, None))"
    using assms(3) by (auto simp: shutdown_coordinator_def Let_def split: prod.splits if_splits)
  show ?thesis
  proof (cases r)
    case False
    with turn have "shutdowns es' = rev (co_initialized co1)" by (simp add: shutdown_in_turn_parts(1))
    with False co2 distinct balance started show ?thesis by simp
  next
    case True
    with turn have "shutdown_in_turn cancelled (rev (co_initialized co1)) = (es', True)" by simp
    from shutdown_in_turn_parts(2) [OF this] obtain d done_ds left where
      d: "rev (co_initialized co1) = done_ds @ d # left" "cancelled d" "shutdowns es' = done_ds @ [d]" by blast
    have co1: "co_initialized co1 = rev left @ d # rev done_ds" using arg_cong [OF d(1), of rev] by simp
    then have "subseq (d # rev done_ds) (co_initialized co1)" by (simp add: list_emb_append2)
    then have "subseq (rev (shutdowns es')) (inits es)" using started d(3) by (auto intro: subseq_order.trans)
    moreover have "mset (inits es) = mset (shutdowns (es @ es')) + mset (rev left)"
      using balance co1 d(3) by simp
    ultimately show ?thesis using True co2 distinct co1 d(2,3)
      by (auto intro!: exI [of _ d] exI [of _ "rev left"])
  qed
qed

text \<open>C40. The start-up of registered detectors returns exactly when every call of \<open>initialize\<close> it makes does:
  nothing bounds those calls, and one that hangs leaves the start-up hanging. When it returns, it has
  never failed on the registry, and unless it was interrupted it leaves each registration healthy, unhealthy or
  unavailable as its instance answered, with an adapter exactly when it was initialized.\<close>

theorem startup_settles:
  assumes "registered co"
  shows "\<exists>co1 es raised. initialize_all plugins co = Inr (co1, es, raised)
    \<and> initialize_awaited hangs plugins co = (if list_ex hangs (inits es) then None else Some (Inr (co1, es, raised)))
    \<and> (raised = None \<longrightarrow> (\<forall>r \<in> set (co_registrations co). \<exists>r' \<in> set (co_registrations co).
         det_id (rn_detector r') = det_id (rn_detector r) \<and> settled plugins co1 r (rn_detector r')))"
proof -
  let ?gs = "group_registrations (co_registrations co)"
  note inv = registered_inv [OF assms]
  have regs: "set (concat ?gs) = set (co_registrations co)"
    by (metis mset_groups set_mset_mset)
  have "mset (map rn_key (concat ?gs)) = mset (map rn_key (co_registrations co))"
    using mset_groups [of "co_registrations co"] by (simp only: mset_map)
  then have "distinct (map rn_key (concat ?gs))" using inv mset_eq_imp_distinct_iff by blast
  moreover have "\<forall>r \<in> set (concat ?gs). map_of (co_registry co) (rn_key r) \<noteq> None \<and> map_of (co_adapters co) (rn_key r) = None"
    unfolding regs using inv by simp
  moreover have "\<forall>g \<in> set ?gs. group_id g \<notin> set (co_initialized_ids co)" using inv by simp
  ultimately obtain co1 es raised where init: "initialize_all plugins co = Inr (co1, es, raised)"
    and settled: "raised = None \<longrightarrow> (\<forall>g \<in> set ?gs. \<forall>r \<in> set g. settled plugins co1 r (rn_detector (hd g)))"
    using initialize_groups_settles [of ?gs co plugins] group_ids_distinct unfolding initialize_all_def by blast
  have "\<exists>r' \<in> set (co_registrations co). det_id (rn_detector r') = det_id (rn_detector r) \<and> settled plugins co1 r (rn_detector r')"
    if none: "raised = None" and r: "r \<in> set (co_registrations co)" for r
  proof -
    obtain g where g: "g \<in> set ?gs" "r \<in> set g" using r regs by auto
    then have "hd g \<in> set g" by (intro list.set_sel(1)) auto
    then have "hd g \<in> set (co_registrations co)" using g(1) regs by auto
    then show ?thesis using settled none g groups_same_id [OF g] by (intro bexI [of _ "hd g"]) auto
  qed
  then show ?thesis
    using init initialize_awaited_returns [OF init, of hangs] by blast
qed

definition sample_detector :: "nat \<Rightarrow> pystr \<Rightarrow> detector" where
  "sample_detector i name = \<lparr>det_id = i, det_name = name, det_version = ''1.0.0'', det_category = ''privacy''\<rparr>"

text \<open>Two detectors, one of them in both directions; the other fails to initialize.\<close>

definition sample_coordinator :: "status_error + coordinator" where
  "sample_coordinator =
     bind_res (register_detector Input (sample_detector 0 ''pii'') ''builtin'' True ''fail_closed'' 5 new_coordinator) (\<lambda>co.
     bind_res (register_detector Input (sample_detector 1 ''toxicity'') ''builtin'' False ''fail_open'' 5 co) (\<lambda>co.
     register_detector Output (sample_detector 0 ''pii'') ''builtin'' True ''fail_closed'' 5 co))"

definition sample_plugins :: "detector \<Rightarrow> plugin" where
  "sample_plugins d =
     \<lparr>pl_initialize = (if det_id d = 1 then Init_raised else Init_done), pl_health_check = Checked (Answered True)\<rparr>"

lemma sample_coordinator_registered:
  obtains co where "sample_coordinator = Inr co" "registered co"
proof -
  have "res_holds (\<lambda>co. True) sample_coordinator" by code_simp
  then obtain co where co: "sample_coordinator = Inr co" by (auto simp: res_holds_def split: sum.splits)
  then have "registered co"
    unfolding sample_coordinator_def bind_res_Inr by (meson registered_new registered_more)
  with co that show thesis by blast
qed

theorem lifecycle_balanced_witness:
  "\<exists>co co1 es raised co2 es'. registered co \<and> initialize_all sample_plugins co = Inr (co1, es, raised)
     \<and> shutdown_coordinator (\<lambda>_. False) co1 = (co2, es', None) \<and> mset (shutdowns (es @ es')) = mset (inits es)
     \<and> inits es = [sample_detector 0 ''pii'', sample_detector 1 ''toxicity'']"
proof -
  obtain co where co: "sample_coordinator = Inr co" "registered co" by (rule sample_coordinator_registered)
  have "res_holds (\<lambda>(co1, es, raised). inits es = [sample_detector 0 ''pii'', sample_detector 1 ''toxicity''])
      (case sample_coordinator of Inr co \<Rightarrow> initialize_all sample_plugins co | Inl e \<Rightarrow> Inl e)" by code_simp
  then obtain co1 es raised where init: "initialize_all sample_plugins co = Inr (co1, es, raised)"
    and inits: "inits es = [sample_detector 0 ''pii'', sample_detector 1 ''toxicity'']"
    unfolding co(1) by (auto dest!: res_holdsE)
  obtain co2 es' where down: "shutdown_coordinator (\<lambda>_. False) co1 = (co2, es', None)"
    by (simp add: shutdown_coordinator_def shutdown_in_turn_all list_ex_iff)
  then have "mset (shutdowns (es @ es')) = mset (inits es)"
    using lifecycle_balanced [OF co(2) init down] by simp
  with down co init inits show ?thesis by blast
qed

theorem startup_settles_witness:
  "\<exists>co co1 es raised. registered co \<and> length (co_registrations co) = 3
     \<and> initialize_all sample_plugins co = Inr (co1, es, raised)
     \<and> initialize_awaited (\<lambda>d. det_id d = 1) sample_plugins co = None
     \<and> initialize_awaited (\<lambda>d. False) sample_plugins co = Some (Inr (co1, es, raised))"
proof -
  obtain co where co: "sample_coordinator = Inr co" "registered co" by (rule sample_coordinator_registered)
  have "res_holds (\<lambda>co. length (co_registrations co) = 3) sample_coordinator" by code_simp
  then have len: "length (co_registrations co) = 3" unfolding co(1) by (simp add: res_holds_def)
  have "res_holds (\<lambda>(co1, es, raised). list_ex (\<lambda>d. det_id d = 1) (inits es))
      (case sample_coordinator of Inr co \<Rightarrow> initialize_all sample_plugins co | Inl e \<Rightarrow> Inl e)" by code_simp
  then obtain co1 es raised where init: "initialize_all sample_plugins co = Inr (co1, es, raised)"
    and started: "list_ex (\<lambda>d. det_id d = 1) (inits es)"
    unfolding co(1) by (auto dest!: res_holdsE)
  with startup_settles [OF co(2), of sample_plugins "\<lambda>d. det_id d = 1"]
    startup_settles [OF co(2), of sample_plugins "\<lambda>d. False"] co(2) len
  show ?thesis by (auto simp: list_ex_iff)
qed

end
