(* ===== verification/Token_Bucket.thy ===== *)
theory Token_Bucket
  imports Prelude
begin

text \<open>
  \<open>ratelimit/token_bucket.py\<close>: the bucket behind the rate limiter. The injected monotonic clock
  is the argument \<open>now\<close>; the \<open>asyncio.Lock\<close> makes \<open>consume\<close> one atomic step.

  The lemmas account for every token: what a sequence of \<open>consume\<close> calls grants is bounded by
  the burst capacity and what the rate refilled meanwhile.
\<close>

datatype bucket_error = Rate_must_be_positive | Burst_must_be_positive

record bucket =
  tb_rate :: pyfloat
  tb_burst :: int
  tb_tokens :: pyfloat
  tb_last_refill :: pyfloat

definition token_bucket :: "pyfloat \<Rightarrow> int \<Rightarrow> pyfloat \<Rightarrow> bucket_error + bucket" where
  "token_bucket rate burst now =
     (if rate \<le> 0 then Inl Rate_must_be_positive
      else if burst \<le> 0 then Inl Burst_must_be_positive
      else Inr \<lparr>tb_rate = rate, tb_burst = burst, tb_tokens = of_int burst, tb_last_refill = now\<rparr>)"

definition refill :: "pyfloat \<Rightarrow> bucket \<Rightarrow> bucket" where
  "refill now b =
     (let elapsed = now - tb_last_refill b in
      if elapsed > 0
      then b\<lparr>tb_tokens := min (of_int (tb_burst b)) (tb_tokens b + elapsed * tb_rate b),
             tb_last_refill := now\<rparr>
      else b)"

definition consume :: "pyfloat \<Rightarrow> int \<Rightarrow> bucket \<Rightarrow> bool \<times> bucket" where
  "consume now amount b =
     (let b = refill now b in
      if tb_tokens b \<ge> of_int amount
      then (True, b\<lparr>tb_tokens := tb_tokens b - of_int amount\<rparr>)
      else (False, b))"

definition retry_after :: "int \<Rightarrow> bucket \<Rightarrow> pyfloat" where
  "retry_after amount b =
     (let deficit = of_int amount - tb_tokens b in
      if deficit \<le> 0 then 0 else deficit / tb_rate b)"

text \<open>A sequence of calls \<open>(now, amount)\<close>, and the tokens it granted.\<close>

fun consume_step :: "bucket \<Rightarrow> pyfloat \<times> int \<Rightarrow> bucket" where
  "consume_step b (now, amount) = snd (consume now amount b)"

fun granted :: "bucket \<Rightarrow> (pyfloat \<times> int) list \<Rightarrow> int" where
  "granted b [] = 0"
| "granted b ((now, amount) # calls) =
     (if fst (consume now amount b) then amount else 0) + granted (consume_step b (now, amount)) calls"

definition bucket_inv :: "bucket \<Rightarrow> bool" where
  "bucket_inv b \<longleftrightarrow>
     0 < tb_rate b \<and> 0 < tb_burst b \<and> 0 \<le> tb_tokens b \<and> tb_tokens b \<le> of_int (tb_burst b)"

lemma token_bucket_inv: "token_bucket rate burst now = Inr b \<Longrightarrow> bucket_inv b"
  by (auto simp: token_bucket_def bucket_inv_def split: if_splits)

lemma refill_inv: "bucket_inv b \<Longrightarrow> bucket_inv (refill now b)"
  by (auto simp: bucket_inv_def refill_def Let_def)

lemma consume_inv: "bucket_inv b \<Longrightarrow> 0 \<le> amount \<Longrightarrow> bucket_inv (snd (consume now amount b))"
proof -
  assume "bucket_inv b" "0 \<le> amount"
  then have "bucket_inv (refill now b)" by (rule_tac refill_inv)
  with \<open>0 \<le> amount\<close> show ?thesis
    by (auto simp: consume_def Let_def bucket_inv_def)
qed

interpretation tb: step_machine consume_step "\<lambda>(now, amount). 0 \<le> amount" bucket_inv
  by unfold_locales (auto intro: consume_inv)

lemma refill_account:
  "tb_tokens (refill now b) \<le> tb_tokens b + tb_rate b * (tb_last_refill (refill now b) - tb_last_refill b)"
  by (auto simp: refill_def Let_def algebra_simps)

lemma refill_config [simp]:
  "tb_rate (refill now b) = tb_rate b" "tb_burst (refill now b) = tb_burst b"
  "tb_last_refill (refill now b) = max (tb_last_refill b) now"
  by (auto simp: refill_def Let_def)

lemma consume_config [simp]:
  "tb_rate (snd (consume now amount b)) = tb_rate b"
  "tb_burst (snd (consume now amount b)) = tb_burst b"
  "tb_last_refill (snd (consume now amount b)) = max (tb_last_refill b) now"
  by (auto simp: consume_def Let_def)

text \<open>Tokens granted and tokens left never exceed what was there and what was refilled.\<close>

lemma consume_account:
  "(if fst (consume now amount b) then of_int amount else 0) + tb_tokens (snd (consume now amount b))
     \<le> tb_tokens b + tb_rate b * (tb_last_refill (snd (consume now amount b)) - tb_last_refill b)"
  using refill_account [of now b] by (auto simp: consume_def Let_def)

lemma run_account:
  "of_int (granted b calls) + tb_tokens (run_steps consume_step b calls)
     \<le> tb_tokens b + tb_rate b * (tb_last_refill (run_steps consume_step b calls) - tb_last_refill b)"
proof (induction calls arbitrary: b)
  case Nil
  then show ?case by simp
next
  case (Cons c calls)
  obtain now amount where c: "c = (now, amount)" by (cases c)
  let ?b = "snd (consume now amount b)"
  have "of_int (granted ?b calls) + tb_tokens (run_steps consume_step ?b calls)
     \<le> tb_tokens ?b + tb_rate b * (tb_last_refill (run_steps consume_step ?b calls) - tb_last_refill ?b)"
    using Cons.IH [of ?b] by simp
  with consume_account [of now amount b] show ?case
    by (cases "fst (consume now amount b)") (simp_all add: c algebra_simps)
qed

lemma run_last_refill:
  "tb_last_refill b \<le> T \<Longrightarrow> \<forall>(now, amount) \<in> set calls. now \<le> T \<Longrightarrow>
     tb_last_refill (run_steps consume_step b calls) \<le> T"
  by (induction calls arbitrary: b) auto

subsection \<open>Properties\<close>

text \<open>No sequence of \<open>consume\<close> calls for non-negative amounts, at any times up to \<open>T\<close>, is
  granted more than the burst capacity plus what the rate refills until \<open>T\<close>; and the bucket's
  tokens stay between zero and the burst.\<close>

theorem granted_bounded:
  assumes "token_bucket rate burst start = Inr b" and "start \<le> T"
    and "\<forall>(now, amount) \<in> set calls. now \<le> T \<and> 0 \<le> amount"
  shows "of_int (granted b calls) \<le> of_int burst + rate * (T - start)
         \<and> bucket_inv (run_steps consume_step b calls)"
proof -
  let ?e = "run_steps consume_step b calls"
  have b: "tb_tokens b = of_int burst" "tb_rate b = rate" "tb_last_refill b = start" "0 < rate"
    using assms(1) by (auto simp: token_bucket_def split: if_splits)
  have inv: "bucket_inv ?e"
    using assms(3) by (intro tb.run_inv token_bucket_inv [OF assms(1)]) (auto simp: list_all_iff)
  have "tb_last_refill ?e \<le> T"
    using assms(2,3) b by (intro run_last_refill) auto
  then have "rate * (tb_last_refill ?e - start) \<le> rate * (T - start)"
    using b(4) by (intro mult_left_mono) auto
  moreover have "0 \<le> tb_tokens ?e" using inv by (simp add: bucket_inv_def)
  moreover have "of_int (granted b calls) + tb_tokens ?e
      \<le> of_int burst + rate * (tb_last_refill ?e - start)"
    using run_account [of b calls] by (simp only: b)
  ultimately show ?thesis using inv by linarith
qed

theorem granted_bounded_witness:
  "of_int (granted \<lparr>tb_rate = 2, tb_burst = 3, tb_tokens = 3, tb_last_refill = 0\<rparr>
      [(0, 2), (1/2, 2), (1, 5)]) \<le> (of_int 3 + 2 * (1 - 0) :: pyfloat)"
  by (rule granted_bounded [THEN conjunct1]) (simp_all add: token_bucket_def)

text \<open>The delay \<open>retry_after\<close> reports after a rejection is enough: the same call made that
  much later (or more) is granted, provided the amount does not exceed the burst capacity.\<close>

theorem retry_after_suffices:
  assumes "bucket_inv b" and "amount \<le> tb_burst b"
    and "tb_last_refill b + retry_after amount b \<le> now"
  shows "fst (consume now amount b)"
proof -
  have inv: "0 < tb_rate b" "tb_tokens b \<le> of_int (tb_burst b)"
    using assms(1) by (auto simp: bucket_inv_def)
  show ?thesis
  proof (cases "of_int amount \<le> tb_tokens b")
    case True
    then have "of_int amount \<le> tb_tokens (refill now b)"
      using inv by (auto simp: refill_def Let_def intro!: add_increasing2 order.trans [OF True])
    then show ?thesis by (simp add: consume_def Let_def)
  next
    case False
    then have "(of_int amount - tb_tokens b) / tb_rate b \<le> now - tb_last_refill b"
      using assms(3) by (simp add: retry_after_def Let_def)
    then have enough: "of_int amount - tb_tokens b \<le> (now - tb_last_refill b) * tb_rate b"
      using inv(1) by (simp add: divide_le_eq)
    with False have "0 < (now - tb_last_refill b) * tb_rate b" by linarith
    with inv(1) have "0 < now - tb_last_refill b" by (rule_tac zero_less_mult_pos2)
    then have "of_int amount \<le> tb_tokens (refill now b)"
      using enough assms(2) by (simp add: refill_def Let_def)
    then show ?thesis by (simp add: consume_def Let_def)
  qed
qed

theorem retry_after_suffices_witness:
  "fst (consume (3/2) 2 \<lparr>tb_rate = 2, tb_burst = 3, tb_tokens = 0, tb_last_refill = 1/2\<rparr>)"
  by (rule retry_after_suffices) (simp_all add: bucket_inv_def retry_after_def Let_def)

end
