(* ===== verification/Request_Limits.thy ===== *)
theory Request_Limits
  imports Token_Bucket Chat
begin

text \<open>
  \<open>middleware/request_size.py\<close> and \<open>middleware/rate_limit.py\<close>: what a request may bring, and how
  often. A body is the list of its messages, as the server hands them over; the application behind the
  middleware is a function of the messages it gets and of the exception that ends them, if any.
\<close>

subsection \<open>Size of a request\<close>

text \<open>The header as \<open>int\<close> reads it.\<close>

datatype content_length = No_length | Malformed_length | Length int

record request_too_large =
  rtl_received :: int
  rtl_limit :: int

text \<open>\<open>limited_receive\<close>, called until the body ends or it raises.\<close>

fun limited_receive :: "int \<Rightarrow> int \<Rightarrow> pystr list \<Rightarrow> pystr list \<times> request_too_large option" where
  "limited_receive limit received [] = ([], None)"
| "limited_receive limit received (body # rest) =
     (let received = received + int (length body) in
      if received > limit then ([], Some \<lparr>rtl_received = received, rtl_limit = limit\<rparr>)
      else let (bodies, raised) = limited_receive limit received rest in (body # bodies, raised))"

text \<open>\<open>None\<close> is the 413 answer; an application that lets the exception through returns \<open>Inl\<close>.\<close>

definition request_size_dispatch ::
  "int \<Rightarrow> content_length \<Rightarrow> (pystr list \<times> request_too_large option \<Rightarrow> request_too_large + 'r) \<Rightarrow> pystr list \<Rightarrow> 'r option" where
  "request_size_dispatch max_bytes header app bodies =
     (let length = (case header of No_length \<Rightarrow> None | Malformed_length \<Rightarrow> Some (-1) | Length n \<Rightarrow> Some n) in
      if (case length of Some n \<Rightarrow> n > max_bytes | None \<Rightarrow> False) then None
      else case app (limited_receive max_bytes 0 bodies) of
             Inl e \<Rightarrow> None
           | Inr response \<Rightarrow> Some response)"

text \<open>
  The chat route as such an application: it reads the body under an \<open>except Exception\<close>, which answers
  400, whatever was raised.
\<close>

definition chat_application ::
  "chat_env \<Rightarrow> pystr list \<times> request_too_large option
     \<Rightarrow> request_too_large + (chat_error + (chat_response \<times> chat_state))" where
  "chat_application env received =
     (case received of
        (bodies, Some e) \<Rightarrow> Inr (Inl (Bad_request ''invalid_json''))
      | (bodies, None) \<Rightarrow> Inr (chat_completions env (concat bodies)))"

lemma limited_receive_total:
  "limited_receive limit received bodies = (bs, raised) \<Longrightarrow>
     (\<exists>rest. bodies = bs @ rest \<and> (raised = None \<longleftrightarrow> rest = []))
     \<and> (received \<le> limit \<longrightarrow> received + int (length (concat bs)) \<le> limit)"
proof (induction bodies arbitrary: received bs)
  case (Cons b bodies)
  show ?case
  proof (cases "received + int (length b) > limit")
    case True
    with Cons.prems show ?thesis by auto
  next
    case False
    obtain bs' where rec: "limited_receive limit (received + int (length b)) bodies = (bs', raised)" "bs = b # bs'"
      using Cons.prems False by (auto simp: Let_def split: prod.splits)
    from Cons.IH [OF rec(1)] False rec(2) show ?thesis by (auto simp: add.assoc)
  qed
qed simp

lemma limited_receive_raised:
  "limited_receive limit received bodies = (bs, Some e) \<Longrightarrow>
     limit < rtl_received e \<and> rtl_received e \<le> received + int (length (concat bodies))"
proof (induction bodies arbitrary: received bs)
  case (Cons b bodies)
  show ?case
  proof (cases "received + int (length b) > limit")
    case True
    with Cons.prems show ?thesis by (auto simp: Let_def)
  next
    case False
    with Cons.prems obtain bs' where rec: "limited_receive limit (received + int (length b)) bodies = (bs', Some e)"
      by (auto simp: Let_def split: prod.splits)
    from Cons.IH [OF rec] show ?thesis by (auto simp: add.assoc)
  qed
qed simp

lemma limited_receive_iff:
  assumes "0 \<le> limit"
  shows "limited_receive limit 0 bodies = (bodies, None) \<longleftrightarrow> int (length (concat bodies)) \<le> limit"
    and "snd (limited_receive limit 0 bodies) = None \<longleftrightarrow> int (length (concat bodies)) \<le> limit"
proof -
  obtain bs raised where r: "limited_receive limit 0 bodies = (bs, raised)" by (cases "limited_receive limit 0 bodies")
  note total = limited_receive_total [OF r]
  show "snd (limited_receive limit 0 bodies) = None \<longleftrightarrow> int (length (concat bodies)) \<le> limit"
  proof (cases raised)
    case None
    with total assms r show ?thesis by auto
  next
    case (Some e)
    with limited_receive_raised [of limit 0 bodies bs e] r show ?thesis by auto
  qed
  with total r show "limited_receive limit 0 bodies = (bodies, None) \<longleftrightarrow> int (length (concat bodies)) \<le> limit"
    by auto
qed

text \<open>C32. The chat handler never sees a body longer than the limit: it gets messages that total at most
  \<open>max_bytes\<close>, and runs on the body exactly when the whole of it fits and no longer length was announced.
  But only an announced length is answered with 413: a longer body without one is reported by the
  handler as invalid JSON, with 400.\<close>

theorem body_limit_chat:
  assumes "0 \<le> max_bytes"
  shows "int (length (concat (fst (limited_receive max_bytes 0 bodies)))) \<le> max_bytes
    \<and> request_size_dispatch max_bytes header (chat_application env) bodies =
       (if \<exists>n > max_bytes. header = Length n then None
        else if int (length (concat bodies)) > max_bytes then Some (Inl (Bad_request ''invalid_json''))
        else Some (chat_completions env (concat bodies)))"
proof -
  obtain bs raised where r: "limited_receive max_bytes 0 bodies = (bs, raised)"
    by (cases "limited_receive max_bytes 0 bodies")
  note total = limited_receive_total [OF r]
  have "chat_application env (bs, raised) = Inr
      (if int (length (concat bodies)) > max_bytes then Inl (Bad_request ''invalid_json'')
       else chat_completions env (concat bodies))"
    using limited_receive_iff [OF assms, of bodies] r
    by (cases raised) (auto simp: chat_application_def)
  with total r assms show ?thesis
    by (cases header) (auto simp: request_size_dispatch_def Let_def)
qed

theorem body_limit_chat_witness:
  "\<forall>env. request_size_dispatch 3 No_length (chat_application env) [''ab'', ''cd''] = Some (Inl (Bad_request ''invalid_json''))
     \<and> request_size_dispatch 3 (Length 4) (chat_application env) [''ab'', ''cd''] = None
     \<and> request_size_dispatch 3 Malformed_length (chat_application env) [''ab''] = Some (chat_completions env ''ab'')"
  using body_limit_chat [of 3 "[''ab'', ''cd'']" No_length] body_limit_chat [of 3 "[''ab'', ''cd'']" "Length 4"]
    body_limit_chat [of 3 "[''ab'']" Malformed_length] by simp

subsection \<open>Rate limit\<close>

record rate_limiter =
  lim_enabled :: bool
  lim_rate :: pyfloat
  lim_burst :: int
  lim_per :: pystr
  lim_buckets :: "pystr \<rightharpoonup> bucket"

record rate_request =
  rq_host :: "pystr option"
  rq_api_key_name :: "pystr option"

definition rate_identifier :: "rate_limiter \<Rightarrow> rate_request \<Rightarrow> pystr" where
  "rate_identifier l rq =
     (let client_host = (case rq_host rq of Some h \<Rightarrow> h | None \<Rightarrow> ''unknown'') in
      if lim_per l = ''ip'' then ''ip:'' @ client_host
      else case rq_api_key_name rq of
             Some n \<Rightarrow> if n \<noteq> [] then ''api_key:'' @ n else ''ip:'' @ client_host
           | None \<Rightarrow> ''ip:'' @ client_host)"

definition get_bucket :: "pyfloat \<Rightarrow> pystr \<Rightarrow> rate_limiter \<Rightarrow> bucket_error + bucket" where
  "get_bucket now key l =
     (case lim_buckets l key of
        Some b \<Rightarrow> Inr b
      | None \<Rightarrow> token_bucket (lim_rate l) (lim_burst l) now)"

text \<open>The seconds of the 429 answer's \<open>Retry-After\<close>, or \<open>None\<close> when the request goes on.\<close>

definition rate_dispatch ::
  "pyfloat \<Rightarrow> rate_request \<Rightarrow> rate_limiter \<Rightarrow> bucket_error + (int option \<times> rate_limiter)" where
  "rate_dispatch now rq l =
     (if \<not> lim_enabled l then Inr (None, l)
      else
        let key = rate_identifier l rq in
        bind_res (get_bucket now key l) (\<lambda>b.
          let (granted, b') = consume now 1 b;
              l' = l\<lparr>lim_buckets := (lim_buckets l)(key \<mapsto> b')\<rparr> in
          if granted then Inr (None, l')
          else Inr (Some (max 1 \<lceil>retry_after 1 b'\<rceil>), l')))"

text \<open>A sequence of requests; for each whether it was let through.\<close>

fun rate_run :: "(pyfloat \<times> rate_request) list \<Rightarrow> rate_limiter \<Rightarrow> bucket_error + (bool list \<times> rate_limiter)" where
  "rate_run [] l = Inr ([], l)"
| "rate_run ((now, rq) # rest) l =
     bind_res (rate_dispatch now rq l) (\<lambda>(answer, l).
     bind_res (rate_run rest l) (\<lambda>(admitted, l). Inr ((answer = None) # admitted, l)))"

definition own_calls :: "rate_limiter \<Rightarrow> pystr \<Rightarrow> (pyfloat \<times> rate_request) list \<Rightarrow> (pyfloat \<times> int) list" where
  "own_calls l key reqs = map (\<lambda>(now, rq). (now, 1)) (filter (\<lambda>(now, rq). rate_identifier l rq = key) reqs)"

definition admitted_of :: "rate_limiter \<Rightarrow> pystr \<Rightarrow> (pyfloat \<times> rate_request) list \<Rightarrow> bool list \<Rightarrow> int" where
  "admitted_of l key reqs admitted =
     int (length (filter (\<lambda>((now, rq), ok). ok \<and> rate_identifier l rq = key) (zip reqs admitted)))"

lemma rate_identifier_buckets [simp]: "rate_identifier (l\<lparr>lim_buckets := m\<rparr>) rq = rate_identifier l rq"
  by (simp add: rate_identifier_def)

lemma rate_dispatch_step:
  assumes "rate_dispatch now rq l = Inr (answer, l1)" and "lim_enabled l"
  obtains b where "get_bucket now (rate_identifier l rq) l = Inr b"
    "l1 = l\<lparr>lim_buckets := (lim_buckets l)(rate_identifier l rq \<mapsto> snd (consume now 1 b))\<rparr>"
    "answer = None \<longleftrightarrow> fst (consume now 1 b)"
  using assms by (auto simp: rate_dispatch_def Let_def res_simps case_prod_beta split: if_splits)

text \<open>What one identifier is granted is what its own bucket grants its own calls.\<close>

lemma rate_run_own:
  assumes "rate_run reqs l = Inr (admitted, l')" and "lim_enabled l" and "lim_buckets l key = Some b"
  shows "admitted_of l key reqs admitted = granted b (own_calls l key reqs)"
  using assms
proof (induction reqs arbitrary: l b admitted)
  case Nil
  then show ?case by (simp add: admitted_of_def own_calls_def)
next
  case (Cons r reqs)
  obtain now rq where r: "r = (now, rq)" by (cases r)
  from Cons.prems(1) r obtain answer l1 admitted1 where d: "rate_dispatch now rq l = Inr (answer, l1)"
    and rest: "rate_run reqs l1 = Inr (admitted1, l')" and ad: "admitted = (answer = None) # admitted1"
    by (auto simp: res_simps)
  obtain b1 where b1: "get_bucket now (rate_identifier l rq) l = Inr b1"
    and l1: "l1 = l\<lparr>lim_buckets := (lim_buckets l)(rate_identifier l rq \<mapsto> snd (consume now 1 b1))\<rparr>"
    and answer: "answer = None \<longleftrightarrow> fst (consume now 1 b1)"
    by (rule rate_dispatch_step [OF d Cons.prems(2)])
  have same: "rate_identifier l1 q = rate_identifier l q" for q by (simp add: l1)
  have own: "own_calls l1 key reqs = own_calls l key reqs" "admitted_of l1 key reqs = admitted_of l key reqs"
    by (auto simp: own_calls_def admitted_of_def same)
  show ?case
  proof (cases "rate_identifier l rq = key")
    case True
    then have "b1 = b" using b1 Cons.prems(3) by (simp add: get_bucket_def)
    moreover have "admitted_of l key reqs admitted1 = granted (snd (consume now 1 b)) (own_calls l key reqs)"
      using Cons.IH [OF rest, of "snd (consume now 1 b)"] Cons.prems(2) own True \<open>b1 = b\<close> by (simp add: l1)
    ultimately show ?thesis using True answer by (simp add: r ad admitted_of_def own_calls_def)
  next
    case False
    then have "admitted_of l key reqs admitted1 = granted b (own_calls l key reqs)"
      using Cons.IH [OF rest, of b] Cons.prems(2,3) own by (simp add: l1)
    with False show ?thesis by (simp add: r ad admitted_of_def own_calls_def)
  qed
qed

lemma rate_run_first:
  assumes "rate_run reqs l = Inr (admitted, l')" and "lim_enabled l" and "own_calls l key reqs = (t0, n) # calls"
  shows "\<exists>b. get_bucket t0 key l = Inr b \<and> admitted_of l key reqs admitted = granted b (own_calls l key reqs)"
  using assms
proof (induction reqs arbitrary: l admitted)
  case Nil
  then show ?case by (simp add: own_calls_def)
next
  case (Cons r reqs)
  obtain now rq where r: "r = (now, rq)" by (cases r)
  from Cons.prems(1) r obtain answer l1 admitted1 where d: "rate_dispatch now rq l = Inr (answer, l1)"
    and rest: "rate_run reqs l1 = Inr (admitted1, l')" and ad: "admitted = (answer = None) # admitted1"
    by (auto simp: res_simps)
  obtain b1 where b1: "get_bucket now (rate_identifier l rq) l = Inr b1"
    and l1: "l1 = l\<lparr>lim_buckets := (lim_buckets l)(rate_identifier l rq \<mapsto> snd (consume now 1 b1))\<rparr>"
    and answer: "answer = None \<longleftrightarrow> fst (consume now 1 b1)"
    by (rule rate_dispatch_step [OF d Cons.prems(2)])
  have same: "rate_identifier l1 q = rate_identifier l q" for q by (simp add: l1)
  have own: "own_calls l1 key reqs = own_calls l key reqs" "admitted_of l1 key reqs = admitted_of l key reqs"
    by (auto simp: own_calls_def admitted_of_def same)
  show ?case
  proof (cases "rate_identifier l rq = key")
    case True
    then have "admitted_of l1 key reqs admitted1 = granted (snd (consume now 1 b1)) (own_calls l1 key reqs)"
      by (intro rate_run_own [OF rest]) (simp_all add: l1 Cons.prems(2))
    moreover have "t0 = now" using Cons.prems(3) True by (simp add: r own_calls_def)
    ultimately show ?thesis using True b1 answer own by (simp add: r ad admitted_of_def own_calls_def)
  next
    case False
    then have calls: "own_calls l1 key reqs = (t0, n) # calls" "own_calls l key (r # reqs) = own_calls l key reqs"
      using Cons.prems(3) own by (auto simp: r own_calls_def)
    obtain b where "get_bucket t0 key l1 = Inr b" "admitted_of l1 key reqs admitted1 = granted b (own_calls l1 key reqs)"
      using Cons.IH [OF rest _ calls(1)] Cons.prems(2) by (auto simp: l1)
    moreover have "get_bucket t0 key l1 = get_bucket t0 key l"
      using False by (cases "lim_buckets l key") (simp_all add: get_bucket_def l1)
    ultimately show ?thesis using False own calls(2) by (simp add: r ad) (simp add: admitted_of_def)
  qed
qed

text \<open>C31. The rate limit holds for every client by itself: whatever the other clients send, an identifier
  with no bucket yet is let through as often as a fresh bucket would grant its own requests, which from
  its first request until any later time \<open>T\<close> is at most the burst and what the rate refills.\<close>

theorem rate_limit_per_identifier:
  assumes "rate_run reqs l = Inr (admitted, l')" and "lim_enabled l" and "lim_buckets l key = None"
    and "own_calls l key reqs = (start, n) # calls" and "\<forall>(now, _) \<in> set ((start, n) # calls). now \<le> T"
  shows "\<exists>b. token_bucket (lim_rate l) (lim_burst l) start = Inr b
    \<and> admitted_of l key reqs admitted = granted b (own_calls l key reqs)
    \<and> of_int (admitted_of l key reqs admitted) \<le> of_int (lim_burst l) + lim_rate l * (T - start)"
proof -
  obtain b where b: "get_bucket start key l = Inr b" "admitted_of l key reqs admitted = granted b (own_calls l key reqs)"
    using rate_run_first [OF assms(1,2,4)] by blast
  then have new: "token_bucket (lim_rate l) (lim_burst l) start = Inr b" using assms(3) by (simp add: get_bucket_def)
  have "\<forall>(now, amount) \<in> set (own_calls l key reqs). now \<le> T \<and> 0 \<le> amount"
    using assms(4,5) by (auto simp: own_calls_def)
  then have "of_int (granted b (own_calls l key reqs)) \<le> of_int (lim_burst l) + lim_rate l * (T - start)"
    using assms(4,5) granted_bounded [OF new, of T "own_calls l key reqs"] by auto
  with b(2) new show ?thesis by auto
qed

definition sample_limiter :: rate_limiter where
  "sample_limiter =
     \<lparr>lim_enabled = True, lim_rate = 1, lim_burst = 2, lim_per = ''api_key'', lim_buckets = Map.empty\<rparr>"

definition sample_requests :: "(pyfloat \<times> rate_request) list" where
  "sample_requests =
     map (\<lambda>(t, n). (t, \<lparr>rq_host = Some ''10.0.0.1'', rq_api_key_name = Some n\<rparr>))
       [(0, ''a''), (0, ''b''), (0, ''a''), (0, ''a''), (1, ''a'')]"

theorem rate_limit_per_identifier_witness:
  "\<exists>admitted l'. rate_run sample_requests sample_limiter = Inr (admitted, l')
     \<and> admitted = [True, True, True, False, True]
     \<and> of_int (admitted_of sample_limiter ''api_key:a'' sample_requests admitted) \<le> (2 + 1 * (1 - 0) :: pyfloat)"
proof -
  have "map_sum id fst (rate_run sample_requests sample_limiter) = (Inr [True, True, True, False, True] :: bucket_error + bool list)"
    by code_simp
  then obtain l' where run: "rate_run sample_requests sample_limiter = Inr ([True, True, True, False, True], l')"
    by (cases "rate_run sample_requests sample_limiter") auto
  have own: "own_calls sample_limiter ''api_key:a'' sample_requests = (0, 1) # [(0, 1), (0, 1), (1, 1)]" by code_simp
  have l: "lim_enabled sample_limiter" "lim_buckets sample_limiter ''api_key:a'' = None"
    "lim_burst sample_limiter = 2" "lim_rate sample_limiter = 1" by (simp_all add: sample_limiter_def)
  from rate_limit_per_identifier [OF run l(1,2) own, of 1] run l(3,4) show ?thesis by auto
qed

end
