(* ===== verification/Tenancy.thy ===== *)
theory Tenancy
  imports Router Detector_Status
begin

text \<open>
  \<open>middleware/auth.py\<close>, \<open>tenancy/context.py\<close>, \<open>tenancy/policy.py\<close>, \<open>tenancy/observation.py\<close>,
  \<open>flow/observation.py\<close>, \<open>middleware/policy_resolution.py\<close> and the installation of tenant bundles in
  \<open>app.py\<close>: from the \<open>Authorization\<close> header of a request to the runtime bundle it is served with.

  A dict comprehension keeps the last value of a key: it is \<open>dict_of\<close>.
\<close>

lemma dict_of_SomeD: "dict_of kvs k = Some v \<Longrightarrow> (k, v) \<in> set kvs"
  by (auto simp: dict_of_def dest: map_of_SomeD)

lemma dict_of_None: "dict_of kvs k = None \<longleftrightarrow> k \<notin> fst ` set kvs"
  by (auto simp: dict_of_def map_of_eq_None_iff)

subsection \<open>Identities\<close>

datatype identity_source = Api_key_source | Legacy_single_tenant

record tenant_context =
  tc_tenant_id :: pystr
  tc_identity_source :: identity_source

definition legacy_tenant_context :: tenant_context where
  "legacy_tenant_context = \<lparr>tc_tenant_id = ''default'', tc_identity_source = Legacy_single_tenant\<rparr>"

record tenant_policy_context =
  tp_tenant_id :: pystr
  tp_policy_id :: pystr
  tp_input_flow_identity :: "flow_key option"
  tp_output_flow_identity :: "flow_key option"
  tp_routing_profile_id :: pystr

datatype observation_scope = TENANT | LEGACY_SCOPE | UNATTRIBUTED | POLICY | SYSTEM

record observation_context =
  oc_scope :: observation_scope
  oc_tenant_id :: "pystr option"
  oc_policy_id :: "pystr option"

text \<open>\<open>_ID_PATTERN\<close>: up to 64 lower-case letters, digits, dashes and underscores, with a letter or digit at both ends.\<close>

definition lower_or_digit :: "char \<Rightarrow> bool" where
  "lower_or_digit c \<longleftrightarrow> is_lower c \<or> is_digit c"

definition valid_observation_id :: "pystr \<Rightarrow> bool" where
  "valid_observation_id s \<longleftrightarrow>
     s \<noteq> [] \<and> length s \<le> 64 \<and> lower_or_digit (hd s) \<and> lower_or_digit (last s)
     \<and> list_all (\<lambda>c. lower_or_digit c \<or> c = CHR ''_'' \<or> c = CHR ''-'') s"

definition observation :: "observation_scope \<Rightarrow> pystr option \<Rightarrow> pystr option \<Rightarrow> unit + observation_context" where
  "observation scope tenant_id policy_id =
     (let valid =
        (case scope of
           TENANT \<Rightarrow> tenant_id \<noteq> None \<and> policy_id \<noteq> None
         | POLICY \<Rightarrow> tenant_id = None \<and> policy_id \<noteq> None
         | _ \<Rightarrow> tenant_id = None \<and> policy_id = None)
      in if \<not> valid \<or> \<not> pred_option valid_observation_id tenant_id \<or> \<not> pred_option valid_observation_id policy_id
         then Inl ()
         else Inr \<lparr>oc_scope = scope, oc_tenant_id = tenant_id, oc_policy_id = policy_id\<rparr>)"

definition build_tenant_observation_context ::
  "tenant_context option \<Rightarrow> tenant_policy_context option \<Rightarrow> unit + observation_context" where
  "build_tenant_observation_context tenant policy =
     (case (tenant, policy) of
        (Some t, Some p) \<Rightarrow>
          if tc_tenant_id t \<noteq> tp_tenant_id p then Inl ()
          else observation TENANT (Some (tc_tenant_id t)) (Some (tp_policy_id p))
      | _ \<Rightarrow> Inl ())"

subsection \<open>Authentication\<close>

record api_key =
  ak_key :: pystr
  ak_name :: pystr
  ak_tenant_id :: "pystr option"

record tenant =
  tn_id :: pystr
  tn_policy_id :: "pystr option"

datatype auth_error = Duplicate_api_key | Api_key_tenant_required

record auth_middleware =
  am_enabled :: bool
  am_keys :: "pystr \<rightharpoonup> pystr"
  am_tenant_contexts :: "pystr \<rightharpoonup> tenant_context"

definition key_context :: "bool \<Rightarrow> api_key \<Rightarrow> auth_error + tenant_context" where
  "key_context tenancy_enabled k =
     (if tenancy_enabled
      then (case ak_tenant_id k of
              None \<Rightarrow> Inl Api_key_tenant_required
            | Some t \<Rightarrow> Inr \<lparr>tc_tenant_id = t, tc_identity_source = Api_key_source\<rparr>)
      else Inr legacy_tenant_context)"

definition make_auth :: "bool \<Rightarrow> api_key list \<Rightarrow> bool \<Rightarrow> auth_error + auth_middleware" where
  "make_auth enabled keys tenancy_enabled =
     (if tenancy_enabled \<and> \<not> distinct (map ak_key keys) then Inl Duplicate_api_key
      else
        bind_res (map_res (\<lambda>k. bind_res (key_context tenancy_enabled k) (\<lambda>c. Inr (ak_key k, c))) keys) (\<lambda>contexts.
          Inr \<lparr>am_enabled = enabled, am_keys = dict_of (map (\<lambda>k. (ak_key k, ak_name k)) keys),
               am_tenant_contexts = dict_of contexts\<rparr>))"

definition bearer_prefix :: pystr where
  "bearer_prefix = ''bearer ''"

text \<open>The header, an empty text when the request has none.\<close>

definition extract_token :: "pystr \<Rightarrow> pystr option" where
  "extract_token auth_header =
     (if \<not> starts_with (map ascii_lower auth_header) bearer_prefix then None
      else let token = py_strip (drop (length bearer_prefix) auth_header)
           in if token = [] then None else Some token)"

text \<open>The name of the key and the tenant of the request; \<open>None\<close> is the 401 answer.\<close>

definition auth_dispatch :: "auth_middleware \<Rightarrow> pystr \<Rightarrow> (pystr option \<times> tenant_context) option" where
  "auth_dispatch am auth_header =
     (if \<not> am_enabled am then Some (None, legacy_tenant_context)
      else
        let token = extract_token auth_header;
            api_key_name = Option.bind token (am_keys am);
            tenant_context = Option.bind token (am_tenant_contexts am)
        in case (api_key_name, tenant_context) of
             (Some n, Some c) \<Rightarrow> Some (Some n, c)
           | _ \<Rightarrow> None)"

subsection \<open>Bundles and their resolution\<close>

text \<open>A compiled bundle; the coordinator is known by its registry.\<close>

record tenant_bundle =
  tb_policy_id :: pystr
  tb_input_flow_identity :: "flow_key option"
  tb_output_flow_identity :: "flow_key option"
  tb_routing_profile_id :: pystr
  tb_engine :: "engine option"
  tb_input_configs :: "detector_configs option"
  tb_output_configs :: "detector_configs option"
  tb_status_registry :: "status_registry option"
  tb_coordinator :: "status_registry option"
  tb_node_policies :: "(pystr \<times> pystr \<times> pystr \<rightharpoonup> node_policy) option"
  tb_input_policies :: "(pystr \<rightharpoonup> node_policy) option"
  tb_output_policies :: "(pystr \<rightharpoonup> node_policy) option"
  tb_router_view :: "tenant_view option"

definition is_executable_bundle :: "tenant_bundle \<Rightarrow> bool" where
  "is_executable_bundle b \<longleftrightarrow>
     tb_engine b \<noteq> None \<and> tb_input_configs b \<noteq> None \<and> tb_output_configs b \<noteq> None
     \<and> tb_status_registry b \<noteq> None \<and> tb_coordinator b \<noteq> None \<and> tb_node_policies b \<noteq> None
     \<and> tb_input_policies b \<noteq> None \<and> tb_output_policies b \<noteq> None \<and> tb_router_view b \<noteq> None"

record policy_resolver =
  pr_enabled :: bool
  pr_tenant_policy_ids :: "pystr \<rightharpoonup> pystr"
  pr_bundles :: "(pystr \<times> tenant_bundle) list"
  pr_require_executable :: bool

definition make_resolver :: "bool \<Rightarrow> tenant list \<Rightarrow> tenant_bundle list \<Rightarrow> policy_resolver" where
  "make_resolver enabled tenants bundles =
     \<lparr>pr_enabled = enabled,
      pr_tenant_policy_ids =
        dict_of (concat (map (\<lambda>t. case tn_policy_id t of None \<Rightarrow> [] | Some p \<Rightarrow> [(tn_id t, p)]) tenants)),
      pr_bundles = fold (\<lambda>b. AList.update (tb_policy_id b) b) bundles [],
      pr_require_executable = False\<rparr>"

datatype policy_error = Tenant_policy_unavailable | Tenant_context_invalid

definition install_bundles :: "tenant_bundle list \<Rightarrow> policy_resolver \<Rightarrow> policy_error + policy_resolver" where
  "install_bundles bundles r =
     (let installed = fold (\<lambda>b. AList.update (tb_policy_id b) b) bundles [] in
      if list_ex (\<lambda>(_, b). \<not> is_executable_bundle b) installed then Inl Tenant_policy_unavailable
      else Inr (r\<lparr>pr_bundles := installed, pr_require_executable := True\<rparr>))"

definition resolve_policy ::
  "policy_resolver \<Rightarrow> tenant_context option \<Rightarrow> policy_error + (tenant_policy_context \<times> tenant_bundle) option" where
  "resolve_policy r tenant =
     (if \<not> pr_enabled r then Inr None
      else case tenant of
        None \<Rightarrow> Inl Tenant_policy_unavailable
      | Some t \<Rightarrow>
          (case pr_tenant_policy_ids r (tc_tenant_id t) of
             None \<Rightarrow> Inl Tenant_policy_unavailable
           | Some policy_id \<Rightarrow>
               (case map_of (pr_bundles r) policy_id of
                  None \<Rightarrow> Inl Tenant_policy_unavailable
                | Some b \<Rightarrow>
                    if tb_policy_id b \<noteq> policy_id \<or> pr_require_executable r \<and> \<not> is_executable_bundle b
                    then Inl Tenant_policy_unavailable
                    else Inr (Some
                      (\<lparr>tp_tenant_id = tc_tenant_id t, tp_policy_id = policy_id,
                        tp_input_flow_identity = tb_input_flow_identity b,
                        tp_output_flow_identity = tb_output_flow_identity b,
                        tp_routing_profile_id = tb_routing_profile_id b\<rparr>, b)))))"

text \<open>What \<open>TenantPolicyResolutionMiddleware\<close> leaves in the request; an error is the 503 answer.\<close>

record tenant_state =
  ts_policy :: "tenant_policy_context option"
  ts_bundle :: "tenant_bundle option"
  ts_observation :: "observation_context option"

definition policy_dispatch :: "policy_resolver \<Rightarrow> tenant_context option \<Rightarrow> policy_error + tenant_state" where
  "policy_dispatch r tenant =
     bind_res (resolve_policy r tenant) (\<lambda>resolution.
       let policy = map_option fst resolution; bundle = map_option snd resolution in
       if pr_enabled r
       then (case build_tenant_observation_context tenant policy of
               Inl _ \<Rightarrow> Inl Tenant_context_invalid
             | Inr oc \<Rightarrow> Inr \<lparr>ts_policy = policy, ts_bundle = bundle, ts_observation = Some oc\<rparr>)
       else Inr \<lparr>ts_policy = policy, ts_bundle = bundle, ts_observation = None\<rparr>)"

text \<open>The two middlewares in a row, as \<open>create_app\<close> stacks them.\<close>

datatype tenant_answer = Unauthorized | Policy_unavailable policy_error

definition tenant_request ::
  "auth_middleware \<Rightarrow> policy_resolver \<Rightarrow> pystr \<Rightarrow> tenant_answer + (pystr option \<times> tenant_context \<times> tenant_state)" where
  "tenant_request am r auth_header =
     (case auth_dispatch am auth_header of
        None \<Rightarrow> Inl Unauthorized
      | Some (name, tenant) \<Rightarrow>
          (case policy_dispatch r (Some tenant) of
             Inl e \<Rightarrow> Inl (Policy_unavailable e)
           | Inr st \<Rightarrow> Inr (name, tenant, st)))"

subsection \<open>Installing the compiled bundles\<close>

record tenant_routing =
  tr_models_provider :: pystr
  tr_rules :: "routing_rule list"

datatype install_error = Routing routing_error | Unknown_policy pystr | Install policy_error

definition with_router_view ::
  "pystr list \<Rightarrow> (pystr \<times> tenant_routing) list \<Rightarrow> tenant_bundle \<Rightarrow> install_error + tenant_bundle" where
  "with_router_view instances policies b =
     (case dict_of policies (tb_policy_id b) of
        None \<Rightarrow> Inl (Unknown_policy (tb_policy_id b))
      | Some routing \<Rightarrow>
          (case tenant_router_view instances (tr_rules routing) (tr_models_provider routing) of
             Inl e \<Rightarrow> Inl (Routing e)
           | Inr view \<Rightarrow> Inr (b\<lparr>tb_router_view := Some view\<rparr>)))"

definition install_tenants ::
  "pystr list \<Rightarrow> (pystr \<times> tenant_routing) list \<Rightarrow> tenant_bundle list \<Rightarrow> policy_resolver \<Rightarrow> install_error + policy_resolver" where
  "install_tenants instances policies compiled r =
     bind_res (map_res (with_router_view instances policies) compiled) (\<lambda>bundles.
       case install_bundles bundles r of Inl e \<Rightarrow> Inl (Install e) | Inr r' \<Rightarrow> Inr r')"

subsection \<open>Laws\<close>

lemma map_res_mem:
  "map_res f xs = Inr ys \<Longrightarrow> y \<in> set ys \<Longrightarrow> \<exists>x \<in> set xs. f x = Inr y"
proof (induction xs arbitrary: ys)
  case (Cons x xs)
  then show ?case by (auto simp: res_simps)
qed simp

lemma tenant_view_rules:
  assumes "tenant_router_view instances rules models_name = Inr view"
  shows "tv_rules view = rules \<and> rl_provider ` set rules \<subseteq> set instances"
proof -
  obtain bp al where "fold_res (check_tenant_rule instances) rules ([], []) = Inr (bp, al)" "tv_rules view = rules"
    using assms by (auto simp: tenant_router_view_def res_simps split: if_splits)
  with fold_check_tenant [OF this(1)] show ?thesis by blast
qed

lemma tenant_resolve_provider:
  "tenant_resolve n rules model = Some (provider, c) \<Longrightarrow> provider \<in> rl_provider ` set rules"
  by (induction rules arbitrary: n) (auto split: if_splits)

lemma fold_update_bundles:
  "map_of (fold (\<lambda>b. AList.update (tb_policy_id b) b) bundles al) p = Some b \<Longrightarrow>
     map_of al p = Some b \<or> b \<in> set bundles \<and> tb_policy_id b = p"
  by (induction bundles arbitrary: al) (fastforce simp: update_conv' split: if_splits)+

lemma auth_dispatch_tenant:
  assumes "make_auth True keys True = Inr am" and "auth_dispatch am auth_header = Some (name, tenant)"
  shows "\<exists>k \<in> set keys. extract_token auth_header = Some (ak_key k) \<and> name = Some (ak_name k)
    \<and> ak_tenant_id k = Some (tc_tenant_id tenant)
    \<and> (\<forall>k' \<in> set keys. ak_key k' = ak_key k \<longrightarrow> k' = k)"
proof -
  obtain contexts where distinct: "distinct (map ak_key keys)"
    and contexts: "map_res (\<lambda>k. bind_res (key_context True k) (\<lambda>c. Inr (ak_key k, c))) keys = Inr contexts"
    and am: "am = \<lparr>am_enabled = True, am_keys = dict_of (map (\<lambda>k. (ak_key k, ak_name k)) keys),
               am_tenant_contexts = dict_of contexts\<rparr>"
    using assms(1) by (auto simp: make_auth_def res_simps split: if_splits)
  obtain token where token: "extract_token auth_header = Some token"
    using assms(2) am by (cases "extract_token auth_header") (auto simp: auth_dispatch_def)
  then obtain n where n: "name = Some n" "am_keys am token = Some n" "am_tenant_contexts am token = Some tenant"
    using assms(2) am
    by (cases "am_keys am token"; cases "am_tenant_contexts am token") (auto simp: auth_dispatch_def Let_def)
  obtain k where k: "k \<in> set keys" "ak_key k = token" "ak_name k = n"
    using dict_of_SomeD [of _ token n] n(2) am by force
  have "(token, tenant) \<in> set contexts" using dict_of_SomeD n(3) am by fastforce
  then obtain k' where k': "k' \<in> set keys" "ak_key k' = token" "key_context True k' = Inr tenant"
    using map_res_mem [OF contexts] by (fastforce simp: res_simps)
  have same: "k'' = k" if "k'' \<in> set keys" "ak_key k'' = token" for k''
    using distinct that k(1,2) by (metis distinct_map inj_onD)
  have "k' = k" by (rule same [OF k'(1,2)])
  with k' have "ak_tenant_id k = Some (tc_tenant_id tenant)"
    by (auto simp: key_context_def split: option.splits)
  with k token n(1) same show ?thesis by blast
qed

lemma resolve_policy_bundle:
  assumes "resolve_policy r (Some tenant) = Inr (Some (policy, b))"
  shows "pr_tenant_policy_ids r (tc_tenant_id tenant) = Some (tb_policy_id b)
    \<and> map_of (pr_bundles r) (tb_policy_id b) = Some b
    \<and> tp_tenant_id policy = tc_tenant_id tenant \<and> tp_policy_id policy = tb_policy_id b
    \<and> (pr_require_executable r \<longrightarrow> is_executable_bundle b)"
  using assms by (auto simp: resolve_policy_def split: if_splits option.splits)

lemma install_tenants_bundles:
  assumes "install_tenants instances policies compiled r0 = Inr r" and "map_of (pr_bundles r) p = Some b"
  shows "pr_require_executable r \<and> pr_enabled r = pr_enabled r0 \<and> pr_tenant_policy_ids r = pr_tenant_policy_ids r0
    \<and> tb_policy_id b = p
    \<and> (\<exists>c \<in> set compiled. \<exists>routing view. dict_of policies p = Some routing
         \<and> tenant_router_view instances (tr_rules routing) (tr_models_provider routing) = Inr view
         \<and> b = c\<lparr>tb_router_view := Some view\<rparr>)"
proof -
  obtain bundles where bundles: "map_res (with_router_view instances policies) compiled = Inr bundles"
    "install_bundles bundles r0 = Inr r"
    using assms(1) unfolding install_tenants_def bind_res_Inr by (force split: sum.splits)
  then have r: "pr_bundles r = fold (\<lambda>b. AList.update (tb_policy_id b) b) bundles []" "pr_require_executable r"
    "pr_enabled r = pr_enabled r0" "pr_tenant_policy_ids r = pr_tenant_policy_ids r0"
    by (auto simp: install_bundles_def Let_def split: if_splits)
  have b: "b \<in> set bundles" "tb_policy_id b = p" using fold_update_bundles assms(2) r(1) by fastforce+
  then obtain c where "c \<in> set compiled" "with_router_view instances policies c = Inr b"
    using map_res_mem [OF bundles(1)] by blast
  with b(2) r show ?thesis by (fastforce simp: with_router_view_def split: option.splits sum.splits)
qed

lemma policy_dispatch_enabled:
  assumes "pr_enabled r" and "policy_dispatch r tenant = Inr st"
  obtains policy b oc where "resolve_policy r tenant = Inr (Some (policy, b))"
    "build_tenant_observation_context tenant (Some policy) = Inr oc"
    "st = \<lparr>ts_policy = Some policy, ts_bundle = Some b, ts_observation = Some oc\<rparr>"
proof -
  obtain resolution where res: "resolve_policy r tenant = Inr resolution"
    using assms(2) by (auto simp: policy_dispatch_def res_simps)
  then obtain policy b where "resolution = Some (policy, b)"
    using assms(1) by (auto simp: resolve_policy_def split: if_splits option.splits)
  with assms res that [of policy b] show thesis
    by (cases "build_tenant_observation_context tenant (Some policy)") (auto simp: policy_dispatch_def Let_def)
qed

lemma resolver_policy_id:
  assumes "pr_tenant_policy_ids (make_resolver enabled tenants identities) tid = Some p"
  shows "\<exists>t \<in> set tenants. tn_id t = tid \<and> tn_policy_id t = Some p"
proof -
  have "(tid, p) \<in> set (concat (map (\<lambda>t. case tn_policy_id t of None \<Rightarrow> [] | Some p \<Rightarrow> [(tn_id t, p)]) tenants))"
    using assms dict_of_SomeD by (fastforce simp: make_resolver_def)
  then obtain t where "t \<in> set tenants" "(tid, p) \<in> set (case tn_policy_id t of None \<Rightarrow> [] | Some p \<Rightarrow> [(tn_id t, p)])"
    by auto
  then show ?thesis by (cases "tn_policy_id t") auto
qed

subsection \<open>Properties\<close>

text \<open>C16. Tenants are isolated: with authentication and tenancy enabled, a request that is served carries
  the token of exactly one configured key, and runs with the compiled, executable bundle of the policy
  that key's tenant declares; its observation identity names that tenant and policy, and whatever
  model it asks for, the provider is one that the routing rules of this policy name.\<close>

theorem tenant_request_confined:
  assumes "make_auth True keys True = Inr am"
    and "install_tenants instances policies compiled (make_resolver True tenants identities) = Inr r"
    and "tenant_request am r auth_header = Inr (name, tenant, st)"
  shows "\<exists>k \<in> set keys. \<exists>t \<in> set tenants. \<exists>c \<in> set compiled. \<exists>routing view b.
      extract_token auth_header = Some (ak_key k) \<and> name = Some (ak_name k)
      \<and> (\<forall>k' \<in> set keys. ak_key k' = ak_key k \<longrightarrow> k' = k)
      \<and> ak_tenant_id k = Some (tn_id t) \<and> tn_id t = tc_tenant_id tenant \<and> tn_policy_id t = Some (tb_policy_id b)
      \<and> ts_bundle st = Some b \<and> is_executable_bundle b \<and> b = c\<lparr>tb_router_view := Some view\<rparr>
      \<and> ts_observation st = Some \<lparr>oc_scope = TENANT, oc_tenant_id = Some (tn_id t), oc_policy_id = Some (tb_policy_id b)\<rparr>
      \<and> dict_of policies (tb_policy_id b) = Some routing
      \<and> (\<forall>model provider n. tenant_resolve 0 (tv_rules view) model = Some (provider, n) \<longrightarrow>
           provider \<in> rl_provider ` set (tr_rules routing) \<inter> set instances)"
proof -
  obtain auth: "auth_dispatch am auth_header = Some (name, tenant)" and st: "policy_dispatch r (Some tenant) = Inr st"
    using assms(3) by (auto simp: tenant_request_def split: option.splits sum.splits)
  obtain k where k: "k \<in> set keys" "extract_token auth_header = Some (ak_key k)" "name = Some (ak_name k)"
      "ak_tenant_id k = Some (tc_tenant_id tenant)" "\<forall>k' \<in> set keys. ak_key k' = ak_key k \<longrightarrow> k' = k"
    using auth_dispatch_tenant [OF assms(1) auth] by blast
  have r: "pr_enabled r" "pr_tenant_policy_ids r = pr_tenant_policy_ids (make_resolver True tenants identities)"
    using assms(2) by (auto simp: install_tenants_def install_bundles_def make_resolver_def res_simps Let_def
        split: sum.splits if_splits)
  obtain policy b oc where res: "resolve_policy r (Some tenant) = Inr (Some (policy, b))"
    and oc: "build_tenant_observation_context (Some tenant) (Some policy) = Inr oc"
    and st': "st = \<lparr>ts_policy = Some policy, ts_bundle = Some b, ts_observation = Some oc\<rparr>"
    by (rule policy_dispatch_enabled [OF r(1) st])
  note b = resolve_policy_bundle [OF res]
  then have b_in: "map_of (pr_bundles r) (tb_policy_id b) = Some b" by blast
  note inst = install_tenants_bundles [OF assms(2) b_in]
  then obtain c routing view where c: "c \<in> set compiled" "dict_of policies (tb_policy_id b) = Some routing"
    "tenant_router_view instances (tr_rules routing) (tr_models_provider routing) = Inr view"
    "b = c\<lparr>tb_router_view := Some view\<rparr>" by blast
  obtain t where t: "t \<in> set tenants" "tn_id t = tc_tenant_id tenant" "tn_policy_id t = Some (tb_policy_id b)"
    using resolver_policy_id [of True tenants identities "tc_tenant_id tenant" "tb_policy_id b"] b r(2) by auto
  have "oc = \<lparr>oc_scope = TENANT, oc_tenant_id = Some (tn_id t), oc_policy_id = Some (tb_policy_id b)\<rparr>"
    using oc b t(2) by (auto simp: build_tenant_observation_context_def observation_def Let_def split: if_splits)
  moreover have "provider \<in> rl_provider ` set (tr_rules routing) \<inter> set instances"
    if "tenant_resolve 0 (tv_rules view) model = Some (provider, n)" for model provider n
    using tenant_resolve_provider [OF that] tenant_view_rules [OF c(3)] by auto
  ultimately show ?thesis
    using k t c b inst st' by (intro bexI [of _ k] bexI [of _ t] bexI [of _ c] exI [of _ routing] exI [of _ view]
        exI [of _ b]) auto
qed

definition sample_bundle :: tenant_bundle where
  "sample_bundle =
     \<lparr>tb_policy_id = ''strict'', tb_input_flow_identity = None, tb_output_flow_identity = None,
      tb_routing_profile_id = ''strict'',
      tb_engine = Some \<lparr>en_short_circuit = On_block, en_flag_escalation = None, en_configured_flows = [],
        en_input_flow = None, en_output_flow = None, en_configured_policies = Map.empty, en_max_concurrency = 4,
        en_absolute_timeout = 30, en_max_evidence_size = 65536, en_max_depth = 8, en_max_nodes = 256\<rparr>,
      tb_input_configs = Some [], tb_output_configs = Some [], tb_status_registry = Some [],
      tb_coordinator = Some [], tb_node_policies = Some Map.empty, tb_input_policies = Some Map.empty,
      tb_output_policies = Some Map.empty, tb_router_view = None\<rparr>"

definition sample_keys :: "api_key list" where
  "sample_keys =
     [\<lparr>ak_key = ''key-1'', ak_name = ''acme-prod'', ak_tenant_id = Some ''acme''\<rparr>,
      \<lparr>ak_key = ''key-2'', ak_name = ''other'', ak_tenant_id = Some ''other''\<rparr>]"

definition sample_routing :: tenant_routing where
  "sample_routing = \<lparr>tr_models_provider = ''openai'', tr_rules = [\<lparr>rl_pattern = ''gpt-*'', rl_provider = ''openai''\<rparr>]\<rparr>"

definition sample_tenants :: "tenant list" where
  "sample_tenants = [\<lparr>tn_id = ''acme'', tn_policy_id = Some ''strict''\<rparr>]"

theorem tenant_request_confined_witness:
  "\<exists>am r name tenant st b.
     make_auth True sample_keys True = Inr am
     \<and> install_tenants [''openai'', ''local''] [(''strict'', sample_routing)] [sample_bundle]
         (make_resolver True sample_tenants []) = Inr r
     \<and> tenant_request am r ''Bearer key-1'' = Inr (name, tenant, st)
     \<and> ts_bundle st = Some b \<and> tb_policy_id b = ''strict'' \<and> is_executable_bundle b"
proof -
  obtain am where am: "make_auth True sample_keys True = Inr am"
    "am_enabled am" "am_keys am ''key-1'' = Some ''acme-prod''"
    "am_tenant_contexts am ''key-1'' = Some \<lparr>tc_tenant_id = ''acme'', tc_identity_source = Api_key_source\<rparr>"
    by (simp add: make_auth_def sample_keys_def key_context_def dict_of_def)
  obtain view where view: "tenant_router_view [''openai'', ''local''] (tr_rules sample_routing)
      (tr_models_provider sample_routing) = Inr view"
    by (simp add: tenant_router_view_def check_tenant_rule_def max_tenant_policy_routes_def sample_routing_def)
  obtain r where r: "install_tenants [''openai'', ''local''] [(''strict'', sample_routing)] [sample_bundle]
      (make_resolver True sample_tenants []) = Inr r"
    "pr_enabled r" "pr_tenant_policy_ids r ''acme'' = Some ''strict''"
    "map_of (pr_bundles r) ''strict'' = Some (sample_bundle\<lparr>tb_router_view := Some view\<rparr>)"
    by (simp add: install_tenants_def with_router_view_def view install_bundles_def make_resolver_def
        sample_bundle_def sample_tenants_def is_executable_bundle_def dict_of_def)
  have token: "extract_token ''Bearer key-1'' = Some ''key-1''"
    and ids: "valid_observation_id ''acme''" "valid_observation_id ''strict''" by code_simp+
  obtain name tenant st where req: "tenant_request am r ''Bearer key-1'' = Inr (name, tenant, st)"
    and st: "ts_bundle st = Some (sample_bundle\<lparr>tb_router_view := Some view\<rparr>)"
    by (simp add: tenant_request_def auth_dispatch_def am token policy_dispatch_def resolve_policy_def r
        is_executable_bundle_def sample_bundle_def build_tenant_observation_context_def observation_def ids)
  from tenant_request_confined [OF am(1) r(1) req] st am(1) r(1) req show ?thesis
    by (auto simp: sample_bundle_def)
qed

end
