(* ===== verification/Tenant_Resources.thy ===== *)
theory Tenant_Resources
  imports Prelude "HOL-Library.Multiset"
begin

text \<open>
  \<open>tenancy/resources.py\<close>, \<open>tenancy/failures.py\<close> and \<open>middleware/tenant_resources.py\<close>: the bounded
  gate in front of each tenant's requests.

  A call of \<open>acquire\<close> is a coroutine. It suspends only while it waits for the semaphore: the blocks
  under the gate's lock contain no \<open>await\<close>, so that the lock is never held when another coroutine
  runs, and each of them is one step. The calls in progress and the leases handed out are a multiset
  of phases; \<open>gate_step\<close> lets any of them move. That the wait ends with the permit taken, or with an
  exception and no permit, is what \<open>asyncio\<close> documents of \<open>wait_for\<close> and \<open>Semaphore\<close>. The time a
  waiting call has is not modelled: it may give up at any moment.
\<close>

subsection \<open>Budgets and gates\<close>

datatype resource_kind = Request_kind | Stream_kind | Background_kind

record resource_budget =
  rb_max_concurrency :: int
  rb_queue_limit :: int
  rb_request_timeout_seconds :: pyfloat
  rb_max_streams :: int
  rb_max_background_tasks :: int

definition default_budget :: resource_budget where
  "default_budget =
     \<lparr>rb_max_concurrency = 16, rb_queue_limit = 32, rb_request_timeout_seconds = 120,
      rb_max_streams = 16, rb_max_background_tasks = 32\<rparr>"

definition check_budget :: "resource_budget \<Rightarrow> pystr + resource_budget" where
  "check_budget b =
     (if \<not> (1 \<le> rb_max_concurrency b \<and> rb_max_concurrency b \<le> 4096)
      then Inl ''invalid_resource_max_concurrency''
      else if \<not> (0 \<le> rb_queue_limit b \<and> rb_queue_limit b \<le> 4096)
      then Inl ''invalid_resource_queue_limit''
      else if \<not> (0 < rb_request_timeout_seconds b \<and> rb_request_timeout_seconds b \<le> 3600)
      then Inl ''invalid_resource_request_timeout''
      else if \<not> (1 \<le> rb_max_streams b \<and> rb_max_streams b \<le> 4096)
      then Inl ''invalid_resource_max_streams''
      else if \<not> (0 \<le> rb_max_background_tasks b \<and> rb_max_background_tasks b \<le> 4096)
      then Inl ''invalid_resource_background_tasks''
      else Inr b)"

text \<open>Of the semaphore its free permits.\<close>

record tenant_gate =
  tg_budget :: resource_budget
  tg_semaphore :: int
  tg_waiters :: int
  tg_active :: int
  tg_streams :: int
  tg_background :: int

definition new_gate :: "resource_budget \<Rightarrow> tenant_gate" where
  "new_gate b =
     \<lparr>tg_budget = b, tg_semaphore = rb_max_concurrency b, tg_waiters = 0, tg_active = 0, tg_streams = 0,
      tg_background = 0\<rparr>"

datatype resource_error = Resource_exhausted pystr | Resource_timeout

text \<open>The three locked blocks of \<open>acquire\<close>: before the wait, after it, and after a wait that failed.\<close>

definition gate_admit :: "resource_kind \<Rightarrow> tenant_gate \<Rightarrow> resource_error + tenant_gate" where
  "gate_admit kind g =
     (if tg_active g + tg_waiters g \<ge> rb_max_concurrency (tg_budget g) + rb_queue_limit (tg_budget g)
      then Inl (Resource_exhausted ''tenant_resource_exhausted'')
      else if kind = Stream_kind \<and> tg_streams g \<ge> rb_max_streams (tg_budget g)
      then Inl (Resource_exhausted ''tenant_streams_exhausted'')
      else if kind = Background_kind \<and> tg_background g \<ge> rb_max_background_tasks (tg_budget g)
      then Inl (Resource_exhausted ''tenant_background_tasks_exhausted'')
      else Inr (g\<lparr>tg_waiters := tg_waiters g + 1\<rparr>))"

definition gate_enter :: "resource_kind \<Rightarrow> tenant_gate \<Rightarrow> tenant_gate" where
  "gate_enter kind g =
     (let g = g\<lparr>tg_active := tg_active g + 1\<rparr>;
          g = (case kind of
                 Stream_kind \<Rightarrow> g\<lparr>tg_streams := tg_streams g + 1\<rparr>
               | Background_kind \<Rightarrow> g\<lparr>tg_background := tg_background g + 1\<rparr>
               | Request_kind \<Rightarrow> g)
      in g\<lparr>tg_waiters := tg_waiters g - 1\<rparr>)"

definition gate_abandon :: "tenant_gate \<Rightarrow> tenant_gate" where
  "gate_abandon g = g\<lparr>tg_waiters := tg_waiters g - 1\<rparr>"

definition gate_release :: "resource_kind \<Rightarrow> tenant_gate \<Rightarrow> tenant_gate" where
  "gate_release kind g =
     (if tg_active g > 0
      then
        let g = g\<lparr>tg_active := tg_active g - 1\<rparr>;
            g = (if kind = Stream_kind \<and> tg_streams g > 0 then g\<lparr>tg_streams := tg_streams g - 1\<rparr>
                 else if kind = Background_kind \<and> tg_background g > 0
                 then g\<lparr>tg_background := tg_background g - 1\<rparr>
                 else g)
        in g\<lparr>tg_semaphore := tg_semaphore g + 1\<rparr>
      else g)"

record resource_lease =
  rl_kind :: resource_kind
  rl_released :: bool

definition lease_release :: "resource_lease \<Rightarrow> tenant_gate \<Rightarrow> resource_lease \<times> tenant_gate" where
  "lease_release l g =
     (if rl_released l then (l, g) else (l\<lparr>rl_released := True\<rparr>, gate_release (rl_kind l) g))"

subsection \<open>The gates of all tenants\<close>

record resource_snapshot =
  rs_tenant_id :: pystr
  rs_budget :: resource_budget
  rs_deadline :: pyfloat

record resource_manager =
  rm_budgets :: "pystr \<rightharpoonup> resource_budget"
  rm_gates :: "pystr \<rightharpoonup> tenant_gate"

definition manager_snapshot :: "pyfloat \<Rightarrow> pystr \<Rightarrow> resource_manager \<Rightarrow> resource_snapshot" where
  "manager_snapshot now tenant_id m =
     (let budget = (case rm_budgets m tenant_id of Some b \<Rightarrow> b | None \<Rightarrow> default_budget)
      in \<lparr>rs_tenant_id = tenant_id, rs_budget = budget, rs_deadline = now + rb_request_timeout_seconds budget\<rparr>)"

definition manager_gate :: "resource_snapshot \<Rightarrow> resource_manager \<Rightarrow> tenant_gate \<times> resource_manager" where
  "manager_gate snapshot m =
     (case rm_gates m (rs_tenant_id snapshot) of
        Some g \<Rightarrow> (g, m)
      | None \<Rightarrow>
          let g = new_gate (rs_budget snapshot)
          in (g, m\<lparr>rm_gates := (rm_gates m)(rs_tenant_id snapshot \<mapsto> g)\<rparr>))"

text \<open>\<open>TenantResourceManager.acquire\<close> up to the wait: the time left, and the manager.\<close>

definition manager_acquire ::
  "pyfloat \<Rightarrow> resource_snapshot \<Rightarrow> resource_kind \<Rightarrow> resource_manager
     \<Rightarrow> (resource_error + pyfloat) \<times> resource_manager" where
  "manager_acquire now snapshot kind m =
     (let (g, m) = manager_gate snapshot m;
          remaining = rs_deadline snapshot - now in
      if remaining \<le> 0 then (Inl Resource_timeout, m)
      else case gate_admit kind g of
             Inl e \<Rightarrow> (Inl e, m)
           | Inr g' \<Rightarrow> (Inr remaining, m\<lparr>rm_gates := (rm_gates m)(rs_tenant_id snapshot \<mapsto> g')\<rparr>))"

definition manager_stats :: "pystr \<Rightarrow> resource_manager \<Rightarrow> int \<times> int \<times> int \<times> int" where
  "manager_stats tenant_id m =
     (case rm_gates m tenant_id of
        None \<Rightarrow> (0, 0, 0, 0)
      | Some g \<Rightarrow> (tg_active g, tg_waiters g, tg_streams g, tg_background g))"

subsection \<open>Failures and the answers of the middleware\<close>

datatype tenant_failure =
    CAPACITY_EXHAUSTED | REQUEST_TIMEOUT | CANCELLED | INITIALIZATION_FAILED | PROVIDER_UNAVAILABLE
  | ISOLATION_VIOLATION

record failure_outcome =
  fo_kind :: tenant_failure
  fo_code :: pystr
  fo_retryable :: bool

definition failure_from_kind :: "tenant_failure \<Rightarrow> failure_outcome" where
  "failure_from_kind kind =
     \<lparr>fo_kind = kind,
      fo_code =
        (case kind of
           CAPACITY_EXHAUSTED \<Rightarrow> ''tenant_resource_exhausted''
         | REQUEST_TIMEOUT \<Rightarrow> ''tenant_request_timeout''
         | CANCELLED \<Rightarrow> ''tenant_request_cancelled''
         | INITIALIZATION_FAILED \<Rightarrow> ''tenant_runtime_unavailable''
         | PROVIDER_UNAVAILABLE \<Rightarrow> ''provider_unavailable''
         | ISOLATION_VIOLATION \<Rightarrow> ''tenant_isolation_violation''),
      fo_retryable = (kind = CAPACITY_EXHAUSTED \<or> kind = PROVIDER_UNAVAILABLE)\<rparr>"

definition failure_http_status :: "failure_outcome \<Rightarrow> nat" where
  "failure_http_status f =
     (case fo_kind f of
        CAPACITY_EXHAUSTED \<Rightarrow> 429
      | REQUEST_TIMEOUT \<Rightarrow> 504
      | CANCELLED \<Rightarrow> 499
      | INITIALIZATION_FAILED \<Rightarrow> 503
      | PROVIDER_UNAVAILABLE \<Rightarrow> 503
      | ISOLATION_VIOLATION \<Rightarrow> 500)"

text \<open>The status and the code of the answer to a call that got no lease.\<close>

fun resource_answer :: "resource_error \<Rightarrow> nat \<times> pystr" where
  "resource_answer (Resource_exhausted code) =
     (let outcome = failure_from_kind CAPACITY_EXHAUSTED in (failure_http_status outcome, fo_code outcome))"
| "resource_answer Resource_timeout =
     (let outcome = failure_from_kind REQUEST_TIMEOUT in (failure_http_status outcome, fo_code outcome))"

subsection \<open>Calls in progress\<close>

datatype phase =
    Waiting resource_kind
  | Permitted resource_kind
  | Leased resource_lease

datatype gate_event = Admit | Permit | Give_up | Enter | Release

type_synonym gate_state = "tenant_gate \<times> phase multiset"

inductive gate_step :: "gate_state \<Rightarrow> gate_event \<Rightarrow> gate_state \<Rightarrow> bool" where
  step_admit: "gate_admit k g = Inr g' \<Longrightarrow> gate_step (g, cs) Admit (g', add_mset (Waiting k) cs)"
| step_permit: "tg_semaphore g > 0 \<Longrightarrow>
    gate_step (g, add_mset (Waiting k) cs) Permit
      (g\<lparr>tg_semaphore := tg_semaphore g - 1\<rparr>, add_mset (Permitted k) cs)"
| step_give_up: "gate_step (g, add_mset (Waiting k) cs) Give_up (gate_abandon g, cs)"
| step_enter: "gate_step (g, add_mset (Permitted k) cs) Enter
    (gate_enter k g, add_mset (Leased \<lparr>rl_kind = k, rl_released = False\<rparr>) cs)"
| step_release: "lease_release l g = (l', g') \<Longrightarrow>
    gate_step (g, add_mset (Leased l) cs) Release (g', add_mset (Leased l') cs)"

inductive_cases gate_stepE: "gate_step s e s'"

inductive gate_run :: "gate_state \<Rightarrow> gate_event list \<Rightarrow> gate_state \<Rightarrow> bool" where
  run_nil: "gate_run s [] s"
| run_cons: "gate_step s e s' \<Longrightarrow> gate_run s' es s'' \<Longrightarrow> gate_run s (e # es) s''"

lemma gate_run_append: "gate_run s es s' \<Longrightarrow> gate_run s' es' s'' \<Longrightarrow> gate_run s (es @ es') s''"
  by (induction rule: gate_run.induct) (auto intro: run_cons)

lemma gate_run_step: "gate_run s es s' \<Longrightarrow> gate_step s' e s'' \<Longrightarrow> gate_run s (es @ [e]) s''"
  by (rule gate_run_append) (auto intro: gate_run.intros)

text \<open>The same steps as a function, for concrete runs: the event, the call it moves and, for a new call, its kind.\<close>

fun gate_exec :: "gate_event \<times> nat \<times> resource_kind \<Rightarrow> tenant_gate \<times> phase list \<Rightarrow> (tenant_gate \<times> phase list) option" where
  "gate_exec (Admit, i, k) (g, ps) =
     (case gate_admit k g of Inl e \<Rightarrow> None | Inr g' \<Rightarrow> Some (g', ps @ [Waiting k]))"
| "gate_exec (e, i, k') (g, ps) =
     (case (e, drop i ps) of
        (Permit, Waiting k # qs) \<Rightarrow>
          if tg_semaphore g > 0
          then Some (g\<lparr>tg_semaphore := tg_semaphore g - 1\<rparr>, take i ps @ Permitted k # qs) else None
      | (Give_up, Waiting k # qs) \<Rightarrow> Some (gate_abandon g, take i ps @ qs)
      | (Enter, Permitted k # qs) \<Rightarrow>
          Some (gate_enter k g, take i ps @ Leased \<lparr>rl_kind = k, rl_released = False\<rparr> # qs)
      | (Release, Leased l # qs) \<Rightarrow>
          (let (l', g') = lease_release l g in Some (g', take i ps @ Leased l' # qs))
      | _ \<Rightarrow> None)"

lemma mset_split: "drop i ps = p # qs \<Longrightarrow> mset ps = add_mset p (mset (take i ps @ qs))"
  by (metis append_take_drop_id mset.simps(2) mset_append union_mset_add_mset_right)

lemma gate_exec_step:
  assumes "gate_exec (e, i, k) (g, ps) = Some (g', ps')"
  shows "gate_step (g, mset ps) e (g', mset ps')"
proof (cases e)
  case Admit
  with assms show ?thesis by (auto split: sum.splits intro: step_admit)
next
  case Permit
  with assms obtain k qs where "drop i ps = Waiting k # qs" "tg_semaphore g > 0"
    "g' = g\<lparr>tg_semaphore := tg_semaphore g - 1\<rparr>" "ps' = take i ps @ Permitted k # qs"
    by (auto split: list.splits phase.splits if_splits)
  with Permit show ?thesis using step_permit mset_split [of i ps] by simp
next
  case Give_up
  with assms obtain k qs where "drop i ps = Waiting k # qs" "g' = gate_abandon g" "ps' = take i ps @ qs"
    by (auto split: list.splits phase.splits)
  with Give_up show ?thesis using step_give_up mset_split [of i ps] by simp
next
  case Enter
  with assms obtain k qs where "drop i ps = Permitted k # qs" "g' = gate_enter k g"
    "ps' = take i ps @ Leased \<lparr>rl_kind = k, rl_released = False\<rparr> # qs"
    by (auto split: list.splits phase.splits)
  with Enter show ?thesis using step_enter mset_split [of i ps] by simp
next
  case Release
  with assms obtain l l' qs where "drop i ps = Leased l # qs" "lease_release l g = (l', g')"
    "ps' = take i ps @ Leased l' # qs"
    by (auto split: list.splits phase.splits prod.splits)
  with Release show ?thesis using step_release mset_split [of i ps] by simp
qed

fun gate_execs :: "(gate_event \<times> nat \<times> resource_kind) list \<Rightarrow> tenant_gate \<times> phase list \<Rightarrow> (tenant_gate \<times> phase list) option" where
  "gate_execs [] s = Some s"
| "gate_execs (e # es) s = Option.bind (gate_exec e s) (gate_execs es)"

lemma gate_execs_run:
  "gate_execs es (g, ps) = Some (g', ps') \<Longrightarrow> gate_run (g, mset ps) (map fst es) (g', mset ps')"
proof (induction es arbitrary: g ps)
  case Nil
  then show ?case by (simp add: run_nil)
next
  case (Cons e es)
  obtain ev i k where e: "e = (ev, i, k)" by (cases e)
  with Cons.prems obtain g1 ps1 where 1: "gate_exec (ev, i, k) (g, ps) = Some (g1, ps1)"
    "gate_execs es (g1, ps1) = Some (g', ps')" by (auto simp: bind_eq_Some_conv)
  show ?case using run_cons [OF gate_exec_step [OF 1(1)] Cons.IH [OF 1(2)]] by (simp add: e)
qed

subsection \<open>The counters are the calls in progress\<close>

fun waiting :: "phase \<Rightarrow> bool" where
  "waiting (Waiting k) = True"
| "waiting (Permitted k) = True"
| "waiting (Leased l) = False"

fun permitted :: "phase \<Rightarrow> bool" where
  "permitted (Permitted k) = True"
| "permitted _ = False"

fun holding :: "phase \<Rightarrow> bool" where
  "holding (Leased l) = (\<not> rl_released l)"
| "holding _ = False"

definition holding_kind :: "resource_kind \<Rightarrow> phase \<Rightarrow> bool" where
  "holding_kind k p \<longleftrightarrow> (\<exists>l. p = Leased l \<and> \<not> rl_released l \<and> rl_kind l = k)"

lemma holding_kind_simps [simp]:
  "\<not> holding_kind k (Waiting k')"
  "\<not> holding_kind k (Permitted k')"
  "holding_kind k (Leased l) \<longleftrightarrow> \<not> rl_released l \<and> rl_kind l = k"
  by (auto simp: holding_kind_def)

definition number :: "(phase \<Rightarrow> bool) \<Rightarrow> phase multiset \<Rightarrow> int" where
  "number P cs = int (size (filter_mset P cs))"

lemma number_simps [simp]:
  "number P {#} = 0"
  "number P (add_mset p cs) = (if P p then 1 else 0) + number P cs"
  by (auto simp: number_def)

lemma number_nonneg [simp]: "0 \<le> number P cs" "0 < 1 + number P cs"
  by (simp_all add: number_def)

fun gate_inv :: "resource_budget \<Rightarrow> gate_state \<Rightarrow> bool" where
  "gate_inv b (g, cs) \<longleftrightarrow>
     tg_budget g = b
     \<and> tg_waiters g = number waiting cs
     \<and> tg_active g = number holding cs
     \<and> tg_streams g = number (holding_kind Stream_kind) cs
     \<and> tg_background g = number (holding_kind Background_kind) cs
     \<and> tg_semaphore g + number permitted cs + number holding cs = rb_max_concurrency b
     \<and> 0 \<le> tg_semaphore g
     \<and> tg_active g + tg_waiters g \<le> rb_max_concurrency b + rb_queue_limit b"

lemmas gate_defs = gate_admit_def gate_enter_def gate_abandon_def gate_release_def lease_release_def Let_def

lemma gate_release_inv:
  assumes "gate_inv b (g, add_mset (Leased l) cs)" and "\<not> rl_released l"
  shows "gate_inv b (gate_release (rl_kind l) g, add_mset (Leased (l\<lparr>rl_released := True\<rparr>)) cs)"
proof -
  have pos: "tg_active g > 0" using assms by simp
  show ?thesis
  proof (cases "rl_kind l")
    case Request_kind
    then show ?thesis using assms pos by (simp add: gate_release_def Let_def)
  next
    case Stream_kind
    then have "tg_streams g > 0" using assms by simp
    then show ?thesis using assms pos Stream_kind by (simp add: gate_release_def Let_def)
  next
    case Background_kind
    then have "tg_background g > 0" using assms by simp
    then show ?thesis using assms pos Background_kind by (simp add: gate_release_def Let_def)
  qed
qed

lemma gate_step_inv:
  assumes "gate_step s e s'" and "gate_inv b s"
  shows "gate_inv b s'"
  using assms
proof (induction rule: gate_step.induct)
  case (step_admit k g g' cs)
  then show ?case by (auto simp: gate_defs split: if_splits)
next
  case (step_permit g k cs)
  then show ?case by auto
next
  case (step_give_up g k cs)
  then show ?case by (auto simp: gate_defs)
next
  case (step_enter g k cs)
  then show ?case by (cases k) (auto simp: gate_defs)
next
  case (step_release l g l' g' cs)
  then show ?case
    using gate_release_inv [of b g l cs] by (cases "rl_released l") (simp_all add: lease_release_def del: gate_inv.simps)
qed

lemma gate_run_inv: "gate_run s es s' \<Longrightarrow> gate_inv b s \<Longrightarrow> gate_inv b s'"
  by (induction rule: gate_run.induct) (auto intro: gate_step_inv)

lemma check_budget_bounds:
  "check_budget b = Inr b' \<Longrightarrow>
     b' = b \<and> 1 \<le> rb_max_concurrency b \<and> 0 \<le> rb_queue_limit b \<and> 1 \<le> rb_max_streams b \<and> 0 \<le> rb_max_background_tasks b"
  by (auto simp: check_budget_def split: if_splits)

lemma new_gate_inv: "check_budget b = Inr b' \<Longrightarrow> gate_inv b (new_gate b, {#})"
  by (drule check_budget_bounds) (simp add: new_gate_def)

lemma number_zero: "number P cs = 0 \<longleftrightarrow> (\<forall>p \<in># cs. \<not> P p)"
  by (induction cs) (auto simp: add_nonneg_eq_0_iff)

lemma idle_gate:
  assumes "gate_inv b (g, cs)" and "\<forall>p \<in># cs. \<not> waiting p \<and> \<not> holding p"
  shows "g = new_gate b"
proof -
  have "number waiting cs = 0" "number holding cs = 0" using assms(2) by (simp_all add: number_zero)
  moreover have "number permitted cs = 0"
    unfolding number_zero
  proof
    fix p assume "p \<in># cs"
    with assms(2) show "\<not> permitted p" by (cases p) auto
  qed
  moreover have "number (holding_kind k) cs = 0" for k
    using assms(2) unfolding number_zero holding_kind_def by force
  ultimately show ?thesis using assms(1) by (simp add: new_gate_def)
qed

subsection \<open>Draining\<close>

fun phase_work :: "phase \<Rightarrow> nat" where
  "phase_work (Waiting k) = 3"
| "phase_work (Permitted k) = 2"
| "phase_work (Leased l) = (if rl_released l then 0 else 1)"

definition gate_work :: "phase multiset \<Rightarrow> nat" where
  "gate_work cs = sum_mset (image_mset phase_work cs)"

lemma gate_work_simps [simp]: "gate_work {#} = 0" "gate_work (add_mset p cs) = phase_work p + gate_work cs"
  by (simp_all add: gate_work_def)

lemma gate_progress:
  assumes "gate_inv b (g, cs)" and "1 \<le> rb_max_concurrency b" and "g \<noteq> new_gate b \<or> (\<exists>p \<in># cs. waiting p)"
  shows "\<exists>e g' cs'. e \<in> {Permit, Enter, Release} \<and> gate_step (g, cs) e (g', cs')
    \<and> gate_work cs' < gate_work cs \<and> size cs' = size cs"
proof -
  obtain p where p: "p \<in># cs" "waiting p \<or> holding p" using assms idle_gate [of b g cs] by blast
  consider (permitted) k where "Permitted k \<in># cs"
    | (holding) l where "Leased l \<in># cs" "\<not> rl_released l"
    | (waiting) k where "Waiting k \<in># cs" "\<forall>p \<in># cs. \<not> permitted p \<and> \<not> holding p"
  proof -
    assume *: "\<And>k. Permitted k \<in># cs \<Longrightarrow> thesis" "\<And>l. Leased l \<in># cs \<Longrightarrow> \<not> rl_released l \<Longrightarrow> thesis"
      "\<And>k. Waiting k \<in># cs \<Longrightarrow> \<forall>p\<in>#cs. \<not> permitted p \<and> \<not> holding p \<Longrightarrow> thesis"
    show thesis
    proof (cases "\<exists>p \<in># cs. permitted p \<or> holding p")
      case True
      then obtain q where "q \<in># cs" "permitted q \<or> holding q" by blast
      then show thesis using *(1,2) by (cases q) auto
    next
      case False
      with p have "waiting p" "\<not> permitted p" by auto
      with p(1) False show thesis using *(3) by (cases p) auto
    qed
  qed
  then show ?thesis
  proof cases
    case (permitted k)
    then obtain cs0 where "cs = add_mset (Permitted k) cs0" by (metis mset_add)
    then show ?thesis using step_enter [of g k cs0] by fastforce
  next
    case (holding l)
    then obtain cs0 where "cs = add_mset (Leased l) cs0" by (metis mset_add)
    then show ?thesis
      using step_release [of l g "l\<lparr>rl_released := True\<rparr>" "gate_release (rl_kind l) g" cs0] holding(2)
      by (fastforce simp: lease_release_def)
  next
    case (waiting k)
    then have "number permitted cs = 0" "number holding cs = 0" by (simp_all add: number_zero)
    then have "tg_semaphore g > 0" using assms(1,2) by simp
    moreover obtain cs0 where "cs = add_mset (Waiting k) cs0" using waiting(1) by (metis mset_add)
    ultimately show ?thesis using step_permit [of g k cs0] by fastforce
  qed
qed

lemma gate_drains_inv:
  assumes "gate_inv b (g, cs)" and "1 \<le> rb_max_concurrency b"
  shows "\<exists>es cs'. gate_run (g, cs) es (new_gate b, cs') \<and> set es \<subseteq> {Permit, Enter, Release}
    \<and> size cs' = size cs \<and> (\<forall>p \<in># cs'. \<not> waiting p)"
  using assms
proof (induction "gate_work cs" arbitrary: g cs rule: less_induct)
  case less
  show ?case
  proof (cases "g = new_gate b \<and> (\<forall>p \<in># cs. \<not> waiting p)")
    case True
    then show ?thesis by (intro exI [of _ "[]"] exI [of _ cs]) (simp add: run_nil)
  next
    case False
    then obtain e g' cs' where step: "e \<in> {Permit, Enter, Release}" "gate_step (g, cs) e (g', cs')"
      "gate_work cs' < gate_work cs" "size cs' = size cs"
      using gate_progress [OF less.prems] by blast
    obtain es cs'' where rest: "gate_run (g', cs') es (new_gate b, cs'')" "set es \<subseteq> {Permit, Enter, Release}"
      "size cs'' = size cs'" "\<forall>p \<in># cs''. \<not> waiting p"
      using less.hyps [OF step(3) gate_step_inv [OF step(2) less.prems(1)] less.prems(2)] by blast
    then show ?thesis using step run_cons [OF step(2) rest(1)]
      by (intro exI [of _ "e # es"] exI [of _ cs'']) simp
  qed
qed

subsection \<open>Properties\<close>

text \<open>C24. However the calls of a tenant interleave, give up or release twice, the counters of its gate (active,
  waiting, streams, background) are exactly the calls in progress and the leases held of each kind. At most
  \<open>max_concurrency\<close> leases are held, held and waiting calls together never exceed \<open>max_concurrency\<close> and
  \<open>queue_limit\<close>, no permit is ever lost, and a request is turned away exactly when they reach that sum.
  The limits on streams and background tasks are not among the bounds kept: \<open>stream_limit_exceeded\<close>.\<close>

theorem gate_accounts:
  assumes "check_budget b = Inr b'" and "gate_run (new_gate b, {#}) es (g, cs)"
  shows "tg_active g = number holding cs \<and> tg_waiters g = number waiting cs
    \<and> tg_streams g = number (holding_kind Stream_kind) cs
    \<and> tg_background g = number (holding_kind Background_kind) cs
    \<and> number holding cs \<le> rb_max_concurrency b
    \<and> number holding cs + number waiting cs \<le> rb_max_concurrency b + rb_queue_limit b
    \<and> tg_semaphore g = rb_max_concurrency b - number permitted cs - number holding cs
    \<and> ((\<exists>e. gate_admit Request_kind g = Inl e)
       \<longleftrightarrow> number holding cs + number waiting cs = rb_max_concurrency b + rb_queue_limit b)"
proof -
  have inv: "gate_inv b (g, cs)" using gate_run_inv [OF assms(2) new_gate_inv [OF assms(1)]] .
  moreover have "number holding cs \<le> rb_max_concurrency b"
    using inv number_nonneg(1) [of permitted cs] unfolding gate_inv.simps by linarith
  ultimately show ?thesis by (auto simp: gate_admit_def split: if_splits)
qed

text \<open>C25. No call is stuck: from every state that the calls of a tenant can reach, permits, entries and
  releases alone lead to a state in which no call waits, none was turned away, and the gate is as new.\<close>

theorem gate_drains:
  assumes "check_budget b = Inr b'" and "gate_run (new_gate b, {#}) es (g, cs)"
  shows "\<exists>es' cs'. gate_run (g, cs) es' (new_gate b, cs') \<and> set es' \<subseteq> {Permit, Enter, Release}
    \<and> size cs' = size cs \<and> (\<forall>p \<in># cs'. \<not> waiting p)"
  using gate_drains_inv gate_run_inv [OF assms(2) new_gate_inv [OF assms(1)]] check_budget_bounds [OF assms(1)]
  by blast

definition small_budget :: resource_budget where
  "small_budget = default_budget\<lparr>rb_max_concurrency := 2, rb_queue_limit := 2, rb_max_streams := 1\<rparr>"

text \<open>Two requests hold the gate and two streams wait; then the requests end and the streams enter.\<close>

definition two_streams :: "(gate_event \<times> nat \<times> resource_kind) list" where
  "two_streams =
     [(Admit, 0, Request_kind), (Permit, 0, Request_kind), (Enter, 0, Request_kind),
      (Admit, 0, Request_kind), (Permit, 1, Request_kind), (Enter, 1, Request_kind),
      (Admit, 0, Stream_kind), (Admit, 0, Stream_kind),
      (Release, 0, Request_kind), (Release, 1, Request_kind),
      (Permit, 2, Stream_kind), (Permit, 3, Stream_kind), (Enter, 2, Stream_kind), (Enter, 3, Stream_kind)]"

lemma two_streams_run:
  obtains g cs where "gate_run (new_gate small_budget, {#}) (map fst two_streams) (g, cs)" "tg_streams g = 2"
proof -
  have "map_option (\<lambda>(g, ps). tg_streams g) (gate_execs two_streams (new_gate small_budget, [])) = Some 2"
    by code_simp
  then obtain g ps where "gate_execs two_streams (new_gate small_budget, []) = Some (g, ps)" "tg_streams g = 2" by auto
  with gate_execs_run [of two_streams "new_gate small_budget" "[]" g ps] show thesis by (intro that) auto
qed

lemma small_budget_valid: "check_budget small_budget = Inr small_budget"
  by (simp add: check_budget_def small_budget_def default_budget_def)

theorem gate_accounts_witness:
  "\<exists>g cs. gate_run (new_gate small_budget, {#}) (map fst two_streams) (g, cs)
     \<and> tg_active g = number holding cs \<and> number holding cs \<le> 2
     \<and> tg_streams g = 2 \<and> number (holding_kind Stream_kind) cs = 2"
proof -
  obtain g cs where run: "gate_run (new_gate small_budget, {#}) (map fst two_streams) (g, cs)" and "tg_streams g = 2"
    by (rule two_streams_run)
  with gate_accounts [OF small_budget_valid run] show ?thesis
    by (intro exI [of _ g] exI [of _ cs]) (simp add: small_budget_def default_budget_def)
qed

theorem gate_drains_witness:
  "\<exists>g cs es cs'. gate_run (new_gate small_budget, {#}) (map fst two_streams) (g, cs)
     \<and> gate_run (g, cs) es (new_gate small_budget, cs')"
proof -
  obtain g cs where run: "gate_run (new_gate small_budget, {#}) (map fst two_streams) (g, cs)"
    by (rule two_streams_run)
  from gate_drains [OF small_budget_valid run] run show ?thesis by blast
qed

text \<open>The limit on streams is not one: \<open>max_streams\<close> is compared before the wait with the streams
  that already entered, so that streams that waited together exceed it.\<close>

theorem stream_limit_exceeded:
  "\<exists>b es g cs. check_budget b = Inr b \<and> gate_run (new_gate b, {#}) es (g, cs)
     \<and> tg_streams g = number (holding_kind Stream_kind) cs \<and> tg_streams g > rb_max_streams b"
proof -
  obtain g cs where run: "gate_run (new_gate small_budget, {#}) (map fst two_streams) (g, cs)" "tg_streams g = 2"
    by (rule two_streams_run)
  have "gate_inv small_budget (g, cs)" by (rule gate_run_inv [OF run(1) new_gate_inv [OF small_budget_valid]])
  then show ?thesis using run small_budget_valid
    by (intro exI [of _ small_budget] exI [of _ "map fst two_streams"] exI [of _ g] exI [of _ cs])
      (simp add: small_budget_def default_budget_def)
qed

end
