(* ===== verification/Config_Models.thy ===== *)
theory Config_Models
  imports Tenancy Tenant_Resources Json
begin

text \<open>
  \<open>config/models.py\<close> and \<open>config/loader.py\<close>: the configuration of the gateway, the checks its models
  make on themselves, and the interpolation of environment variables.

  pydantic is outside this repository: it turns a parsed YAML document into the records below, and runs
  the validators modelled here. It reports every error of a document; the model has the first one. The
  policy dictionary of a Flow node, which pydantic parses too, is a function of the configuration that
  has no value where the dictionary is not a \<open>NodePolicyConfig\<close>.
\<close>

datatype config_error =
    Config_code pystr
  | Config_code_for pystr pystr
  | Invalid_field pystr
  | Invalid_contract contract_error
  | Invalid_policy policy_conflict
  | Raised_type_error

subsection \<open>Durations\<close>

text \<open>
  \<open>float(text)\<close>: digits may be grouped by single underscores. A finite value is the number written,
  without the rounding of a double.
\<close>

datatype py_number = Finite pyfloat | Infinite bool | Not_a_number

fun span_digits :: "pystr \<Rightarrow> pystr \<times> pystr" where
  "span_digits [] = ([], [])"
| "span_digits [c] = (if is_digit c then ([c], []) else ([], [c]))"
| "span_digits (c # d # s) =
     (if \<not> is_digit c then ([], c # d # s)
      else if d = CHR ''_'' \<and> s \<noteq> [] \<and> is_digit (hd s) then (let (ds, r) = span_digits s in (c # ds, r))
      else (let (ds, r) = span_digits (d # s) in (c # ds, r)))"

definition split_sign :: "pystr \<Rightarrow> bool \<times> pystr" where
  "split_sign s =
     (case s of [] \<Rightarrow> (False, s)
      | c # r \<Rightarrow> if c = CHR ''-'' then (True, r) else if c = CHR ''+'' then (False, r) else (False, s))"

definition split_exponent :: "pystr \<Rightarrow> int option" where
  "split_exponent s =
     (case s of [] \<Rightarrow> Some 0
      | c # r \<Rightarrow>
          let (negative, r) = split_sign r; (ds, rest) = span_digits r in
          if c \<notin> set ''eE'' \<or> ds = [] \<or> rest \<noteq> [] then None
          else Some (if negative then - digits_val ds else digits_val ds))"

definition ten_power :: "int \<Rightarrow> pyfloat" where
  "ten_power e = (if e < 0 then 1 / 10 ^ nat (- e) else 10 ^ nat e)"

definition py_float :: "pystr \<Rightarrow> py_number option" where
  "py_float s =
     (let (negative, u) = split_sign (py_strip s); low = map ascii_lower u in
      if low = ''inf'' \<or> low = ''infinity'' then Some (Infinite negative)
      else if low = ''nan'' then Some Not_a_number
      else
        let (whole, r) = span_digits u;
            (fraction, r) = (if r \<noteq> [] \<and> hd r = CHR ''.'' then span_digits (tl r) else ([], r))
        in if whole = [] \<and> fraction = [] then None
           else map_option (\<lambda>e.
             let magnitude = of_int (digits_val (whole @ fraction)) * ten_power (e - int (length fraction))
             in Finite (if negative then - magnitude else magnitude)) (split_exponent r))"

fun number_div :: "pyfloat \<Rightarrow> py_number \<Rightarrow> py_number" where
  "number_div d (Finite x) = Finite (x / d)"
| "number_div d n = n"

definition parse_duration :: "pystr \<Rightarrow> py_number option" where
  "parse_duration value =
     (let value = py_strip value in
      if ends_with value ''ms'' then map_option (number_div 1000) (py_float (take (length value - 2) value))
      else if ends_with value ''s'' then py_float (take (length value - 1) value)
      else py_float value)"

subsection \<open>Settings with a fixed choice of values\<close>

definition one_of :: "pystr \<Rightarrow> pystr list \<Rightarrow> pystr \<Rightarrow> config_error + unit" where
  "one_of field allowed v = guard_res (v \<in> set allowed) (Invalid_field field)"

definition rate_limit_config :: "pystr \<Rightarrow> pystr \<Rightarrow> pystr \<Rightarrow> config_error + unit" where
  "rate_limit_config strategy per storage =
     bind_res (one_of ''rate_limit.strategy'' [''token_bucket''] strategy) (\<lambda>_.
     bind_res (one_of ''rate_limit.per'' [''api_key'', ''ip''] per) (\<lambda>_.
     one_of ''rate_limit.storage'' [''memory''] storage))"

definition streaming_config :: "pystr \<Rightarrow> pystr \<Rightarrow> pystr \<Rightarrow> config_error + unit" where
  "streaming_config mode on_max_size recall_method =
     bind_res (one_of ''streaming.mode'' [''sliding_window'', ''buffer''] mode) (\<lambda>_.
     bind_res (one_of ''streaming.on_max_size'' [''block'', ''truncate''] on_max_size) (\<lambda>_.
     one_of ''recall.method'' [''sse'', ''webhook'', ''both''] recall_method))"

text \<open>Asynchronous detection needs a webhook for its recalls.\<close>

definition output_detection_config :: "pystr \<Rightarrow> pystr \<Rightarrow> config_error + unit" where
  "output_detection_config mode webhook_url =
     bind_res (one_of ''output_detection.mode'' [''sync'', ''async''] mode) (\<lambda>_.
     guard_res (\<not> (mode = ''async'' \<and> webhook_url = [])) (Invalid_field ''output_detection.recall.webhook_url''))"

definition logging_config :: "pystr \<Rightarrow> pystr \<Rightarrow> config_error + unit" where
  "logging_config level format =
     bind_res (one_of ''logging.level'' [''DEBUG'', ''INFO'', ''WARNING'', ''ERROR''] level) (\<lambda>_.
     one_of ''logging.format'' [''json'', ''text''] format)"

definition tracing_config :: "pystr \<Rightarrow> config_error + unit" where
  "tracing_config exporter = one_of ''tracing.exporter'' [''otlp'', ''jaeger'', ''zipkin''] exporter"

subsection \<open>Detectors, providers and capability bindings\<close>

type_synonym settings = "(pystr \<times> json) list"

record circuit_breaker_config =
  cbc_enabled :: bool
  cbc_failure_threshold :: int
  cbc_recovery_timeout :: pystr
  cbc_fallback_action :: pystr

definition check_circuit_breaker :: "circuit_breaker_config \<Rightarrow> config_error + unit" where
  "check_circuit_breaker c = one_of ''fallback_action'' [''fail_open'', ''fail_closed''] (cbc_fallback_action c)"

text \<open>\<open>dtc_fields_set\<close> are the fields the document names (\<open>model_fields_set\<close>).\<close>

record detector_settings =
  dtc_name :: pystr
  dtc_type :: pystr
  dtc_enabled :: bool
  dtc_required :: bool
  dtc_priority :: int
  dtc_on_error :: pystr
  dtc_circuit_breaker :: "circuit_breaker_config option"
  dtc_config :: settings
  dtc_timeout :: "pystr option"
  dtc_fields_set :: "pystr list"

definition check_detector :: "detector_settings \<Rightarrow> config_error + unit" where
  "check_detector d =
     bind_res (one_of ''on_error'' [''fail_open'', ''fail_closed''] (dtc_on_error d)) (\<lambda>_.
     case dtc_circuit_breaker d of None \<Rightarrow> Inr () | Some c \<Rightarrow> check_circuit_breaker c)"

text \<open>The fields a gRPC detector's plugin never sees.\<close>

definition grpc_gateway_fields :: "pystr list" where
  "grpc_gateway_fields = [''endpoint'', ''tls_enabled'', ''tls_ca_file'']"

definition passthrough_config :: "settings \<Rightarrow> settings" where
  "passthrough_config config = filter (\<lambda>(k, _). k \<notin> set grpc_gateway_fields) config"

record provider_config =
  pvc_name :: pystr
  pvc_type :: pystr
  pvc_api_key :: pystr
  pvc_api_version :: pystr

record flag_escalation_config =
  fec_enabled :: bool
  fec_rule :: pystr
  fec_action :: pystr

record capability_binding =
  cb_capability_id :: pystr
  cb_detector_name :: pystr
  cb_type :: pystr
  cb_config :: settings
  cb_circuit_breaker :: "circuit_breaker_config option"

definition check_binding :: "capability_binding \<Rightarrow> config_error + unit" where
  "check_binding b =
     bind_res (guard_res (valid_contract_id (cb_capability_id b)) (Invalid_field ''capability_id'')) (\<lambda>_.
     bind_res (guard_res (valid_contract_id (cb_detector_name b)) (Invalid_field ''detector_name'')) (\<lambda>_.
     bind_res (case cb_circuit_breaker b of None \<Rightarrow> Inr () | Some c \<Rightarrow> check_circuit_breaker c) (\<lambda>_.
     guard_res (cb_capability_id b = ''detector.'' @ cb_detector_name b)
       (Config_code ''capability_binding_identity_mismatch''))))"

text \<open>\<open>CapabilityBindingConfig.detector_config\<close>: the other fields of a detector keep their defaults.\<close>

definition binding_detector :: "capability_binding \<Rightarrow> detector_settings" where
  "binding_detector b =
     \<lparr>dtc_name = cb_detector_name b, dtc_type = cb_type b, dtc_enabled = True, dtc_required = False,
      dtc_priority = 100, dtc_on_error = ''fail_open'', dtc_circuit_breaker = cb_circuit_breaker b,
      dtc_config = cb_config b, dtc_timeout = None,
      dtc_fields_set = [''name'', ''type'', ''config'', ''circuit_breaker'']\<rparr>"

subsection \<open>Tenants and their policies\<close>

definition max_tenants :: nat where "max_tenants = 1024"
definition max_tenant_api_keys :: nat where "max_tenant_api_keys = 4096"
definition max_tenant_policies :: nat where "max_tenant_policies = 1024"
definition max_tenant_policy_capabilities :: nat where "max_tenant_policy_capabilities = 256"
definition max_observable_tenants :: nat where "max_observable_tenants = 32"

text \<open>\<open>TENANT_ID_PATTERN\<close>: the middle, when there is one, is followed by a letter or a digit.\<close>

definition tenant_id_pattern :: "pystr \<Rightarrow> bool" where
  "tenant_id_pattern s \<longleftrightarrow>
     (case s of [] \<Rightarrow> False
      | c # r \<Rightarrow> lower_or_digit c
          \<and> (r = [] \<or> length (butlast r) \<le> 62 \<and> lower_or_digit (last r)
               \<and> list_all (\<lambda>c. lower_or_digit c \<or> c = CHR ''_'' \<or> c = CHR ''-'') (butlast r)))"

definition valid_tenant_id :: "pystr \<Rightarrow> bool" where
  "valid_tenant_id s \<longleftrightarrow> 1 \<le> length s \<and> length s \<le> 64 \<and> tenant_id_pattern s"

record tenant_policy_config =
  tpc_id :: pystr
  tpc_input_flow :: "flow_key option"
  tpc_output_flow :: "flow_key option"
  tpc_capabilities :: "capability_binding list"
  tpc_flag_escalation :: "flag_escalation_config option"
  tpc_routing :: tenant_routing

definition check_tenant_rule_config :: "routing_rule \<Rightarrow> config_error + unit" where
  "check_tenant_rule_config r =
     bind_res (guard_res (1 \<le> length (rl_pattern r) \<and> length (rl_pattern r) \<le> 256) (Invalid_field ''pattern'')) (\<lambda>_.
     guard_res (1 \<le> length (rl_provider r) \<and> length (rl_provider r) \<le> 64) (Invalid_field ''provider''))"

definition check_tenant_policy :: "tenant_policy_config \<Rightarrow> config_error + unit" where
  "check_tenant_policy p =
     bind_res (guard_res (valid_tenant_id (tpc_id p)) (Invalid_field ''id'')) (\<lambda>_.
     bind_res (map_res check_binding (tpc_capabilities p)) (\<lambda>_.
     bind_res (guard_res (1 \<le> length (tr_models_provider (tpc_routing p)) \<and> length (tr_models_provider (tpc_routing p)) \<le> 64)
                 (Invalid_field ''models_provider'')) (\<lambda>_.
     bind_res (map_res check_tenant_rule_config (tr_rules (tpc_routing p))) (\<lambda>_. Inr ()))))"

definition check_tenant :: "tenant \<Rightarrow> config_error + unit" where
  "check_tenant t =
     bind_res (guard_res (valid_tenant_id (tn_id t)) (Invalid_field ''id'')) (\<lambda>_.
     guard_res (case tn_policy_id t of None \<Rightarrow> True | Some p \<Rightarrow> valid_tenant_id p) (Invalid_field ''policy_id''))"

text \<open>\<open>TenantResourceConfig\<close> has the fields of a \<open>ResourceBudget\<close>, and bounds of its own.\<close>

definition check_tenant_resources :: "resource_budget \<Rightarrow> config_error + unit" where
  "check_tenant_resources r =
     guard_res (1 \<le> rb_max_concurrency r \<and> rb_max_concurrency r \<le> 4096
        \<and> 0 \<le> rb_queue_limit r \<and> rb_queue_limit r \<le> 4096
        \<and> 0 < rb_request_timeout_seconds r \<and> rb_request_timeout_seconds r \<le> 3600
        \<and> 1 \<le> rb_max_streams r \<and> rb_max_streams r \<le> 4096
        \<and> 0 \<le> rb_max_background_tasks r \<and> rb_max_background_tasks r \<le> 4096) (Invalid_field ''tenant_resources'')"

text \<open>The tenants with metrics of their own, as the document has them.\<close>

definition metric_tenant_ids :: "json \<Rightarrow> config_error + pystr list" where
  "metric_tenant_ids value =
     (let invalid = Inl (Config_code ''tenant_observability_config_invalid'') in
      case value of
        JNull \<Rightarrow> Inr []
      | JArr items \<Rightarrow>
          if list_ex (\<lambda>i. case i of JStr _ \<Rightarrow> False | _ \<Rightarrow> True) items then invalid
          else
            let ids = List.map_filter (\<lambda>i. case i of JStr s \<Rightarrow> Some s | _ \<Rightarrow> None) items in
            if length ids > max_observable_tenants \<or> \<not> distinct ids then invalid else Inr ids
      | _ \<Rightarrow> invalid)"

subsection \<open>The gateway's configuration\<close>

record flow_runtime_config =
  frc_max_depth :: int
  frc_max_nodes :: int
  frc_max_concurrency :: int
  frc_default_timeout :: pyfloat
  frc_absolute_timeout :: pyfloat
  frc_max_evidence_size :: nat

definition check_flow_runtime :: "flow_runtime_config \<Rightarrow> config_error + unit" where
  "check_flow_runtime r =
     bind_res (guard_res (1 \<le> frc_max_depth r \<and> frc_max_depth r \<le> 8) (Invalid_field ''max_depth'')) (\<lambda>_.
     bind_res (guard_res (1 \<le> frc_max_nodes r \<and> frc_max_nodes r \<le> 256) (Invalid_field ''max_nodes'')) (\<lambda>_.
     bind_res (guard_res (1 \<le> frc_max_concurrency r \<and> frc_max_concurrency r \<le> 64) (Invalid_field ''max_concurrency'')) (\<lambda>_.
     bind_res (guard_res (0 < frc_default_timeout r \<and> frc_default_timeout r \<le> 120) (Invalid_field ''default_timeout'')) (\<lambda>_.
     bind_res (guard_res (0 < frc_absolute_timeout r \<and> frc_absolute_timeout r \<le> 120) (Invalid_field ''absolute_timeout'')) (\<lambda>_.
     bind_res (guard_res (frc_max_evidence_size r = 256 * 1024) (Invalid_field ''max_evidence_size'')) (\<lambda>_.
     guard_res (frc_default_timeout r \<le> frc_absolute_timeout r) (Config_code ''flow_timeout_conflict'')))))))"

record pipeline_config =
  plc_short_circuit_on :: pystr
  plc_sync_timeout :: pystr
  plc_flag_escalation :: "flag_escalation_config option"
  plc_input_flow :: "flow_key option"
  plc_output_flow :: "flow_key option"
  plc_input_detectors :: "detector_settings list"
  plc_output_detectors :: "detector_settings list"
  plc_fields_set :: "pystr list"

definition check_pipeline :: "pipeline_config \<Rightarrow> config_error + unit" where
  "check_pipeline p =
     bind_res (map_res check_detector (plc_input_detectors p @ plc_output_detectors p)) (\<lambda>_.
     one_of ''short_circuit_on'' [''block'', ''block_and_modify''] (plc_short_circuit_on p))"

record tenancy_config =
  tyc_enabled :: bool
  tyc_tenants :: "tenant list"
  tyc_policies :: "tenant_policy_config list"

type_synonym policy_key = "pystr \<times> pystr \<times> pystr"

record gateway_config =
  gc_providers :: "provider_config list"
  gc_routing_rules :: "routing_rule list"
  gc_pipeline :: pipeline_config
  gc_tenancy :: tenancy_config
  gc_tenant_resources :: "resource_budget + (pystr \<times> resource_budget) list"
  gc_auth_enabled :: bool
  gc_api_keys :: "api_key list"
  gc_detector_timeout :: pystr
  gc_metric_tenant_ids :: "pystr list"
  gc_flow_runtime :: flow_runtime_config
  gc_capabilities :: "capability_binding list"
  gc_flows :: "flow_definition list"
  gc_node_policies :: "policy_key \<Rightarrow> node_policy_config option"

definition node_key :: "flow_definition \<Rightarrow> node \<Rightarrow> policy_key" where
  "node_key f n = (fd_flow_id f, fd_version f, node_id n)"

text \<open>Every node of every Flow, with its Flow, in the order of the nested loops.\<close>

definition flow_nodes :: "flow_definition list \<Rightarrow> (flow_definition \<times> node) list" where
  "flow_nodes flows = concat (map (\<lambda>f. map (Pair f) (fd_nodes f)) flows)"

subsection \<open>\<open>_validate_flow_configuration\<close>\<close>

definition declared_descriptor :: "capability_node \<Rightarrow> capability_descriptor" where
  "declared_descriptor n =
     \<lparr>cd_contract_version = ''1.0'', cd_capability_id = cn_capability_id n,
      cd_implementation_version = ''configured'', cd_input_schema = cn_input_schema n,
      cd_output_schema = cn_output_schema n, cd_name = None, cd_category = None\<rparr>"

fun declare_node ::
  "node \<Rightarrow> (pystr \<times> capability_descriptor) list \<Rightarrow> config_error + (pystr \<times> capability_descriptor) list" where
  "declare_node (Flow_node m) descriptors = Inr descriptors"
| "declare_node (Capability_node n) descriptors =
     (case map_of descriptors (cn_capability_id n) of
        Some existing \<Rightarrow>
          if existing \<noteq> declared_descriptor n
          then Inl (Config_code_for ''capability_schema_conflict'' (cn_capability_id n))
          else Inr (AList.update (cn_capability_id n) (declared_descriptor n) descriptors)
      | None \<Rightarrow> Inr (AList.update (cn_capability_id n) (declared_descriptor n) descriptors))"

definition declare_flow ::
  "flow_definition \<Rightarrow> (pystr \<times> capability_descriptor) list \<Rightarrow> config_error + (pystr \<times> capability_descriptor) list" where
  "declare_flow f descriptors =
     (if fd_reducer_capability_id f \<notin> {None, Some ''detector-result-reducer''}
      then Inl (Config_code_for ''reducer_capability_not_found'' (fd_flow_id f))
      else fold_res declare_node (fd_nodes f) descriptors)"

definition check_reference :: "registry \<Rightarrow> flow_key option \<Rightarrow> config_error + unit" where
  "check_reference rg reference =
     (case reference of None \<Rightarrow> Inr ()
      | Some (flow_id, version) \<Rightarrow>
          (case get_flow rg flow_id version of Inl e \<Rightarrow> Inl (Invalid_contract e) | Inr _ \<Rightarrow> Inr ()))"

definition configured_defaults :: "gateway_config \<Rightarrow> policy_defaults" where
  "configured_defaults config =
     policy_defaults\<lparr>pd_timeout := \<lparr>tp_seconds = frc_default_timeout (gc_flow_runtime config), tp_action = Fail_open\<rparr>\<rparr>"

definition resolve_configured ::
  "gateway_config \<Rightarrow> flow_definition \<times> node \<Rightarrow> config_error + (policy_key \<times> node_policy)" where
  "resolve_configured config fn =
     (let (f, n) = fn in
      case gc_node_policies config (node_key f n) of
        None \<Rightarrow> Inl (Config_code_for ''node_policy_config'' (node_id n))
      | Some policy \<Rightarrow>
          (case resolve_node_policy policy (configured_defaults config) EXPLICIT (Some (fd_flow_id f)) (Some (node_id n)) of
             Inl e \<Rightarrow> Inl (Invalid_policy e)
           | Inr resolved \<Rightarrow> Inr (node_key f n, resolved)))"

definition validate_flow_configuration :: "gateway_config \<Rightarrow> config_error + (policy_key \<times> node_policy) list" where
  "validate_flow_configuration config =
     (let observed = gc_metric_tenant_ids config;
          tenancy = gc_tenancy config;
          binding_ids = map cb_capability_id (gc_capabilities config);
          pipeline = gc_pipeline config in
      if observed \<noteq> [] \<and> (\<not> tyc_enabled tenancy \<or> \<not> set observed \<subseteq> tn_id ` set (tyc_tenants tenancy))
      then Inl (Config_code ''tenant_observability_config_invalid'')
      else if \<not> distinct binding_ids then Inl (Config_code ''duplicate_capability_binding'')
      else
        bind_res (fold_res declare_flow (gc_flows config) []) (\<lambda>descriptors.
        if \<not> set binding_ids \<subseteq> fst ` set descriptors then Inl (Config_code ''unused_capability_binding'')
        else
          case flow_contract_registry (map snd descriptors) (gc_flows config)
                 (frc_max_depth (gc_flow_runtime config)) (frc_max_nodes (gc_flow_runtime config)) of
            Inl e \<Rightarrow> Inl (Invalid_contract e)
          | Inr rg \<Rightarrow>
              bind_res (check_reference rg (plc_input_flow pipeline)) (\<lambda>_.
              bind_res (check_reference rg (plc_output_flow pipeline)) (\<lambda>_.
              bind_res (map_res (resolve_configured config) (flow_nodes (gc_flows config))) (\<lambda>resolved.
              if gc_flows config \<noteq> [] \<and> plc_input_flow pipeline = None \<and> plc_output_flow pipeline = None
                 \<and> tyc_policies tenancy = []
              then Inl (Config_code ''explicit_flow_stage_reference_required'')
              else Inr resolved)))))"

text \<open>The validators of the parts, then of the whole; the result is \<open>resolved_flow_policies\<close>.\<close>

definition check_flow :: "flow_definition \<Rightarrow> config_error + unit" where
  "check_flow f = (case validate_flow_definition f of Inl e \<Rightarrow> Inl (Invalid_contract e) | Inr _ \<Rightarrow> Inr ())"

definition check_gateway_config :: "gateway_config \<Rightarrow> config_error + (policy_key \<times> node_policy) list" where
  "check_gateway_config config =
     bind_res (check_pipeline (gc_pipeline config)) (\<lambda>_.
     bind_res (map_res check_tenant (tyc_tenants (gc_tenancy config))) (\<lambda>_.
     bind_res (map_res check_tenant_policy (tyc_policies (gc_tenancy config))) (\<lambda>_.
     bind_res (map_res check_tenant_resources
       (case gc_tenant_resources config of Inl r \<Rightarrow> [r] | Inr rs \<Rightarrow> map snd rs)) (\<lambda>_.
     bind_res (check_flow_runtime (gc_flow_runtime config)) (\<lambda>_.
     bind_res (map_res check_binding (gc_capabilities config)) (\<lambda>_.
     bind_res (map_res check_flow (gc_flows config)) (\<lambda>_.
     validate_flow_configuration config)))))))"

end
