(* ===== verification/Flow_Traversal.thy ===== *)
theory Flow_Traversal
  imports Flow_Contracts
begin

text \<open>
  The depth-first walk over nested Flows that \<open>config/validators.py\<close>, \<open>tenancy/runtime.py\<close> and
  \<open>app.py\<close> all write as an inner function with a set of the identities it has entered. What such a
  function does is a fold over the events of the walk, in their order: a Flow entered, a capability
  node met, a reference that names no Flow.

  The pending calls are a stack, so that the walk ends because each Flow is entered once.
\<close>

datatype visit =
    Entered flow_definition
  | Capability_met flow_definition capability_node
  | Missing_flow flow_key

datatype pending = Call flow_key | Step flow_definition node

text \<open>\<open>{(flow.flow_id, flow.version): flow for flow in flows}\<close>.\<close>

definition find_flow :: "flow_definition list \<Rightarrow> flow_key \<Rightarrow> flow_definition option" where
  "find_flow flows key = map_of (rev (map (\<lambda>f. (flow_key f, f)) flows)) key"

lemma find_flow_Some: "find_flow flows key = Some f \<Longrightarrow> f \<in> set flows \<and> flow_key f = key"
  by (auto simp: find_flow_def dest: map_of_SomeD)

lemma find_flow_None: "find_flow flows key = None \<longleftrightarrow> key \<notin> flow_key ` set flows"
  by (auto simp: find_flow_def map_of_eq_None_iff image_image)

lemma find_flow_unique:
  assumes "distinct (map flow_key flows)" and "f \<in> set flows"
  shows "find_flow flows (flow_key f) = Some f"
proof (cases "find_flow flows (flow_key f)")
  case None
  then show ?thesis using assms(2) by (simp add: find_flow_None)
next
  case (Some g)
  with assms show ?thesis using find_flow_Some [OF Some] by (auto simp: distinct_map dest: inj_onD)
qed

fun pending_weight :: "pending \<Rightarrow> nat" where
  "pending_weight (Call key) = 1"
| "pending_weight (Step f n) = 2"

abbreviation (input) unentered :: "flow_definition list \<Rightarrow> flow_key list \<Rightarrow> flow_key list" where
  "unentered flows active \<equiv> filter (\<lambda>k. k \<notin> set active) (map flow_key flows)"

lemma unentered_less:
  assumes "find_flow flows key = Some f" and "key \<notin> set active"
  shows "length (unentered flows (key # active)) < length (unentered flows active)"
proof -
  have key: "key \<in> set (unentered flows active)" using assms find_flow_Some by fastforce
  have "unentered flows (key # active) = filter (\<lambda>k. k \<noteq> key) (unentered flows active)"
    by (simp add: conj_commute)
  with key show ?thesis using length_filter_less [OF key, of "\<lambda>k. k \<noteq> key"] by simp
qed

function visits :: "flow_definition list \<Rightarrow> flow_key list \<Rightarrow> pending list \<Rightarrow> visit list" where
  "visits flows active [] = []"
| "visits flows active (Call key # ps) =
     (if key \<in> set active then visits flows active ps
      else case find_flow flows key of
             None \<Rightarrow> Missing_flow key # visits flows active ps
           | Some f \<Rightarrow> Entered f # visits flows (key # active) (map (Step f) (fd_nodes f) @ ps))"
| "visits flows active (Step f (Capability_node c) # ps) = Capability_met f c # visits flows active ps"
| "visits flows active (Step f (Flow_node m) # ps) =
     visits flows active (Call (fn_flow_id m, fn_flow_version m) # ps)"
  by pat_completeness auto
termination
  by (relation "inv_image (less_than <*lex*> less_than)
        (\<lambda>(flows, active, ps). (length (unentered flows active), sum_list (map pending_weight ps)))")
     (use unentered_less in fastforce)+

definition traverse :: "flow_definition list \<Rightarrow> flow_key list \<Rightarrow> visit list" where
  "traverse flows roots = visits flows [] (map Call roots)"

fun entered :: "visit list \<Rightarrow> flow_definition list" where
  "entered [] = []"
| "entered (Entered f # vs) = f # entered vs"
| "entered (_ # vs) = entered vs"

fun met :: "visit list \<Rightarrow> (flow_definition \<times> capability_node) list" where
  "met [] = []"
| "met (Capability_met f c # vs) = (f, c) # met vs"
| "met (_ # vs) = met vs"

lemma entered_mem: "f \<in> set (entered vs) \<longleftrightarrow> Entered f \<in> set vs"
  by (induction vs rule: entered.induct) auto

lemma met_mem: "(f, c) \<in> set (met vs) \<longleftrightarrow> Capability_met f c \<in> set vs"
  by (induction vs rule: met.induct) auto

fun somes :: "'a option list \<Rightarrow> 'a list" where
  "somes [] = []"
| "somes (None # xs) = somes xs"
| "somes (Some x # xs) = x # somes xs"

subsection \<open>What the walk covers\<close>

lemma visits_entered:
  "Entered f \<in> set (visits flows active ps) \<Longrightarrow> f \<in> set flows \<and> find_flow flows (flow_key f) = Some f \<and> flow_key f \<notin> set active"
  by (induction flows active ps rule: visits.induct)
     (auto split: if_splits option.splits simp: find_flow_Some dest: find_flow_Some)

lemma visits_distinct: "distinct (map flow_key (entered (visits flows active ps)))"
proof (induction flows active ps rule: visits.induct)
  case (2 flows active key ps)
  show ?case
  proof (cases "key \<in> set active \<or> find_flow flows key = None")
    case True
    then show ?thesis using 2 by auto
  next
    case False
    then obtain f where f: "find_flow flows key = Some f" by auto
    have "flow_key f \<notin> flow_key ` set (entered (visits flows (key # active) (map (Step f) (fd_nodes f) @ ps)))"
      using visits_entered [of _ flows "key # active"] find_flow_Some [OF f] by (force simp: entered_mem)
    then show ?thesis using 2(3) False f by simp
  qed
qed auto

lemma visits_missing: "Missing_flow key \<in> set (visits flows active ps) \<Longrightarrow> find_flow flows key = None"
  by (induction flows active ps rule: visits.induct) (auto split: if_splits option.splits)

text \<open>A called Flow is entered, unless it was before or does not exist; so are those its nodes name.\<close>

definition covered :: "flow_definition list \<Rightarrow> flow_key list \<Rightarrow> visit list \<Rightarrow> flow_key \<Rightarrow> bool" where
  "covered flows active vs key \<longleftrightarrow>
     key \<in> set active \<or> Missing_flow key \<in> set vs \<or> (\<exists>f. Entered f \<in> set vs \<and> flow_key f = key)"

fun step_covered :: "flow_definition list \<Rightarrow> flow_key list \<Rightarrow> visit list \<Rightarrow> flow_definition \<Rightarrow> node \<Rightarrow> bool" where
  "step_covered flows active vs f (Capability_node c) = (Capability_met f c \<in> set vs)"
| "step_covered flows active vs f (Flow_node m) = covered flows active vs (fn_flow_id m, fn_flow_version m)"

lemma covered_Cons [intro]: "covered flows active vs key \<Longrightarrow> covered flows active (v # vs) key"
  by (auto simp: covered_def)

lemma step_covered_Cons [intro]: "step_covered flows active vs f n \<Longrightarrow> step_covered flows active (v # vs) f n"
  by (cases n) (auto)

lemma covered_active:
  "find_flow flows key = Some f \<Longrightarrow> covered flows (key # active) vs k \<Longrightarrow> covered flows active (Entered f # vs) k"
  using find_flow_Some by (fastforce simp: covered_def)

lemma step_covered_active:
  "find_flow flows key = Some f \<Longrightarrow> step_covered flows (key # active) vs g n \<Longrightarrow> step_covered flows active (Entered f # vs) g n"
  by (cases n) (auto intro: covered_active)

lemma visits_cover:
  "(\<forall>key. Call key \<in> set ps \<longrightarrow> covered flows active (visits flows active ps) key)
   \<and> (\<forall>f n. Step f n \<in> set ps \<longrightarrow> step_covered flows active (visits flows active ps) f n)
   \<and> (\<forall>f n. Entered f \<in> set (visits flows active ps) \<and> n \<in> set (fd_nodes f) \<longrightarrow>
        step_covered flows active (visits flows active ps) f n)"
proof (induction flows active ps rule: visits.induct)
  case (2 flows active key ps)
  show ?case
  proof (cases "key \<in> set active")
    case True
    then show ?thesis using "2.IH"(1) by (auto simp: covered_def)
  next
    case False
    show ?thesis
    proof (cases "find_flow flows key")
      case None
      then show ?thesis using "2.IH"(2) [OF False None] False by (auto simp: covered_def)
    next
      case (Some f)
      let ?vs = "visits flows (key # active) (map (Step f) (fd_nodes f) @ ps)"
      have vs: "visits flows active (Call key # ps) = Entered f # ?vs" using False Some by simp
      note IH = "2.IH"(3) [OF False Some]
      have "covered flows active (Entered f # ?vs) key" using find_flow_Some [OF Some] by (auto simp: covered_def)
      then show ?thesis using IH unfolding vs by (auto intro: covered_active [OF Some] step_covered_active [OF Some])
    qed
  qed
next
  case (4 flows active f m ps)
  then show ?case by auto
qed auto

lemma visits_met:
  "Capability_met f c \<in> set (visits flows active ps) \<Longrightarrow>
     Step f (Capability_node c) \<in> set ps
     \<or> Entered f \<in> set (visits flows active ps) \<and> Capability_node c \<in> set (fd_nodes f)"
proof (induction flows active ps rule: visits.induct)
  case (2 flows active key ps)
  show ?case
  proof (cases "key \<in> set active")
    case True
    with 2 show ?thesis by simp
  next
    case False
    show ?thesis
    proof (cases "find_flow flows key")
      case None
      with 2 False show ?thesis by simp
    next
      case (Some g)
      have "Capability_met f c \<in> set (visits flows (key # active) (map (Step g) (fd_nodes g) @ ps))"
        using "2.prems" False Some by simp
      from "2.IH"(3) [OF False Some this] False Some show ?thesis by auto
    qed
  qed
next
  case (3 flows active g d ps)
  then show ?case by auto
next
  case (4 flows active g m ps)
  then show ?case by (simp del: visits.simps(2))
qed simp

text \<open>A set of Flows that names every Flow its nodes invoke.\<close>

definition closed_flows :: "flow_definition list \<Rightarrow> bool" where
  "closed_flows flows \<longleftrightarrow>
     (\<forall>f \<in> set flows. \<forall>m. Flow_node m \<in> set (fd_nodes f) \<longrightarrow> (fn_flow_id m, fn_flow_version m) \<in> flow_key ` set flows)"

lemma no_missing:
  assumes "closed_flows flows" and "\<forall>key. Call key \<in> set ps \<longrightarrow> key \<in> flow_key ` set flows"
    and "\<forall>f n. Step f n \<in> set ps \<longrightarrow> f \<in> set flows \<and> n \<in> set (fd_nodes f)"
  shows "Missing_flow key \<notin> set (visits flows active ps)"
  using assms
proof (induction flows active ps rule: visits.induct)
  case (2 flows active key' ps)
  show ?case
  proof (cases "key' \<in> set active")
    case True
    have "Missing_flow key \<notin> set (visits flows active ps)"
      using "2.prems" by (intro "2.IH"(1) [OF True]) auto
    with True show ?thesis by simp
  next
    case False
    have "key' \<in> flow_key ` set flows" using "2.prems"(2) by (meson list.set_intros(1))
    then obtain f where f: "find_flow flows key' = Some f" by (cases "find_flow flows key'") (auto simp: find_flow_None)
    have "Missing_flow key \<notin> set (visits flows (key' # active) (map (Step f) (fd_nodes f) @ ps))"
      using "2.prems" find_flow_Some [OF f] by (intro "2.IH"(3) [OF False f]) auto
    with False f show ?thesis by simp
  qed
next
  case (4 flows active f m ps)
  have "(fn_flow_id m, fn_flow_version m) \<in> flow_key ` set flows"
    using "4.prems"(1,3) unfolding closed_flows_def by (meson list.set_intros(1))
  then have "Missing_flow key \<notin> set (visits flows active (Call (fn_flow_id m, fn_flow_version m) # ps))"
    using "4.prems" by (intro "4.IH") auto
  then show ?case by (simp del: visits.simps(2))
next
  case (3 flows active f c ps)
  have "Missing_flow key \<notin> set (visits flows active ps)" using "3.prems" by (intro "3.IH") auto
  then show ?case by simp
qed simp

lemma traverse_closed:
  assumes "closed_flows flows" and "set roots \<subseteq> flow_key ` set flows"
  defines "vs \<equiv> traverse flows roots"
  shows "(\<forall>key. Missing_flow key \<notin> set vs)
    \<and> set roots \<subseteq> flow_key ` set (entered vs)
    \<and> closed_flows (entered vs)
    \<and> set (entered vs) \<subseteq> set flows \<and> distinct (map flow_key (entered vs))
    \<and> set (met vs) = {(f, c). f \<in> set (entered vs) \<and> Capability_node c \<in> set (fd_nodes f)}"
proof -
  have missing: "\<forall>key. Missing_flow key \<notin> set vs"
    unfolding vs_def traverse_def by (intro allI no_missing [OF assms(1)]) (use assms(2) in auto)
  have cover: "\<forall>key \<in> set roots. covered flows [] vs key"
    and steps: "\<forall>f n. Entered f \<in> set vs \<and> n \<in> set (fd_nodes f) \<longrightarrow> step_covered flows [] vs f n"
    using visits_cover [of "map Call roots" flows "[]"] by (auto simp: vs_def traverse_def)
  have step_closed: "(fn_flow_id m, fn_flow_version m) \<in> flow_key ` set (entered vs)"
    if "f \<in> set (entered vs)" "Flow_node m \<in> set (fd_nodes f)" for f m
  proof -
    have "step_covered flows [] vs f (Flow_node m)"
      using steps [rule_format, of f "Flow_node m"] that by (simp add: entered_mem)
    then obtain g where "Entered g \<in> set vs" "flow_key g = (fn_flow_id m, fn_flow_version m)"
      using missing by (auto simp: covered_def)
    then show ?thesis by (force simp: entered_mem)
  qed
  have "(f, c) \<in> set (met vs) \<longleftrightarrow> f \<in> set (entered vs) \<and> Capability_node c \<in> set (fd_nodes f)" for f c
    using steps visits_met [of f c flows "[]" "map Call roots"]
    by (fastforce simp: met_mem entered_mem vs_def traverse_def)
  then have "set (met vs) = {(f, c). f \<in> set (entered vs) \<and> Capability_node c \<in> set (fd_nodes f)}" by auto
  moreover have "set roots \<subseteq> flow_key ` set (entered vs)"
  proof
    fix key
    assume "key \<in> set roots"
    then have "covered flows [] vs key" using cover by blast
    then obtain f where "Entered f \<in> set vs" "flow_key f = key" using missing by (auto simp: covered_def)
    then show "key \<in> flow_key ` set (entered vs)" by (force simp: entered_mem)
  qed
  moreover have "set (entered vs) \<subseteq> set flows"
    using visits_entered by (fastforce simp: entered_mem vs_def traverse_def)
  ultimately show ?thesis
    using missing step_closed visits_distinct [of flows "[]"] unfolding closed_flows_def vs_def traverse_def by blast
qed

end
