(* ===== verification/Config_Validation.thy ===== *)
theory Config_Validation
  imports Config_Models Flow_Traversal Flag_Escalation Router
begin

text \<open>
  \<open>config/validators.py\<close>: the rules that span sections of a configuration, run after the models have
  checked themselves. A warning is a value; what the file system and the installed packages answer
  are arguments.
\<close>

subsection \<open>Comparing the values of a setting\<close>

text \<open>
  \<open>==\<close> and \<open><=\<close> as Python defines them on the values a document can hold: a truth value is a number,
  texts and lists compare item by item, and any other mixture of kinds raises.
\<close>

definition json_number :: "json \<Rightarrow> pyfloat option" where
  "json_number j = (case j of JNum x \<Rightarrow> Some x | JBool b \<Rightarrow> Some (if b then 1 else 0) | _ \<Rightarrow> None)"

fun py_eq :: "json \<Rightarrow> json \<Rightarrow> bool" where
  "py_eq (JArr xs) (JArr ys) = list_all2 py_eq xs ys"
| "py_eq (JObj fs) (JObj gs) =
     (length fs = length gs
      \<and> list_all (\<lambda>(k, v). case map_of gs k of None \<Rightarrow> False | Some w \<Rightarrow> py_eq v w) fs)"
| "py_eq (JStr s) (JStr t) = (s = t)"
| "py_eq JNull JNull = True"
| "py_eq a b = (json_number a \<noteq> None \<and> json_number a = json_number b)"

fun text_le :: "pystr \<Rightarrow> pystr \<Rightarrow> bool" where
  "text_le [] t = True"
| "text_le (c # s) [] = False"
| "text_le (c # s) (d # t) = (if c = d then text_le s t else (of_char c :: nat) < of_char d)"

fun py_le :: "json \<Rightarrow> json \<Rightarrow> unit + bool"
  and py_le_items :: "json list \<Rightarrow> json list \<Rightarrow> unit + bool" where
  "py_le (JStr s) (JStr t) = Inr (text_le s t)"
| "py_le (JArr xs) (JArr ys) = py_le_items xs ys"
| "py_le a b =
     (case (json_number a, json_number b) of (Some x, Some y) \<Rightarrow> Inr (x \<le> y) | _ \<Rightarrow> Inl ())"
| "py_le_items [] ys = Inr True"
| "py_le_items (x # xs) [] = Inr False"
| "py_le_items (x # xs) (y # ys) = (if py_eq x y then py_le_items xs ys else py_le x y)"

subsection \<open>Tenancy\<close>

text \<open>The loop over the API keys: the keys, the names and the tenants so far.\<close>

definition check_api_key ::
  "pystr list \<Rightarrow> api_key \<Rightarrow> pystr list \<times> pystr list \<times> pystr list
     \<Rightarrow> config_error + (pystr list \<times> pystr list \<times> pystr list)" where
  "check_api_key declared_tenants k acc =
     (let (seen_keys, seen_names, bound_tenants) = acc; name = py_strip (ak_name k) in
      if ak_key k = [] \<or> ak_key k \<noteq> py_strip (ak_key k) then Inl (Config_code ''invalid_api_key'')
      else case ak_tenant_id k of
        None \<Rightarrow> Inl (Config_code ''api_key_tenant_required'')
      | Some tenant_id \<Rightarrow>
          if tenant_id \<notin> set declared_tenants then Inl (Config_code ''unknown_api_key_tenant'')
          else if ak_key k \<in> set seen_keys then Inl (Config_code ''duplicate_api_key'')
          else if name = [] \<or> name \<in> set seen_names then Inl (Config_code ''invalid_api_key_name'')
          else Inr (ak_key k # seen_keys, name # seen_names, tenant_id # bound_tenants))"

definition validate_tenancy :: "gateway_config \<Rightarrow> config_error + unit" where
  "validate_tenancy config =
     (let tenancy = gc_tenancy config; api_keys = gc_api_keys config;
          tenant_ids = map tn_id (tyc_tenants tenancy); policy_ids = map tpc_id (tyc_policies tenancy) in
      if \<not> tyc_enabled tenancy then
        if tyc_policies tenancy \<noteq> [] \<or> list_ex (\<lambda>t. tn_policy_id t \<noteq> None) (tyc_tenants tenancy)
        then Inl (Config_code ''tenancy_disabled_with_tenant_policy'')
        else if tyc_tenants tenancy \<noteq> [] \<or> list_ex (\<lambda>k. ak_tenant_id k \<noteq> None) api_keys
        then Inl (Config_code ''tenancy_disabled_with_tenant_configuration'')
        else Inr ()
      else if \<not> gc_auth_enabled config then Inl (Config_code ''tenancy_enabled_requires_auth'')
      else if tyc_tenants tenancy = [] then Inl (Config_code ''tenancy_requires_tenants'')
      else if tyc_policies tenancy = [] \<or> list_ex (\<lambda>t. tn_policy_id t = None) (tyc_tenants tenancy)
      then Inl (Config_code ''tenant_policy_required'')
      else if \<not> distinct tenant_ids then Inl (Config_code ''duplicate_tenant_id'')
      else if \<not> distinct policy_ids then Inl (Config_code ''duplicate_tenant_policy_id'')
      else if list_ex (\<lambda>t. tn_policy_id t \<notin> Some ` set policy_ids) (tyc_tenants tenancy)
      then Inl (Config_code ''unknown_tenant_policy'')
      else
        bind_res (fold_res (check_api_key tenant_ids) api_keys ([], [], [])) (\<lambda>(_, _, bound_tenants).
          if set bound_tenants \<noteq> set tenant_ids then Inl (Config_code ''tenant_without_api_key'') else Inr ()))"

subsection \<open>Tenant policies\<close>

definition collect_capabilities :: "flow_definition list \<Rightarrow> flow_definition \<Rightarrow> pystr list" where
  "collect_capabilities flows flow = map (cn_capability_id \<circ> snd) (met (traverse flows [flow_key flow]))"

definition selected_capabilities ::
  "flow_definition list \<Rightarrow> flow_key option list \<Rightarrow> config_error + pystr list" where
  "selected_capabilities flows references =
     fold_res (\<lambda>reference selected.
       case reference of
         None \<Rightarrow> Inr selected
       | Some key \<Rightarrow>
           (case find_flow flows key of
              None \<Rightarrow> Inl (Config_code ''tenant_policy_flow_not_found'')
            | Some flow \<Rightarrow> Inr (selected @ collect_capabilities flows flow))) references []"

definition check_policy_rule ::
  "pystr list \<Rightarrow> routing_rule \<Rightarrow> (pystr \<times> pystr) list \<times> pystr list
     \<Rightarrow> config_error + (pystr \<times> pystr) list \<times> pystr list" where
  "check_policy_rule providers r acc =
     (let (seen_patterns, allowed_providers) = acc in
      if rl_provider r \<notin> set providers then Inl (Config_code ''tenant_policy_route_provider_not_found'')
      else if map_of seen_patterns (rl_pattern r) \<notin> {None, Some (rl_provider r)}
      then Inl (Config_code ''tenant_policy_route_conflict'')
      else Inr (AList.update (rl_pattern r) (rl_provider r) seen_patterns, rl_provider r # allowed_providers))"

definition validate_tenant_policy ::
  "flow_definition list \<Rightarrow> pystr list \<Rightarrow> tenant_policy_config \<Rightarrow> config_error + unit" where
  "validate_tenant_policy flows providers policy =
     bind_res (selected_capabilities flows [tpc_input_flow policy, tpc_output_flow policy]) (\<lambda>selected.
     let binding_ids = map cb_capability_id (tpc_capabilities policy);
         models_provider = tr_models_provider (tpc_routing policy) in
     if \<not> distinct binding_ids then Inl (Config_code ''duplicate_capability_binding'')
     else if \<not> set selected \<subseteq> set binding_ids then Inl (Config_code ''tenant_policy_capability_binding_missing'')
     else if \<not> set binding_ids \<subseteq> set selected then Inl (Config_code ''tenant_policy_capability_binding_unused'')
     else
       bind_res (fold_res (check_policy_rule providers) (tr_rules (tpc_routing policy)) ([], [])) (\<lambda>(_, allowed).
         if models_provider \<notin> set providers then Inl (Config_code ''tenant_policy_route_provider_not_found'')
         else if models_provider \<notin> set allowed then Inl (Config_code ''tenant_policy_models_provider_not_allowed'')
         else Inr ()))"

definition validate_tenant_policies :: "gateway_config \<Rightarrow> config_error + unit" where
  "validate_tenant_policies config =
     (if \<not> tyc_enabled (gc_tenancy config) then Inr ()
      else fold_res (\<lambda>policy _. validate_tenant_policy (gc_flows config) (map pvc_name (gc_providers config)) policy)
             (tyc_policies (gc_tenancy config)) ())"

subsection \<open>Detectors\<close>

datatype config_warning =
    Grpc_without_circuit_breaker pystr
  | Word_list_missing pystr json
  | Tenant_word_list_missing pystr
  | Patterns_overlap pystr pystr

definition builtin_detector_names :: "pystr list" where
  "builtin_detector_names = [''prompt_injection'', ''pii_redaction'', ''toxicity'', ''sensitive_words'', ''secret_leak'']"

text \<open>\<open>config.get(key)\<close>: a missing key and a null are the same.\<close>

definition setting :: "settings \<Rightarrow> pystr \<Rightarrow> json" where
  "setting config key = (case map_of config key of None \<Rightarrow> JNull | Some v \<Rightarrow> v)"

definition validate_required_policy :: "detector_settings \<Rightarrow> config_error + unit" where
  "validate_required_policy d =
     (if \<not> dtc_required d then Inr ()
      else if \<not> dtc_enabled d then Inl (Config_code_for ''required detector cannot be disabled'' (dtc_name d))
      else if dtc_on_error d \<noteq> ''fail_closed''
      then Inl (Config_code_for ''required detector must use fail_closed'' (dtc_name d))
      else Inr ())"

definition check_threshold_pair ::
  "settings \<Rightarrow> pystr \<Rightarrow> pystr \<Rightarrow> config_error \<Rightarrow> config_error + unit" where
  "check_threshold_pair config block_key flag_key e =
     (let block = setting config block_key; flag = setting config flag_key in
      if block = JNull \<or> flag = JNull then Inr ()
      else case py_le block flag of
             Inl _ \<Rightarrow> Inl Raised_type_error
           | Inr le \<Rightarrow> if le then Inl e else Inr ())"

definition validate_thresholds :: "bool \<Rightarrow> detector_settings \<Rightarrow> config_error + unit" where
  "validate_thresholds private_config d =
     bind_res (check_threshold_pair (dtc_config d) ''block_threshold'' ''flag_threshold''
       (if private_config then Config_code_for ''tenant_detector_threshold_conflict'' (dtc_name d)
        else Config_code_for ''block_threshold must be strictly greater than flag_threshold'' (dtc_name d))) (\<lambda>_.
     check_threshold_pair (dtc_config d) ''count_block_threshold'' ''count_flag_threshold''
       (if private_config then Config_code_for ''tenant_detector_count_threshold_conflict'' (dtc_name d)
        else Config_code_for ''count_block_threshold must be strictly greater than count_flag_threshold'' (dtc_name d)))"

definition validate_detector_name :: "pystr list \<Rightarrow> detector_settings \<Rightarrow> config_error + unit" where
  "validate_detector_name plugin_names d =
     guard_res (dtc_type d = ''grpc'' \<or> dtc_name d \<in> set builtin_detector_names \<or> dtc_name d \<in> set plugin_names)
       (Config_code_for ''Unknown detector'' (dtc_name d))"

definition validate_grpc_detector :: "detector_settings \<Rightarrow> config_error + config_warning list" where
  "validate_grpc_detector d =
     (if dtc_type d \<noteq> ''grpc'' then Inr []
      else if \<not> truthy (setting (dtc_config d) ''endpoint'')
      then Inl (Config_code_for ''missing required config: endpoint'' (dtc_name d))
      else Inr (if dtc_circuit_breaker d = None then [Grpc_without_circuit_breaker (dtc_name d)] else []))"

text \<open>\<open>os.path.isfile\<close> raises on a value that is no path.\<close>

definition validate_word_list_file ::
  "(json \<Rightarrow> bool option) \<Rightarrow> bool \<Rightarrow> detector_settings \<Rightarrow> config_error + config_warning list" where
  "validate_word_list_file is_file private_config d =
     (let word_list_file = setting (dtc_config d) ''word_list_file'' in
      if dtc_name d \<noteq> ''sensitive_words'' \<or> \<not> truthy word_list_file then Inr []
      else case is_file word_list_file of
             None \<Rightarrow> Inl Raised_type_error
           | Some True \<Rightarrow> Inr []
           | Some False \<Rightarrow>
               Inr [if private_config then Tenant_word_list_missing (dtc_name d)
                    else Word_list_missing (dtc_name d) word_list_file])"

definition validate_detector ::
  "pystr list \<Rightarrow> (json \<Rightarrow> bool option) \<Rightarrow> detector_settings \<times> bool \<Rightarrow> config_error + config_warning list" where
  "validate_detector plugin_names is_file entry =
     (let (d, private_config) = entry in
      bind_res (validate_required_policy d) (\<lambda>_.
      bind_res (validate_thresholds private_config d) (\<lambda>_.
      bind_res (validate_detector_name plugin_names d) (\<lambda>_.
      bind_res (validate_grpc_detector d) (\<lambda>warnings.
      bind_res (validate_word_list_file is_file private_config d) (\<lambda>warnings'. Inr (warnings @ warnings')))))))"

text \<open>The detectors of a configuration; \<open>True\<close> marks those whose settings an error must not show.\<close>

definition all_detectors :: "gateway_config \<Rightarrow> (detector_settings \<times> bool) list" where
  "all_detectors config =
     map (\<lambda>d. (d, False)) (plc_input_detectors (gc_pipeline config))
     @ map (\<lambda>d. (d, False)) (plc_output_detectors (gc_pipeline config))
     @ map (\<lambda>b. (binding_detector b, True)) (gc_capabilities config)
     @ map (\<lambda>b. (binding_detector b, True)) (concat (map tpc_capabilities (tyc_policies (gc_tenancy config))))"

definition validate_detectors ::
  "pystr list \<Rightarrow> (json \<Rightarrow> bool option) \<Rightarrow> gateway_config \<Rightarrow> config_error + config_warning list" where
  "validate_detectors plugin_names is_file config =
     bind_res (map_res (validate_detector plugin_names is_file) (all_detectors config)) (\<lambda>ws. Inr (concat ws))"

subsection \<open>Flag escalation\<close>

text \<open>
  \<open>re.split(r"\s+(and|or)\s+", rule, flags=re.IGNORECASE)\<close>, without the operators it puts between the
  conditions. A separator starts at the first blank of a run of blanks.
\<close>

definition logic_separator :: "pystr \<Rightarrow> pystr option" where
  "logic_separator s =
     (let r = dropWhile py_isspace s;
          after = (if map ascii_lower (take 3 r) = ''and'' then drop 3 r
                   else if map ascii_lower (take 2 r) = ''or'' then drop 2 r else [])
      in if after \<noteq> [] \<and> py_isspace (hd after) then Some (dropWhile py_isspace after) else None)"

lemma logic_separator_shorter: "logic_separator s = Some r \<Longrightarrow> length r < length s"
proof -
  assume r: "logic_separator s = Some r"
  define t where "t = dropWhile py_isspace s"
  have t: "length t \<le> length s" by (simp add: t_def length_dropWhile_le)
  from r have "\<exists>n > 1. r = dropWhile py_isspace (drop n t) \<and> drop n t \<noteq> []"
    by (intro exI [of _ "if map ascii_lower (take 3 t) = ''and'' then 3 else 2"])
       (simp add: logic_separator_def Let_def t_def [symmetric] del: map_eq_Cons_conv split: if_splits)
  then obtain n where "1 < n" "r = dropWhile py_isspace (drop n t)" "drop n t \<noteq> []" by blast
  then show ?thesis using t length_dropWhile_le [of py_isspace "drop n t"] by auto
qed

function split_conditions :: "pystr \<Rightarrow> pystr \<Rightarrow> pystr list" where
  "split_conditions acc [] = [rev acc]"
| "split_conditions acc (c # cs) =
     (case (if py_isspace c then logic_separator (c # cs) else None) of
        Some rest \<Rightarrow> rev acc # split_conditions [] rest
      | None \<Rightarrow> split_conditions (c # acc) cs)"
  by pat_completeness auto
termination
  by (relation "measure (\<lambda>(acc, s). length s)") (auto dest: logic_separator_shorter split: if_splits)

text \<open>\<open>\w\<close> for the characters up to 255.\<close>

definition is_word_char :: "char \<Rightarrow> bool" where
  "is_word_char c \<longleftrightarrow>
     (let n = of_char c :: nat in
      is_alnum c \<or> c = CHR ''_'' \<or> n \<in> {170, 178, 179, 181, 185, 186, 188, 189, 190}
      \<or> (192 \<le> n \<and> n \<noteq> 215 \<and> n \<noteq> 247))"

definition one_word :: "pystr \<Rightarrow> bool" where
  "one_word s \<longleftrightarrow> s \<noteq> [] \<and> list_all (\<lambda>c. \<not> py_isspace c) s"

text \<open>\<open>^categories\s+contains\s+(\S+)$\<close>, in any case.\<close>

definition after_keyword :: "pystr \<Rightarrow> pystr \<Rightarrow> pystr option" where
  "after_keyword w s =
     (let r = drop (length w) s in
      if starts_with (map ascii_lower s) w \<and> r \<noteq> [] \<and> py_isspace (hd r) then Some (dropWhile py_isspace r) else None)"

definition contains_condition :: "pystr \<Rightarrow> bool" where
  "contains_condition s \<longleftrightarrow>
     (case Option.bind (after_keyword ''categories'' s) (after_keyword ''contains'') of
        None \<Rightarrow> False | Some category \<Rightarrow> one_word category)"

text \<open>\<open>^(\w+)\s*(>=|>|<=|<|==|!=)\s*(\S+)$\<close>: the variable of the condition.\<close>

definition operator_condition :: "pystr \<Rightarrow> pystr option" where
  "operator_condition s =
     (let variable = takeWhile is_word_char s; r = dropWhile py_isspace (dropWhile is_word_char s) in
      if variable \<noteq> []
         \<and> list_ex (\<lambda>oper. starts_with r oper \<and> one_word (dropWhile py_isspace (drop (length oper) r)))
             [''>='', ''>'', ''<='', ''<'', ''=='', ''!='']
      then Some variable else None)"

definition flag_escalation_variables :: "pystr list" where
  "flag_escalation_variables = [''count'', ''max_risk_level'', ''categories'']"

definition check_condition :: "pystr \<Rightarrow> config_error + unit" where
  "check_condition part =
     (let condition = py_strip part in
      if condition = [] then Inl (Config_code ''Invalid flag_escalation rule syntax: empty condition'')
      else if contains_condition condition then Inr ()
      else case operator_condition condition of
        None \<Rightarrow> Inl (Config_code_for ''Invalid flag_escalation rule syntax'' condition)
      | Some variable \<Rightarrow>
          if variable \<notin> set flag_escalation_variables
          then Inl (Config_code_for ''Invalid flag_escalation variable'' variable) else Inr ())"

definition parse_flag_escalation_rule :: "pystr \<Rightarrow> config_error + unit" where
  "parse_flag_escalation_rule rule = fold_res (\<lambda>part _. check_condition part) (split_conditions [] rule) ()"

definition validate_tenant_escalation :: "tenant_policy_config \<Rightarrow> config_error + unit" where
  "validate_tenant_escalation policy =
     (let invalid = Inl (Config_code_for ''tenant_flag_escalation_invalid'' (tpc_id policy)) in
      case tpc_flag_escalation policy of
        None \<Rightarrow> Inr ()
      | Some fe \<Rightarrow>
          if \<not> fec_enabled fe then Inr ()
          else if fec_action fe \<noteq> ''block'' \<or> py_strip (fec_rule fe) = [] then invalid
          else case parse_flag_escalation_rule (py_strip (fec_rule fe)) of Inl _ \<Rightarrow> invalid | Inr _ \<Rightarrow> Inr ())"

definition validate_flag_escalation :: "gateway_config \<Rightarrow> config_error + unit" where
  "validate_flag_escalation config =
     bind_res
       (case plc_flag_escalation (gc_pipeline config) of
          None \<Rightarrow> Inr ()
        | Some fe \<Rightarrow>
            if \<not> fec_enabled fe then Inr ()
            else if py_strip (fec_rule fe) = []
            then Inl (Config_code ''flag_escalation.rule is empty but flag_escalation is enabled'')
            else parse_flag_escalation_rule (py_strip (fec_rule fe)))
       (\<lambda>_. fold_res (\<lambda>policy _. validate_tenant_escalation policy) (tyc_policies (gc_tenancy config)) ())"

subsection \<open>Providers and routing\<close>

definition provider_types_requiring_api_key :: "pystr list" where
  "provider_types_requiring_api_key = [''openai'', ''azure_openai'', ''anthropic'', ''gemini'']"

definition provider_types_requiring_api_version :: "pystr list" where
  "provider_types_requiring_api_version = [''azure_openai'']"

definition validate_provider :: "provider_config \<Rightarrow> config_error + unit" where
  "validate_provider p =
     (if pvc_type p \<in> set provider_types_requiring_api_key \<and> pvc_api_key p = []
      then Inl (Config_code_for ''api_key is required'' (pvc_name p))
      else if pvc_type p \<in> set provider_types_requiring_api_version \<and> pvc_api_version p = []
      then Inl (Config_code_for ''api_version is required'' (pvc_name p))
      else Inr ())"

definition validate_providers :: "gateway_config \<Rightarrow> config_error + unit" where
  "validate_providers config = fold_res (\<lambda>p _. validate_provider p) (gc_providers config) ()"

definition overlap_test_values :: "pystr list" where
  "overlap_test_values = [[], ''4'', ''test'', ''turbo'', ''x'', ''70b'', ''13b'', ''-'', ''mini'']"

text \<open>\<open>pattern.replace("*", value)\<close>.\<close>

definition fill_stars :: "pystr \<Rightarrow> pystr \<Rightarrow> pystr" where
  "fill_stars value pattern = concat (map (\<lambda>c. if c = CHR ''*'' then value else [c]) pattern)"

definition patterns_overlap :: "pystr \<Rightarrow> pystr \<Rightarrow> bool" where
  "patterns_overlap p q \<longleftrightarrow>
     fnmatch p q \<or> fnmatch q p
     \<or> list_ex (\<lambda>value. fnmatch (fill_stars value p) q \<or> fnmatch (fill_stars value q) p) overlap_test_values"

definition check_routing_conflicts :: "routing_rule list \<Rightarrow> config_warning list" where
  "check_routing_conflicts rules =
     concat (map (\<lambda>i. map (\<lambda>j. Patterns_overlap (rl_pattern (rules ! i)) (rl_pattern (rules ! j)))
        (filter (\<lambda>j. patterns_overlap (rl_pattern (rules ! i)) (rl_pattern (rules ! j))) [i + 1..<length rules]))
       [0..<length rules])"

definition validate_routing :: "gateway_config \<Rightarrow> config_error + config_warning list" where
  "validate_routing config =
     bind_res (fold_res (\<lambda>r _. guard_res (rl_provider r \<in> pvc_name ` set (gc_providers config))
                 (Config_code_for ''references unknown provider'' (rl_pattern r))) (gc_routing_rules config) ()) (\<lambda>_.
     Inr (check_routing_conflicts (gc_routing_rules config)))"

definition validate_config ::
  "pystr list \<Rightarrow> (json \<Rightarrow> bool option) \<Rightarrow> gateway_config \<Rightarrow> config_error + config_warning list" where
  "validate_config plugin_names is_file config =
     bind_res (validate_tenancy config) (\<lambda>_.
     bind_res (validate_tenant_policies config) (\<lambda>_.
     bind_res (validate_detectors plugin_names is_file config) (\<lambda>warnings.
     bind_res (validate_flag_escalation config) (\<lambda>_.
     bind_res (validate_providers config) (\<lambda>_.
     bind_res (validate_routing config) (\<lambda>warnings'. Inr (warnings @ warnings')))))))"

end
