(* ===== verification/Tenant_Compile.thy ===== *)
theory Tenant_Compile
  imports Config_Validation Lifecycle
begin

text \<open>
  \<open>tenancy/runtime.py\<close> and \<open>circuit_breaker/factory.py\<close>: the compilation of each tenant policy into a
  private engine, detectors and statuses at start-up.

  The factory that makes a detector from a binding, and what detectors do when they are initialized, are
  arguments. A circuit breaker is an object at a fresh address of the store, as in the engine. The calls
  made to detectors are a trace, as in the coordinator; a shutdown that fails or times out is logged by
  the code and changes nothing. A node of a Flow belongs to one Flow, so that the code's search for the
  Flow that holds the node object is the Flow the walk met it in. The second check of a detector's name,
  after its start-up, is left out: the name of a detector is a constant here.
\<close>

subsection \<open>Selecting the Flows of a policy\<close>

datatype compile_error =
    Compile_error (cpe_code: pystr) (cpe_policy: pystr) (cpe_detector: pystr)
  | Breaker_duration_invalid
  | Registry_error status_error
  | Interrupted interruption
  | Key_missing

definition flow_identity :: "tenant_policy_config \<Rightarrow> direction \<Rightarrow> flow_key option" where
  "flow_identity policy d = (case d of Input \<Rightarrow> tpc_input_flow policy | Output \<Rightarrow> tpc_output_flow policy)"

fun is_missing :: "visit \<Rightarrow> bool" where
  "is_missing (Missing_flow key) = True"
| "is_missing _ = False"

definition selected_flows ::
  "pystr \<Rightarrow> flow_definition list \<Rightarrow> flow_key list \<Rightarrow> compile_error + flow_definition list" where
  "selected_flows policy_id flows roots =
     (let vs = traverse flows roots in
      if list_ex is_missing vs then Inl (Compile_error ''tenant_flow_not_found'' policy_id [])
      else Inr (entered vs))"

definition selected_policies ::
  "pystr \<Rightarrow> (policy_key \<rightharpoonup> node_policy) \<Rightarrow> flow_definition list \<Rightarrow> compile_error + (policy_key \<times> node_policy) list" where
  "selected_policies policy_id resolved flows =
     map_res (\<lambda>(f, n). case resolved (node_key f n) of
         None \<Rightarrow> Inl (Compile_error ''tenant_node_policy_not_found'' policy_id [])
       | Some p \<Rightarrow> Inr (node_key f n, p)) (flow_nodes flows)"

fun collect_detector_node ::
  "pystr \<Rightarrow> visit \<Rightarrow> (flow_definition \<times> capability_node) list \<Rightarrow> compile_error + (flow_definition \<times> capability_node) list" where
  "collect_detector_node policy_id (Entered f) nodes = Inr nodes"
| "collect_detector_node policy_id (Missing_flow key) nodes = Inl (Compile_error ''tenant_flow_not_found'' policy_id [])"
| "collect_detector_node policy_id (Capability_met f c) nodes =
     (if starts_with (cn_capability_id c) ''detector.'' then Inr (nodes @ [(f, c)])
      else Inl (Compile_error ''unsupported_runtime_capability'' policy_id []))"

definition detector_nodes ::
  "pystr \<Rightarrow> flow_definition list \<Rightarrow> flow_key option \<Rightarrow> compile_error + (flow_definition \<times> capability_node) list" where
  "detector_nodes policy_id flows start =
     (case start of None \<Rightarrow> Inr []
      | Some key \<Rightarrow> fold_res (collect_detector_node policy_id) (traverse flows [key]) [])"

text \<open>The escalation rule, parsed once more by the engine's own parser.\<close>

definition tenant_escalation :: "tenant_policy_config \<Rightarrow> compile_error + rule option" where
  "tenant_escalation policy =
     (case tpc_flag_escalation policy of
        None \<Rightarrow> Inr None
      | Some fe \<Rightarrow>
          if \<not> fec_enabled fe \<or> fec_rule fe = [] then Inr None
          else if fec_action fe \<noteq> ''block''
          then Inl (Compile_error ''unsupported_flag_escalation_action'' (tpc_id policy) [])
          else case parse (fec_rule fe) of
                 Inl _ \<Rightarrow> Inl (Compile_error ''tenant_flag_escalation_invalid'' (tpc_id policy) [])
               | Inr r \<Rightarrow> Inr (Some r))"

text \<open>\<open>PipelineEngine\<close> with the options of \<open>flow_runtime\<close>, which it reads when it builds a plan.\<close>

definition configured_engine ::
  "short_circuit \<Rightarrow> rule option \<Rightarrow> flow_definition list \<Rightarrow> flow_key option \<Rightarrow> flow_key option
     \<Rightarrow> (policy_key \<times> node_policy) list \<Rightarrow> flow_runtime_config \<Rightarrow> engine" where
  "configured_engine sc escalation flows input_flow output_flow policies runtime =
     \<lparr>en_short_circuit = sc, en_flag_escalation = escalation, en_configured_flows = flows,
      en_input_flow = input_flow, en_output_flow = output_flow, en_configured_policies = dict_of policies,
      en_max_concurrency = frc_max_concurrency runtime, en_absolute_timeout = frc_absolute_timeout runtime,
      en_max_evidence_size = frc_max_evidence_size runtime, en_max_depth = frc_max_depth runtime,
      en_max_nodes = frc_max_nodes runtime\<rparr>"

text \<open>What \<open>_compile_policy\<close> settles before it makes a detector.\<close>

record selection =
  sel_flows :: "flow_definition list"
  sel_policies :: "(policy_key \<times> node_policy) list"
  sel_nodes :: "direction \<Rightarrow> (flow_definition \<times> capability_node) list"
  sel_capabilities :: "pystr list"
  sel_engine :: engine

definition directed_nodes :: "(direction \<Rightarrow> (flow_definition \<times> capability_node) list) \<Rightarrow> (direction \<times> flow_definition \<times> capability_node) list" where
  "directed_nodes nodes = map (Pair Input) (nodes Input) @ map (Pair Output) (nodes Output)"

definition select_policy ::
  "gateway_config \<Rightarrow> (policy_key \<rightharpoonup> node_policy) \<Rightarrow> tenant_policy_config \<Rightarrow> compile_error + selection" where
  "select_policy config resolved policy =
     (let input_flow = flow_identity policy Input; output_flow = flow_identity policy Output;
          roots = somes [input_flow, output_flow];
          flows = gc_flows config in
      bind_res (selected_flows (tpc_id policy) flows roots) (\<lambda>selected.
      bind_res (selected_policies (tpc_id policy) resolved selected) (\<lambda>policies.
      bind_res (detector_nodes (tpc_id policy) flows input_flow) (\<lambda>input_nodes.
      bind_res (detector_nodes (tpc_id policy) flows output_flow) (\<lambda>output_nodes.
      let nodes = (\<lambda>d. case d of Input \<Rightarrow> input_nodes | Output \<Rightarrow> output_nodes);
          used = map (cn_capability_id \<circ> snd \<circ> snd) (directed_nodes nodes) in
      if set used \<noteq> set (map cb_capability_id (tpc_capabilities policy))
      then Inl (Compile_error ''tenant_capability_binding_mismatch'' (tpc_id policy) [])
      else
        bind_res (tenant_escalation policy) (\<lambda>escalation. Inr
          \<lparr>sel_flows = selected, sel_policies = policies, sel_nodes = nodes, sel_capabilities = used,
           sel_engine = configured_engine On_block escalation selected input_flow output_flow policies
             (gc_flow_runtime config)\<rparr>))))))"

subsection \<open>Making the detectors\<close>

type_synonym detector_factory = "capability_binding \<Rightarrow> detector option"

definition binding_of :: "tenant_policy_config \<Rightarrow> pystr \<Rightarrow> capability_binding option" where
  "binding_of policy cid = dict_of (map (\<lambda>b. (cb_capability_id b, b)) (tpc_capabilities policy)) cid"

fun create_detectors ::
  "detector_factory \<Rightarrow> tenant_policy_config \<Rightarrow> pystr list \<Rightarrow> (pystr \<times> detector) list
     \<Rightarrow> (compile_error + (pystr \<times> detector) list) \<times> life_event list" where
  "create_detectors factory policy [] created = (Inr created, [])"
| "create_detectors factory policy (cid # cids) created =
     (let undo = map Shutdown (rev (map snd created)) in
      case binding_of policy cid of
        None \<Rightarrow> (Inl Key_missing, undo)
      | Some b \<Rightarrow>
          (case factory b of
             None \<Rightarrow> (Inl (Compile_error ''tenant_detector_factory_error'' (tpc_id policy) (cb_detector_name b)), undo)
           | Some d \<Rightarrow>
               if det_name d \<noteq> cb_detector_name b
               then (Inl (Compile_error ''tenant_detector_identity_mismatch'' (tpc_id policy) (cb_detector_name b)),
                     Shutdown d # undo)
               else create_detectors factory policy cids (created @ [(cid, d)])))"

text \<open>A recovery time that is not a finite number is taken for one that does not parse.\<close>

definition build_circuit_breaker :: "circuit_breaker_config \<Rightarrow> breaker option" where
  "build_circuit_breaker c =
     (case parse_duration (cbc_recovery_timeout c) of
        Some (Finite seconds) \<Rightarrow> Some (circuit_breaker (cbc_failure_threshold c) seconds (cbc_fallback_action c))
      | _ \<Rightarrow> None)"

text \<open>The configuration of a detector: what the engine reads of it, and the rest.\<close>

record capability_settings =
  cs_required :: bool
  cs_config :: detector_config
  cs_settings :: settings

record compilation =
  cm_next :: nat
  cm_store :: breaker_store
  cm_configs :: "(status_key \<times> capability_settings) list"
  cm_policies :: "(status_key \<times> node_policy) list"
  cm_coordinator :: coordinator

definition threshold_setting :: "settings \<Rightarrow> pystr \<Rightarrow> pyfloat option" where
  "threshold_setting config key =
     (case map_of config key of None \<Rightarrow> Some 1 | Some v \<Rightarrow> json_number v)"

text \<open>\<open>_detector_config\<close>: an enabled circuit breaker is built anew, at the next address.\<close>

definition capability_config ::
  "capability_binding \<Rightarrow> capability_node \<Rightarrow> node_policy \<Rightarrow> compilation \<Rightarrow> compile_error + (capability_settings \<times> compilation)" where
  "capability_config b n p cm =
     (let settings = (\<lambda>breaker.
            \<lparr>cs_required = ap_required (np_availability p),
             cs_config = \<lparr>cfg_block_threshold = threshold_setting (cb_config b) ''block_threshold'',
               cfg_flag_threshold = threshold_setting (cb_config b) ''flag_threshold'',
               cfg_on_error = Some (fallback_str (ap_on_unavailable (np_availability p))),
               cfg_timeout_seconds = Some (tp_seconds (np_timeout p)), cfg_priority = Some (cn_priority n),
               cfg_circuit_breaker = breaker\<rparr>,
             cs_settings = cb_config b\<rparr>) in
      case cb_circuit_breaker b of
        None \<Rightarrow> Inr (settings None, cm)
      | Some c \<Rightarrow>
          if \<not> cbc_enabled c then Inr (settings None, cm)
          else case build_circuit_breaker c of
                 None \<Rightarrow> Inl Breaker_duration_invalid
               | Some breaker \<Rightarrow> Inr (settings (Some (cm_next cm)),
                   cm\<lparr>cm_next := Suc (cm_next cm), cm_store := (cm_store cm)(cm_next cm := breaker)\<rparr>))"

definition register_node ::
  "tenant_policy_config \<Rightarrow> (policy_key \<rightharpoonup> node_policy) \<Rightarrow> (pystr \<rightharpoonup> detector)
     \<Rightarrow> direction \<times> flow_definition \<times> capability_node \<Rightarrow> compilation \<Rightarrow> compile_error + compilation" where
  "register_node policy resolved detector_of dfn cm =
     (let (direction, f, n) = dfn in
      case (binding_of policy (cn_capability_id n), resolved (fd_flow_id f, fd_version f, cn_node_id n),
            detector_of (cn_capability_id n)) of
        (Some b, Some p, Some d) \<Rightarrow>
          let name = cb_detector_name b in
          bind_res (capability_config b n p cm) (\<lambda>(settings, cm).
            case map_of (cm_configs cm) (direction, name) of
              Some existing \<Rightarrow>
                if existing \<noteq> settings
                then Inl (Compile_error ''tenant_capability_lifecycle_conflict'' (tpc_id policy) name)
                else Inr cm
            | None \<Rightarrow>
                (case register_detector direction d (if cb_type b = [] then ''builtin'' else cb_type b)
                        (ap_required (np_availability p)) (fallback_str (ap_on_unavailable (np_availability p)))
                        (tp_seconds (np_timeout p)) (cm_coordinator cm) of
                   Inl e \<Rightarrow> Inl (Registry_error e)
                 | Inr co \<Rightarrow> Inr (cm\<lparr>cm_configs := cm_configs cm @ [((direction, name), settings)],
                     cm_policies := cm_policies cm @ [((direction, name), p)], cm_coordinator := co\<rparr>)))
      | _ \<Rightarrow> Inl Key_missing)"

subsection \<open>Compiling a policy, and all of them\<close>

text \<open>
  The loop over the nodes, then the start-up of the coordinator. The coordinator as it is when an error
  leaves the block is the one that is shut down: before the start-up it has nothing to shut down.
\<close>

fun register_nodes ::
  "tenant_policy_config \<Rightarrow> (policy_key \<rightharpoonup> node_policy) \<Rightarrow> (pystr \<rightharpoonup> detector)
     \<Rightarrow> (direction \<times> flow_definition \<times> capability_node) list \<Rightarrow> compilation \<Rightarrow> compile_error + compilation" where
  "register_nodes policy resolved detector_of [] cm = Inr cm"
| "register_nodes policy resolved detector_of (dfn # rest) cm =
     bind_res (register_node policy resolved detector_of dfn cm) (register_nodes policy resolved detector_of rest)"

definition new_compilation :: "nat \<Rightarrow> breaker_store \<Rightarrow> compilation" where
  "new_compilation next store =
     \<lparr>cm_next = next, cm_store = store, cm_configs = [], cm_policies = [], cm_coordinator = new_coordinator\<rparr>"

definition direction_dict :: "direction \<Rightarrow> (status_key \<times> 'a) list \<Rightarrow> (pystr \<times> 'a) list" where
  "direction_dict d entries = map (\<lambda>((_, name), x). (name, x)) (filter (\<lambda>((d', _), _). d' = d) entries)"

record compiled_policy =
  cpd_bundle :: tenant_bundle
  cpd_input_detectors :: "detector list"
  cpd_output_detectors :: "detector list"
  cpd_coordinator :: coordinator

definition healthy_detectors ::
  "(pystr \<rightharpoonup> detector) \<Rightarrow> status_registry \<Rightarrow> direction \<Rightarrow> (status_key \<times> capability_settings) list \<Rightarrow> detector list" where
  "healthy_detectors detector_of reg d configs =
     List.map_filter (\<lambda>(name, _).
       case map_of reg (d, name) of
         Some s \<Rightarrow> if ds_state s = HEALTHY then detector_of (''detector.'' @ name) else None
       | None \<Rightarrow> None) (direction_dict d configs)"

definition policy_bundle ::
  "tenant_policy_config \<Rightarrow> selection \<Rightarrow> (pystr \<rightharpoonup> detector) \<Rightarrow> compilation \<Rightarrow> coordinator \<Rightarrow> compiled_policy" where
  "policy_bundle policy sel detector_of cm co =
     \<lparr>cpd_bundle =
        \<lparr>tb_policy_id = tpc_id policy, tb_input_flow_identity = flow_identity policy Input,
         tb_output_flow_identity = flow_identity policy Output, tb_routing_profile_id = tpc_id policy,
         tb_engine = Some (sel_engine sel),
         tb_input_configs = Some (map (\<lambda>(name, c). (name, cs_config c)) (direction_dict Input (cm_configs cm))),
         tb_output_configs = Some (map (\<lambda>(name, c). (name, cs_config c)) (direction_dict Output (cm_configs cm))),
         tb_status_registry = Some (co_registry co), tb_coordinator = Some (co_registry co),
         tb_node_policies = Some (dict_of (sel_policies sel)),
         tb_input_policies = Some (map_of (direction_dict Input (cm_policies cm))),
         tb_output_policies = Some (map_of (direction_dict Output (cm_policies cm))),
         tb_router_view = None\<rparr>,
      cpd_input_detectors = healthy_detectors detector_of (co_registry co) Input (cm_configs cm),
      cpd_output_detectors = healthy_detectors detector_of (co_registry co) Output (cm_configs cm),
      cpd_coordinator = co\<rparr>"

text \<open>After the start-up: a required detector that is not healthy fails the policy.\<close>

definition finish_policy ::
  "tenant_policy_config \<Rightarrow> selection \<Rightarrow> (pystr \<rightharpoonup> detector) \<Rightarrow> compilation \<Rightarrow> coordinator \<Rightarrow> interruption option
     \<Rightarrow> compile_error + compiled_policy" where
  "finish_policy policy sel detector_of cm co raised =
     (case raised of
        Some i \<Rightarrow> Inl (Interrupted i)
      | None \<Rightarrow>
          (case status_issues (Some True) (co_registry co) of
             issue # _ \<Rightarrow> Inl (Compile_error ''tenant_required_detector_unavailable'' (tpc_id policy) (ds_name issue))
           | [] \<Rightarrow> Inr (policy_bundle policy sel detector_of cm co)))"

definition start_policy ::
  "(detector \<Rightarrow> plugin) \<Rightarrow> tenant_policy_config \<Rightarrow> selection \<Rightarrow> (pystr \<times> detector) list \<Rightarrow> compilation
     \<Rightarrow> (compile_error + compiled_policy) \<times> life_event list" where
  "start_policy plugins policy sel created cm =
     (case initialize_all plugins (cm_coordinator cm) of
        Inl e \<Rightarrow> (Inl (Registry_error e), [])
      | Inr (co, events, raised) \<Rightarrow>
          (case finish_policy policy sel (map_of created) cm co raised of
             Inl e \<Rightarrow> (Inl e, events @ snd (shutdown_all co))
           | Inr c \<Rightarrow> (Inr c, events)))"

text \<open>\<open>_compile_policy\<close>: the next free address and the store go from policy to policy.\<close>

definition compile_policy ::
  "gateway_config \<Rightarrow> (policy_key \<rightharpoonup> node_policy) \<Rightarrow> detector_factory \<Rightarrow> (detector \<Rightarrow> plugin) \<Rightarrow> tenant_policy_config
     \<Rightarrow> nat \<times> breaker_store \<Rightarrow> (compile_error + compiled_policy) \<times> life_event list \<times> (nat \<times> breaker_store)" where
  "compile_policy config resolved factory plugins policy heap =
     (case select_policy config resolved policy of
        Inl e \<Rightarrow> (Inl e, [], heap)
      | Inr sel \<Rightarrow>
          (case create_detectors factory policy (sorted_set (sel_capabilities sel)) [] of
             (Inl e, events) \<Rightarrow> (Inl e, events, heap)
           | (Inr created, events) \<Rightarrow>
               (case register_nodes policy (dict_of (sel_policies sel)) (map_of created)
                       (directed_nodes (sel_nodes sel)) (new_compilation (fst heap) (snd heap)) of
                  Inl e \<Rightarrow> (Inl e, events, heap)
                | Inr cm \<Rightarrow>
                    (let (result, started) = start_policy plugins policy sel created cm
                     in (result, events @ started, (cm_next cm, cm_store cm))))))"

definition shutdown_bundles :: "compiled_policy list \<Rightarrow> life_event list" where
  "shutdown_bundles bundles = concat (map (\<lambda>b. snd (shutdown_all (cpd_coordinator b))) (rev bundles))"

fun compile_policies ::
  "gateway_config \<Rightarrow> (policy_key \<rightharpoonup> node_policy) \<Rightarrow> (tenant_policy_config \<Rightarrow> detector_factory) \<Rightarrow> (detector \<Rightarrow> plugin)
     \<Rightarrow> tenant_policy_config list \<Rightarrow> compiled_policy list \<Rightarrow> nat \<times> breaker_store
     \<Rightarrow> (compile_error + compiled_policy list) \<times> life_event list \<times> (nat \<times> breaker_store)" where
  "compile_policies config resolved factory plugins [] bundles heap = (Inr bundles, [], heap)"
| "compile_policies config resolved factory plugins (p # ps) bundles heap =
     (case compile_policy config resolved (factory p) plugins p heap of
        (Inl e, events, heap) \<Rightarrow> (Inl e, events @ shutdown_bundles bundles, heap)
      | (Inr b, events, heap) \<Rightarrow>
          (let (result, events', heap) = compile_policies config resolved factory plugins ps (bundles @ [b]) heap
           in (result, events @ events', heap)))"

end
