(* ===== verification/Startup_Laws.thy ===== *)
theory Startup_Laws
  imports Tenant_Compile
begin

text \<open>
  What the checks of a configuration buy at start-up and for each request: the Flows of an accepted
  policy can be selected, its engine can plan every stage it names, and every configured API key is
  served with the bundle of its tenant. A registry for a part of the Flows that is closed under
  references exists when one exists for all of them.
\<close>

subsection \<open>What an accepted configuration guarantees\<close>

lemma check_gateway_validated: "check_gateway_config config = Inr resolved \<Longrightarrow> validate_flow_configuration config = Inr resolved"
  by (auto simp: check_gateway_config_def res_simps)

lemma check_gateway_runtime:
  "check_gateway_config config = Inr resolved \<Longrightarrow> check_flow_runtime (gc_flow_runtime config) = Inr ()"
  by (auto simp: check_gateway_config_def res_simps)

lemma validated_flows:
  assumes "validate_flow_configuration config = Inr resolved"
  obtains descriptors rg where "fold_res declare_flow (gc_flows config) [] = Inr descriptors"
    "flow_contract_registry (map snd descriptors) (gc_flows config)
       (frc_max_depth (gc_flow_runtime config)) (frc_max_nodes (gc_flow_runtime config)) = Inr rg"
    "check_reference rg (plc_input_flow (gc_pipeline config)) = Inr ()"
    "check_reference rg (plc_output_flow (gc_pipeline config)) = Inr ()"
    "map_res (resolve_configured config) (flow_nodes (gc_flows config)) = Inr resolved"
  using assms by (auto simp: validate_flow_configuration_def Let_def res_simps split: if_splits sum.splits)

lemma registry_binding:
  assumes "flow_contract_registry caps flows max_depth max_nodes = Inr rg" and "f \<in> set flows" and "n \<in> set (fd_nodes f)"
  shows "validate_binding rg f n = Inr ()"
proof -
  note parts = registry_parts [OF assms(1)]
  have "f \<in> set (map snd (rg_flows rg))" using parts(1) assms(2) by force
  then show ?thesis using parts(7) assms(3) unfolding validate_bindings_def fold_res_all by blast
qed

lemma registry_closed:
  assumes "flow_contract_registry caps flows max_depth max_nodes = Inr rg"
  shows "closed_flows flows"
  unfolding closed_flows_def
proof (intro ballI allI impI)
  fix f m assume f: "f \<in> set flows" "Flow_node m \<in> set (fd_nodes f)"
  have "validate_binding rg f (Flow_node m) = Inr ()" by (rule registry_binding [OF assms f])
  then show "(fn_flow_id m, fn_flow_version m) \<in> flow_key ` set flows"
    using registry_resolve_flow [OF assms] by (force simp: validate_binding_def res_simps)
qed

lemma mem_flow_nodes [simp]: "(f, n) \<in> set (flow_nodes flows) \<longleftrightarrow> f \<in> set flows \<and> n \<in> set (fd_nodes f)"
  by (auto simp: flow_nodes_def)

lemma dict_of_keys: "map fst al = map k xs \<Longrightarrow> x \<in> set xs \<Longrightarrow> dict_of al (k x) \<noteq> None"
  unfolding dict_of_None by (metis imageI list.set_map)

lemma resolved_keys:
  assumes "map_res (resolve_configured config) fns = Inr resolved" and "(f, n) \<in> set fns"
  shows "dict_of resolved (node_key f n) \<noteq> None"
proof -
  have "map fst resolved = map (\<lambda>(f, n). node_key f n) fns"
    using assms(1) unfolding map_res_Inr
    by (induction rule: list_all2_induct) (auto simp: resolve_configured_def Let_def split: option.splits sum.splits)
  from dict_of_keys [OF this assms(2)] show ?thesis by simp
qed

text \<open>The same capability has the same schemas in every node.\<close>

lemma declare_node_known:
  assumes "declare_node n ds = Inr ds'"
  shows "\<forall>k d. map_of ds k = Some d \<longrightarrow> map_of ds' k = Some d"
    and "case n of Capability_node c \<Rightarrow> map_of ds' (cn_capability_id c) = Some (declared_descriptor c) | Flow_node m \<Rightarrow> True"
  using assms by (cases n; auto simp: update_conv' split: option.splits if_splits)+

lemma declare_nodes_known:
  assumes "fold_res declare_node ns ds = Inr ds'"
  shows "(\<forall>k d. map_of ds k = Some d \<longrightarrow> map_of ds' k = Some d)
    \<and> (\<forall>c. Capability_node c \<in> set ns \<longrightarrow> map_of ds' (cn_capability_id c) = Some (declared_descriptor c))"
  using assms
proof (induction ns arbitrary: ds)
  case (Cons n ns)
  then obtain ds1 where d: "declare_node n ds = Inr ds1" "fold_res declare_node ns ds1 = Inr ds'" by (auto simp: res_simps)
  from Cons.IH [OF d(2)] declare_node_known [OF d(1)] show ?case by auto
qed simp

lemma declared_flows:
  assumes "fold_res declare_flow flows ds = Inr ds'"
  shows "(\<forall>k d. map_of ds k = Some d \<longrightarrow> map_of ds' k = Some d)
    \<and> (\<forall>f \<in> set flows. \<forall>c. Capability_node c \<in> set (fd_nodes f) \<longrightarrow> map_of ds' (cn_capability_id c) = Some (declared_descriptor c))"
  using assms
proof (induction flows arbitrary: ds)
  case (Cons f fs)
  then obtain ds1 where d: "declare_flow f ds = Inr ds1" "fold_res declare_flow fs ds1 = Inr ds'" by (auto simp: res_simps)
  have "fold_res declare_node (fd_nodes f) ds = Inr ds1" using d(1) by (simp add: declare_flow_def split: if_splits)
  from Cons.IH [OF d(2)] declare_nodes_known [OF this] show ?case by auto
qed simp

lemma same_schemas:
  assumes "fold_res declare_flow flows [] = Inr ds"
    and "f \<in> set flows" "Capability_node c \<in> set (fd_nodes f)" "g \<in> set flows" "Capability_node d \<in> set (fd_nodes g)"
    and "cn_capability_id c = cn_capability_id d"
  shows "cn_input_schema c = cn_input_schema d \<and> cn_output_schema c = cn_output_schema d"
proof -
  have "declared_descriptor c = declared_descriptor d"
    using declared_flows [OF assms(1)] assms(2-6) by (metis option.inject)
  then show ?thesis by (simp add: declared_descriptor_def)
qed

subsection \<open>A closed part of the Flows has a registry of its own\<close>

lemma walk_flow_same:
  assumes "\<forall>f \<in> set part. \<forall>m. Flow_node m \<in> set (fd_nodes f) \<longrightarrow>
      resolve_flow rg' m = resolve_flow rg m \<and> (\<forall>g. resolve_flow rg m = Inr g \<longrightarrow> g \<in> set part)"
    and "rg_max_depth rg' = rg_max_depth rg" "rg_max_nodes rg' = rg_max_nodes rg" and "f \<in> set part"
  shows "walk_flow rg' f d active e = walk_flow rg f d active e"
  using assms
proof (induction rg f d active e rule: walk_flow.induct)
  case (1 rg f d active e)
  have step: "(case n of Capability_node c \<Rightarrow> Inr total
        | Flow_node f' \<Rightarrow> (case resolve_flow rg' f' of Inl e \<Rightarrow> Inl e
            | Inr g \<Rightarrow> walk_flow rg' g (d + 1) (active @ [flow_key f]) total))
      = (case n of Capability_node c \<Rightarrow> Inr total
        | Flow_node f' \<Rightarrow> (case resolve_flow rg f' of Inl e \<Rightarrow> Inl e
            | Inr g \<Rightarrow> walk_flow rg g (d + 1) (active @ [flow_key f]) total))"
    if "n \<in> set (fd_nodes f)" "flow_key f \<notin> set active" "\<not> d > rg_max_depth rg"
      "\<not> e + int (length (fd_nodes f)) > rg_max_nodes rg" for n total
  proof (cases n)
    case (Flow_node m)
    have same: "resolve_flow rg' m = resolve_flow rg m" using "1.prems" that(1) Flow_node by blast
    show ?thesis
    proof (cases "resolve_flow rg m")
      case (Inr g)
      then have "g \<in> set part" using "1.prems" that(1) Flow_node by blast
      from "1.IH" [OF that(2,3) refl that(4,1) Flow_node Inr "1.prems"(1-3) this]
      show ?thesis using Flow_node Inr same by simp
    qed (simp add: Flow_node same)
  qed simp
  show ?case
    unfolding walk_flow.simps [of _ f] "1.prems"(2,3) Let_def
    using step by (auto intro!: fold_res_cong)
qed

lemma sub_registry:
  assumes rg: "flow_contract_registry caps flows md mn = Inr rg"
    and part: "set part \<subseteq> set flows" "closed_flows part" "distinct (map flow_key part)"
    and caps': "distinct (map cd_capability_id caps')"
    and schemas: "\<forall>f \<in> set part. \<forall>c. Capability_node c \<in> set (fd_nodes f) \<longrightarrow>
      (\<exists>t \<in> set caps'. cd_capability_id t = cn_capability_id c
         \<and> cd_input_schema t = cn_input_schema c \<and> cd_output_schema t = cn_output_schema c)"
  shows "\<exists>rg'. flow_contract_registry caps' part md mn = Inr rg'"
proof -
  define rg' where "rg' = \<lparr>rg_capabilities = map (\<lambda>c. (cd_capability_id c, c)) caps',
      rg_flows = map (\<lambda>f. (flow_key f, f)) part, rg_max_depth = md, rg_max_nodes = mn\<rparr>"
  note parts = registry_parts [OF rg]
  have unique: "g = h" if "g \<in> set flows" "h \<in> set flows" "flow_key g = flow_key h" for g h
    using parts(2) that by (auto simp: distinct_map dest: inj_onD)
  have resolve': "resolve_flow rg' m = Inr g \<longleftrightarrow> g \<in> set part \<and> flow_key g = (fn_flow_id m, fn_flow_version m)" for m g
  proof -
    have "resolve_flow rg' m = Inr g \<longleftrightarrow> map_of (map (\<lambda>f. (flow_key f, f)) part) (fn_flow_id m, fn_flow_version m) = Some g"
      by (auto simp: resolve_flow_def rg'_def split: option.splits)
    then show ?thesis using map_of_index [OF part(3)] by simp
  qed
  have nested: "resolve_flow rg' m = resolve_flow rg m \<and> (\<forall>g. resolve_flow rg m = Inr g \<longrightarrow> g \<in> set part)"
    if "f \<in> set part" "Flow_node m \<in> set (fd_nodes f)" for f m
  proof -
    have "(fn_flow_id m, fn_flow_version m) \<in> flow_key ` set part"
      using part(2) that unfolding closed_flows_def by blast
    then obtain h where h: "h \<in> set part" "flow_key h = (fn_flow_id m, fn_flow_version m)" by (metis imageE)
    then have "resolve_flow rg' m = Inr h" by (simp add: resolve')
    moreover have "resolve_flow rg m = Inr h" using h part(1) by (auto simp: registry_resolve_flow [OF rg])
    ultimately show ?thesis using h(1) by simp
  qed
  have "validate_binding rg' f n = Inr ()" if f: "f \<in> set part" "n \<in> set (fd_nodes f)" for f n
  proof (cases n)
    case (Flow_node m)
    have "validate_binding rg f n = Inr ()" using registry_binding [OF rg] part(1) f by blast
    then show ?thesis using nested f Flow_node by (simp add: validate_binding_def)
  next
    case (Capability_node c)
    then obtain t where t: "t \<in> set caps'" "cd_capability_id t = cn_capability_id c"
      "cd_input_schema t = cn_input_schema c" "cd_output_schema t = cn_output_schema c"
      using schemas f by blast
    then have "map_of (rg_capabilities rg') (cn_capability_id c) = Some t"
      using map_of_index [OF caps', of "cn_capability_id c" t] by (simp add: rg'_def)
    with t Capability_node show ?thesis by (simp add: validate_binding_def resolve_capability_def)
  qed
  then have bindings: "validate_bindings rg' = Inr ()"
    unfolding validate_bindings_def fold_res_all by (simp add: rg'_def)
  have "\<exists>t. walk_flow rg' f 1 [] 0 = Inr t" if "f \<in> set part" for f
  proof -
    have "walk_flow rg' f 1 [] 0 = walk_flow rg f 1 [] 0"
      using nested parts(5,6) that by (intro walk_flow_same [where part = part]) (auto simp: rg'_def)
    then show ?thesis using registry_walks [OF rg] part(1) that by auto
  qed
  then have "validate_graphs rg' = Inr ()"
    by (auto simp: validate_graphs_def fold_res_all rg'_def res_simps)
  moreover have "index_flows part = Inr (map (\<lambda>f. (flow_key f, f)) part)"
    "index_capabilities caps' = Inr (map (\<lambda>c. (cd_capability_id c, c)) caps')"
    using fold_res_index_total [OF part(3), of "[]"] fold_res_index_total [OF caps', of "[]"]
    by (simp_all add: index_flows_def index_capabilities_def)
  ultimately show ?thesis using bindings by (simp add: flow_contract_registry_def Let_def rg'_def [symmetric])
qed

subsection \<open>The descriptors of an engine's Flows\<close>

lemma set_default_index:
  assumes "m' = fold (\<lambda>x. set_default (k x) (v x)) xs m"
  shows "(distinct (map fst m) \<longrightarrow> distinct (map fst m')) \<and> fst ` set m' = fst ` set m \<union> k ` set xs
    \<and> (\<forall>e \<in> set m'. e \<in> set m \<or> (\<exists>x \<in> set xs. e = (k x, v x)))"
  using assms
proof (induction xs arbitrary: m)
  case (Cons x xs)
  from Cons.IH [of "set_default (k x) (v x) m"] Cons.prems show ?case
    by (auto simp: set_default_def image_iff split: if_splits)
qed simp

lemma update_index:
  assumes "m' = fold (\<lambda>(k, d). AList.update k (v k d)) xs m"
  shows "(distinct (map fst m) \<longrightarrow> distinct (map fst m')) \<and> fst ` set m' = fst ` set m \<union> fst ` set xs
    \<and> (\<forall>e \<in> set m'. e \<in> set m \<or> (\<exists>k d. (k, d) \<in> set xs \<and> e = (k, v k d)))"
  using assms
proof (induction xs arbitrary: m)
  case (Cons x xs)
  obtain k d where x: "x = (k, d)" by force
  have mem: "e \<in> set (AList.update k (v k d) m) \<Longrightarrow> e \<in> set m \<or> e = (k, v k d)" for e
    by (induction m) (auto split: if_splits)
  from Cons.IH [of "AList.update k (v k d) m"] Cons.prems x mem show ?case
    by (simp add: distinct_update dom_update) blast
qed simp

lemma mem_capability_nodes [simp]:
  "(f, c) \<in> set (capability_nodes flows) \<longleftrightarrow> f \<in> set flows \<and> Capability_node c \<in> set (fd_nodes f)"
  by (force simp: capability_nodes_def map_filter_def split: node.splits)

definition standard_node :: "node \<Rightarrow> bool" where
  "standard_node n \<longleftrightarrow>
     (case n of Flow_node m \<Rightarrow> True
      | Capability_node c \<Rightarrow> cn_input_schema c = ''safety.text.v1'' \<and> cn_output_schema c = ''safety.detector-result.v1'')"

lemma configured_descriptors_index:
  defines "idx flows detectors \<equiv> fold (\<lambda>(cid, d). AList.update cid (detector_descriptor cid d))
       (available_capabilities flows detectors) (default_descriptors flows)"
  shows "distinct (map fst (idx flows detectors))
    \<and> fst ` set (idx flows detectors) = cn_capability_id ` snd ` set (capability_nodes flows)
    \<and> (\<forall>(k, t) \<in> set (idx flows detectors). cd_capability_id t = k \<and>
         ((\<exists>(f, c) \<in> set (capability_nodes flows). cn_capability_id c = k \<and> t = unavailable_descriptor c)
          \<or> (\<exists>d. (k, d) \<in> set (available_capabilities flows detectors) \<and> t = detector_descriptor k d)))"
proof -
  have dflt: "distinct (map fst (default_descriptors flows))
      \<and> fst ` set (default_descriptors flows) = cn_capability_id ` snd ` set (capability_nodes flows)
      \<and> (\<forall>e \<in> set (default_descriptors flows). \<exists>(f, c) \<in> set (capability_nodes flows).
            e = (cn_capability_id c, unavailable_descriptor c))"
    using set_default_index [of _ "\<lambda>(f, n). cn_capability_id n" "\<lambda>(f, n). unavailable_descriptor n" "capability_nodes flows" "[]"]
    unfolding default_descriptors_def case_prod_beta' by (auto simp: image_image)
  have avail: "fst ` set (available_capabilities flows detectors) \<subseteq> cn_capability_id ` snd ` set (capability_nodes flows)"
    by (force simp: available_capabilities_def image_comp [symmetric] simp del: mem_capability_nodes)
  define m where "m = idx flows detectors"
  note upd = update_index [of m "\<lambda>cid d. detector_descriptor cid d" "available_capabilities flows detectors"
      "default_descriptors flows", unfolded m_def idx_def, OF refl, folded idx_def m_def]
  have "case e of (k, t) \<Rightarrow> cd_capability_id t = k \<and>
         ((\<exists>(f, c) \<in> set (capability_nodes flows). cn_capability_id c = k \<and> t = unavailable_descriptor c)
          \<or> (\<exists>d. (k, d) \<in> set (available_capabilities flows detectors) \<and> t = detector_descriptor k d))"
    if e: "e \<in> set m" for e
  proof -
    consider "e \<in> set (default_descriptors flows)"
      | k d where "(k, d) \<in> set (available_capabilities flows detectors)" "e = (k, detector_descriptor k d)"
      using upd e by blast
    then show ?thesis
    proof cases
      case 1
      then obtain f c where "(f, c) \<in> set (capability_nodes flows)" "e = (cn_capability_id c, unavailable_descriptor c)"
        using dflt by blast
      then show ?thesis by (auto simp: unavailable_descriptor_def simp del: mem_capability_nodes)
    next
      case 2
      then show ?thesis by (auto simp: detector_descriptor_def)
    qed
  qed
  moreover have "distinct (map fst m)" using upd dflt by simp
  moreover have "fst ` set m = cn_capability_id ` snd ` set (capability_nodes flows)"
    using upd dflt avail by (simp add: Un_absorb2)
  ultimately show ?thesis unfolding m_def [symmetric] by blast
qed

lemma available_detectors: "(cid, d) \<in> set (available_capabilities flows detectors) \<Longrightarrow> d \<in> set detectors"
proof -
  have "snd ` set (fold (\<lambda>d. AList.update (k d) d) ds m) \<subseteq> snd ` set m \<union> set ds"
    for k :: "detector \<Rightarrow> pystr" and ds m
  proof (induction ds arbitrary: m)
    case (Cons d ds)
    have "snd ` set (AList.update (k d) d m) \<subseteq> insert d (snd ` set m)" by (induction m) auto
    with Cons [of "AList.update (k d) d m"] show ?case by auto
  qed simp
  from this [of "\<lambda>d. ''detector.'' @ det_name d" detectors "[]"]
  show "(cid, d) \<in> set (available_capabilities flows detectors) \<Longrightarrow> d \<in> set detectors"
    by (force simp: available_capabilities_def detector_by_capability_def)
qed

lemma configured_plan:
  assumes ds: "fold_res declare_flow flows [] = Inr ds"
    and rg: "flow_contract_registry (map snd ds) flows (frc_max_depth rt) (frc_max_nodes rt) = Inr rg"
    and runtime: "check_flow_runtime rt = Inr ()"
    and part: "set part \<subseteq> set flows" "closed_flows part" "distinct (map flow_key part)"
    and policies: "\<forall>(f, n) \<in> set (flow_nodes part). dict_of policies (node_key f n) \<noteq> None"
    and schemas: "\<forall>(f, n) \<in> set (flow_nodes part). standard_node n"
    and stage: "stage_flow e d = Some key" "key \<in> flow_key ` set part"
    and e: "e = configured_engine sc escalation part i out policies rt"
    and names: "list_all describable detectors"
  shows "\<exists>plan. new_plan e codec store detectors configs d = Inr plan"
proof -
  define m where "m = fold (\<lambda>(cid, d). AList.update cid (detector_descriptor cid d))
       (available_capabilities part detectors) (default_descriptors part)"
  note idx = configured_descriptors_index [of part detectors, folded m_def]
  have caps: "configured_descriptors part detectors = map snd m" by (simp add: configured_descriptors_def m_def)
  have "map cd_capability_id (map snd m) = map fst m" using idx by auto
  then have distinct: "distinct (map cd_capability_id (configured_descriptors part detectors))"
    using idx by (simp only: caps)
  have "\<exists>t \<in> set (configured_descriptors part detectors). cd_capability_id t = cn_capability_id c
         \<and> cd_input_schema t = cn_input_schema c \<and> cd_output_schema t = cn_output_schema c"
    if f: "f \<in> set part" "Capability_node c \<in> set (fd_nodes f)" for f c
  proof -
    have "(f, c) \<in> set (capability_nodes part)" using f by simp
    moreover have "fst ` set m = cn_capability_id ` snd ` set (capability_nodes part)" using idx by (rule conjunct2 [THEN conjunct1])
    ultimately have "cn_capability_id c \<in> fst ` set m" by (force simp del: mem_capability_nodes)
    then obtain t where t: "(cn_capability_id c, t) \<in> set m" by fastforce
    moreover have "\<forall>(k, t) \<in> set m. cd_capability_id t = k \<and>
         ((\<exists>(f, c) \<in> set (capability_nodes part). cn_capability_id c = k \<and> t = unavailable_descriptor c)
          \<or> (\<exists>d. (k, d) \<in> set (available_capabilities part detectors) \<and> t = detector_descriptor k d))"
      using idx by (rule conjunct2 [THEN conjunct2])
    ultimately consider g c' where "(g, c') \<in> set (capability_nodes part)" "cn_capability_id c' = cn_capability_id c"
        "t = unavailable_descriptor c'"
      | d where "t = detector_descriptor (cn_capability_id c) d"
      by blast
    then have "cd_capability_id t = cn_capability_id c \<and> cd_input_schema t = cn_input_schema c
        \<and> cd_output_schema t = cn_output_schema c"
    proof cases
      case 1
      then have "cn_input_schema c' = cn_input_schema c \<and> cn_output_schema c' = cn_output_schema c"
        using same_schemas [OF ds, of g c' f c] part(1) f by auto
      with 1 show ?thesis by (simp add: unavailable_descriptor_def)
    next
      case 2
      have "standard_node (Capability_node c)" using schemas f by force
      with 2 show ?thesis by (simp add: detector_descriptor_def standard_node_def)
    qed
    then show ?thesis using t by (force simp: caps)
  qed
  then obtain rg' where rg': "flow_contract_registry (configured_descriptors part detectors) part
      (frc_max_depth rt) (frc_max_nodes rt) = Inr rg'"
    using sub_registry [OF rg part distinct] by blast
  obtain f where f: "f \<in> set part" "flow_key f = key" using stage(2) by auto
  then have selected: "dict_of (map (\<lambda>f. (flow_key f, f)) part) key = Some f"
    using find_flow_unique [OF part(3) f(1)] f(2) by (simp add: find_flow_def dict_of_def)
  have "\<exists>fb. configured_fallback e store configs fc = Inr fb" if "fc \<in> set (capability_nodes part)" for fc
  proof -
    obtain g c where fc: "fc = (g, c)" by force
    with that have "dict_of policies (node_key g (Capability_node c)) \<noteq> None" using policies by force
    then show ?thesis by (auto simp: configured_fallback_def fc e configured_engine_def node_key_def Let_def)
  qed
  then obtain fbs where fbs: "map_res (configured_fallback e store configs) (capability_nodes part) = Inr fbs"
    by (metis map_res_total)
  have "list_all (\<lambda>(cid, d). describable d) (available_capabilities part detectors)"
    using names available_detectors by (fastforce simp: list_all_iff)
  moreover have "part \<noteq> []" using f by auto
  ultimately obtain plan where plan: "build_plan e store detectors configs d = Inr plan"
    using stage(1) selected rg' fbs by (auto simp: build_plan_def build_configured_flow_def e configured_engine_def)
  obtain x where "plan_runtime e codec plan = Inr x"
    using runtime by (auto simp: plan_runtime_def flow_runtime_def check_flow_runtime_def res_simps e
        configured_engine_def default_max_evidence_size_def)
  then show ?thesis using plan by (auto simp: new_plan_def)
qed

lemma update_lookup:
  "k \<in> fst ` set xs \<Longrightarrow> \<exists>d. (k, d) \<in> set xs \<and> map_of (fold (\<lambda>(k, d). AList.update k (v k d)) xs m) k = Some (v k d)"
proof (induction xs rule: rev_induct)
  case (snoc x xs)
  obtain k' d' where x: "x = (k', d')" by force
  show ?case
  proof (cases "k = k'")
    case True
    then show ?thesis by (auto simp: x update_conv')
  next
    case False
    with snoc obtain d where "(k, d) \<in> set xs" "map_of (fold (\<lambda>(k, d). AList.update k (v k d)) xs m) k = Some (v k d)"
      by (auto simp: x)
    with False show ?thesis by (auto simp: x update_conv')
  qed
qed simp

lemma custom_schema_no_registry:
  assumes "f \<in> set flows" and "Capability_node c \<in> set (fd_nodes f)" and "\<not> standard_node (Capability_node c)"
    and "d \<in> set detectors" and "cn_capability_id c = ''detector.'' @ det_name d"
  shows "\<exists>e. flow_contract_registry (configured_descriptors flows detectors) flows md mn = Inl e"
proof (rule ccontr)
  assume "\<not> ?thesis"
  then obtain rg where rg: "flow_contract_registry (configured_descriptors flows detectors) flows md mn = Inr rg"
    by (metis sum.exhaust)
  define idx where "idx = fold (\<lambda>(cid, d). AList.update cid (detector_descriptor cid d))
       (available_capabilities flows detectors) (default_descriptors flows)"
  have "fst ` set (detector_by_capability detectors) = (\<lambda>d. ''detector.'' @ det_name d) ` set detectors"
  proof -
    have "fst ` set (fold (\<lambda>d. AList.update (k d) d) ds m) = fst ` set m \<union> k ` set ds"
      for k :: "detector \<Rightarrow> pystr" and ds m by (induction ds arbitrary: m) (auto simp: dom_update)
    then show ?thesis by (simp add: detector_by_capability_def)
  qed
  then have "cn_capability_id c \<in> fst ` set (detector_by_capability detectors)" using assms(4,5) by simp
  then obtain d'' where "(cn_capability_id c, d'') \<in> set (detector_by_capability detectors)" by fastforce
  moreover have "cn_capability_id c \<in> (cn_capability_id \<circ> snd) ` set (capability_nodes flows)"
  proof -
    have "(f, c) \<in> set (capability_nodes flows)" using assms(1,2) by simp
    then show ?thesis by (force simp del: mem_capability_nodes)
  qed
  ultimately have "(cn_capability_id c, d'') \<in> set (available_capabilities flows detectors)"
    by (simp add: available_capabilities_def del: mem_capability_nodes)
  then have "cn_capability_id c \<in> fst ` set (available_capabilities flows detectors)" by force
  from update_lookup [OF this, of detector_descriptor "default_descriptors flows"]
  obtain d' where "map_of idx (cn_capability_id c) = Some (detector_descriptor (cn_capability_id c) d')"
    by (auto simp: idx_def)
  moreover have "\<forall>(k, t) \<in> set idx. cd_capability_id t = k"
    using configured_descriptors_index [of flows detectors, folded idx_def] by (simp add: case_prod_beta)
  then have "map (\<lambda>t. (cd_capability_id t, t)) (map snd idx) = idx" by (induction idx) auto
  ultimately have "map_of (rg_capabilities rg) (cn_capability_id c) = Some (detector_descriptor (cn_capability_id c) d')"
    using registry_parts(3) [OF rg] by (simp add: configured_descriptors_def idx_def [symmetric])
  moreover have "validate_binding rg f (Capability_node c) = Inr ()" by (rule registry_binding [OF rg assms(1,2)])
  ultimately show False using assms(3)
    by (simp add: validate_binding_def resolve_capability_def detector_descriptor_def standard_node_def split: if_splits)
qed

subsection \<open>Selecting the Flows of an accepted policy\<close>

lemma not_missing: "(\<forall>key. Missing_flow key \<notin> set vs) \<Longrightarrow> \<not> list_ex is_missing vs"
proof (unfold list_ex_iff, rule notI, elim bexE)
  fix v assume "\<forall>key. Missing_flow key \<notin> set vs" "v \<in> set vs" "is_missing v"
  then show False by (cases v) auto
qed

lemma collect_nodes:
  assumes "\<forall>key. Missing_flow key \<notin> set vs" and "\<forall>(f, c) \<in> set (met vs). starts_with (cn_capability_id c) ''detector.''"
  shows "fold_res (collect_detector_node pid) vs acc = Inr (acc @ met vs)"
  using assms by (induction vs arbitrary: acc rule: met.induct) auto

lemma selected_capabilities_spec:
  assumes "selected_capabilities flows references = Inr selected"
  shows "selected = concat (map (\<lambda>key. map (cn_capability_id \<circ> snd) (met (traverse flows [key]))) (somes references))
    \<and> set (somes references) \<subseteq> flow_key ` set flows"
proof -
  let ?step = "\<lambda>reference selected.
       case reference of
         None \<Rightarrow> Inr selected
       | Some key \<Rightarrow>
           (case find_flow flows key of
              None \<Rightarrow> Inl (Config_code ''tenant_policy_flow_not_found'')
            | Some flow \<Rightarrow> Inr (selected @ collect_capabilities flows flow))"
  have "sel = acc @ concat (map (\<lambda>key. map (cn_capability_id \<circ> snd) (met (traverse flows [key]))) (somes refs))
      \<and> set (somes refs) \<subseteq> flow_key ` set flows"
    if "fold_res ?step refs acc = Inr sel" for refs acc sel
    using that
  proof (induction refs arbitrary: acc rule: somes.induct)
    case (3 key rs)
    then obtain f where f: "find_flow flows key = Some f" by (cases "find_flow flows key") auto
    with "3.prems" have "fold_res ?step rs (acc @ collect_capabilities flows f) = Inr sel" by simp
    from "3.IH" [OF this] find_flow_Some [OF f] show ?case by (force simp: collect_capabilities_def)
  qed auto
  from this [of references "[]"] assms show ?thesis by (simp add: selected_capabilities_def)
qed

text \<open>What the validators have checked of one policy.\<close>

lemma validated_policy:
  assumes "validate_tenant_policies config = Inr ()" and "tyc_enabled (gc_tenancy config)"
    and "policy \<in> set (tyc_policies (gc_tenancy config))"
  shows "validate_tenant_policy (gc_flows config) (map pvc_name (gc_providers config)) policy = Inr ()"
  using assms by (auto simp: validate_tenant_policies_def fold_res_all)

lemma validated_capabilities:
  assumes "validate_tenant_policy flows providers policy = Inr ()"
  shows "set (somes [tpc_input_flow policy, tpc_output_flow policy]) \<subseteq> flow_key ` set flows
    \<and> set (map cb_capability_id (tpc_capabilities policy))
        = (\<Union>key \<in> set (somes [tpc_input_flow policy, tpc_output_flow policy]).
            cn_capability_id ` snd ` set (met (traverse flows [key])))"
proof -
  obtain selected where sel: "selected_capabilities flows [tpc_input_flow policy, tpc_output_flow policy] = Inr selected"
    and same: "set selected = set (map cb_capability_id (tpc_capabilities policy))"
    using assms by (auto simp: validate_tenant_policy_def res_simps Let_def split: if_splits)
  from selected_capabilities_spec [OF sel] same show ?thesis by (auto simp: image_image)
qed

lemma binding_prefix:
  assumes "check_tenant_policy policy = Inr ()" and "b \<in> set (tpc_capabilities policy)"
  shows "cb_capability_id b = ''detector.'' @ cb_detector_name b"
proof -
  obtain us where "map_res check_binding (tpc_capabilities policy) = Inr us"
    using assms(1) by (auto simp: check_tenant_policy_def res_simps)
  then have "\<exists>u. check_binding b = Inr u"
    using assms(2) unfolding map_res_Inr by (auto simp: list_all2_conv_all_nth in_set_conv_nth)
  then show ?thesis by (auto simp: check_binding_def res_simps)
qed

lemma tenant_escalation_cases:
  assumes "validate_tenant_escalation policy = Inr ()"
  shows "(\<exists>r. tenant_escalation policy = Inr r)
    \<or> tenant_escalation policy = Inl (Compile_error ''tenant_flag_escalation_invalid'' (tpc_id policy) [])"
  using assms
  by (auto simp: tenant_escalation_def validate_tenant_escalation_def Let_def split: option.splits if_splits sum.splits)

lemma selection_total:
  assumes config: "check_gateway_config config = Inr resolved"
    and valid: "validate_tenant_policy (gc_flows config) providers policy = Inr ()"
    and policy: "check_tenant_policy policy = Inr ()"
  obtains part policies nodes where
    "select_policy config (dict_of resolved) policy = bind_res (tenant_escalation policy) (\<lambda>rule. Inr
      \<lparr>sel_flows = part, sel_policies = policies, sel_nodes = nodes,
       sel_capabilities = map (cn_capability_id \<circ> snd \<circ> snd) (directed_nodes nodes),
       sel_engine = configured_engine On_block rule part (tpc_input_flow policy) (tpc_output_flow policy) policies
             (gc_flow_runtime config)\<rparr>)"
    "set part \<subseteq> set (gc_flows config)" "closed_flows part" "distinct (map flow_key part)"
    "set (somes [tpc_input_flow policy, tpc_output_flow policy]) \<subseteq> flow_key ` set part"
    "\<forall>(f, n) \<in> set (flow_nodes part). dict_of policies (node_key f n) \<noteq> None"
    "set (map (cn_capability_id \<circ> snd \<circ> snd) (directed_nodes nodes)) = set (map cb_capability_id (tpc_capabilities policy))"
proof -
  let ?flows = "gc_flows config" and ?roots = "somes [tpc_input_flow policy, tpc_output_flow policy]"
  obtain ds rg where "fold_res declare_flow ?flows [] = Inr ds"
    and rg: "flow_contract_registry (map snd ds) ?flows
       (frc_max_depth (gc_flow_runtime config)) (frc_max_nodes (gc_flow_runtime config)) = Inr rg"
    and "check_reference rg (plc_input_flow (gc_pipeline config)) = Inr ()"
    and "check_reference rg (plc_output_flow (gc_pipeline config)) = Inr ()"
    and resolved: "map_res (resolve_configured config) (flow_nodes ?flows) = Inr resolved"
    by (rule validated_flows [OF check_gateway_validated [OF config]])
  note closed = registry_closed [OF rg]
  note caps = validated_capabilities [OF valid]
  then have roots: "set ?roots \<subseteq> flow_key ` set ?flows" by blast
  note walk = traverse_closed [OF closed roots]
  define part where "part = entered (traverse ?flows ?roots)"
  have selected: "selected_flows (tpc_id policy) ?flows ?roots = Inr part"
    using walk not_missing by (simp add: selected_flows_def Let_def part_def)
  have covered: "dict_of resolved (node_key f n) \<noteq> None" if "(f, n) \<in> set (flow_nodes part)" for f n
    using resolved_keys [OF resolved] that walk by (auto simp: part_def)
  have "\<exists>policies. selected_policies (tpc_id policy) (dict_of resolved) part = Inr policies"
    unfolding selected_policies_def
  proof (rule map_res_total)
    fix fn assume "fn \<in> set (flow_nodes part)"
    with covered [of "fst fn" "snd fn"] show "\<exists>y. (case fn of (f, n) \<Rightarrow> case dict_of resolved (node_key f n) of
         None \<Rightarrow> Inl (Compile_error ''tenant_node_policy_not_found'' (tpc_id policy) [])
       | Some p \<Rightarrow> Inr (node_key f n, p)) = Inr y" by (cases fn) (auto simp del: split_paired_Ex)
  qed
  then obtain policies where policies: "selected_policies (tpc_id policy) (dict_of resolved) part = Inr policies" by blast
  have "map fst policies = map (\<lambda>(f, n). node_key f n) (flow_nodes part)"
    using policies unfolding selected_policies_def map_res_Inr
    by (induction rule: list_all2_induct) (auto split: option.splits)
  then have has_policy: "dict_of policies (node_key f n) \<noteq> None" if "(f, n) \<in> set (flow_nodes part)" for f n
    using dict_of_keys [OF _ that, of policies "\<lambda>(f, n). node_key f n"] by simp
  have nodes: "detector_nodes (tpc_id policy) ?flows start = Inr (case start of None \<Rightarrow> [] | Some key \<Rightarrow> met (traverse ?flows [key]))"
    if "set_option start \<subseteq> set ?roots" for start
  proof (cases start)
    case (Some key)
    then have key: "key \<in> set ?roots" using that by simp
    then have "set [key] \<subseteq> flow_key ` set ?flows" using roots by auto
    then have "\<forall>k. Missing_flow k \<notin> set (traverse ?flows [key])" using traverse_closed [OF closed] by blast
    moreover have "\<forall>(f, c) \<in> set (met (traverse ?flows [key])). starts_with (cn_capability_id c) ''detector.''"
    proof clarify
      fix f c assume "(f, c) \<in> set (met (traverse ?flows [key]))"
      then have "cn_capability_id c \<in> set (map cb_capability_id (tpc_capabilities policy))"
        using caps key by force
      then show "starts_with (cn_capability_id c) ''detector.''" using binding_prefix [OF policy] by auto
    qed
    ultimately show ?thesis using collect_nodes by (simp add: detector_nodes_def Some)
  qed (simp add: detector_nodes_def)
  have in_roots: "set_option (tpc_input_flow policy) \<subseteq> set ?roots" "set_option (tpc_output_flow policy) \<subseteq> set ?roots"
    by (cases "tpc_input_flow policy"; cases "tpc_output_flow policy"; simp)+
  note nodes2 = nodes [OF in_roots(1)] nodes [OF in_roots(2)]
  define dn where "dn = (\<lambda>d. case d of Input \<Rightarrow> (case tpc_input_flow policy of None \<Rightarrow> [] | Some key \<Rightarrow> met (traverse ?flows [key]))
      | Output \<Rightarrow> (case tpc_output_flow policy of None \<Rightarrow> [] | Some key \<Rightarrow> met (traverse ?flows [key])))"
  have used: "set (map (cn_capability_id \<circ> snd \<circ> snd) (directed_nodes dn)) = set (map cb_capability_id (tpc_capabilities policy))"
    unfolding caps [THEN conjunct2]
    by (cases "tpc_input_flow policy"; cases "tpc_output_flow policy"; force simp: directed_nodes_def dn_def image_image)
  have "select_policy config (dict_of resolved) policy = bind_res (tenant_escalation policy) (\<lambda>rule. Inr
      \<lparr>sel_flows = part, sel_policies = policies, sel_nodes = dn,
       sel_capabilities = map (cn_capability_id \<circ> snd \<circ> snd) (directed_nodes dn),
       sel_engine = configured_engine On_block rule part (tpc_input_flow policy) (tpc_output_flow policy) policies
             (gc_flow_runtime config)\<rparr>)"
    using selected policies nodes2 used by (simp add: select_policy_def flow_identity_def Let_def dn_def [symmetric])
  moreover have "\<forall>(f, n) \<in> set (flow_nodes part). dict_of policies (node_key f n) \<noteq> None" using has_policy by blast
  ultimately show thesis using walk used by (intro that) (auto simp: part_def)
qed

subsection \<open>API keys and providers of an accepted configuration\<close>

lemma checked_keys:
  assumes "fold_res (check_api_key ts) keys (sk, sn, bt) = Inr acc"
  shows "(\<forall>k \<in> set keys. ak_key k \<noteq> [] \<and> py_strip (ak_key k) = ak_key k \<and> (\<exists>t \<in> set ts. ak_tenant_id k = Some t))
    \<and> distinct (map ak_key keys) \<and> ak_key ` set keys \<inter> set sk = {}"
  using assms
proof (induction keys arbitrary: sk sn bt)
  case (Cons k ks)
  obtain acc1 where step: "check_api_key ts k (sk, sn, bt) = Inr acc1" and rest: "fold_res (check_api_key ts) ks acc1 = Inr acc"
    using Cons.prems by (auto simp: res_simps)
  then obtain t where t: "ak_tenant_id k = Some t" by (cases "ak_tenant_id k") (auto simp: check_api_key_def Let_def split: if_splits)
  with step have k: "t \<in> set ts" "ak_key k \<noteq> []" "py_strip (ak_key k) = ak_key k" "ak_key k \<notin> set sk"
      "acc1 = (ak_key k # sk, py_strip (ak_name k) # sn, t # bt)"
    by (auto simp: check_api_key_def Let_def split: if_splits)
  from Cons.IH [OF rest [unfolded k(5)]] t k show ?case by auto
qed simp

lemma validated_tenancy:
  assumes "validate_tenancy config = Inr ()" and "tyc_enabled (gc_tenancy config)"
  shows "gc_auth_enabled config
    \<and> distinct (map tn_id (tyc_tenants (gc_tenancy config))) \<and> distinct (map tpc_id (tyc_policies (gc_tenancy config)))
    \<and> (\<forall>t \<in> set (tyc_tenants (gc_tenancy config)). \<exists>p \<in> set (tyc_policies (gc_tenancy config)). tn_policy_id t = Some (tpc_id p))
    \<and> (\<exists>acc. fold_res (check_api_key (map tn_id (tyc_tenants (gc_tenancy config)))) (gc_api_keys config) ([], [], []) = Inr acc)"
  using assms by (auto simp: validate_tenancy_def Let_def list_ex_iff res_simps split: if_splits)

text \<open>The two checks of a routing profile agree.\<close>

lemma routing_checks_agree:
  assumes "fold_res (check_policy_rule instances) rules (bp, al) = Inr (bp', al')" and "set al2 = set al"
  shows "\<exists>al2'. fold_res (check_tenant_rule instances) rules (bp, al2) = Inr (bp', al2') \<and> set al2' = set al'"
  using assms
proof (induction rules arbitrary: bp al al2)
  case (Cons r rs)
  obtain acc where acc: "check_policy_rule instances r (bp, al) = Inr acc"
      "fold_res (check_policy_rule instances) rs acc = Inr (bp', al')"
    using Cons.prems(1) by (auto simp: res_simps)
  have rule: "rl_provider r \<in> set instances" "map_of bp (rl_pattern r) \<in> {None, Some (rl_provider r)}"
    "acc = (AList.update (rl_pattern r) (rl_provider r) bp, rl_provider r # al)"
    using acc(1) by (auto simp: check_policy_rule_def split: if_splits)
  then have "check_tenant_rule instances r (bp, al2)
      = Inr (AList.update (rl_pattern r) (rl_provider r) bp, List.insert (rl_provider r) al2)"
    by (auto simp: check_tenant_rule_def)
  then show ?case using Cons.IH [OF acc(2) [unfolded rule(3)], of "List.insert (rl_provider r) al2"] Cons.prems(2) by simp
qed simp

lemma validated_router_view:
  assumes "validate_tenant_policy flows instances policy = Inr ()"
    and "length (tr_rules (tpc_routing policy)) \<le> max_tenant_policy_routes"
  shows "\<exists>view. tenant_router_view instances (tr_rules (tpc_routing policy)) (tr_models_provider (tpc_routing policy)) = Inr view"
proof -
  obtain bp al where fold: "fold_res (check_policy_rule instances) (tr_rules (tpc_routing policy)) ([], []) = Inr (bp, al)"
    and models: "tr_models_provider (tpc_routing policy) \<in> set instances" "tr_models_provider (tpc_routing policy) \<in> set al"
    using assms(1) by (auto simp: validate_tenant_policy_def Let_def res_simps split: if_splits)
  from routing_checks_agree [OF fold, of "[]"] models assms(2) show ?thesis
    by (auto simp: tenant_router_view_def)
qed

lemma valid_tenant_id_observed: "valid_tenant_id s \<Longrightarrow> valid_observation_id s"
proof -
  assume s: "valid_tenant_id s"
  then obtain c r where [simp]: "s = c # r" by (cases s) (auto simp: valid_tenant_id_def)
  show ?thesis
  proof (cases "r = []")
    case True
    with s show ?thesis by (simp add: valid_tenant_id_def tenant_id_pattern_def valid_observation_id_def)
  next
    case False
    then have "r = butlast r @ [last r]" by simp
    then have "list_all P r \<longleftrightarrow> list_all P (butlast r) \<and> P (last r)" for P
      by (metis list.pred_inject(1) list.pred_inject(2) list_all_append)
    with False s show ?thesis by (simp add: valid_tenant_id_def tenant_id_pattern_def valid_observation_id_def)
  qed
qed

lemma compile_policy_bundle:
  assumes "compile_policy config resolved factory plugins p heap = (Inr b, events, heap')"
  shows "tb_policy_id (cpd_bundle b) = tpc_id p \<and> is_executable_bundle ((cpd_bundle b)\<lparr>tb_router_view := Some view\<rparr>)"
proof -
  obtain sel cm co created where "b = policy_bundle p sel (map_of created) cm co"
    using assms by (auto simp: compile_policy_def start_policy_def finish_policy_def
        split: sum.splits prod.splits option.splits list.splits)
  then show ?thesis by (simp add: policy_bundle_def is_executable_bundle_def)
qed

lemma compile_policies_bundles:
  assumes "compile_policies config resolved factory plugins ps made heap = (Inr bundles, events, heap')"
  shows "\<exists>bs. bundles = made @ bs \<and> list_all2 (\<lambda>p b. tb_policy_id (cpd_bundle b) = tpc_id p
      \<and> (\<forall>view. is_executable_bundle ((cpd_bundle b)\<lparr>tb_router_view := Some view\<rparr>))) ps bs"
  using assms
proof (induction ps arbitrary: made heap events heap')
  case (Cons p ps)
  obtain r es h where p: "compile_policy config resolved (factory p) plugins p heap = (r, es, h)"
    by (metis prod_cases3)
  show ?case
  proof (cases r)
    case (Inl e)
    with Cons.prems p show ?thesis by simp
  next
    case (Inr b)
    obtain r' es' h' where ps: "compile_policies config resolved factory plugins ps (made @ [b]) h = (r', es', h')"
      by (metis prod_cases3)
    with Cons.prems p Inr have "r' = Inr bundles" by simp
    from Cons.IH [OF ps [unfolded this]] compile_policy_bundle [OF p [unfolded Inr]] show ?thesis by auto
  qed
qed simp

lemma bundle_index_other:
  "p \<notin> tb_policy_id ` set bs \<Longrightarrow> map_of (fold (\<lambda>b. AList.update (tb_policy_id b) b) bs al) p = map_of al p"
  by (induction bs arbitrary: al) (auto simp: update_conv')

lemma bundle_index:
  assumes "distinct (map tb_policy_id bs)" and "b \<in> set bs"
  shows "map_of (fold (\<lambda>b. AList.update (tb_policy_id b) b) bs al) (tb_policy_id b) = Some b"
  using assms by (induction bs arbitrary: al) (auto simp: bundle_index_other update_conv')

lemma bundle_index_mem:
  "e \<in> set (fold (\<lambda>b. AList.update (tb_policy_id b) b) bs al) \<Longrightarrow> e \<in> set al \<or> snd e \<in> set bs"
proof (induction bs arbitrary: al)
  case (Cons b bs)
  have "e \<in> set (AList.update k v al) \<Longrightarrow> e \<in> set al \<or> snd e = v" for k v
    by (induction al) (auto split: if_splits)
  with Cons.IH [of "AList.update (tb_policy_id b) b al"] Cons.prems show ?case by auto
qed simp

lemma extract_bearer: "k \<noteq> [] \<Longrightarrow> py_strip k = k \<Longrightarrow> extract_token (''Bearer '' @ k) = Some k"
proof -
  assume k: "k \<noteq> []" "py_strip k = k"
  have "map ascii_lower ''Bearer '' = bearer_prefix" "length bearer_prefix = 7" by code_simp+
  then have "map ascii_lower (''Bearer '' @ k) = bearer_prefix @ map ascii_lower k" by (simp only: map_append)
  then have "starts_with (map ascii_lower (''Bearer '' @ k)) bearer_prefix" by (simp only: starts_with_append)
  moreover have "drop (length bearer_prefix) (''Bearer '' @ k) = k" by (simp add: bearer_prefix_def)
  ultimately show ?thesis using k by (simp only: extract_token_def if_not_P not_not Let_def simp_thms if_False)
qed

lemma dict_of_unique: "distinct (map fst al) \<Longrightarrow> (k, v) \<in> set al \<Longrightarrow> dict_of al k = Some v"
  by (simp add: dict_of_def map_of_eq_Some_iff rev_map [symmetric])

lemma installed_tenants:
  fixes bs :: "compiled_policy list"
  assumes ids: "distinct (map tpc_id ps)"
    and views: "\<forall>p \<in> set ps. \<exists>view. tenant_router_view instances (tr_rules (tpc_routing p)) (tr_models_provider (tpc_routing p)) = Inr view"
    and compiled: "list_all2 (\<lambda>p b. tb_policy_id (cpd_bundle b) = tpc_id p
      \<and> (\<forall>view. is_executable_bundle ((cpd_bundle b)\<lparr>tb_router_view := Some view\<rparr>))) ps bs"
  shows "\<exists>r. install_tenants instances (map (\<lambda>p. (tpc_id p, tpc_routing p)) ps) (map cpd_bundle bs) r0 = Inr r
    \<and> pr_enabled r = pr_enabled r0 \<and> pr_tenant_policy_ids r = pr_tenant_policy_ids r0
    \<and> (\<forall>p \<in> set ps. \<exists>b. map_of (pr_bundles r) (tpc_id p) = Some b \<and> tb_policy_id b = tpc_id p \<and> is_executable_bundle b)"
proof -
  define policies where "policies = map (\<lambda>p. (tpc_id p, tpc_routing p)) ps"
  have routing: "dict_of policies (tpc_id p) = Some (tpc_routing p)" if "p \<in> set ps" for p
    using that ids unfolding policies_def by (intro dict_of_unique) (auto simp: comp_def)
  have view: "\<forall>p \<in> set ps. \<forall>b :: compiled_policy. tb_policy_id (cpd_bundle b) = tpc_id p \<longrightarrow>
      (\<exists>v. with_router_view instances policies (cpd_bundle b) = Inr ((cpd_bundle b)\<lparr>tb_router_view := Some v\<rparr>))"
  proof (intro ballI allI impI)
    fix p and b :: compiled_policy
    assume p: "p \<in> set ps" "tb_policy_id (cpd_bundle b) = tpc_id p"
    with views obtain v where "tenant_router_view instances (tr_rules (tpc_routing p)) (tr_models_provider (tpc_routing p)) = Inr v"
      by blast
    with p routing [OF p(1)]
    show "\<exists>v. with_router_view instances policies (cpd_bundle b) = Inr ((cpd_bundle b)\<lparr>tb_router_view := Some v\<rparr>)"
      by (intro exI [of _ v]) (simp add: with_router_view_def)
  qed
  have "\<exists>bundles. map_res (with_router_view instances policies) (map cpd_bundle bs) = Inr bundles
      \<and> map tb_policy_id bundles = map tpc_id ps \<and> list_all is_executable_bundle bundles"
    using compiled view
  proof (induction ps arbitrary: bs)
    case (Cons p ps)
    then obtain b bs' where bs: "bs = b # bs'" "tb_policy_id (cpd_bundle b) = tpc_id p"
      "\<forall>view. is_executable_bundle ((cpd_bundle b)\<lparr>tb_router_view := Some view\<rparr>)"
      by (auto simp: list_all2_Cons1)
    then obtain v where v: "with_router_view instances policies (cpd_bundle b) = Inr ((cpd_bundle b)\<lparr>tb_router_view := Some v\<rparr>)"
      using Cons.prems(2) by auto
    obtain bundles where "map_res (with_router_view instances policies) (map cpd_bundle bs') = Inr bundles"
      "map tb_policy_id bundles = map tpc_id ps" "list_all is_executable_bundle bundles"
      using Cons.IH [of bs'] Cons.prems bs(1) by auto
    with v bs show ?case by simp
  qed simp
  then obtain bundles where bundles: "map_res (with_router_view instances policies) (map cpd_bundle bs) = Inr bundles"
    "map tb_policy_id bundles = map tpc_id ps" "list_all is_executable_bundle bundles" by blast
  define installed where "installed = fold (\<lambda>b. AList.update (tb_policy_id b) b) bundles []"
  have "\<not> list_ex (\<lambda>(_, b). \<not> is_executable_bundle b) installed"
    using bundles(3) bundle_index_mem [of _ bundles "[]"]
    by (fastforce simp: installed_def list_ex_iff list_all_iff)
  then have install: "install_bundles bundles r0 = Inr (r0\<lparr>pr_bundles := installed, pr_require_executable := True\<rparr>)"
    by (simp add: install_bundles_def installed_def [symmetric])
  have "\<exists>b. map_of installed (tpc_id p) = Some b \<and> tb_policy_id b = tpc_id p \<and> is_executable_bundle b" if "p \<in> set ps" for p
  proof -
    have "tpc_id p \<in> set (map tb_policy_id bundles)" using that by (simp add: bundles(2))
    then obtain b where "b \<in> set bundles" "tb_policy_id b = tpc_id p" by auto
    with bundle_index [of bundles b "[]"] ids bundles(2,3) show ?thesis by (auto simp: installed_def list_all_iff)
  qed
  then show ?thesis using bundles(1) install by (simp add: install_tenants_def policies_def)
qed

subsection \<open>Accepted configurations\<close>

definition accepted :: "pystr list \<Rightarrow> (json \<Rightarrow> bool option) \<Rightarrow> gateway_config \<Rightarrow> (policy_key \<times> node_policy) list \<Rightarrow> bool" where
  "accepted plugin_names is_file config resolved \<longleftrightarrow>
     check_gateway_config config = Inr resolved \<and> (\<exists>ws. validate_config plugin_names is_file config = Inr ws)"

lemma accepted_parts:
  assumes "accepted plugin_names is_file config resolved"
  shows "check_gateway_config config = Inr resolved" "validate_tenancy config = Inr ()"
    "validate_tenant_policies config = Inr ()" "validate_flag_escalation config = Inr ()"
  using assms by (auto simp: accepted_def validate_config_def res_simps)

lemma checked_each: "map_res f xs = Inr ys \<Longrightarrow> x \<in> set xs \<Longrightarrow> \<exists>y. f x = Inr y"
  unfolding map_res_Inr by (auto simp: list_all2_conv_all_nth in_set_conv_nth)

lemma accepted_checks:
  assumes "check_gateway_config config = Inr resolved"
  shows "p \<in> set (tyc_policies (gc_tenancy config)) \<Longrightarrow> check_tenant_policy p = Inr ()"
    and "t \<in> set (tyc_tenants (gc_tenancy config)) \<Longrightarrow> check_tenant t = Inr ()"
  using assms checked_each by (fastforce simp: check_gateway_config_def res_simps)+

subsection \<open>Start-up keeps or releases everything it initialized\<close>

lemma register_node_registered:
  assumes "register_node policy resolved detector_of dfn cm = Inr cm'" and "registered (cm_coordinator cm)"
  shows "registered (cm_coordinator cm')"
proof -
  have keeps: "capability_config b n p cm = Inr (settings, cm1) \<Longrightarrow> cm_coordinator cm1 = cm_coordinator cm" for b n p settings cm1
    by (auto simp: capability_config_def Let_def split: option.splits if_splits)
  show ?thesis
    using assms keeps
    by (auto simp: register_node_def Let_def res_simps split: prod.splits option.splits if_splits sum.splits
        intro: registered_more)
qed

lemma register_nodes_registered:
  "register_nodes policy resolved detector_of dfns cm = Inr cm' \<Longrightarrow> registered (cm_coordinator cm) \<Longrightarrow> registered (cm_coordinator cm')"
  by (induction dfns arbitrary: cm) (auto simp: res_simps dest: register_node_registered)

text \<open>The detectors that are still initialized after a policy, or after none.\<close>

definition running :: "compiled_policy list \<Rightarrow> detector multiset" where
  "running bs = sum_list (map (\<lambda>b. mset (co_initialized (cpd_coordinator b))) bs)"

lemma running_simps [simp]: "running [] = {#}" "running (b # bs) = mset (co_initialized (cpd_coordinator b)) + running bs"
  "running (bs @ bs') = running bs + running bs'"
  by (simp_all add: running_def)

lemma shutdowns_concat: "shutdowns (concat ess) = concat (map shutdowns ess)"
  by (induction ess) auto

lemma shutdown_bundles_running: "mset (shutdowns (shutdown_bundles bs)) = running bs"
  unfolding shutdown_bundles_def shutdowns_concat
  by (induction bs) (auto simp: shutdown_all_eq)

lemma inits_shutdowns [simp]: "inits (map Shutdown ds) = []"
  by (induction ds) auto

lemma inits_shutdown_bundles [simp]: "inits (shutdown_bundles bs) = []"
proof -
  have "inits (concat ess) = concat (map inits ess)" for ess by (induction ess) auto
  then show ?thesis by (simp add: shutdown_bundles_def shutdown_all_eq comp_def)
qed

lemma start_policy_balance:
  assumes "start_policy plugins policy sel created cm = (r, es)" and "registered (cm_coordinator cm)"
  shows "mset (inits es) = mset (shutdowns es) + (case r of Inl _ \<Rightarrow> {#} | Inr b \<Rightarrow> running [b])"
proof (cases "initialize_all plugins (cm_coordinator cm)")
  case (Inl e)
  then show ?thesis using assms(1) by (auto simp: start_policy_def)
next
  case (Inr out)
  obtain co events raised where out: "out = (co, events, raised)" by (metis prod_cases3)
  have balance: "mset (inits events) = mset (shutdowns events) + mset (co_initialized co)"
    using initialize_groups_trace [OF Inr [unfolded initialize_all_def out]] registered_inv [OF assms(2)] by simp
  show ?thesis
  proof (cases "finish_policy policy sel (map_of created) cm co raised")
    case (Inl e)
    then have "r = Inl e" "es = events @ map Shutdown (rev (co_initialized co))"
      using assms(1) Inr out by (auto simp: start_policy_def shutdown_all_eq)
    then show ?thesis using balance by simp
  next
    case b: (Inr b)
    then have "cpd_coordinator b = co"
      by (auto simp: finish_policy_def policy_bundle_def split: option.splits list.splits)
    moreover have "r = Inr b" "es = events" using assms(1) Inr out b by (auto simp: start_policy_def)
    ultimately show ?thesis using balance by simp
  qed
qed

lemma create_detectors_events:
  "create_detectors factory policy cids created = (r, es) \<Longrightarrow> inits es = [] \<and> (\<forall>made. r = Inr made \<longrightarrow> es = [])"
  by (induction cids arbitrary: created) (auto simp: Let_def split: option.splits if_splits)

lemma compile_policy_balance:
  assumes "compile_policy config resolved factory plugins policy heap = (r, es, heap')"
  shows "case r of Inl _ \<Rightarrow> mset (inits es) \<subseteq># mset (shutdowns es)
    | Inr b \<Rightarrow> mset (inits es) = mset (shutdowns es) + running [b]"
proof (cases "select_policy config resolved policy")
  case (Inl e)
  then show ?thesis using assms by (auto simp: compile_policy_def)
next
  case sel: (Inr sel)
  obtain rc ec where c: "create_detectors factory policy (sorted_set (sel_capabilities sel)) [] = (rc, ec)" by force
  note created = create_detectors_events [OF c]
  show ?thesis
  proof (cases rc)
    case (Inl e)
    then show ?thesis using assms sel c created by (auto simp: compile_policy_def)
  next
    case (Inr made)
    show ?thesis
    proof (cases "register_nodes policy (dict_of (sel_policies sel)) (map_of made)
                       (directed_nodes (sel_nodes sel)) (new_compilation (fst heap) (snd heap))")
      case (Inl e)
      then show ?thesis using assms sel c created Inr by (auto simp: compile_policy_def)
    next
      case cm: (Inr cm)
      have reg: "registered (cm_coordinator cm)"
        using register_nodes_registered [OF cm] registered_new by (simp add: new_compilation_def)
      obtain rs es' where s: "start_policy plugins policy sel made cm = (rs, es')" by force
      have "r = rs" "es = es'" using assms sel c created Inr cm s by (auto simp: compile_policy_def)
      with start_policy_balance [OF s reg] show ?thesis by (auto split: sum.splits)
    qed
  qed
qed

lemma compile_policies_balance:
  assumes "compile_policies config resolved factory plugins ps made heap = (r, es, heap')"
  shows "case r of Inl _ \<Rightarrow> mset (inits es) + running made \<subseteq># mset (shutdowns es)
    | Inr bs \<Rightarrow> mset (inits es) + running made = mset (shutdowns es) + running bs"
  using assms
proof (induction ps arbitrary: made heap es)
  case Nil
  then show ?case by auto
next
  case (Cons p ps)
  obtain rp ep hp where p: "compile_policy config resolved (factory p) plugins p heap = (rp, ep, hp)" by (metis prod_cases3)
  note balance = compile_policy_balance [OF p]
  show ?case
  proof (cases rp)
    case (Inl e)
    then have "r = Inl e" "es = ep @ shutdown_bundles made" using Cons.prems p by auto
    with balance Inl show ?thesis by (simp add: shutdown_bundles_running)
  next
    case (Inr b)
    obtain rr er hr where rest: "compile_policies config resolved factory plugins ps (made @ [b]) hp = (rr, er, hr)"
      by (metis prod_cases3)
    with Cons.prems p Inr have es: "es = ep @ er"
      and rest: "compile_policies config resolved factory plugins ps (made @ [b]) hp = (r, er, heap')" by auto
    note IH = Cons.IH [OF rest]
    have "mset (inits es) + running made + mset (shutdowns er) = mset (shutdowns es) + (mset (inits er) + running (made @ [b]))"
      using balance Inr by (simp add: es)
    with IH show ?thesis
      by (cases r) (auto simp: subset_mset.le_iff_add union_assoc, metis)
  qed
qed

subsection \<open>Circuit breakers and schemas\<close>

definition fresh_addresses :: "compilation \<Rightarrow> bool" where
  "fresh_addresses cm \<longleftrightarrow>
     (\<forall>k s a. map_of (cm_configs cm) k = Some s \<and> cfg_circuit_breaker (cs_config s) = Some a \<longrightarrow> a < cm_next cm)"

definition guarded :: "tenant_policy_config \<Rightarrow> pystr \<Rightarrow> capability_binding \<Rightarrow> bool" where
  "guarded policy cid b \<longleftrightarrow>
     binding_of policy cid = Some b \<and> (\<exists>c. cb_circuit_breaker b = Some c \<and> cbc_enabled c)"

lemma capability_config_Inr:
  assumes "capability_config b n p cm = Inr (settings, cm')"
  shows "cm_configs cm' = cm_configs cm \<and> cm_next cm \<le> cm_next cm'
    \<and> (\<forall>a. cfg_circuit_breaker (cs_config settings) = Some a \<longrightarrow> a = cm_next cm \<and> cm_next cm' = Suc (cm_next cm))
    \<and> ((\<exists>c. cb_circuit_breaker b = Some c \<and> cbc_enabled c) \<longrightarrow> cfg_circuit_breaker (cs_config settings) = Some (cm_next cm))"
  using assms by (auto simp: capability_config_def Let_def split: option.splits if_splits)

lemma register_node_cases:
  assumes "register_node policy resolved detector_of (d, f, n) cm = Inr cm'" and "binding_of policy (cn_capability_id n) = Some b"
  obtains (known) settings cm1 p where "capability_config b n p cm = Inr (settings, cm1)"
      "map_of (cm_configs cm) (d, cb_detector_name b) = Some settings" "cm' = cm1"
  | (new) settings cm1 p where "capability_config b n p cm = Inr (settings, cm1)"
      "map_of (cm_configs cm) (d, cb_detector_name b) = None"
      "cm_configs cm' = cm_configs cm @ [((d, cb_detector_name b), settings)]" "cm_next cm' = cm_next cm1"
proof -
  obtain p dt where pd: "resolved (fd_flow_id f, fd_version f, cn_node_id n) = Some p" "detector_of (cn_capability_id n) = Some dt"
    using assms by (auto simp: register_node_def split: option.splits)
  then obtain settings cm1 where c: "capability_config b n p cm = Inr (settings, cm1)"
    using assms by (auto simp: register_node_def Let_def res_simps)
  note same = capability_config_Inr [OF c]
  show thesis
  proof (cases "map_of (cm_configs cm) (d, cb_detector_name b)")
    case None
    obtain co where "cm' = cm1\<lparr>cm_configs := cm_configs cm1 @ [((d, cb_detector_name b), settings)],
        cm_policies := cm_policies cm1 @ [((d, cb_detector_name b), p)], cm_coordinator := co\<rparr>"
    proof -
      define rd where "rd = register_detector d dt (if cb_type b = [] then ''builtin'' else cb_type b)
          (ap_required (np_availability p)) (fallback_str (ap_on_unavailable (np_availability p)))
          (tp_seconds (np_timeout p)) (cm_coordinator cm1)"
      have "(case rd of Inl e \<Rightarrow> Inl (Registry_error e)
          | Inr co \<Rightarrow> Inr (cm1\<lparr>cm_configs := cm_configs cm1 @ [((d, cb_detector_name b), settings)],
              cm_policies := cm_policies cm1 @ [((d, cb_detector_name b), p)], cm_coordinator := co\<rparr>)) = Inr cm'"
        using assms pd c same None by (simp add: register_node_def Let_def rd_def)
      then show thesis by (cases rd) (auto intro: that)
    qed
    then show thesis using same by (intro new [OF c None]) simp_all
  next
    case (Some existing)
    have "(if existing \<noteq> settings
        then Inl (Compile_error ''tenant_capability_lifecycle_conflict'' (tpc_id policy) (cb_detector_name b))
        else Inr cm1) = Inr cm'"
      using assms pd c same Some by (simp add: register_node_def)
    then have "existing = settings" "cm' = cm1" by (simp_all split: if_splits)
    with Some show thesis by (intro known [OF c]) simp_all
  qed
qed

lemma register_node_fresh:
  assumes "register_node policy resolved detector_of dfn cm = Inr cm'" and "fresh_addresses cm"
  shows "fresh_addresses cm' \<and> (\<forall>k s. map_of (cm_configs cm) k = Some s \<longrightarrow> map_of (cm_configs cm') k = Some s)"
proof -
  obtain d f n where dfn: "dfn = (d, f, n)" by (metis prod_cases3)
  obtain b where b: "binding_of policy (cn_capability_id n) = Some b"
    using assms(1) by (auto simp: register_node_def dfn split: option.splits)
  show ?thesis
  proof (rule register_node_cases [OF assms(1) [unfolded dfn] b])
    fix settings cm1 p
    assume c: "capability_config b n p cm = Inr (settings, cm1)" "cm' = cm1"
    then have "cm_configs cm' = cm_configs cm" "cm_next cm \<le> cm_next cm'" using capability_config_Inr [OF c(1)] by simp_all
    with assms(2) show ?thesis unfolding fresh_addresses_def by (metis less_le_trans)
  next
    fix settings cm1 p
    assume c: "capability_config b n p cm = Inr (settings, cm1)" "map_of (cm_configs cm) (d, cb_detector_name b) = None"
      "cm_configs cm' = cm_configs cm @ [((d, cb_detector_name b), settings)]" "cm_next cm' = cm_next cm1"
    note next_address = capability_config_Inr [OF c(1)]
    have "map_of (cm_configs cm') k = (if k = (d, cb_detector_name b) then Some settings else map_of (cm_configs cm) k)" for k
      using c(2) by (auto simp: c(3) map_add_def split: option.split)
    moreover have "a < cm_next cm'" if "cfg_circuit_breaker (cs_config settings) = Some a" for a
      using next_address that c(4) by auto
    moreover have "a < cm_next cm'" if "map_of (cm_configs cm) k = Some s" "cfg_circuit_breaker (cs_config s) = Some a" for k s a
    proof -
      have "a < cm_next cm" using that assms(2) unfolding fresh_addresses_def by blast
      then show ?thesis using next_address c(4) by simp
    qed
    ultimately show ?thesis using c(2) by (auto simp: fresh_addresses_def split: if_splits)
  qed
qed

lemma register_nodes_fresh:
  assumes "register_nodes policy resolved detector_of dfns cm = Inr cm'" and "fresh_addresses cm"
  shows "fresh_addresses cm' \<and> (\<forall>k s. map_of (cm_configs cm) k = Some s \<longrightarrow> map_of (cm_configs cm') k = Some s)"
  using assms by (induction dfns arbitrary: cm) (auto simp: res_simps dest: register_node_fresh)

lemma register_nodes_append:
  "register_nodes policy resolved detector_of (xs @ ys) cm
     = bind_res (register_nodes policy resolved detector_of xs cm) (register_nodes policy resolved detector_of ys)"
proof (induction xs arbitrary: cm)
  case (Cons x xs)
  then show ?case by (cases "register_node policy resolved detector_of x cm") simp_all
qed simp

end
