(* ===== verification/Startup_Samples.thy ===== *)
theory Startup_Samples
  imports Startup_Laws
begin

text \<open>A small configuration with one tenant, for the instances of the properties of start-up.\<close>

definition screen_node :: node where
  "screen_node = Capability_node \<lparr>cn_node_id = ''pii'', cn_capability_id = ''detector.pii_redaction'',
     cn_input_schema = ''safety.text.v1'', cn_output_schema = ''safety.detector-result.v1'', cn_priority = 10\<rparr>"

definition screen_flow :: flow_definition where
  "screen_flow =
     \<lparr>fd_contract_version = ''1.0'', fd_flow_id = ''screen'', fd_version = ''1.0.0'',
      fd_input_schema = ''safety.text.v1'', fd_output_schema = ''safety.detector-result.v1'', fd_nodes = [screen_node],
      fd_reducer_capability_id = Some ''detector-result-reducer''\<rparr>"

definition screen_breaker :: circuit_breaker_config where
  "screen_breaker = \<lparr>cbc_enabled = True, cbc_failure_threshold = 5, cbc_recovery_timeout = ''30s'', cbc_fallback_action = ''fail_open''\<rparr>"

definition screen_binding :: capability_binding where
  "screen_binding = \<lparr>cb_capability_id = ''detector.pii_redaction'', cb_detector_name = ''pii_redaction'', cb_type = [],
     cb_config = [(''block_threshold'', JNum (9/10)), (''flag_threshold'', JNum (1/2))], cb_circuit_breaker = Some screen_breaker\<rparr>"

definition screen_policy :: tenant_policy_config where
  "screen_policy = \<lparr>tpc_id = ''strict'', tpc_input_flow = Some (''screen'', ''1.0.0''), tpc_output_flow = None,
     tpc_capabilities = [screen_binding],
     tpc_flag_escalation = Some \<lparr>fec_enabled = True, fec_rule = ''count >= 3'', fec_action = ''block''\<rparr>,
     tpc_routing = sample_routing\<rparr>"

definition screen_config :: gateway_config where
  "screen_config =
     \<lparr>gc_providers = [\<lparr>pvc_name = ''openai'', pvc_type = ''openai'', pvc_api_key = ''secret'', pvc_api_version = []\<rparr>],
      gc_routing_rules = [],
      gc_pipeline = \<lparr>plc_short_circuit_on = ''block'', plc_sync_timeout = ''5s'', plc_flag_escalation = None,
        plc_input_flow = None, plc_output_flow = None, plc_input_detectors = [], plc_output_detectors = [],
        plc_fields_set = []\<rparr>,
      gc_tenancy = \<lparr>tyc_enabled = True, tyc_tenants = sample_tenants, tyc_policies = [screen_policy]\<rparr>,
      gc_tenant_resources = Inl default_budget, gc_auth_enabled = True,
      gc_api_keys = [\<lparr>ak_key = ''key-1'', ak_name = ''acme-prod'', ak_tenant_id = Some ''acme''\<rparr>],
      gc_detector_timeout = ''5s'', gc_metric_tenant_ids = [],
      gc_flow_runtime = \<lparr>frc_max_depth = 8, frc_max_nodes = 256, frc_max_concurrency = 64, frc_default_timeout = 30,
        frc_absolute_timeout = 120, frc_max_evidence_size = 262144\<rparr>,
      gc_capabilities = [], gc_flows = [screen_flow],
      gc_node_policies = (\<lambda>_. Some \<lparr>npc_timeout = None, npc_failure = None, npc_availability = None,
        npc_degradation = None, npc_stop = None\<rparr>)\<rparr>"

lemmas screen_defs = screen_config_def screen_policy_def screen_binding_def screen_breaker_def screen_flow_def screen_node_def
  sample_tenants_def sample_routing_def

definition screen_node_policy :: node_policy where
  "screen_node_policy =
     \<lparr>np_timeout = \<lparr>tp_seconds = 30, tp_action = Fail_open\<rparr>, np_failure = Fail_open,
      np_availability = default_availability, np_degradation = default_degradation, np_stop = [''safety.block''],
      np_sources = \<lparr>ps_timeout = DEFAULT, ps_failure = DEFAULT, ps_availability = DEFAULT, ps_degradation = DEFAULT,
        ps_stop = DEFAULT\<rparr>\<rparr>"

definition screen_resolved :: "(policy_key \<times> node_policy) list" where
  "screen_resolved = [((''screen'', ''1.0.0'', ''pii''), screen_node_policy)]"

lemma screen_ids: "valid_tenant_id ''acme''" "valid_tenant_id ''strict''" "valid_contract_id ''detector.pii_redaction''"
   "valid_contract_id ''pii_redaction''" "valid_semver ''1.0.0''"
  by code_simp+

lemma screen_rule:
  "parse_flag_escalation_rule ''count >= 3'' = Inr ()" "py_strip ''count >= 3'' = ''count >= 3''"
  "parse ''count >= 3'' = Inr \<lparr>rule_first = Compare Count Ge (VInt 3), rule_rest = []\<rparr>"
  "parse_duration ''30s'' = Some (Finite 30)"
  by code_simp+

lemma screen_fields:
  "check_pipeline (gc_pipeline screen_config) = Inr ()"
  "map_res check_tenant (tyc_tenants (gc_tenancy screen_config)) = Inr [()]"
  "map_res check_tenant_policy (tyc_policies (gc_tenancy screen_config)) = Inr [()]"
  "check_tenant_resources default_budget = Inr ()"
  "check_flow_runtime (gc_flow_runtime screen_config) = Inr ()"
  "map_res check_flow (gc_flows screen_config) = Inr [()]"
  by (simp_all add: screen_defs screen_ids check_pipeline_def one_of_def check_tenant_def check_tenant_policy_def
      check_binding_def check_circuit_breaker_def check_tenant_rule_config_def check_tenant_resources_def
      default_budget_def check_flow_runtime_def check_flow_def validate_flow_definition_def
      supported_contract_versions_def guard_res_def)

lemma screen_flows: "validate_flow_configuration screen_config = Inr screen_resolved"
  by (simp add: screen_defs validate_flow_configuration_def declare_flow_def declared_descriptor_def Let_def
      flow_contract_registry_def index_capabilities_def index_flows_def flow_key_def validate_bindings_def
      validate_binding_def validate_graphs_def walk_flow.simps resolve_capability_def check_reference_def
      flow_nodes_def node_key_def resolve_configured_def resolve_node_policy_def or_default_def configured_defaults_def
      policy_defaults_def default_availability_def default_degradation_def screen_resolved_def screen_node_policy_def
      resolved_source_def)

lemma screen_checked: "check_gateway_config screen_config = Inr screen_resolved"
proof -
  have "gc_tenant_resources screen_config = Inl default_budget" "gc_capabilities screen_config = []"
    by (simp_all add: screen_config_def)
  then show ?thesis by (simp add: check_gateway_config_def screen_fields screen_flows)
qed

lemma screen_visits:
  "traverse (gc_flows screen_config) [(''screen'', ''1.0.0'')] =
     [Entered screen_flow, Capability_met screen_flow \<lparr>cn_node_id = ''pii'', cn_capability_id = ''detector.pii_redaction'',
       cn_input_schema = ''safety.text.v1'', cn_output_schema = ''safety.detector-result.v1'', cn_priority = 10\<rparr>]"
  by (simp add: traverse_def screen_defs find_flow_def flow_key_def)

lemma screen_sections:
  "validate_tenancy screen_config = Inr ()" "validate_tenant_policies screen_config = Inr ()"
  "validate_flag_escalation screen_config = Inr ()" "validate_providers screen_config = Inr ()"
  "\<exists>ws. validate_routing screen_config = Inr ws" "\<exists>ws. validate_detectors [] (\<lambda>_. None) screen_config = Inr ws"
proof -
  show "validate_tenancy screen_config = Inr ()"
    by (simp add: screen_defs validate_tenancy_def check_api_key_def py_strip_def py_isspace_def)
  show "validate_tenant_policies screen_config = Inr ()"
    using screen_visits by (simp add: screen_defs validate_tenant_policies_def validate_tenant_policy_def
        selected_capabilities_def collect_capabilities_def find_flow_def flow_key_def check_policy_rule_def)
  show "validate_flag_escalation screen_config = Inr ()"
    by (simp add: screen_defs validate_flag_escalation_def validate_tenant_escalation_def screen_rule)
  show "validate_providers screen_config = Inr ()"
    by (simp add: screen_defs validate_providers_def validate_provider_def provider_types_requiring_api_version_def)
  show "\<exists>ws. validate_routing screen_config = Inr ws" by (simp add: screen_defs validate_routing_def)
  show "\<exists>ws. validate_detectors [] (\<lambda>_. None) screen_config = Inr ws"
    by (simp add: screen_defs validate_detectors_def all_detectors_def binding_detector_def validate_detector_def
        validate_required_policy_def validate_thresholds_def check_threshold_pair_def setting_def json_number_def
        validate_detector_name_def builtin_detector_names_def guard_res_def validate_grpc_detector_def
        validate_word_list_file_def)
qed

lemma screen_accepted: "accepted [] (\<lambda>_. None) screen_config screen_resolved"
  using screen_sections screen_checked by (auto simp: accepted_def validate_config_def)

text \<open>Its detector starts and is healthy.\<close>

definition screen_factory :: detector_factory where
  "screen_factory b = Some \<lparr>det_id = 1, det_name = cb_detector_name b, det_version = ''1'', det_category = ''pii''\<rparr>"

definition screen_detector :: detector where
  "screen_detector = \<lparr>det_id = 1, det_name = ''pii_redaction'', det_version = ''1'', det_category = ''pii''\<rparr>"

definition healthy_plugins :: "detector \<Rightarrow> plugin" where
  "healthy_plugins d = \<lparr>pl_initialize = Init_done, pl_health_check = Checked (Answered True)\<rparr>"

lemma screen_selected:
  "\<exists>engine. select_policy screen_config (dict_of screen_resolved) screen_policy = Inr
      \<lparr>sel_flows = [screen_flow], sel_policies = screen_resolved,
       sel_nodes = (\<lambda>d. case d of Input \<Rightarrow> [(screen_flow, \<lparr>cn_node_id = ''pii'', cn_capability_id = ''detector.pii_redaction'',
         cn_input_schema = ''safety.text.v1'', cn_output_schema = ''safety.detector-result.v1'', cn_priority = 10\<rparr>)] | Output \<Rightarrow> []),
       sel_capabilities = [''detector.pii_redaction''], sel_engine = engine\<rparr>"
proof -
  have "tpc_input_flow screen_policy = Some (''screen'', ''1.0.0'')" "tpc_output_flow screen_policy = None"
    "map cb_capability_id (tpc_capabilities screen_policy) = [''detector.pii_redaction'']"
    "tenant_escalation screen_policy = Inr (Some \<lparr>rule_first = Compare Count Ge (VInt 3), rule_rest = []\<rparr>)"
    "selected_policies pid (dict_of screen_resolved) [screen_flow] = Inr screen_resolved" for pid
    by (simp_all add: screen_defs tenant_escalation_def screen_rule selected_policies_def flow_nodes_def node_key_def
        screen_resolved_def dict_of_def)
  then show ?thesis
    by (simp add: select_policy_def flow_identity_def Let_def selected_flows_def screen_visits detector_nodes_def
        directed_nodes_def)
qed

lemma screen_compiled:
  "\<exists>bundles heap. compile_policies screen_config (dict_of screen_resolved) (\<lambda>_. screen_factory) healthy_plugins
      (tyc_policies (gc_tenancy screen_config)) [] (0, \<lambda>_. circuit_breaker 1 1 [])
    = (Inr bundles, [Initialize screen_detector, Health_check screen_detector], heap)"
proof -
  have policies: "tyc_policies (gc_tenancy screen_config) = [screen_policy]" by (simp add: screen_config_def)
  have ids: "valid_contract_id ''detector.pii_redaction''" "capability_id ''pii_redaction'' = Inr ''detector.pii_redaction''"
    "validate_non_empty_bounded ''1'' = Inr ''1''" "validate_non_empty_bounded ''pii_redaction'' = Inr ''pii_redaction''"
    "validate_non_empty_bounded ''pii'' = Inr ''pii''" by code_simp+
  have adapter: "\<exists>a. detector_adapter screen_detector = Inr a"
    by (simp add: detector_adapter_def screen_detector_def ids guard_res_def)
  obtain engine where sel: "select_policy screen_config (dict_of screen_resolved) screen_policy = Inr
      \<lparr>sel_flows = [screen_flow], sel_policies = screen_resolved,
       sel_nodes = (\<lambda>d. case d of Input \<Rightarrow> [(screen_flow, \<lparr>cn_node_id = ''pii'', cn_capability_id = ''detector.pii_redaction'',
         cn_input_schema = ''safety.text.v1'', cn_output_schema = ''safety.detector-result.v1'', cn_priority = 10\<rparr>)] | Output \<Rightarrow> []),
       sel_capabilities = [''detector.pii_redaction''], sel_engine = engine\<rparr>" using screen_selected by blast
  have binding: "binding_of screen_policy ''detector.pii_redaction'' = Some screen_binding"
    by (simp add: binding_of_def screen_policy_def screen_binding_def dict_of_def)
  have created: "create_detectors screen_factory screen_policy (sorted_set [''detector.pii_redaction'']) []
      = (Inr [(''detector.pii_redaction'', screen_detector)], [])"
    by (simp add: sorted_set_def binding screen_factory_def screen_detector_def screen_binding_def)
  let ?nodes = "\<lambda>d. case d of Input \<Rightarrow> [(screen_flow, \<lparr>cn_node_id = ''pii'', cn_capability_id = ''detector.pii_redaction'',
         cn_input_schema = ''safety.text.v1'', cn_output_schema = ''safety.detector-result.v1'', cn_priority = 10\<rparr>)] | Output \<Rightarrow> []"
  obtain co where co: "register_detector Input screen_detector ''builtin'' False ''fail_open'' 30 new_coordinator = Inr co"
    "co_registrations co = [\<lparr>rn_direction = Input, rn_name = ''pii_redaction'', rn_detector = screen_detector, rn_timeout_seconds = 30\<rparr>]"
    "co_initialized_ids co = []" "co_initialized co = []"
    "co_registry co = [((Input, ''pii_redaction''),
        \<lparr>ds_direction = Input, ds_name = ''pii_redaction'', ds_detector_type = ''builtin'', ds_required = False,
         ds_on_error = ''fail_open'', ds_timeout_seconds = 30, ds_state = CONFIGURED, ds_reason_code = None, ds_detector = None\<rparr>)]"
    by (simp add: register_detector_def register_status_def new_coordinator_def screen_detector_def)
  have policy: "dict_of screen_resolved (''screen'', ''1.0.0'', ''pii'') = Some screen_node_policy"
    "ap_required (np_availability screen_node_policy) = False"
    "fallback_str (ap_on_unavailable (np_availability screen_node_policy)) = ''fail_open''"
    "tp_seconds (np_timeout screen_node_policy) = 30"
    by (simp_all add: screen_resolved_def dict_of_def screen_node_policy_def default_availability_def)
  have breaker: "cb_circuit_breaker screen_binding = Some screen_breaker" "cbc_enabled screen_breaker"
    "build_circuit_breaker screen_breaker = Some (circuit_breaker 5 30 ''fail_open'')" "cb_detector_name screen_binding = ''pii_redaction''"
    "cb_type screen_binding = []"
    by (simp_all add: screen_binding_def screen_breaker_def build_circuit_breaker_def screen_rule)
  obtain cm where cm: "register_nodes screen_policy (dict_of screen_resolved) (map_of [(''detector.pii_redaction'', screen_detector)])
      (directed_nodes ?nodes) (new_compilation 0 (\<lambda>_. circuit_breaker 1 1 [])) = Inr cm" "cm_coordinator cm = co"
    by (simp add: directed_nodes_def register_node_def binding policy capability_config_def breaker new_compilation_def co
        screen_flow_def Let_def)
  have started: "\<exists>b. start_policy healthy_plugins screen_policy sel [(''detector.pii_redaction'', screen_detector)] cm
      = (Inr b, [Initialize screen_detector, Health_check screen_detector])" for sel
    using adapter by (auto simp: start_policy_def cm(2) initialize_all_def co initialize_group_def healthy_plugins_def
        transition_all_def transition_status_def moved_status_def finish_policy_def status_issues_def
        snapshot_statuses_def has_issue_def loaded_def Let_def)
  obtain b where b: "start_policy healthy_plugins screen_policy
      \<lparr>sel_flows = [screen_flow], sel_policies = screen_resolved, sel_nodes = ?nodes,
       sel_capabilities = [''detector.pii_redaction''], sel_engine = engine\<rparr>
      [(''detector.pii_redaction'', screen_detector)] cm
      = (Inr b, [Initialize screen_detector, Health_check screen_detector])" using started by blast
  have "compile_policy screen_config (dict_of screen_resolved) screen_factory healthy_plugins screen_policy (0, \<lambda>_. circuit_breaker 1 1 [])
      = (Inr b, [Initialize screen_detector, Health_check screen_detector], (cm_next cm, cm_store cm))"
    unfolding compile_policy_def sel sum.case using created cm(1) b by simp
  then show ?thesis by (simp add: policies)
qed

end
