(* ===== verification/Config_Loading.thy ===== *)
theory Config_Loading
  imports Config_Validation
begin

text \<open>
  \<open>config/loader.py\<close>, and the validators of \<open>config/models.py\<close> that run on the document before pydantic
  reads it: environment variables, limits, conflicting sources, and the two older forms of a detector.

  The file system, \<open>yaml.safe_load\<close> and the construction of a typed configuration from a document are
  arguments. The keys of a mapping are texts. pydantic runs the validators of a model that see the
  document in the reverse of their order in the class; it reports all errors and the model the first.
\<close>

subsection \<open>Environment variables\<close>

text \<open>\<open>\$\{([^}]+)\}\<close>, after the dollar sign: the name, and what follows the closing brace.\<close>

definition env_var_at :: "pystr \<Rightarrow> (pystr \<times> pystr) option" where
  "env_var_at s =
     (case s of
        [] \<Rightarrow> None
      | c # r \<Rightarrow>
          let name = takeWhile (\<lambda>c. c \<noteq> CHR ''}'') r; rest = dropWhile (\<lambda>c. c \<noteq> CHR ''}'') r in
          if c = CHR ''{'' \<and> name \<noteq> [] \<and> rest \<noteq> [] then Some (name, tl rest) else None)"

lemma env_var_at_shorter: "env_var_at s = Some (name, rest) \<Longrightarrow> length rest < length s"
  by (auto simp: env_var_at_def Let_def length_dropWhile_le le_imp_less_Suc less_imp_diff_less split: list.splits if_splits
      intro: le_less_trans [OF diff_le_self])

function interpolate_text :: "(pystr \<rightharpoonup> pystr) \<Rightarrow> pystr \<Rightarrow> pystr" where
  "interpolate_text env [] = []"
| "interpolate_text env (c # s) =
     (case (if c = CHR ''$'' then env_var_at s else None) of
        None \<Rightarrow> c # interpolate_text env s
      | Some (name, rest) \<Rightarrow> (case env name of None \<Rightarrow> [] | Some v \<Rightarrow> v) @ interpolate_text env rest)"
  by pat_completeness auto
termination
  by (relation "measure (\<lambda>(env, s). length s)") (auto dest: env_var_at_shorter split: if_splits)

fun interpolate_env_vars :: "(pystr \<rightharpoonup> pystr) \<Rightarrow> json \<Rightarrow> json" where
  "interpolate_env_vars env (JObj fs) = JObj (map (\<lambda>(k, v). (k, interpolate_env_vars env v)) fs)"
| "interpolate_env_vars env (JArr xs) = JArr (map (interpolate_env_vars env) xs)"
| "interpolate_env_vars env (JStr s) = JStr (interpolate_text env s)"
| "interpolate_env_vars env j = j"

subsection \<open>Limits and conflicting sources\<close>

text \<open>\<open>value.get(key) if isinstance(value, dict) else None\<close>, and \<open>key in value\<close> for a dict.\<close>

definition object_get :: "pystr \<Rightarrow> json \<Rightarrow> json" where
  "object_get k j = (case json_field k j of None \<Rightarrow> JNull | Some v \<Rightarrow> v)"

definition has_key :: "pystr \<Rightarrow> json \<Rightarrow> bool" where
  "has_key k j \<longleftrightarrow> json_field k j \<noteq> None"

definition array_items :: "json \<Rightarrow> json list" where
  "array_items j = (case j of JArr xs \<Rightarrow> xs | _ \<Rightarrow> [])"

definition at_most :: "nat \<Rightarrow> json \<Rightarrow> pystr \<Rightarrow> config_error + unit" where
  "at_most limit j code = guard_res (length (array_items j) \<le> limit) (Config_code code)"

definition check_policy_limits :: "json \<Rightarrow> config_error + unit" where
  "check_policy_limits policy =
     bind_res (at_most max_tenant_policy_capabilities (object_get ''capabilities'' policy)
       ''tenant_policy_capability_limit_exceeded'') (\<lambda>_.
     at_most max_tenant_policy_routes (object_get ''rules'' (object_get ''routing'' policy))
       ''tenant_policy_route_limit_exceeded'')"

definition reject_tenancy_limit_overflow :: "json \<Rightarrow> config_error + unit" where
  "reject_tenancy_limit_overflow data =
     (let tenancy = object_get ''tenancy'' data in
      if object_get ''enabled'' tenancy \<noteq> JBool True then Inr ()
      else
        bind_res (at_most max_tenants (object_get ''tenants'' tenancy) ''tenant_limit_exceeded'') (\<lambda>_.
        bind_res (at_most max_tenant_policies (object_get ''policies'' tenancy) ''tenant_policy_limit_exceeded'') (\<lambda>_.
        bind_res (fold_res (\<lambda>p _. check_policy_limits p) (array_items (object_get ''policies'' tenancy)) ()) (\<lambda>_.
        at_most max_tenant_api_keys (object_get ''api_keys'' (object_get ''auth'' (object_get ''security'' data)))
          ''tenant_api_key_limit_exceeded''))))"

definition reject_conflicting_tenant_policy_sources :: "json \<Rightarrow> config_error + unit" where
  "reject_conflicting_tenant_policy_sources data =
     (if \<not> truthy (object_get ''policies'' (object_get ''tenancy'' data)) then Inr ()
      else guard_res
        (\<not> (has_key ''rules'' (object_get ''routing'' data)
             \<or> list_ex (\<lambda>k. has_key k (object_get ''pipeline'' data)) [''detectors'', ''input_flow'', ''output_flow'']
             \<or> has_key ''capabilities'' data))
        (Config_code ''conflicting_tenant_policy_sources''))"

definition reject_conflicting_flow_sources :: "json \<Rightarrow> config_error + unit" where
  "reject_conflicting_flow_sources data =
     (let explicit_detectors = has_key ''detectors'' (object_get ''pipeline'' data) in
      if truthy (object_get ''policies'' (object_get ''tenancy'' data)) \<and> explicit_detectors
      then Inl (Config_code ''conflicting_tenant_policy_sources'')
      else guard_res (\<not> (has_key ''flows'' data \<and> explicit_detectors)) (Config_code ''conflicting_flow_sources''))"

definition check_document :: "json \<Rightarrow> config_error + unit" where
  "check_document data =
     bind_res (reject_conflicting_flow_sources data) (\<lambda>_.
     bind_res (reject_conflicting_tenant_policy_sources data) (\<lambda>_.
     reject_tenancy_limit_overflow data))"

subsection \<open>The older forms of a detector\<close>

text \<open>
  \<open>dict(value)\<close>: pairs are accepted in place of a mapping. A key that is no text is rejected later, by
  the type of the field; what cannot be a key, or is not iterable, raises a \<open>TypeError\<close>, which is no
  validation error.
\<close>

definition dict_pair :: "json \<Rightarrow> config_error + (pystr \<times> json)" where
  "dict_pair j =
     (case j of
        JArr [JStr k, v] \<Rightarrow> Inr (k, v)
      | JArr [JArr _, v] \<Rightarrow> Inl Raised_type_error
      | JArr [JObj _, v] \<Rightarrow> Inl Raised_type_error
      | JStr [a, b] \<Rightarrow> Inr ([a], JStr [b])
      | JObj [(k, _), (l, _)] \<Rightarrow> Inr (k, JStr l)
      | JArr _ \<Rightarrow> Inl (Invalid_field ''config'')
      | JStr _ \<Rightarrow> Inl (Invalid_field ''config'')
      | JObj _ \<Rightarrow> Inl (Invalid_field ''config'')
      | _ \<Rightarrow> Inl Raised_type_error)"

definition dict_copy :: "json \<Rightarrow> config_error + settings" where
  "dict_copy j =
     (case j of
        JObj fs \<Rightarrow> Inr fs
      | JArr xs \<Rightarrow> bind_res (map_res dict_pair xs) (\<lambda>ps. Inr (fold (\<lambda>(k, v). AList.update k v) ps []))
      | JStr s \<Rightarrow> if s = [] then Inr [] else Inl (Invalid_field ''config'')
      | _ \<Rightarrow> Inl Raised_type_error)"

definition move_threshold :: "pystr \<Rightarrow> settings \<times> settings \<Rightarrow> settings \<times> settings" where
  "move_threshold key acc =
     (let (fs, config) = acc in
      case map_of fs key of
        None \<Rightarrow> (fs, config)
      | Some v \<Rightarrow> (AList.delete key fs, AList.update key v config))"

definition normalize_detector_dict :: "json \<Rightarrow> config_error + json" where
  "normalize_detector_dict d =
     (case d of
        JObj fs \<Rightarrow>
          bind_res (dict_copy (case map_of fs ''config'' of None \<Rightarrow> JObj [] | Some c \<Rightarrow> c)) (\<lambda>config.
            let (fs, config) = fold move_threshold [''block_threshold'', ''flag_threshold''] (fs, config)
            in Inr (JObj (AList.update ''config'' (JObj config) fs)))
      | _ \<Rightarrow> Inr d)"

definition normalize_group :: "pystr \<Rightarrow> settings \<Rightarrow> config_error + settings" where
  "normalize_group key detectors =
     (case map_of detectors key of
        Some (JArr ds) \<Rightarrow> bind_res (map_res normalize_detector_dict ds) (\<lambda>ds. Inr (AList.update key (JArr ds) detectors))
      | _ \<Rightarrow> Inr detectors)"

text \<open>The document of a pipeline, and whether the old form was warned about.\<close>

definition convert_legacy_detectors :: "json \<Rightarrow> config_error + (json \<times> bool)" where
  "convert_legacy_detectors data =
     (case json_field ''detectors'' data of
        Some (JArr ds) \<Rightarrow>
          bind_res (map_res normalize_detector_dict ds) (\<lambda>converted.
            Inr (json_set ''detectors'' (JObj [(''input'', JArr converted), (''output'', JArr [])]) data, True))
      | Some (JObj gs) \<Rightarrow>
          bind_res (fold_res normalize_group [''input'', ''output''] gs) (\<lambda>gs.
            Inr (json_set ''detectors'' (JObj gs) data, False))
      | _ \<Rightarrow> Inr (data, False))"

subsection \<open>Loading\<close>

datatype load_error =
    Config_not_found pystr
  | Yaml_syntax_error
  | Not_a_mapping
  | Invalid_config config_error

definition parse_yaml :: "(pystr \<Rightarrow> json option) \<Rightarrow> pystr \<Rightarrow> load_error + json" where
  "parse_yaml yaml content =
     (case yaml content of
        None \<Rightarrow> Inl Yaml_syntax_error
      | Some data \<Rightarrow>
          if data = JNull then Inr (JObj []) else if is_object data then Inr data else Inl Not_a_mapping)"

record loaded =
  ld_config :: gateway_config
  ld_policies :: "(policy_key \<times> node_policy) list"
  ld_warnings :: "config_warning list"
  ld_deprecated :: bool

definition build_config ::
  "(json \<Rightarrow> config_error + gateway_config) \<Rightarrow> pystr list \<Rightarrow> (json \<Rightarrow> bool option) \<Rightarrow> json \<Rightarrow> config_error + loaded" where
  "build_config typed plugin_names is_file data =
     bind_res (check_document data) (\<lambda>_.
     bind_res (convert_legacy_detectors (object_get ''pipeline'' data)) (\<lambda>(pipeline, deprecated).
     bind_res (typed (if has_key ''pipeline'' data then json_set ''pipeline'' pipeline data else data)) (\<lambda>config.
     bind_res (check_gateway_config config) (\<lambda>resolved.
     bind_res (validate_config plugin_names is_file config) (\<lambda>warnings.
       Inr \<lparr>ld_config = config, ld_policies = resolved, ld_warnings = warnings, ld_deprecated = deprecated\<rparr>)))))"

definition load_config ::
  "(pystr \<rightharpoonup> pystr) \<Rightarrow> (pystr \<rightharpoonup> pystr) \<Rightarrow> (pystr \<Rightarrow> json option) \<Rightarrow> (json \<Rightarrow> config_error + gateway_config)
     \<Rightarrow> pystr list \<Rightarrow> (json \<Rightarrow> bool option) \<Rightarrow> pystr \<Rightarrow> load_error + loaded" where
  "load_config env read_file yaml typed plugin_names is_file path =
     (case read_file path of
        None \<Rightarrow> Inl (Config_not_found path)
      | Some content \<Rightarrow>
          bind_res (parse_yaml yaml content) (\<lambda>raw.
            case build_config typed plugin_names is_file (interpolate_env_vars env raw) of
              Inl e \<Rightarrow> Inl (Invalid_config e) | Inr l \<Rightarrow> Inr l))"

subsection \<open>Environment variables reach texts only\<close>

lemma interpolate_text_plain [simp]: "CHR ''$'' \<notin> set s \<Longrightarrow> interpolate_text env s = s"
  by (induction s) auto

lemma interpolate_text_append: "CHR ''$'' \<notin> set s \<Longrightarrow> interpolate_text env (s @ t) = s @ interpolate_text env t"
  by (induction s) auto

lemma interpolate_text_variable:
  assumes "CHR ''}'' \<notin> set name" and "name \<noteq> []"
  shows "interpolate_text env (''${'' @ name @ ''}'' @ rest)
    = (case env name of None \<Rightarrow> [] | Some v \<Rightarrow> v) @ interpolate_text env rest"
proof -
  have "takeWhile (\<lambda>c. c \<noteq> CHR ''}'') (name @ ''}'' @ rest) = name"
    "dropWhile (\<lambda>c. c \<noteq> CHR ''}'') (name @ ''}'' @ rest) = ''}'' @ rest"
    using assms(1) by (auto simp: takeWhile_append dropWhile_append)
  then show ?thesis using assms(2) by (simp add: env_var_at_def)
qed

lemma field_interpolated:
  "json_field k (interpolate_env_vars env j) = map_option (interpolate_env_vars env) (json_field k j)"
  by (cases j) (auto simp: json_field_def map_of_map [of "interpolate_env_vars env", unfolded comp_def])

lemma get_interpolated: "object_get k (interpolate_env_vars env j) = interpolate_env_vars env (object_get k j)"
  by (auto simp: object_get_def field_interpolated split: option.splits)

lemma has_key_interpolated: "has_key k (interpolate_env_vars env j) = has_key k j"
  by (simp add: has_key_def field_interpolated)

lemma items_interpolated: "array_items (interpolate_env_vars env j) = map (interpolate_env_vars env) (array_items j)"
  by (cases j) (auto simp: array_items_def)

lemma true_interpolated: "interpolate_env_vars env j = JBool b \<longleftrightarrow> j = JBool b"
  by (cases j) auto

lemma truthy_interpolated: "\<nexists>s. j = JStr s \<Longrightarrow> truthy (interpolate_env_vars env j) = truthy j"
  by (cases j) auto

lemmas interpolated = get_interpolated has_key_interpolated items_interpolated true_interpolated

lemma limits_interpolated: "check_policy_limits (interpolate_env_vars env p) = check_policy_limits p"
  by (simp add: check_policy_limits_def at_most_def interpolated)

lemma fold_res_map: "fold_res f (map g xs) s = fold_res (\<lambda>x. f (g x)) xs s"
proof (induction xs arbitrary: s)
  case (Cons x xs)
  then show ?case by (cases "f (g x) s") auto
qed simp

text \<open>The environment cannot change which sources a document names or how much it declares: the limits and
  the conflicts found before the document is read are the same for every environment, unless the
  policies themselves are written as one text.\<close>

lemma document_checks_env:
  assumes "\<nexists>s. object_get ''policies'' (object_get ''tenancy'' data) = JStr s"
  shows "check_document (interpolate_env_vars env data) = check_document data"
  using assms truthy_interpolated [of "object_get ''policies'' (object_get ''tenancy'' data)" env]
  by (simp add: check_document_def reject_conflicting_flow_sources_def reject_conflicting_tenant_policy_sources_def
      reject_tenancy_limit_overflow_def at_most_def interpolated fold_res_map limits_interpolated Let_def)

subsection \<open>The older forms mean the same\<close>

lemma json_set_set: "json_set k v (json_set k w j) = json_set k v j"
proof -
  have "AList.update k v (AList.update k w fs) = AList.update k v fs" for fs by (induction fs) auto
  then show ?thesis by (cases j) (auto simp: json_set_def)
qed

lemma field_object: "json_field k j = Some v \<Longrightarrow> is_object j"
  by (cases j) (auto simp: json_field_def is_object_def)

text \<open>The deprecated list of detectors is the input group: converting it gives the same document as the
  same list given as the detectors of the input, and differs only in the warning.\<close>

theorem legacy_list_is_input:
  assumes "json_field ''detectors'' data = Some (JArr ds)"
  shows "convert_legacy_detectors data
    = bind_res (convert_legacy_detectors (json_set ''detectors'' (JObj [(''input'', JArr ds), (''output'', JArr [])]) data))
        (\<lambda>(document, _). Inr (document, True))"
proof (cases "map_res normalize_detector_dict ds")
  case (Inl e)
  then show ?thesis using assms field_object [OF assms]
    by (simp add: convert_legacy_detectors_def normalize_group_def)
next
  case (Inr converted)
  then show ?thesis using assms field_object [OF assms]
    by (simp add: convert_legacy_detectors_def normalize_group_def json_set_set)
qed

lemma move_threshold_fields:
  "map_of (fst (move_threshold key acc)) k = (if k = key then None else map_of (fst acc) k)"
  "map_of (snd (move_threshold key acc)) k
     = (if k = key \<and> map_of (fst acc) key \<noteq> None then map_of (fst acc) key else map_of (snd acc) k)"
  by (auto simp: move_threshold_def case_prod_unfold Let_def delete_conv' update_conv' split: option.splits)

lemma update_same: "map_of fs k = Some v \<Longrightarrow> AList.update k v fs = fs"
  by (induction fs) auto

lemma normalized_object:
  assumes "normalize_detector_dict (JObj fs) = Inr d"
  obtains gs config config' where "d = JObj (AList.update ''config'' (JObj config') gs)"
    "dict_copy (case map_of fs ''config'' of None \<Rightarrow> JObj [] | Some c \<Rightarrow> c) = Inr config"
    "\<And>k. map_of gs k = (if k \<in> {''block_threshold'', ''flag_threshold''} then None else map_of fs k)"
    "\<And>k. map_of config' k = (if k \<in> {''block_threshold'', ''flag_threshold''} \<and> map_of fs k \<noteq> None
        then map_of fs k else map_of config k)"
proof -
  from assms obtain config where config: "dict_copy (case map_of fs ''config'' of None \<Rightarrow> JObj [] | Some c \<Rightarrow> c) = Inr config"
    and d: "d = (let (fs, config) = fold move_threshold [''block_threshold'', ''flag_threshold''] (fs, config)
            in JObj (AList.update ''config'' (JObj config) fs))"
    by (auto simp: normalize_detector_dict_def bind_res_Inr case_prod_unfold Let_def)
  let ?a = "move_threshold ''block_threshold'' (fs, config)"
  let ?b = "move_threshold ''flag_threshold'' (fst ?a, snd ?a)"
  show thesis
    by (rule that [of "snd ?b" "fst ?b", OF _ config]) (auto simp: d move_threshold_fields case_prod_unfold Let_def)
qed

lemma normalized_cases:
  assumes "normalize_detector_dict d = Inr d'"
  obtains fs where "d = JObj fs" "normalize_detector_dict (JObj fs) = Inr d'" | "d' = d" "\<not> is_object d"
  using assms by (cases d) (auto simp: normalize_detector_dict_def is_object_def)

lemma normalize_again: "normalize_detector_dict d = Inr d' \<Longrightarrow> normalize_detector_dict d' = Inr d'"
proof (erule normalized_cases)
  fix fs
  assume "normalize_detector_dict (JObj fs) = Inr d'"
  then obtain gs config config' where d: "d' = JObj (AList.update ''config'' (JObj config') gs)"
    and gs: "\<And>k. map_of gs k = (if k \<in> {''block_threshold'', ''flag_threshold''} then None else map_of fs k)"
    by (rule normalized_object) blast
  have same: "move_threshold k (AList.update ''config'' (JObj config') gs, config') = (AList.update ''config'' (JObj config') gs, config')"
    if "k \<in> {''block_threshold'', ''flag_threshold''}" for k
    using that by (auto simp: move_threshold_def gs update_conv')
  show ?thesis by (simp add: d normalize_detector_dict_def dict_copy_def update_conv' same update_same)
qed (auto simp: normalize_detector_dict_def is_object_def split: json.splits)

lemma normalized_settings:
  assumes "normalize_detector_dict d = Inr d'"
  shows threshold_moved: "key \<in> {''block_threshold'', ''flag_threshold''} \<and> json_field key d = Some v
      \<Longrightarrow> json_field key d' = None \<and> json_field key (object_get ''config'' d') = Some v"
    and setting_kept: "json_field ''config'' d = Some (JObj config) \<and> json_field key d = None
      \<Longrightarrow> json_field key (object_get ''config'' d') = map_of config key"
proof -
  show "json_field key d' = None \<and> json_field key (object_get ''config'' d') = Some v"
    if key: "key \<in> {''block_threshold'', ''flag_threshold''} \<and> json_field key d = Some v"
  proof -
    obtain fs where fs: "d = JObj fs" using key by (cases d) (auto simp: json_field_def)
    with assms have "normalize_detector_dict (JObj fs) = Inr d'" by simp
    then show ?thesis using key fs
      by (elim normalized_object) (auto simp: json_field_def object_get_def update_conv')
  qed
  show "json_field key (object_get ''config'' d') = map_of config key"
    if key: "json_field ''config'' d = Some (JObj config) \<and> json_field key d = None"
  proof -
    obtain fs where fs: "d = JObj fs" using key by (cases d) (auto simp: json_field_def)
    with assms have "normalize_detector_dict (JObj fs) = Inr d'" by simp
    then show ?thesis using key fs
      by (elim normalized_object) (auto simp: json_field_def object_get_def update_conv' dict_copy_def)
  qed
qed

text \<open>Detectors are normalized once: the normal form is not changed by normalizing it again, a threshold
  written beside the settings is found among them afterwards, in front of one written there, and no
  other setting changes.\<close>

theorem thresholds_move_into_settings:
  assumes "normalize_detector_dict d = Inr d'"
  shows "normalize_detector_dict d' = Inr d'
    \<and> (\<forall>key v. key \<in> {''block_threshold'', ''flag_threshold''} \<and> json_field key d = Some v \<longrightarrow>
         json_field key d' = None \<and> json_field key (object_get ''config'' d') = Some v)
    \<and> (\<forall>key config. json_field ''config'' d = Some (JObj config) \<and> json_field key d = None \<longrightarrow>
         json_field key (object_get ''config'' d') = map_of config key)"
  using normalize_again [OF assms] normalized_settings [OF assms] by blast

theorem thresholds_move_into_settings_witness:
  "\<exists>d. normalize_detector_dict (JObj [(''name'', JStr ''pii''), (''block_threshold'', JNum 1)]) = Inr d
     \<and> normalize_detector_dict d = Inr d \<and> json_field ''block_threshold'' (object_get ''config'' d) = Some (JNum 1)"
proof -
  have "normalize_detector_dict (JObj [(''name'', JStr ''pii''), (''block_threshold'', JNum 1)])
    = Inr (JObj [(''name'', JStr ''pii''), (''config'', JObj [(''block_threshold'', JNum 1)])])"
    by (simp add: normalize_detector_dict_def dict_copy_def move_threshold_def)
  with thresholds_move_into_settings [OF this] show ?thesis by (simp add: json_field_def object_get_def)
qed

text \<open>An empty \<open>config:\<close> is a null, which cannot be copied: what escapes is no validation error.\<close>

lemma null_config_raises:
  "normalize_detector_dict (JObj [(''name'', JStr n), (''config'', JNull)]) = Inl Raised_type_error"
  by (simp add: normalize_detector_dict_def dict_copy_def)

subsection \<open>What reading a document keeps\<close>

text \<open>
  What the code relies on in the construction of a typed configuration: lists keep their lengths, a flag
  that must be a boolean is one, and what a document does not name is empty.
\<close>

definition reads_policy :: "tenant_policy_config \<Rightarrow> json \<Rightarrow> bool" where
  "reads_policy p j \<longleftrightarrow>
     length (tpc_capabilities p) = length (array_items (object_get ''capabilities'' j))
     \<and> length (tr_rules (tpc_routing p)) = length (array_items (object_get ''rules'' (object_get ''routing'' j)))"

definition reads_tenancy :: "json \<Rightarrow> gateway_config \<Rightarrow> bool" where
  "reads_tenancy data config \<longleftrightarrow>
     (let tenancy = object_get ''tenancy'' data in
      (tyc_enabled (gc_tenancy config) \<longrightarrow> object_get ''enabled'' tenancy = JBool True)
      \<and> length (tyc_tenants (gc_tenancy config)) = length (array_items (object_get ''tenants'' tenancy))
      \<and> list_all2 reads_policy (tyc_policies (gc_tenancy config)) (array_items (object_get ''policies'' tenancy))
      \<and> length (gc_api_keys config)
          = length (array_items (object_get ''api_keys'' (object_get ''auth'' (object_get ''security'' data)))))"

definition reads_sources :: "json \<Rightarrow> gateway_config \<Rightarrow> bool" where
  "reads_sources data config \<longleftrightarrow>
     (let pipeline = object_get ''pipeline'' data in
      (has_key ''rules'' (object_get ''routing'' data) \<or> gc_routing_rules config = [])
      \<and> (has_key ''detectors'' pipeline \<or>
           plc_input_detectors (gc_pipeline config) = [] \<and> plc_output_detectors (gc_pipeline config) = [])
      \<and> (has_key ''input_flow'' pipeline \<or> plc_input_flow (gc_pipeline config) = None)
      \<and> (has_key ''output_flow'' pipeline \<or> plc_output_flow (gc_pipeline config) = None)
      \<and> (has_key ''capabilities'' data \<or> gc_capabilities config = []))"

definition reads_document :: "(json \<Rightarrow> config_error + gateway_config) \<Rightarrow> bool" where
  "reads_document typed \<longleftrightarrow>
     (\<forall>data config. typed data = Inr config \<longrightarrow> reads_tenancy data config \<and> reads_sources data config)"

definition within_limits :: "gateway_config \<Rightarrow> bool" where
  "within_limits config \<longleftrightarrow>
     length (tyc_tenants (gc_tenancy config)) \<le> max_tenants
     \<and> length (tyc_policies (gc_tenancy config)) \<le> max_tenant_policies
     \<and> length (gc_api_keys config) \<le> max_tenant_api_keys
     \<and> list_all (\<lambda>p. length (tpc_capabilities p) \<le> max_tenant_policy_capabilities
          \<and> length (tr_rules (tpc_routing p)) \<le> max_tenant_policy_routes) (tyc_policies (gc_tenancy config))"

definition no_global_sources :: "gateway_config \<Rightarrow> bool" where
  "no_global_sources config \<longleftrightarrow>
     gc_routing_rules config = [] \<and> gc_capabilities config = []
     \<and> plc_input_detectors (gc_pipeline config) = [] \<and> plc_output_detectors (gc_pipeline config) = []
     \<and> plc_input_flow (gc_pipeline config) = None \<and> plc_output_flow (gc_pipeline config) = None"

lemma field_of_set: "json_field k (json_set k' v j) = (if k = k' \<and> is_object j then Some v else json_field k j)"
  by (cases j) (auto simp: json_field_def json_set_def is_object_def update_conv')

lemma converted_keys:
  assumes "convert_legacy_detectors pipeline = Inr (converted, deprecated)"
  shows "has_key k converted = has_key k pipeline"
  using assms
  by (auto simp: convert_legacy_detectors_def has_key_def field_of_set bind_res_Inr split: option.splits json.splits if_splits)

lemma list_all2_set1: "list_all2 R xs ys \<Longrightarrow> x \<in> set xs \<Longrightarrow> \<exists>y \<in> set ys. R x y"
  by (induction rule: list_all2_induct) auto

lemma limits_hold:
  assumes "reject_tenancy_limit_overflow data = Inr ()" and "reads_tenancy data config"
    and "tyc_enabled (gc_tenancy config)"
  shows "within_limits config"
proof -
  let ?tenancy = "object_get ''tenancy'' data"
  have enabled: "object_get ''enabled'' ?tenancy = JBool True"
    and lengths: "length (tyc_tenants (gc_tenancy config)) = length (array_items (object_get ''tenants'' ?tenancy))"
      "length (gc_api_keys config)
          = length (array_items (object_get ''api_keys'' (object_get ''auth'' (object_get ''security'' data))))"
    and policies: "list_all2 reads_policy (tyc_policies (gc_tenancy config)) (array_items (object_get ''policies'' ?tenancy))"
    using assms(2,3) by (simp_all add: reads_tenancy_def Let_def)
  from enabled have limits: "length (array_items (object_get ''tenants'' ?tenancy)) \<le> max_tenants"
    "length (array_items (object_get ''policies'' ?tenancy)) \<le> max_tenant_policies"
    "\<forall>p \<in> set (array_items (object_get ''policies'' ?tenancy)). check_policy_limits p = Inr ()"
    "length (array_items (object_get ''api_keys'' (object_get ''auth'' (object_get ''security'' data)))) \<le> max_tenant_api_keys"
    using assms(1) by (simp_all add: reject_tenancy_limit_overflow_def at_most_def bind_res_Inr guard_res_Inr fold_res_all Let_def)
  have "length (tpc_capabilities p) \<le> max_tenant_policy_capabilities \<and> length (tr_rules (tpc_routing p)) \<le> max_tenant_policy_routes"
    if p: "p \<in> set (tyc_policies (gc_tenancy config))" for p
  proof -
    obtain j where j: "j \<in> set (array_items (object_get ''policies'' ?tenancy))" "reads_policy p j"
      using list_all2_set1 [OF policies] p by blast
    then have "check_policy_limits j = Inr ()" using limits(3) by blast
    with j(2) show ?thesis by (simp add: check_policy_limits_def at_most_def bind_res_Inr guard_res_Inr reads_policy_def)
  qed
  then show ?thesis using limits lengths list_all2_lengthD [OF policies] by (simp add: within_limits_def list_all_iff)
qed

lemma sources_exclude:
  assumes "reject_conflicting_tenant_policy_sources data = Inr ()" and "reads_tenancy data config" and "reads_sources data config"
    and "tyc_policies (gc_tenancy config) \<noteq> []"
  shows "no_global_sources config"
proof -
  let ?policies = "object_get ''policies'' (object_get ''tenancy'' data)"
  have "list_all2 reads_policy (tyc_policies (gc_tenancy config)) (array_items ?policies)"
    using assms(2) by (simp add: reads_tenancy_def Let_def)
  then have "array_items ?policies \<noteq> []" using assms(4) by auto
  then have "truthy ?policies" by (cases ?policies) (simp_all add: array_items_def)
  then show ?thesis using assms(1,3)
    by (simp add: reject_conflicting_tenant_policy_sources_def guard_res_Inr reads_sources_def Let_def no_global_sources_def)
qed

text \<open>The document pydantic reads passes the same checks as the one that was written.\<close>

lemma checked_as_read:
  assumes "check_document data = Inr ()"
    and "convert_legacy_detectors (object_get ''pipeline'' data) = Inr (pipeline, deprecated)"
  defines "data' \<equiv> if has_key ''pipeline'' data then json_set ''pipeline'' pipeline data else data"
  shows "reject_tenancy_limit_overflow data' = Inr ()" "reject_conflicting_tenant_policy_sources data' = Inr ()"
proof -
  have same: "object_get k data' = object_get k data" "has_key k data' = has_key k data" if "k \<noteq> ''pipeline''" for k
    using that by (simp_all add: data'_def object_get_def has_key_def field_of_set)
  have keys: "has_key k (object_get ''pipeline'' data') = has_key k (object_get ''pipeline'' data)" for k
    using converted_keys [OF assms(2)] by (auto simp: data'_def object_get_def has_key_def field_of_set split: option.splits
        dest: field_object)
  show "reject_tenancy_limit_overflow data' = Inr ()" "reject_conflicting_tenant_policy_sources data' = Inr ()"
    using assms(1) by (auto simp: check_document_def bind_res_Inr reject_tenancy_limit_overflow_def
        reject_conflicting_tenant_policy_sources_def same keys cong: if_cong)
qed

end
