(* ===== verification/Startup_Properties.thy ===== *)
theory Startup_Properties
  imports Startup_Samples Config_Loading
begin

text \<open>
  The properties of start-up: what an accepted configuration promises, what a failed start-up leaves
  behind, and two configurations that are accepted and do not work.
\<close>

text \<open>C15. An accepted configuration has engines that plan, when its nodes use the schemas of detectors: for every
  policy of an accepted configuration with tenancy whose capability nodes all have the schemas
  \<open>safety.text.v1\<close> and \<open>safety.detector-result.v1\<close>, selecting what the policy runs fails at most for its
  escalation rule, which the engine parses with another parser. Otherwise the Flows its stages reach are selected
  with a policy for every node and exactly the capabilities it binds, and the engine builds a plan for
  each stage the policy names, whichever detectors with a valid descriptor are up and however they are configured.\<close>

theorem accepted_policy_runs:
  assumes "accepted plugin_names is_file config resolved" and "tyc_enabled (gc_tenancy config)"
    and "policy \<in> set (tyc_policies (gc_tenancy config))"
    and "\<forall>(f, n) \<in> set (flow_nodes (gc_flows config)). standard_node n"
  shows "select_policy config (dict_of resolved) policy
        = Inl (Compile_error ''tenant_flag_escalation_invalid'' (tpc_id policy) [])
    \<or> (\<exists>sel. select_policy config (dict_of resolved) policy = Inr sel
        \<and> set (sel_capabilities sel) = cb_capability_id ` set (tpc_capabilities policy)
        \<and> (\<forall>d codec store detectors configs. flow_identity policy d \<noteq> None \<and> list_all describable detectors \<longrightarrow>
             (\<exists>plan. new_plan (sel_engine sel) codec store detectors configs d = Inr plan)))"
proof -
  note parts = accepted_parts [OF assms(1)]
  note valid = validated_policy [OF parts(3) assms(2,3)]
  note policy = accepted_checks(1) [OF parts(1) assms(3)]
  have "validate_tenant_escalation policy = Inr ()"
    using parts(4) assms(3) by (auto simp: validate_flag_escalation_def res_simps fold_res_all)
  note escalation = tenant_escalation_cases [OF this]
  obtain part policies nodes where
    sel: "select_policy config (dict_of resolved) policy = bind_res (tenant_escalation policy) (\<lambda>rule. Inr
      \<lparr>sel_flows = part, sel_policies = policies, sel_nodes = nodes,
       sel_capabilities = map (cn_capability_id \<circ> snd \<circ> snd) (directed_nodes nodes),
       sel_engine = configured_engine On_block rule part (tpc_input_flow policy) (tpc_output_flow policy) policies
             (gc_flow_runtime config)\<rparr>)"
    and part: "set part \<subseteq> set (gc_flows config)" "closed_flows part" "distinct (map flow_key part)"
    and roots: "set (somes [tpc_input_flow policy, tpc_output_flow policy]) \<subseteq> flow_key ` set part"
    and policies: "\<forall>(f, n) \<in> set (flow_nodes part). dict_of policies (node_key f n) \<noteq> None"
    and used: "set (map (cn_capability_id \<circ> snd \<circ> snd) (directed_nodes nodes)) = set (map cb_capability_id (tpc_capabilities policy))"
    by (rule selection_total [OF parts(1) valid policy])
  obtain ds rg where ds: "fold_res declare_flow (gc_flows config) [] = Inr ds"
    and rg: "flow_contract_registry (map snd ds) (gc_flows config)
       (frc_max_depth (gc_flow_runtime config)) (frc_max_nodes (gc_flow_runtime config)) = Inr rg"
    and "check_reference rg (plc_input_flow (gc_pipeline config)) = Inr ()"
    and "check_reference rg (plc_output_flow (gc_pipeline config)) = Inr ()"
    and "map_res (resolve_configured config) (flow_nodes (gc_flows config)) = Inr resolved"
    by (rule validated_flows [OF check_gateway_validated [OF parts(1)]])
  have plan: "\<exists>plan. new_plan e codec store detectors configs d = Inr plan"
    if e: "e = configured_engine On_block rule part (tpc_input_flow policy) (tpc_output_flow policy) policies (gc_flow_runtime config)"
      and d: "flow_identity policy d \<noteq> None" and names: "list_all describable detectors" for e rule d codec store detectors configs
  proof -
    obtain key where key: "flow_identity policy d = Some key" using d by (cases "flow_identity policy d") auto
    then have "stage_flow e d = Some key" "key \<in> set (somes [tpc_input_flow policy, tpc_output_flow policy])"
      by (cases d; cases "tpc_input_flow policy"; cases "tpc_output_flow policy";
          simp add: flow_identity_def stage_flow_def e configured_engine_def)+
    moreover have "\<forall>(f, n) \<in> set (flow_nodes part). standard_node n"
    proof clarify
      fix f n assume "(f, n) \<in> set (flow_nodes part)"
      then have "(f, n) \<in> set (flow_nodes (gc_flows config))" using part(1) by auto
      then show "standard_node n" using assms(4) by blast
    qed
    ultimately show ?thesis using roots names
      by (intro configured_plan [OF ds rg check_gateway_runtime [OF parts(1)] part policies _ _ _ e]) auto
  qed
  show ?thesis
  proof (cases "tenant_escalation policy")
    case (Inl er)
    then show ?thesis using escalation sel by simp
  next
    case (Inr rule)
    then show ?thesis using sel used plan by (simp add: image_image)
  qed
qed

theorem accepted_policy_runs_witness:
  "\<exists>sel. select_policy screen_config (dict_of screen_resolved) screen_policy = Inr sel
     \<and> (\<forall>codec. \<exists>plan. new_plan (sel_engine sel) codec (\<lambda>_. circuit_breaker 1 1 [])
           [\<lparr>det_id = 1, det_name = ''pii_redaction'', det_version = ''1'', det_category = ''pii''\<rparr>] [] Input = Inr plan)"
proof -
  have "tyc_enabled (gc_tenancy screen_config)" "screen_policy \<in> set (tyc_policies (gc_tenancy screen_config))"
    "\<forall>(f, n) \<in> set (flow_nodes (gc_flows screen_config)). standard_node n" "flow_identity screen_policy Input \<noteq> None"
    by (simp_all add: screen_config_def flow_nodes_def screen_flow_def screen_node_def standard_node_def
        flow_identity_def screen_policy_def)
  moreover have "describable \<lparr>det_id = 1, det_name = ''pii_redaction'', det_version = ''1'', det_category = ''pii''\<rparr>"
    by code_simp
  ultimately show ?thesis using accepted_policy_runs [OF screen_accepted, of screen_policy] screen_selected by auto
qed

text \<open>C9. Start-up and requests agree on the configuration: when an accepted configuration enables tenancy,
  no policy has more than the 256 routes a document may give it, and its policies compile, then
  authentication can be set up, the bundles can be installed, and a request with any configured API
  key is served: under the name of the key, as the key's tenant, with the executable bundle of the
  policy that tenant declares.\<close>

theorem configured_key_served:
  assumes "accepted plugin_names is_file config resolved" and "tyc_enabled (gc_tenancy config)"
    and "\<forall>p \<in> set (tyc_policies (gc_tenancy config)). length (tr_rules (tpc_routing p)) \<le> max_tenant_policy_routes"
    and "compile_policies config (dict_of resolved) factory plugins (tyc_policies (gc_tenancy config)) [] heap = (Inr bundles, events, heap')"
    and "k \<in> set (gc_api_keys config)"
  shows "\<exists>am r st b. \<exists>t \<in> set (tyc_tenants (gc_tenancy config)).
      make_auth (gc_auth_enabled config) (gc_api_keys config) True = Inr am
      \<and> install_tenants (map pvc_name (gc_providers config))
          (map (\<lambda>p. (tpc_id p, tpc_routing p)) (tyc_policies (gc_tenancy config))) (map cpd_bundle bundles)
          (make_resolver True (tyc_tenants (gc_tenancy config)) identities) = Inr r
      \<and> tenant_request am r (''Bearer '' @ ak_key k)
          = Inr (Some (ak_name k), \<lparr>tc_tenant_id = tn_id t, tc_identity_source = Api_key_source\<rparr>, st)
      \<and> ak_tenant_id k = Some (tn_id t) \<and> tn_policy_id t = Some (tb_policy_id b)
      \<and> ts_bundle st = Some b \<and> is_executable_bundle b"
proof -
  let ?ts = "tyc_tenants (gc_tenancy config)" and ?ps = "tyc_policies (gc_tenancy config)" and ?keys = "gc_api_keys config"
  note parts = accepted_parts [OF assms(1)]
  note tenancy = validated_tenancy [OF parts(2) assms(2)]
  obtain acc where acc: "fold_res (check_api_key (map tn_id ?ts)) ?keys ([], [], []) = Inr acc" using tenancy by blast
  note keys = checked_keys [OF acc]
  obtain t where t: "t \<in> set ?ts" "ak_tenant_id k = Some (tn_id t)" using keys assms(5) by auto
  obtain p where p: "p \<in> set ?ps" "tn_policy_id t = Some (tpc_id p)" using tenancy t(1) by blast
  have contexts: "map_res (\<lambda>k. bind_res (key_context True k) (\<lambda>c. Inr (ak_key k, c))) ?keys
      = Inr (map (\<lambda>k. (ak_key k, \<lparr>tc_tenant_id = the (ak_tenant_id k), tc_identity_source = Api_key_source\<rparr>)) ?keys)"
    unfolding map_res_Inr list_all2_map2 using keys by (auto simp: key_context_def intro!: list.rel_refl_strong)
  obtain am where am: "make_auth (gc_auth_enabled config) ?keys True = Inr am" "am_enabled am"
      "am_keys am (ak_key k) = Some (ak_name k)"
      "am_tenant_contexts am (ak_key k) = Some \<lparr>tc_tenant_id = tn_id t, tc_identity_source = Api_key_source\<rparr>"
  proof -
    have "dict_of (map (\<lambda>k. (ak_key k, ak_name k)) ?keys) (ak_key k) = Some (ak_name k)"
      "dict_of (map (\<lambda>k. (ak_key k, \<lparr>tc_tenant_id = the (ak_tenant_id k), tc_identity_source = Api_key_source\<rparr>)) ?keys) (ak_key k)
         = Some \<lparr>tc_tenant_id = tn_id t, tc_identity_source = Api_key_source\<rparr>"
      using keys assms(5) t(2) by (auto simp: comp_def image_iff intro!: dict_of_unique bexI [of _ k])
    then show thesis using keys tenancy by (intro that) (auto simp: make_auth_def contexts)
  qed
  have views: "\<forall>p \<in> set ?ps. \<exists>view. tenant_router_view (map pvc_name (gc_providers config)) (tr_rules (tpc_routing p))
      (tr_models_provider (tpc_routing p)) = Inr view"
    using validated_router_view validated_policy [OF parts(3) assms(2)] assms(3) by blast
  have "distinct (map tpc_id ?ps)" using tenancy by blast
  moreover have "list_all2 (\<lambda>p b. tb_policy_id (cpd_bundle b) = tpc_id p
      \<and> (\<forall>view. is_executable_bundle ((cpd_bundle b)\<lparr>tb_router_view := Some view\<rparr>))) ?ps bundles"
    using compile_policies_bundles [OF assms(4)] by simp
  ultimately obtain r where
    r: "install_tenants (map pvc_name (gc_providers config)) (map (\<lambda>p. (tpc_id p, tpc_routing p)) ?ps) (map cpd_bundle bundles)
          (make_resolver True ?ts identities) = Inr r"
      "pr_enabled r = pr_enabled (make_resolver True ?ts identities)"
      "pr_tenant_policy_ids r = pr_tenant_policy_ids (make_resolver True ?ts identities)"
    and "\<forall>p \<in> set ?ps. \<exists>b. map_of (pr_bundles r) (tpc_id p) = Some b \<and> tb_policy_id b = tpc_id p \<and> is_executable_bundle b"
    using installed_tenants [OF _ views, of bundles "make_resolver True ?ts identities"] by blast
  then obtain b where b: "map_of (pr_bundles r) (tpc_id p) = Some b" "tb_policy_id b = tpc_id p" "is_executable_bundle b"
    using p(1) by blast
  have "pr_tenant_policy_ids r (tn_id t) = Some (tpc_id p)"
  proof -
    have "map fst (concat (map (\<lambda>t. case tn_policy_id t of None \<Rightarrow> [] | Some p \<Rightarrow> [(tn_id t, p)]) ?ts)) = map tn_id ?ts"
    proof -
      have "\<forall>t \<in> set ts. tn_policy_id t \<noteq> None \<Longrightarrow>
        map fst (concat (map (\<lambda>t. case tn_policy_id t of None \<Rightarrow> [] | Some p \<Rightarrow> [(tn_id t, p)]) ts)) = map tn_id ts" for ts
        by (induction ts) auto
      then show ?thesis using tenancy by fastforce
    qed
    then show ?thesis using tenancy t(1) p(2) unfolding r(3) make_resolver_def
      by (auto intro!: dict_of_unique bexI [of _ t])
  qed
  moreover have "valid_observation_id (tn_id t)" "valid_observation_id (tpc_id p)"
    using accepted_checks [OF parts(1)] t(1) p(1) valid_tenant_id_observed
    by (force simp: check_tenant_def check_tenant_policy_def res_simps)+
  moreover have "extract_token (''Bearer '' @ ak_key k) = Some (ak_key k)" using keys assms(5) by (intro extract_bearer) auto
  ultimately have "\<exists>st. tenant_request am r (''Bearer '' @ ak_key k)
      = Inr (Some (ak_name k), \<lparr>tc_tenant_id = tn_id t, tc_identity_source = Api_key_source\<rparr>, st) \<and> ts_bundle st = Some b"
    using am b r(2) by (simp add: make_resolver_def tenant_request_def auth_dispatch_def policy_dispatch_def resolve_policy_def
        build_tenant_observation_context_def observation_def)
  then obtain st where "tenant_request am r (''Bearer '' @ ak_key k)
      = Inr (Some (ak_name k), \<lparr>tc_tenant_id = tn_id t, tc_identity_source = Api_key_source\<rparr>, st)" "ts_bundle st = Some b"
    by blast
  with am(1) r(1) t p b show ?thesis
    by (intro exI [of _ am] exI [of _ r] exI [of _ st] exI [of _ b] bexI [of _ t]) simp_all
qed

theorem configured_key_served_witness:
  "\<exists>am r st b (bundles :: compiled_policy list). make_auth True (gc_api_keys screen_config) True = Inr am
     \<and> install_tenants [''openai''] [(''strict'', sample_routing)] (map cpd_bundle bundles)
         (make_resolver True sample_tenants []) = Inr r
     \<and> tenant_request am r ''Bearer key-1''
         = Inr (Some ''acme-prod'', \<lparr>tc_tenant_id = ''acme'', tc_identity_source = Api_key_source\<rparr>, st)
     \<and> ts_bundle st = Some b \<and> tb_policy_id b = ''strict''"
proof -
  obtain bundles heap where compiled: "compile_policies screen_config (dict_of screen_resolved) (\<lambda>_. screen_factory) healthy_plugins
      (tyc_policies (gc_tenancy screen_config)) [] (0, \<lambda>_. circuit_breaker 1 1 [])
    = (Inr bundles, [Initialize screen_detector, Health_check screen_detector], heap)" using screen_compiled by blast
  have config: "tyc_enabled (gc_tenancy screen_config)"
    "\<forall>p \<in> set (tyc_policies (gc_tenancy screen_config)). length (tr_rules (tpc_routing p)) \<le> max_tenant_policy_routes"
    "\<lparr>ak_key = ''key-1'', ak_name = ''acme-prod'', ak_tenant_id = Some ''acme''\<rparr> \<in> set (gc_api_keys screen_config)"
    by (simp_all add: screen_config_def screen_policy_def sample_routing_def max_tenant_policy_routes_def)
  obtain am r st b t where served: "t \<in> set (tyc_tenants (gc_tenancy screen_config))"
    "make_auth (gc_auth_enabled screen_config) (gc_api_keys screen_config) True = Inr am"
    "install_tenants (map pvc_name (gc_providers screen_config))
          (map (\<lambda>p. (tpc_id p, tpc_routing p)) (tyc_policies (gc_tenancy screen_config))) (map cpd_bundle bundles)
          (make_resolver True (tyc_tenants (gc_tenancy screen_config)) []) = Inr r"
    "tenant_request am r (''Bearer '' @ ''key-1'')
          = Inr (Some ''acme-prod'', \<lparr>tc_tenant_id = tn_id t, tc_identity_source = Api_key_source\<rparr>, st)"
    "tn_policy_id t = Some (tb_policy_id b)" "ts_bundle st = Some b"
    using configured_key_served [OF screen_accepted config(1,2) compiled config(3), of "[]"] by auto
  have same: "gc_auth_enabled screen_config" "map pvc_name (gc_providers screen_config) = [''openai'']"
    "map (\<lambda>p. (tpc_id p, tpc_routing p)) (tyc_policies (gc_tenancy screen_config)) = [(''strict'', sample_routing)]"
    "tyc_tenants (gc_tenancy screen_config) = sample_tenants"
    by (simp_all add: screen_config_def screen_policy_def)
  have "tn_id t = ''acme''" "tb_policy_id b = ''strict''" using served(1,5) by (simp_all add: same sample_tenants_def)
  with served [unfolded same] have "make_auth True (gc_api_keys screen_config) True = Inr am"
    "install_tenants [''openai''] [(''strict'', sample_routing)] (map cpd_bundle bundles) (make_resolver True sample_tenants []) = Inr r"
    "tenant_request am r ''Bearer key-1''
         = Inr (Some ''acme-prod'', \<lparr>tc_tenant_id = ''acme'', tc_identity_source = Api_key_source\<rparr>, st)"
    "ts_bundle st = Some b" "tb_policy_id b = ''strict''" by (simp_all add: same)
  then show ?thesis by blast
qed

text \<open>Start-up of the tenants is all or nothing: when the compilation of some policy fails, whatever the
  reason and whatever detectors answer, every detector that was initialized for it or for the policies
  before it has been shut down as often as it was initialized; when all policies compile, the
  detectors still initialized are exactly those the shutdown of the bundles releases.\<close>

theorem compile_all_or_nothing:
  assumes "compile_policies config resolved factory plugins policies [] heap = (result, events, heap')"
  shows "case result of
      Inl _ \<Rightarrow> mset (inits events) \<subseteq># mset (shutdowns events)
    | Inr bundles \<Rightarrow> mset (inits events) = mset (shutdowns (events @ shutdown_bundles bundles))"
  using compile_policies_balance [OF assms] by (cases result) (auto simp: shutdown_bundles_running)

theorem compile_all_or_nothing_witness:
  "\<exists>bundles heap. compile_policies screen_config (dict_of screen_resolved) (\<lambda>_. screen_factory) healthy_plugins
      (tyc_policies (gc_tenancy screen_config)) [] (0, \<lambda>_. circuit_breaker 1 1 [])
      = (Inr bundles, [Initialize screen_detector, Health_check screen_detector], heap)
    \<and> mset (shutdowns (shutdown_bundles bundles)) = {# screen_detector #}"
proof -
  obtain bundles heap where compiled: "compile_policies screen_config (dict_of screen_resolved) (\<lambda>_. screen_factory) healthy_plugins
      (tyc_policies (gc_tenancy screen_config)) [] (0, \<lambda>_. circuit_breaker 1 1 [])
    = (Inr bundles, [Initialize screen_detector, Health_check screen_detector], heap)" using screen_compiled by blast
  from compile_all_or_nothing [OF compiled] compiled show ?thesis by simp
qed

text \<open>A capability with an enabled circuit breaker can be used once per direction: each use builds a
  breaker of its own, which makes two otherwise identical configurations differ, so a policy with two
  nodes for the same capability in one direction never compiles, even where they ask for the same.\<close>

theorem shared_breaker_never_compiles:
  assumes "select_policy config resolved policy = Inr sel"
    and "directed_nodes (sel_nodes sel) = xs @ (d, f, n) # ys @ (d, g, m) # zs"
    and "cn_capability_id m = cn_capability_id n" and "guarded policy (cn_capability_id n) b"
  shows "\<exists>e. fst (compile_policy config resolved factory plugins policy heap) = Inl e"
proof -
  have never: "register_nodes policy pol detector_of (xs @ (d, f, n) # ys @ (d, g, m) # zs) (new_compilation a st) \<noteq> Inr cm"
    for pol detector_of a st cm
  proof
    assume "register_nodes policy pol detector_of (xs @ (d, f, n) # ys @ (d, g, m) # zs) (new_compilation a st) = Inr cm"
    then obtain cm1 cm2 cm3 cm4 where steps:
      "register_nodes policy pol detector_of xs (new_compilation a st) = Inr cm1"
      "register_node policy pol detector_of (d, f, n) cm1 = Inr cm2"
      "register_nodes policy pol detector_of ys cm2 = Inr cm3"
      "register_node policy pol detector_of (d, g, m) cm3 = Inr cm4"
      by (auto simp: register_nodes_append res_simps)
    have "fresh_addresses (new_compilation a st)" by (simp add: fresh_addresses_def new_compilation_def)
    then have fresh: "fresh_addresses cm1" "fresh_addresses cm2" "fresh_addresses cm3"
      using register_nodes_fresh register_node_fresh steps by blast+
    have b: "binding_of policy (cn_capability_id n) = Some b" "binding_of policy (cn_capability_id m) = Some b"
      using assms(3,4) by (auto simp: guarded_def)
    have breaker: "\<exists>c. cb_circuit_breaker b = Some c \<and> cbc_enabled c" using assms(4) by (simp add: guarded_def)
    obtain s where "map_of (cm_configs cm2) (d, cb_detector_name b) = Some s"
    proof (rule register_node_cases [OF steps(2) b(1)])
      fix settings cm1' p
      assume "capability_config b n p cm1 = Inr (settings, cm1')" "map_of (cm_configs cm1) (d, cb_detector_name b) = Some settings"
        "cm2 = cm1'"
      then show thesis using that capability_config_Inr by metis
    next
      fix settings cm1' p
      assume "map_of (cm_configs cm1) (d, cb_detector_name b) = None"
        "cm_configs cm2 = cm_configs cm1 @ [((d, cb_detector_name b), settings)]"
      then show thesis using that by (simp add: map_add_def)
    qed
    then have s: "map_of (cm_configs cm3) (d, cb_detector_name b) = Some s"
      using register_nodes_fresh [OF steps(3) fresh(2)] by blast
    show False
    proof (rule register_node_cases [OF steps(4) b(2)])
      fix settings cm1' p
      assume c: "capability_config b m p cm3 = Inr (settings, cm1')" "map_of (cm_configs cm3) (d, cb_detector_name b) = Some settings"
      then have "cfg_circuit_breaker (cs_config settings) = Some (cm_next cm3)" using capability_config_Inr breaker by blast
      then show False using fresh(3) c(2) unfolding fresh_addresses_def by blast
    qed (use s in simp)
  qed
  obtain rc ec where c: "create_detectors factory policy (sorted_set (sel_capabilities sel)) [] = (rc, ec)" by force
  show ?thesis
  proof (cases rc)
    case (Inl e)
    then show ?thesis using assms(1) c by (simp add: compile_policy_def)
  next
    case (Inr made)
    obtain e where "register_nodes policy (dict_of (sel_policies sel)) (map_of made)
                       (directed_nodes (sel_nodes sel)) (new_compilation (fst heap) (snd heap)) = Inl e"
      using never unfolding assms(2) by (metis sum.exhaust)
    then show ?thesis using assms(1) c Inr by (simp add: compile_policy_def)
  qed
qed

text \<open>The same policy with a Flow that uses the detector twice.\<close>

definition twice_flow :: flow_definition where
  "twice_flow = screen_flow\<lparr>fd_nodes := [screen_node, Capability_node
     \<lparr>cn_node_id = ''again'', cn_capability_id = ''detector.pii_redaction'', cn_input_schema = ''safety.text.v1'',
      cn_output_schema = ''safety.detector-result.v1'', cn_priority = 10\<rparr>]\<rparr>"

theorem shared_breaker_never_compiles_witness:
  "\<exists>e. fst (compile_policy (screen_config\<lparr>gc_flows := [twice_flow]\<rparr>) (\<lambda>_. Some screen_node_policy) screen_factory
      healthy_plugins screen_policy (0, \<lambda>_. circuit_breaker 1 1 [])) = Inl e"
proof -
  let ?n = "\<lparr>cn_node_id = ''pii'', cn_capability_id = ''detector.pii_redaction'', cn_input_schema = ''safety.text.v1'',
      cn_output_schema = ''safety.detector-result.v1'', cn_priority = 10\<rparr>"
  let ?m = "\<lparr>cn_node_id = ''again'', cn_capability_id = ''detector.pii_redaction'', cn_input_schema = ''safety.text.v1'',
      cn_output_schema = ''safety.detector-result.v1'', cn_priority = 10\<rparr>"
  have nodes: "flow_nodes [twice_flow] = [(twice_flow, Capability_node ?n), (twice_flow, Capability_node ?m)]"
    by (simp add: flow_nodes_def twice_flow_def screen_flow_def screen_node_def)
  have "traverse [twice_flow] [(''screen'', ''1.0.0'')] = [Entered twice_flow, Capability_met twice_flow ?n, Capability_met twice_flow ?m]"
    by (simp add: traverse_def twice_flow_def screen_flow_def screen_node_def find_flow_def flow_key_def)
  moreover have "tpc_input_flow screen_policy = Some (''screen'', ''1.0.0'')" "tpc_output_flow screen_policy = None"
    "map cb_capability_id (tpc_capabilities screen_policy) = [''detector.pii_redaction'']"
    "tenant_escalation screen_policy = Inr (Some \<lparr>rule_first = Compare Count Ge (VInt 3), rule_rest = []\<rparr>)"
    by (simp_all add: screen_defs tenant_escalation_def screen_rule)
  ultimately obtain sel where sel: "select_policy (screen_config\<lparr>gc_flows := [twice_flow]\<rparr>) (\<lambda>_. Some screen_node_policy) screen_policy = Inr sel"
    "directed_nodes (sel_nodes sel) = [] @ (Input, twice_flow, ?n) # [] @ (Input, twice_flow, ?m) # []"
    by (simp add: select_policy_def flow_identity_def selected_flows_def selected_policies_def nodes
        Let_def detector_nodes_def directed_nodes_def)
  have "guarded screen_policy ''detector.pii_redaction'' screen_binding"
    by (simp add: guarded_def binding_of_def dict_of_def screen_policy_def screen_binding_def screen_breaker_def)
  then show ?thesis by (intro shared_breaker_never_compiles [OF sel, of screen_binding]) simp_all
qed

text \<open>Other schemas are accepted and cannot be served: an engine with a capability node of any other schema
  fails every request as soon as the detector of that capability is up, because the detector's own
  schemas are then those of the capability.\<close>

theorem custom_schema_fails_requests:
  assumes "f \<in> set (en_configured_flows e)" and "Capability_node c \<in> set (fd_nodes f)"
    and "\<not> standard_node (Capability_node c)"
    and "d \<in> set detectors" and "cn_capability_id c = ''detector.'' @ det_name d" and "contexts \<noteq> []"
  shows "\<exists>er. fst (pipeline_run env duration codec e store None detectors contexts configs) = Inl er"
proof -
  have "\<exists>er. build_plan e store detectors configs dir = Inl er" for dir
    using custom_schema_no_registry [OF assms(1-5), of "en_max_depth e" "en_max_nodes e"] assms(1)
    by (auto simp: build_plan_def build_configured_flow_def split: option.split)
  then obtain er where "plan_for e codec store None detectors configs (dc_direction (fst (hd contexts))) = Inl er"
    by (metis (no_types, lifting) plan_for_def new_plan_def bind_res.simps(1) option.simps(4))
  moreover have "detectors \<noteq> []" using assms(4) by auto
  ultimately show ?thesis using assms(6) by (simp add: pipeline_run_def)
qed

theorem custom_schema_fails_requests_witness:
  "\<forall>env duration codec store cx. \<exists>er.
     fst (pipeline_run env duration codec
       (configured_engine On_block None [sample_child] (Some (''child'', ''1.0.0'')) None [] (gc_flow_runtime screen_config))
       store None [\<lparr>det_id = 1, det_name = ''pii'', det_version = ''1'', det_category = ''pii''\<rparr>] [cx] []) = Inl er"
proof (intro allI)
  fix env duration codec store and cx :: "detection_context \<times> pystr"
  show "\<exists>er.
     fst (pipeline_run env duration codec
       (configured_engine On_block None [sample_child] (Some (''child'', ''1.0.0'')) None [] (gc_flow_runtime screen_config))
       store None [\<lparr>det_id = 1, det_name = ''pii'', det_version = ''1'', det_category = ''pii''\<rparr>] [cx] []) = Inl er"
    by (rule custom_schema_fails_requests [where f = sample_child
          and c = "\<lparr>cn_node_id = ''n'', cn_capability_id = ''detector.pii'', cn_input_schema = ''t'', cn_output_schema = ''r'', cn_priority = 0\<rparr>"
          and d = "\<lparr>det_id = 1, det_name = ''pii'', det_version = ''1'', det_category = ''pii''\<rparr>"])
       (simp_all add: configured_engine_def sample_child_def sample_node_def standard_node_def)
qed

subsection \<open>What the checks of a document promise\<close>

lemma compile_glob_plain:
  "CHR ''['' \<notin> set p \<Longrightarrow> compile_glob p
    = map (\<lambda>c. if c = CHR ''*'' then Any_string else if c = CHR ''?'' then Any_char else Literal c) p"
  by (induction p) auto

lemma glob_star: "glob_matches (Any_string # is) (v @ s) \<longleftrightarrow> (\<exists>n \<le> length (v @ s). glob_matches is (drop n (v @ s)))"
proof -
  have "glob_matches (Any_string # is) t \<longleftrightarrow> (\<exists>n \<le> length t. glob_matches is (drop n t))" for t
  proof (induction t)
    case (Cons c t)
    have "(\<exists>n \<le> length (c # t). glob_matches is (drop n (c # t)))
        \<longleftrightarrow> glob_matches is (c # t) \<or> (\<exists>n \<le> length t. glob_matches is (drop n t))"
      by (metis drop0 drop_Suc_Cons le0 length_Cons not0_implies_Suc Suc_le_mono)
    then show ?case using Cons by simp
  qed simp
  then show ?thesis .
qed

lemma fill_matches:
  assumes "CHR ''['' \<notin> set p"
  shows "fnmatch (fill_stars v p) p"
  using assms
proof (induction p)
  case (Cons c p)
  then have "glob_matches (compile_glob p) (fill_stars v p)" by (simp add: fnmatch_def)
  moreover have "glob_matches (Any_string # is) (v @ s)" if "glob_matches is s" for "is" s
    unfolding glob_star using that by (intro exI [of _ "length v"]) simp
  moreover have "c \<noteq> CHR ''[''" using Cons.prems by auto
  ultimately show ?case by (simp add: fnmatch_def fill_stars_def item_matches_def)
qed (simp add: fnmatch_def fill_stars_def)

lemma fill_star_star: "fill_stars ''*'' p = p"
  by (induction p) (simp_all add: fill_stars_def)

text \<open>The warning about overlapping routes is never a false alarm for patterns without character classes: the
  two patterns it names are those of an earlier and a later rule, and some model name is matched by
  both, so the order of the two rules decides.\<close>

theorem overlap_warning_sound:
  assumes "Patterns_overlap p q \<in> set (check_routing_conflicts rules)"
    and "CHR ''['' \<notin> set p" and "CHR ''['' \<notin> set q"
  shows "\<exists>i j model. i < j \<and> j < length rules \<and> rl_pattern (rules ! i) = p \<and> rl_pattern (rules ! j) = q
    \<and> fnmatch model p \<and> fnmatch model q"
proof -
  from assms(1) obtain i j where member: "i < length rules" "j \<in> set [i + 1..<length rules]"
    and overlap: "patterns_overlap (rl_pattern (rules ! i)) (rl_pattern (rules ! j))"
    and pq: "Patterns_overlap p q = Patterns_overlap (rl_pattern (rules ! i)) (rl_pattern (rules ! j))"
    unfolding check_routing_conflicts_def by (auto simp del: upt_Suc)
  then have rules: "i < j" "j < length rules" "rl_pattern (rules ! i) = p" "rl_pattern (rules ! j) = q" by auto
  have matches: "fnmatch (fill_stars v p) p" "fnmatch (fill_stars v q) q" for v
    using fill_matches assms(2,3) by auto
  have "\<exists>model. fnmatch model p \<and> fnmatch model q"
    using overlap [unfolded rules(3,4)] matches [of "''*''"] matches unfolding patterns_overlap_def list_ex_iff fill_star_star by blast
  with rules show ?thesis by (intro exI [of _ i] exI [of _ j]) auto
qed

theorem overlap_warning_sound_witness:
  "\<exists>model. fnmatch model ''gpt-*'' \<and> fnmatch model ''gpt-4*''"
proof -
  have "Patterns_overlap ''gpt-*'' ''gpt-4*'' \<in> set (check_routing_conflicts
      [\<lparr>rl_pattern = ''gpt-*'', rl_provider = ''a''\<rparr>, \<lparr>rl_pattern = ''gpt-4*'', rl_provider = ''b''\<rparr>])" by code_simp
  from overlap_warning_sound [OF this] show ?thesis by auto
qed

text \<open>It can stay silent: the values it tries are a fixed list.\<close>

lemma overlap_missed: "fnmatch ''abc'' ''a*c'' \<and> fnmatch ''abc'' ''ab*'' \<and> \<not> patterns_overlap ''a*c'' ''ab*''"
  by code_simp

text \<open>The validator's own reading of a rule admits rules the engine's parser rejects.\<close>

lemma accepted_rule_unparsed:
  "list_all (\<lambda>r. parse_flag_escalation_rule r = Inr () \<and> isl (parse r))
     [''categories == pii'', ''count >='', ''Categories contains pii'', ''count >= 3 AND max_risk_level >= high'']"
  by code_simp

text \<open>What loading returns is an accepted configuration within the limits: every check of the models and the
  validators has passed, tenancy is never enabled for more tenants, policies, keys, bindings or routes
  than the limits allow, and a configuration with tenant policies has no routes, bindings, detectors
  or stages of its own beside them.\<close>

theorem loaded_config_within_limits:
  assumes "load_config env read_file yaml typed plugin_names is_file path = Inr l" and "reads_document typed"
  shows "accepted plugin_names is_file (ld_config l) (ld_policies l)
    \<and> (tyc_enabled (gc_tenancy (ld_config l)) \<longrightarrow> within_limits (ld_config l))
    \<and> (tyc_policies (gc_tenancy (ld_config l)) \<noteq> [] \<longrightarrow> no_global_sources (ld_config l))"
proof -
  obtain content raw where "parse_yaml yaml content = Inr raw"
    and built: "build_config typed plugin_names is_file (interpolate_env_vars env raw) = Inr l"
    using assms(1) unfolding load_config_def
    by (cases "read_file path"; simp add: bind_res_Inr) (auto simp: case_res_Inr)
  define data where "data = interpolate_env_vars env raw"
  obtain pipeline deprecated warnings where
    steps: "check_document data = Inr ()" "convert_legacy_detectors (object_get ''pipeline'' data) = Inr (pipeline, deprecated)"
      "typed (if has_key ''pipeline'' data then json_set ''pipeline'' pipeline data else data) = Inr (ld_config l)"
      "check_gateway_config (ld_config l) = Inr (ld_policies l)" "validate_config plugin_names is_file (ld_config l) = Inr warnings"
    using built unfolding build_config_def data_def by (force simp: bind_res_Inr)
  note checked = checked_as_read [OF steps(1,2)]
  have reads: "reads_tenancy (if has_key ''pipeline'' data then json_set ''pipeline'' pipeline data else data) (ld_config l)"
    "reads_sources (if has_key ''pipeline'' data then json_set ''pipeline'' pipeline data else data) (ld_config l)"
    using assms(2) steps(3) unfolding reads_document_def by blast+
  show ?thesis
    using steps(4,5) limits_hold [OF checked(1) reads(1)] sources_exclude [OF checked(2) reads] by (auto simp: accepted_def)
qed

text \<open>The document the sample configuration is read from, as far as the checks look at it.\<close>

definition screen_document :: json where
  "screen_document = JObj
     [(''tenancy'', JObj
        [(''enabled'', JBool True), (''tenants'', JArr [JObj [(''id'', JStr ''acme''), (''policy_id'', JStr ''strict'')]]),
         (''policies'', JArr [JObj [(''id'', JStr ''strict''), (''capabilities'', JArr [JObj [(''capability_id'', JStr ''detector.pii_redaction'')]]),
            (''routing'', JObj [(''rules'', JArr [JObj [(''pattern'', JStr ''gpt-*''), (''provider'', JStr ''openai'')]])])]])]),
      (''security'', JObj [(''auth'', JObj [(''api_keys'', JArr [JObj [(''key'', JStr ''${ACME_KEY}'')]])])])]"

definition screen_typed :: "json \<Rightarrow> config_error + gateway_config" where
  "screen_typed data = (if data = interpolate_env_vars [''ACME_KEY'' \<mapsto> ''key-1''] screen_document then Inr screen_config
     else Inl (Invalid_field ''document''))"

theorem loaded_config_within_limits_witness:
  "\<exists>l. load_config [''ACME_KEY'' \<mapsto> ''key-1''] [''config.yaml'' \<mapsto> ''...''] (\<lambda>_. Some screen_document) screen_typed [] (\<lambda>_. None)
        ''config.yaml'' = Inr l
    \<and> within_limits (ld_config l) \<and> no_global_sources (ld_config l)"
proof -
  let ?data = "interpolate_env_vars [''ACME_KEY'' \<mapsto> ''key-1''] screen_document"
  have doc: "is_object screen_document" "screen_document \<noteq> JNull" by (simp_all add: screen_document_def is_object_def)
  have reads: "reads_document screen_typed"
    by (simp add: reads_document_def screen_typed_def screen_document_def reads_tenancy_def reads_sources_def reads_policy_def
        object_get_def has_key_def json_field_def array_items_def screen_config_def sample_tenants_def screen_policy_def
        sample_routing_def)
  have "check_document screen_document = Inr ()" by code_simp
  then have "check_document ?data = Inr ()"
    by (subst document_checks_env) (simp_all add: screen_document_def object_get_def json_field_def)
  moreover have "convert_legacy_detectors (object_get ''pipeline'' ?data) = Inr (JNull, False)" "\<not> has_key ''pipeline'' ?data"
    by (simp_all add: screen_document_def object_get_def has_key_def json_field_def convert_legacy_detectors_def)
  moreover obtain ws where "validate_config [] (\<lambda>_. None) screen_config = Inr ws" using screen_accepted by (auto simp: accepted_def)
  ultimately obtain l where l: "build_config screen_typed [] (\<lambda>_. None) ?data = Inr l" "ld_config l = screen_config"
    using screen_checked by (auto simp: build_config_def screen_typed_def)
  then have load: "load_config [''ACME_KEY'' \<mapsto> ''key-1''] [''config.yaml'' \<mapsto> ''...''] (\<lambda>_. Some screen_document) screen_typed []
      (\<lambda>_. None) ''config.yaml'' = Inr l"
    using doc by (simp add: load_config_def parse_yaml_def)
  have "tyc_enabled (gc_tenancy screen_config)" "tyc_policies (gc_tenancy screen_config) \<noteq> []" by (simp_all add: screen_config_def)
  with loaded_config_within_limits [OF load reads] load l(2) show ?thesis by auto
qed

end
