(* ===== verification/Grpc_Client.thy ===== *)
theory Grpc_Client
  imports Config_Models
begin

text \<open>
  \<open>plugins/grpc/client.py\<close>: the detector that asks a sidecar.

  What the sidecar answers to each call, and whether the channel can be built, is a record of answers;
  the calls made are kept in order. A call that fails and one that times out both raise. \<open>str(value)\<close>
  of a setting is an argument. The generated message classes are the records below; descriptions and
  the details of a response are left out.
\<close>

subsection \<open>Messages\<close>

record detector_info =
  gi_name :: pystr
  gi_category :: pystr
  gi_version :: pystr

record init_response =
  ir_success :: bool
  ir_info :: "detector_info option"

record detect_request =
  rq_content :: pystr
  rq_direction :: pystr
  rq_request_id :: pystr
  rq_user_id :: pystr
  rq_language :: pystr
  rq_message_index :: int

record detect_response =
  rp_detector_name :: pystr
  rp_category :: pystr
  rp_action :: pystr
  rp_confidence :: pyfloat
  rp_risk_level :: pystr
  rp_message :: pystr
  rp_modified_content :: pystr

datatype sidecar_call =
    Health_call
  | Initialize_call pystr "(pystr \<times> pystr) list"
  | Detect_call detect_request pyfloat
  | Shutdown_call
  | Channel_closed

record sidecar =
  sc_installed :: bool
  sc_channel :: bool
  sc_health :: "pystr option"
  sc_initialize :: "init_response option"
  sc_detect :: "detect_request \<Rightarrow> detect_response option"

datatype grpc_error =
    Grpc_missing
  | Endpoint_missing
  | Channel_failed
  | Call_failed
  | Not_serving pystr
  | Initialize_failed
  | Not_initialized
  | Invalid_response

subsection \<open>The detector\<close>

record grpc_detector =
  gd_name :: pystr
  gd_category :: pystr
  gd_version :: pystr
  gd_connected :: bool
  gd_timeout_seconds :: pyfloat

definition grpc_new :: "pystr \<Rightarrow> grpc_detector" where
  "grpc_new name =
     \<lparr>gd_name = name, gd_category = ''grpc'', gd_version = ''0.0.0'', gd_connected = False, gd_timeout_seconds = 5\<rparr>"

text \<open>\<open>DetectorInfo\<close> renames the detector.\<close>

definition apply_info :: "detector_info option \<Rightarrow> grpc_detector \<Rightarrow> grpc_detector" where
  "apply_info info g =
     (case info of
        None \<Rightarrow> g
      | Some i \<Rightarrow>
          if gi_name i = [] then g
          else g\<lparr>gd_name := gi_name i,
                 gd_category := (if gi_category i = [] then gd_category g else gi_category i),
                 gd_version := (if gi_version i = [] then gd_version g else gi_version i)\<rparr>)"

definition initialize_request :: "(json \<Rightarrow> pystr) \<Rightarrow> settings \<Rightarrow> (pystr \<times> pystr) list" where
  "initialize_request str config = map (\<lambda>(k, v). (k, str v)) (passthrough_config config)"

text \<open>The detector as an exception leaves it, which is the one that is shut down.\<close>

definition grpc_initialize ::
  "sidecar \<Rightarrow> (json \<Rightarrow> pystr) \<Rightarrow> settings \<Rightarrow> pyfloat \<Rightarrow> grpc_detector
     \<Rightarrow> grpc_error option \<times> grpc_detector \<times> sidecar_call list" where
  "grpc_initialize sc str config timeout g =
     (let endpoint = (case map_of config ''endpoint'' of None \<Rightarrow> [] | Some v \<Rightarrow> str v);
          request = initialize_request str config;
          ready = g\<lparr>gd_connected := True, gd_timeout_seconds := timeout\<rparr> in
      if \<not> sc_installed sc then (Some Grpc_missing, g, [])
      else if endpoint = [] then (Some Endpoint_missing, g, [])
      else if \<not> sc_channel sc then (Some Channel_failed, g\<lparr>gd_timeout_seconds := timeout\<rparr>, [])
      else case sc_health sc of
        None \<Rightarrow> (Some Call_failed, ready, [Health_call])
      | Some status \<Rightarrow>
          if status \<noteq> ''serving'' then (Some (Not_serving status), ready, [Health_call])
          else case sc_initialize sc of
            None \<Rightarrow> (Some Call_failed, ready, [Health_call, Initialize_call (gd_name g) request])
          | Some response \<Rightarrow>
              if \<not> ir_success response
              then (Some Initialize_failed, ready, [Health_call, Initialize_call (gd_name g) request])
              else (None, apply_info (ir_info response) ready, [Health_call, Initialize_call (gd_name g) request]))"

definition grpc_request :: "pystr \<Rightarrow> detection_context \<Rightarrow> detect_request" where
  "grpc_request content cx =
     (let text = (\<lambda>v. case v of None \<Rightarrow> [] | Some s \<Rightarrow> s) in
      \<lparr>rq_content = content, rq_direction = direction_str (dc_direction cx), rq_request_id = dc_request_id cx,
       rq_user_id = text (dc_user_id cx), rq_language = text (dc_language cx),
       rq_message_index = (case dc_message_index cx of None \<Rightarrow> - 1 | Some i \<Rightarrow> i)\<rparr>)"

definition action_of :: "pystr \<Rightarrow> action option" where
  "action_of s = List.find (\<lambda>a. action_str a = s) [Allow, Block, Flag, Modify]"

definition risk_of :: "pystr \<Rightarrow> risk_level option" where
  "risk_of s = List.find (\<lambda>r. risk_str r = s) [Low, Medium, High, Critical]"

text \<open>What is not one of the values of \<open>DetectionResult\<close> raises.\<close>

definition map_response :: "grpc_detector \<Rightarrow> detect_response \<Rightarrow> grpc_error + detection_result" where
  "map_response g r =
     (case (action_of (rp_action r), risk_of (rp_risk_level r)) of
        (Some a, Some risk) \<Rightarrow>
          if 0 \<le> rp_confidence r \<and> rp_confidence r \<le> 1
          then Inr \<lparr>dr_detector_name = (if rp_detector_name r = [] then gd_name g else rp_detector_name r),
             dr_category = (if rp_category r = [] then gd_category g else rp_category r), dr_action = a,
             dr_confidence = rp_confidence r, dr_risk_level = risk, dr_message = rp_message r,
             dr_modified_content = (if rp_modified_content r = [] then None else Some (rp_modified_content r)),
             dr_duration_ms = 0, dr_error = None\<rparr>
          else Inl Invalid_response
      | _ \<Rightarrow> Inl Invalid_response)"

definition grpc_detect ::
  "sidecar \<Rightarrow> pystr \<Rightarrow> detection_context \<Rightarrow> pyfloat option \<Rightarrow> grpc_detector
     \<Rightarrow> (grpc_error + detection_result) \<times> sidecar_call list" where
  "grpc_detect sc content cx timeout g =
     (let request = grpc_request content cx;
          seconds = (case timeout of None \<Rightarrow> gd_timeout_seconds g | Some t \<Rightarrow> t) in
      if \<not> gd_connected g then (Inl Not_initialized, [])
      else case sc_detect sc request of
        None \<Rightarrow> (Inl Call_failed, [Detect_call request seconds])
      | Some response \<Rightarrow> (map_response g response, [Detect_call request seconds]))"

definition grpc_health_check :: "sidecar \<Rightarrow> grpc_detector \<Rightarrow> (grpc_error + bool) \<times> sidecar_call list" where
  "grpc_health_check sc g =
     (if \<not> gd_connected g then (Inr False, [])
      else case sc_health sc of
        None \<Rightarrow> (Inl Call_failed, [Health_call])
      | Some status \<Rightarrow> (Inr (status = ''serving''), [Health_call]))"

text \<open>A shutdown call that fails is logged, and the channel is closed all the same.\<close>

definition grpc_shutdown :: "grpc_detector \<Rightarrow> grpc_detector \<times> sidecar_call list" where
  "grpc_shutdown g =
     (g\<lparr>gd_connected := False\<rparr>, if gd_connected g then [Shutdown_call, Channel_closed] else [])"

subsection \<open>Laws\<close>

lemma action_of_str [simp]: "action_of (action_str a) = Some a"
  by (cases a) (simp_all add: action_of_def)

lemma risk_of_str [simp]: "risk_of (risk_str r) = Some r"
  by (cases r) (simp_all add: risk_of_def)

lemma action_of_Some: "action_of s = Some a \<Longrightarrow> action_str a = s"
  by (auto simp: action_of_def split: if_splits)

lemma risk_of_Some: "risk_of s = Some r \<Longrightarrow> risk_str r = s"
  by (auto simp: risk_of_def split: if_splits)

lemma map_response_wf: "map_response g r = Inr d \<Longrightarrow> wf_result d \<and> action_str (dr_action d) = rp_action r"
  by (auto simp: map_response_def wf_result_def action_of_Some split: option.splits if_splits)

text \<open>The life of a sidecar: it is told to initialize only after it has answered that it serves, with the
  settings of the detector and never with the endpoint or the TLS files of the gateway; a detector
  that has been shut down is not asked to detect, whatever stage it had reached; and what it answers becomes a result of the type the engine expects or an error.\<close>

theorem sidecar_protocol:
  assumes "grpc_initialize sc str config timeout g = (failure, g', calls)" and "\<not> gd_connected g"
  shows "(\<forall>name request. Initialize_call name request \<in> set calls \<longrightarrow>
           sc_health sc = Some ''serving'' \<and> hd calls = Health_call
           \<and> (\<forall>k v. (k, v) \<in> set request \<longrightarrow> k \<notin> {''endpoint'', ''tls_enabled'', ''tls_ca_file''} \<and> (\<exists>j. (k, j) \<in> set config \<and> v = str j)))
    \<and> (failure = None \<longrightarrow> gd_connected g')
    \<and> fst (grpc_detect sc content cx t (fst (grpc_shutdown g'))) = Inl Not_initialized
    \<and> (\<forall>r. fst (grpc_detect sc content cx t g') = Inr r \<longrightarrow> wf_result r)"
proof -
  have detect: "wf_result r" if "fst (grpc_detect sc content cx t g') = Inr r" for r
    using that map_response_wf by (auto simp: grpc_detect_def Let_def split: if_splits option.splits)
  have request: "k \<notin> {''endpoint'', ''tls_enabled'', ''tls_ca_file''} \<and> (\<exists>j. (k, j) \<in> set config \<and> v = str j)"
    if "(k, v) \<in> set (initialize_request str config)" for k v
    using that by (auto simp: initialize_request_def passthrough_config_def grpc_gateway_fields_def)
  have calls: "name = gd_name g \<and> r = initialize_request str config \<and> sc_health sc = Some ''serving'' \<and> hd calls = Health_call"
    if "Initialize_call name r \<in> set calls" for name r
    using assms(1) that by (auto simp: grpc_initialize_def Let_def split: if_splits option.splits)
  have "failure = None \<longrightarrow> gd_connected g'"
    using assms(1) by (auto simp: grpc_initialize_def Let_def apply_info_def split: if_splits option.splits)
  moreover have "fst (grpc_detect sc content cx t (fst (grpc_shutdown g'))) = Inl Not_initialized"
    by (simp add: grpc_detect_def grpc_shutdown_def)
  ultimately show ?thesis using detect request calls by blast
qed

definition sample_sidecar :: sidecar where
  "sample_sidecar =
     \<lparr>sc_installed = True, sc_channel = True, sc_health = Some ''serving'',
      sc_initialize = Some \<lparr>ir_success = True, ir_info = Some \<lparr>gi_name = ''acme'', gi_category = [], gi_version = ''2''\<rparr>\<rparr>,
      sc_detect = (\<lambda>_. None)\<rparr>"

theorem sidecar_protocol_witness:
  "snd (snd (grpc_initialize sample_sidecar (\<lambda>_. ''x'') [(''endpoint'', JStr ''x''), (''api_key'', JStr ''x'')] 5 (grpc_new ''guard'')))
     = [Health_call, Initialize_call ''guard'' [(''api_key'', ''x'')]]
   \<and> gd_connected (fst (snd (grpc_initialize sample_sidecar (\<lambda>_. ''x'') [(''endpoint'', JStr ''x''), (''api_key'', JStr ''x'')] 5 (grpc_new ''guard''))))"
proof -
  have run: "grpc_initialize sample_sidecar (\<lambda>_. ''x'') [(''endpoint'', JStr ''x''), (''api_key'', JStr ''x'')] 5 (grpc_new ''guard'')
    = (None, \<lparr>gd_name = ''acme'', gd_category = ''grpc'', gd_version = ''2'', gd_connected = True, gd_timeout_seconds = 5\<rparr>,
        [Health_call, Initialize_call ''guard'' [(''api_key'', ''x'')]])"
    by (simp add: grpc_initialize_def sample_sidecar_def grpc_new_def initialize_request_def passthrough_config_def
        grpc_gateway_fields_def apply_info_def)
  have "\<not> gd_connected (grpc_new ''guard'')" by (simp add: grpc_new_def)
  from sidecar_protocol [OF run this] run show ?thesis by simp
qed

end
