(* ===== verification/App_Startup.thy ===== *)
theory App_Startup
  imports Tenant_Compile Config_Loading
begin

text \<open>
  \<open>app.py\<close>: the assembly of the application from a loaded configuration, and its end.

  The framework, the routers and the middleware it wires are left out; what remains is the tenants'
  budgets and bundles, the settings and the start of the detectors, the engine, readiness and the
  shutdown. What a factory makes and what initialization does are arguments; a detector is given as
  initialization leaves it, since a sidecar may have named itself then. The calls to detectors are a
  trace. A flushed audit log and the metrics change nothing here.
\<close>

datatype startup_error =
    Resources_invalid pystr
  | Duration_invalid
  | Unsupported_runtime_capability pystr
  | Lifecycle_conflict pystr
  | Lookup_failed
  | Compile_failed compile_error
  | Bundles_rejected install_error
  | Pipeline_rejected pipeline_error
  | Escalation_unparsable rule_error
  | Detector_initialization_failed pystr direction
  | Startup_interrupted
  | Status_failed status_error

subsection \<open>Tenants\<close>

definition identity_tenant_bundles :: "gateway_config \<Rightarrow> tenant_bundle list" where
  "identity_tenant_bundles config =
     map (\<lambda>p.
       \<lparr>tb_policy_id = tpc_id p, tb_input_flow_identity = tpc_input_flow p, tb_output_flow_identity = tpc_output_flow p,
        tb_routing_profile_id = tpc_id p, tb_engine = None, tb_input_configs = None, tb_output_configs = None,
        tb_status_registry = None, tb_coordinator = None, tb_node_policies = None, tb_input_policies = None,
        tb_output_policies = None, tb_router_view = None\<rparr>) (tyc_policies (gc_tenancy config))"

text \<open>One budget for every tenant, or one for each tenant the configuration names.\<close>

definition tenant_budgets :: "gateway_config \<Rightarrow> startup_error + (pystr \<times> resource_budget) list" where
  "tenant_budgets config =
     (let built = (\<lambda>b. case check_budget b of Inl e \<Rightarrow> Inl (Resources_invalid e) | Inr b \<Rightarrow> Inr b) in
      case gc_tenant_resources config of
        Inr named \<Rightarrow> map_res (\<lambda>(t, b). bind_res (built b) (\<lambda>b. Inr (t, b))) named
      | Inl b \<Rightarrow> bind_res (built b) (\<lambda>b. Inr (map (\<lambda>t. (tn_id t, b)) (tyc_tenants (gc_tenancy config)))))"

subsection \<open>The settings of detectors\<close>

text \<open>\<open>as_type\<close> is the key \<open>type\<close>, which the settings of an unbound capability do not have.\<close>

record app_settings = capability_settings +
  as_type :: "pystr option"

type_synonym app_configs = "(pystr \<times> app_settings) list"

text \<open>The next free address and the breakers.\<close>

type_synonym breaker_heap = "nat \<times> breaker_store"

definition detector_type_label :: "pystr \<Rightarrow> app_settings \<Rightarrow> pystr" where
  "detector_type_label name s =
     (if as_type s = Some ''grpc'' then ''grpc''
      else if name = ''toxicity'' then ''ml''
      else if name \<in> set [''prompt_injection'', ''pii_redaction'', ''sensitive_words'', ''secret_leak''] then ''builtin''
      else ''in_process'')"

text \<open>A duration that is not a finite number is taken for one that does not parse.\<close>

definition duration_seconds :: "pystr \<Rightarrow> startup_error + pyfloat" where
  "duration_seconds value = (case parse_duration value of Some (Finite x) \<Rightarrow> Inr x | _ \<Rightarrow> Inl Duration_invalid)"

definition resolve_timeout_seconds :: "detector_settings \<Rightarrow> pyfloat \<Rightarrow> startup_error + pyfloat" where
  "resolve_timeout_seconds d default_timeout =
     (case dtc_timeout d of
        None \<Rightarrow> Inr default_timeout
      | Some t \<Rightarrow> if t = [] then Inr default_timeout else duration_seconds t)"

definition build_breaker :: "circuit_breaker_config option \<Rightarrow> breaker_heap \<Rightarrow> startup_error + nat option \<times> breaker_heap" where
  "build_breaker c heap =
     (case c of
        None \<Rightarrow> Inr (None, heap)
      | Some c \<Rightarrow>
          if \<not> cbc_enabled c then Inr (None, heap)
          else case build_circuit_breaker c of
                 None \<Rightarrow> Inl Duration_invalid
               | Some b \<Rightarrow> (let (a, store) = heap in Inr (Some a, Suc a, store(a := b))))"

definition plain_threshold :: "settings \<Rightarrow> pystr \<Rightarrow> pyfloat option" where
  "plain_threshold config key = (case map_of config key of None \<Rightarrow> None | Some v \<Rightarrow> json_number v)"

definition extract_detector_config ::
  "pyfloat \<Rightarrow> detector_settings \<Rightarrow> app_configs \<times> breaker_heap \<Rightarrow> startup_error + app_configs \<times> breaker_heap" where
  "extract_detector_config default_timeout d acc =
     (let (configs, heap) = acc in
      if \<not> dtc_enabled d then Inr (configs, heap)
      else
        bind_res (resolve_timeout_seconds d default_timeout) (\<lambda>seconds.
        bind_res (build_breaker (dtc_circuit_breaker d) heap) (\<lambda>(breaker, heap). Inr
          (AList.update (dtc_name d)
             \<lparr>cs_required = dtc_required d,
              cs_config = \<lparr>cfg_block_threshold = plain_threshold (dtc_config d) ''block_threshold'',
                cfg_flag_threshold = plain_threshold (dtc_config d) ''flag_threshold'',
                cfg_on_error = Some (dtc_on_error d), cfg_timeout_seconds = Some seconds,
                cfg_priority = Some (dtc_priority d), cfg_circuit_breaker = breaker\<rparr>,
              cs_settings = dtc_config d, as_type = Some (dtc_type d)\<rparr> configs, heap))))"

definition extract_detector_configs ::
  "pyfloat \<Rightarrow> detector_settings list \<Rightarrow> breaker_heap \<Rightarrow> startup_error + app_configs \<times> breaker_heap" where
  "extract_detector_configs default_timeout ds heap = fold_res (extract_detector_config default_timeout) ds ([], heap)"

text \<open>The settings a node of an explicit Flow asks of its detector.\<close>

definition node_settings :: "capability_node \<Rightarrow> node_policy \<Rightarrow> app_settings option \<Rightarrow> app_settings" where
  "node_settings n p implementation =
     (let settings = (case implementation of None \<Rightarrow> [] | Some s \<Rightarrow> cs_settings s) in
      \<lparr>cs_required = ap_required (np_availability p),
       cs_config = \<lparr>cfg_block_threshold = threshold_setting settings ''block_threshold'',
         cfg_flag_threshold = threshold_setting settings ''flag_threshold'',
         cfg_on_error = Some (fallback_str (ap_on_unavailable (np_availability p))),
         cfg_timeout_seconds = Some (tp_seconds (np_timeout p)), cfg_priority = Some (cn_priority n),
         cfg_circuit_breaker = (case implementation of None \<Rightarrow> None | Some s \<Rightarrow> cfg_circuit_breaker (cs_config s))\<rparr>,
       cs_settings = settings, as_type = (case implementation of None \<Rightarrow> None | Some s \<Rightarrow> as_type s)\<rparr>)"

definition implementation_of ::
  "gateway_config \<Rightarrow> pystr \<Rightarrow> pystr \<Rightarrow> breaker_heap \<Rightarrow> startup_error + app_settings option \<times> breaker_heap" where
  "implementation_of config cid name heap =
     (case dict_of (map (\<lambda>b. (cb_capability_id b, b)) (gc_capabilities config)) cid of
        None \<Rightarrow> Inr (None, heap)
      | Some b \<Rightarrow>
          bind_res (duration_seconds (gc_detector_timeout config)) (\<lambda>seconds.
          bind_res (extract_detector_configs seconds [binding_detector b] heap) (\<lambda>(configs, heap).
          case map_of configs name of None \<Rightarrow> Inl Lookup_failed | Some s \<Rightarrow> Inr (Some s, heap))))"

definition explicit_node ::
  "gateway_config \<Rightarrow> (policy_key \<rightharpoonup> node_policy) \<Rightarrow> visit \<Rightarrow> app_configs \<times> breaker_heap
     \<Rightarrow> startup_error + app_configs \<times> breaker_heap" where
  "explicit_node config resolved v acc =
     (let (configs, heap) = acc in
      case v of
        Entered f \<Rightarrow> Inr acc
      | Missing_flow key \<Rightarrow> Inl Lookup_failed
      | Capability_met f n \<Rightarrow>
          let cid = cn_capability_id n; name = remove_prefix ''detector.'' cid in
          if \<not> starts_with cid ''detector.'' then Inl (Unsupported_runtime_capability cid)
          else case resolved (fd_flow_id f, fd_version f, cn_node_id n) of
            None \<Rightarrow> Inl Lookup_failed
          | Some p \<Rightarrow>
              bind_res (implementation_of config cid name heap) (\<lambda>(implementation, heap).
                let candidate = node_settings n p implementation in
                if map_of configs name \<notin> {None, Some candidate} then Inl (Lifecycle_conflict cid)
                else Inr (AList.update name candidate configs, heap)))"

definition stage_reference :: "gateway_config \<Rightarrow> direction \<Rightarrow> flow_key option" where
  "stage_reference config d = (case d of Input \<Rightarrow> plc_input_flow (gc_pipeline config) | Output \<Rightarrow> plc_output_flow (gc_pipeline config))"

definition explicit_flow_detector_configs ::
  "gateway_config \<Rightarrow> (policy_key \<rightharpoonup> node_policy) \<Rightarrow> direction \<Rightarrow> breaker_heap \<Rightarrow> startup_error + app_configs \<times> breaker_heap" where
  "explicit_flow_detector_configs config resolved d heap =
     (case stage_reference config d of
        None \<Rightarrow> Inr ([], heap)
      | Some key \<Rightarrow> fold_res (explicit_node config resolved) (traverse (gc_flows config) [key]) ([], heap))"

definition explicit_policy ::
  "(policy_key \<rightharpoonup> node_policy) \<Rightarrow> visit \<Rightarrow> (pystr \<times> node_policy) list \<Rightarrow> startup_error + (pystr \<times> node_policy) list" where
  "explicit_policy resolved v policies =
     (case v of
        Entered f \<Rightarrow> Inr policies
      | Missing_flow key \<Rightarrow> Inl Lookup_failed
      | Capability_met f n \<Rightarrow>
          (case resolved (fd_flow_id f, fd_version f, cn_node_id n) of
             None \<Rightarrow> Inl Lookup_failed
           | Some p \<Rightarrow> Inr (AList.update (remove_prefix ''detector.'' (cn_capability_id n)) p policies)))"

definition explicit_flow_detector_policies ::
  "gateway_config \<Rightarrow> (policy_key \<rightharpoonup> node_policy) \<Rightarrow> direction \<Rightarrow> startup_error + (pystr \<times> node_policy) list" where
  "explicit_flow_detector_policies config resolved d =
     (case stage_reference config d of
        None \<Rightarrow> Inr []
      | Some key \<Rightarrow> fold_res (explicit_policy resolved) (traverse (gc_flows config) [key]) [])"

text \<open>Both stages, from the Flows or from the lists of detectors.\<close>

definition stage_configs ::
  "gateway_config \<Rightarrow> (policy_key \<rightharpoonup> node_policy) \<Rightarrow> breaker_heap \<Rightarrow> startup_error + app_configs \<times> app_configs \<times> breaker_heap" where
  "stage_configs config resolved heap =
     (if gc_flows config \<noteq> [] then
        bind_res (explicit_flow_detector_configs config resolved Input heap) (\<lambda>(input_configs, heap).
        bind_res (explicit_flow_detector_configs config resolved Output heap) (\<lambda>(output_configs, heap).
          Inr (input_configs, output_configs, heap)))
      else
        bind_res (duration_seconds (gc_detector_timeout config)) (\<lambda>seconds.
        bind_res (extract_detector_configs seconds (plc_input_detectors (gc_pipeline config)) heap) (\<lambda>(input_configs, heap).
        bind_res (extract_detector_configs seconds (plc_output_detectors (gc_pipeline config)) heap) (\<lambda>(output_configs, heap).
          Inr (input_configs, output_configs, heap)))))"

subsection \<open>Starting the detectors\<close>

record init_state =
  is_registry :: status_registry
  is_initialized :: "detector list"
  is_detectors :: "(pystr \<times> detector) list"

definition move_status ::
  "direction \<Rightarrow> pystr \<Rightarrow> detector_state \<Rightarrow> detector_reason option \<Rightarrow> detector option \<Rightarrow> status_registry
     \<Rightarrow> startup_error + status_registry" where
  "move_status d name state reason x reg =
     (case transition_status d name state reason x reg of Inl e \<Rightarrow> Inl (Status_failed e) | Inr (_, _, reg) \<Rightarrow> Inr reg)"

definition register_missing :: "direction \<Rightarrow> pystr \<Rightarrow> app_settings \<Rightarrow> status_registry \<Rightarrow> startup_error + status_registry" where
  "register_missing d name s reg =
     (if map_of reg (d, name) \<noteq> None then Inr reg
      else case register_status d name (detector_type_label name s) (cs_required s)
                  (or_default (cfg_on_error (cs_config s)) ''fail_open'') (or_default (cfg_timeout_seconds (cs_config s)) 5) reg of
             Inl e \<Rightarrow> Inl (Status_failed e) | Inr reg \<Rightarrow> Inr reg)"

text \<open>
  One turn of \<open>_initialize_detectors\<close>. A detector that cannot be made leaves nothing to shut down; one
  whose initialization raises is shut down, here or where it was made. A required one that failed ends
  the start-up after everything before it has been shut down.
\<close>

definition failed_detector ::
  "direction \<Rightarrow> pystr \<Rightarrow> app_settings \<Rightarrow> status_registry \<Rightarrow> life_event list \<Rightarrow> init_state
     \<Rightarrow> (startup_error + init_state) \<times> life_event list" where
  "failed_detector d name s reg events st =
     (case move_status d name UNAVAILABLE_STATE (Some INITIALIZATION_ERROR) None reg of
        Inl e \<Rightarrow> (Inl e, events)
      | Inr reg \<Rightarrow>
          if cs_required s
          then (Inl (Detector_initialization_failed name d), events @ map Shutdown (rev (is_initialized st)))
          else (Inr (st\<lparr>is_registry := reg\<rparr>), events))"

definition initialize_detector ::
  "(detector \<Rightarrow> plugin) \<Rightarrow> (pystr \<Rightarrow> app_settings \<Rightarrow> detector option) \<Rightarrow> direction \<Rightarrow> pystr \<times> app_settings \<Rightarrow> init_state
     \<Rightarrow> (startup_error + init_state) \<times> life_event list" where
  "initialize_detector plugins make_detector d entry st =
     (let (name, s) = entry in
      case bind_res (register_missing d name s (is_registry st)) (move_status d name INITIALIZING None None) of
        Inl e \<Rightarrow> (Inl e, [])
      | Inr reg \<Rightarrow>
          (case make_detector name s of
             None \<Rightarrow> failed_detector d name s reg [] st
           | Some x \<Rightarrow>
               (case pl_initialize (plugins x) of
                  Init_raised \<Rightarrow> failed_detector d name s reg [Initialize x, Shutdown x] st
                | Init_cancelled \<Rightarrow> (Inl Startup_interrupted, [Initialize x])
                | Init_done \<Rightarrow>
                    (case move_status d name HEALTHY None (Some x) reg of
                       Inl e \<Rightarrow> (Inl e, [Initialize x])
                     | Inr reg \<Rightarrow>
                         (Inr \<lparr>is_registry = reg, is_initialized = is_initialized st @ [x],
                               is_detectors = AList.update name x (is_detectors st)\<rparr>, [Initialize x])))))"

fun initialize_detectors ::
  "(detector \<Rightarrow> plugin) \<Rightarrow> (pystr \<Rightarrow> app_settings \<Rightarrow> detector option) \<Rightarrow> direction \<Rightarrow> app_configs \<Rightarrow> init_state
     \<Rightarrow> (startup_error + init_state) \<times> life_event list" where
  "initialize_detectors plugins make_detector d [] st = (Inr st, [])"
| "initialize_detectors plugins make_detector d (entry # configs) st =
     (case initialize_detector plugins make_detector d entry st of
        (Inl e, events) \<Rightarrow> (Inl e, events)
      | (Inr st, events) \<Rightarrow>
          (let (result, events') = initialize_detectors plugins make_detector d configs st in (result, events @ events')))"

record started =
  sd_input :: "(pystr \<times> detector) list"
  sd_output :: "(pystr \<times> detector) list"
  sd_registry :: status_registry

definition init_detectors ::
  "(detector \<Rightarrow> plugin) \<Rightarrow> (direction \<Rightarrow> pystr \<Rightarrow> app_settings \<Rightarrow> detector option) \<Rightarrow> app_configs \<Rightarrow> app_configs
     \<Rightarrow> (startup_error + started) \<times> life_event list" where
  "init_detectors plugins make_detector input_configs output_configs =
     (case initialize_detectors plugins (make_detector Input) Input input_configs
             \<lparr>is_registry = [], is_initialized = [], is_detectors = []\<rparr> of
        (Inl e, events) \<Rightarrow> (Inl e, events)
      | (Inr st, events) \<Rightarrow>
          (case initialize_detectors plugins (make_detector Output) Output output_configs (st\<lparr>is_detectors := []\<rparr>) of
             (Inl e, events') \<Rightarrow> (Inl e, events @ events')
           | (Inr st', events') \<Rightarrow>
               (Inr \<lparr>sd_input = is_detectors st, sd_output = is_detectors st', sd_registry = is_registry st'\<rparr>,
                events @ events')))"

subsection \<open>\<open>create_app\<close> and the end of its life\<close>

record app_state =
  app_resolver :: policy_resolver
  app_budgets :: "(pystr \<times> resource_budget) list"
  app_bundles :: "compiled_policy list"
  app_detectors :: started
  app_input_configs :: app_configs
  app_output_configs :: app_configs
  app_engine :: engine
  app_input_policies :: "(pystr \<times> node_policy) list"
  app_output_policies :: "(pystr \<times> node_policy) list"
  app_ready :: bool

definition start_tenants ::
  "gateway_config \<Rightarrow> (policy_key \<rightharpoonup> node_policy) \<Rightarrow> (tenant_policy_config \<Rightarrow> detector_factory) \<Rightarrow> (detector \<Rightarrow> plugin)
     \<Rightarrow> breaker_heap \<Rightarrow> (startup_error + policy_resolver \<times> compiled_policy list) \<times> life_event list \<times> breaker_heap" where
  "start_tenants config resolved factory plugins heap =
     (let tenancy = gc_tenancy config;
          resolver = make_resolver (tyc_enabled tenancy) (tyc_tenants tenancy) (identity_tenant_bundles config) in
      if \<not> tyc_enabled tenancy then (Inr (resolver, []), [], heap)
      else case compile_policies config resolved factory plugins (tyc_policies tenancy) [] heap of
        (Inl e, events, heap) \<Rightarrow> (Inl (Compile_failed e), events, heap)
      | (Inr bundles, events, heap) \<Rightarrow>
          (case install_tenants (map pvc_name (gc_providers config))
                  (map (\<lambda>p. (tpc_id p, tpc_routing p)) (tyc_policies tenancy)) (map cpd_bundle bundles) resolver of
             Inl e \<Rightarrow> (Inl (Bundles_rejected e), events @ shutdown_bundles bundles, heap)
           | Inr r \<Rightarrow> (Inr (r, bundles), events, heap)))"

definition pipeline_escalation :: "gateway_config \<Rightarrow> startup_error + rule option" where
  "pipeline_escalation config =
     (case plc_flag_escalation (gc_pipeline config) of
        None \<Rightarrow> Inr None
      | Some fe \<Rightarrow>
          if \<not> fec_enabled fe \<or> fec_rule fe = [] then Inr None
          else case parse (fec_rule fe) of Inl e \<Rightarrow> Inl (Escalation_unparsable e) | Inr r \<Rightarrow> Inr (Some r))"

text \<open>What is left once the detectors run.\<close>

definition assemble_app ::
  "gateway_config \<Rightarrow> (policy_key \<times> node_policy) list \<Rightarrow> (pystr \<times> resource_budget) list \<Rightarrow> policy_resolver
     \<Rightarrow> compiled_policy list \<Rightarrow> app_configs \<Rightarrow> app_configs \<Rightarrow> started \<Rightarrow> startup_error + app_state" where
  "assemble_app config resolved budgets resolver bundles input_configs output_configs detectors =
     bind_res (pipeline_escalation config) (\<lambda>escalation.
     bind_res (case parse_short_circuit (plc_short_circuit_on (gc_pipeline config)) of
                 Inl e \<Rightarrow> Inl (Pipeline_rejected e) | Inr sc \<Rightarrow> Inr sc) (\<lambda>sc.
     let policies = (\<lambda>d. if gc_flows config \<noteq> [] then explicit_flow_detector_policies config (dict_of resolved) d else Inr []) in
     bind_res (policies Input) (\<lambda>input_policies.
     bind_res (policies Output) (\<lambda>output_policies. Inr
       \<lparr>app_resolver = resolver, app_budgets = budgets, app_bundles = bundles, app_detectors = detectors,
        app_input_configs = input_configs, app_output_configs = output_configs,
        app_engine = configured_engine sc escalation (gc_flows config) (plc_input_flow (gc_pipeline config))
          (plc_output_flow (gc_pipeline config)) resolved (gc_flow_runtime config),
        app_input_policies = input_policies, app_output_policies = output_policies,
        app_ready = (status_issues (Some True) (sd_registry detectors) = [])\<rparr>))))"

definition start_app ::
  "gateway_config \<Rightarrow> (policy_key \<times> node_policy) list \<Rightarrow> (tenant_policy_config \<Rightarrow> detector_factory)
     \<Rightarrow> (direction \<Rightarrow> pystr \<Rightarrow> app_settings \<Rightarrow> detector option) \<Rightarrow> (detector \<Rightarrow> plugin) \<Rightarrow> breaker_heap
     \<Rightarrow> (startup_error + app_state) \<times> life_event list \<times> breaker_heap" where
  "start_app config resolved factory make_detector plugins heap =
     (case tenant_budgets config of
        Inl e \<Rightarrow> (Inl e, [], heap)
      | Inr budgets \<Rightarrow>
          (case start_tenants config (dict_of resolved) factory plugins heap of
             (Inl e, events, heap) \<Rightarrow> (Inl e, events, heap)
           | (Inr (resolver, bundles), events, heap) \<Rightarrow>
               (case stage_configs config (dict_of resolved) heap of
                  Inl e \<Rightarrow> (Inl e, events, heap)
                | Inr (input_configs, output_configs, heap) \<Rightarrow>
                    (case init_detectors plugins make_detector input_configs output_configs of
                       (Inl e, events') \<Rightarrow> (Inl e, events @ events', heap)
                     | (Inr detectors, events') \<Rightarrow>
                         (assemble_app config resolved budgets resolver bundles input_configs output_configs detectors,
                          events @ events', heap)))))"

definition app_shutdown :: "app_state \<Rightarrow> life_event list" where
  "app_shutdown app =
     map Shutdown (map snd (sd_input (app_detectors app)) @ map snd (sd_output (app_detectors app)))
     @ shutdown_bundles (app_bundles app)"

subsection \<open>The answers to exceptions\<close>

datatype app_exception =
    Provider_raised pystr "nat option"
  | Config_raised pystr
  | Safety_blocked direction detection_result
  | Safety_unavailable safety_unavailable
  | Unhandled pystr

definition openai_error :: "pystr \<Rightarrow> pystr \<Rightarrow> pystr option \<Rightarrow> json" where
  "openai_error message kind code =
     JObj [(''error'', JObj [(''message'', JStr message), (''type'', JStr kind), (''param'', JNull),
       (''code'', case code of None \<Rightarrow> JNull | Some c \<Rightarrow> JStr c)])]"

definition exception_answer :: "app_exception \<Rightarrow> nat \<times> json" where
  "exception_answer e =
     (case e of
        Provider_raised message status \<Rightarrow>
          if status = Some 404 then (404, openai_error message ''invalid_request_error'' (Some ''model_not_found''))
          else (502, openai_error message ''provider_error''
                  (case status of None \<Rightarrow> None | Some n \<Rightarrow> if n = 0 then None else Some (''http_'' @ show_nat n)))
      | Config_raised message \<Rightarrow> (500, openai_error ''Internal configuration error'' ''internal_error'' (Some ''config_error''))
      | Safety_blocked d r \<Rightarrow>
          (if d = Input then 400 else 422,
           JObj [(''error'', JObj
             [(''message'', JStr (dr_message r)), (''type'', JStr ''safety_block''),
              (''code'', JStr (if d = Input then ''safety_input_blocked'' else ''safety_output_blocked'')),
              (''safety'', JObj
                [(''detector_name'', JStr (dr_detector_name r)), (''category'', JStr (dr_category r)),
                 (''risk_level'', JStr (risk_str (dr_risk_level r))), (''confidence'', JNum (dr_confidence r)),
                 (''message'', JStr (dr_message r)), (''direction'', JStr (direction_str d))])])])
      | Safety_unavailable u \<Rightarrow>
          (503,
           JObj [(''error'', JObj
             [(''message'', JStr ''Safety detection is temporarily unavailable''), (''type'', JStr ''safety_unavailable''),
              (''code'', JStr ''safety_detector_unavailable''),
              (''safety'', JObj
                [(''affected_directions'', JArr (map JStr (su_affected_directions u))),
                 (''detectors'', JArr (map JStr (su_detectors u)))])])])
      | Unhandled message \<Rightarrow> (500, openai_error ''Internal server error'' ''internal_error'' None))"

end
