(* ===== verification/App_Laws.thy ===== *)
theory App_Laws
  imports App_Startup Startup_Laws
begin

text \<open>
  The start-up of the whole application: what a failed one leaves behind, and what readiness says of
  the detectors of one that succeeded.
\<close>

subsection \<open>One detector\<close>

lemma move_status_total:
  assumes "registry_inv reg" and "map_of reg (d, n) = Some old"
  obtains reg' where "move_status d n st rc x reg = Inr reg'" "registry_inv reg'"
    "map_of reg' = (map_of reg)((d, n) \<mapsto> moved_status st rc x old)"
proof -
  obtain s moved reg' where t: "transition_status d n st rc x reg = Inr (s, moved, reg')"
    using transition_status_total [OF assms(2)] by (metis prod_cases3)
  with transition_status_map [OF t] assms(2) registry_inv_transition [OF assms(1) t] show thesis
    by (intro that [of reg']) (simp_all add: move_status_def)
qed

lemma register_missing_new:
  assumes "registry_inv reg" and "map_of reg (d, n) = None"
  obtains reg' t where "register_missing d n s reg = Inr reg'" "registry_inv reg'" "map_of reg' = (map_of reg)((d, n) \<mapsto> t)"
    "ds_required t = cs_required s" "ds_on_error t = or_default (cfg_on_error (cs_config s)) ''fail_open''"
proof -
  obtain reg' where r: "register_status d n (detector_type_label n s) (cs_required s)
      (or_default (cfg_on_error (cs_config s)) ''fail_open'') (or_default (cfg_timeout_seconds (cs_config s)) 5) reg = Inr reg'"
    using assms(2) by (auto simp: register_status_def)
  with registry_inv_register [OF assms(1) r] assms(2) show thesis
    by (intro that [of reg']) (auto simp: register_missing_def register_status_def update_conv')
qed

text \<open>What a turn may do, when the detector has no status yet.\<close>

definition configured_status :: "app_settings \<Rightarrow> detector_state \<Rightarrow> detector_status \<Rightarrow> bool" where
  "configured_status s state t \<longleftrightarrow>
     ds_required t = cs_required s \<and> ds_on_error t = or_default (cfg_on_error (cs_config s)) ''fail_open''
     \<and> ds_state t = state"

lemma initialize_detector_cases:
  assumes "initialize_detector plugins make_detector d (n, s) st = (r, es)"
    and "registry_inv (is_registry st)" and "map_of (is_registry st) (d, n) = None"
  obtains (optional) reg t where "r = Inr (st\<lparr>is_registry := reg\<rparr>)" "registry_inv reg"
      "map_of reg = (map_of (is_registry st))((d, n) \<mapsto> t)" "configured_status s UNAVAILABLE_STATE t" "\<not> cs_required s"
      "mset (inits es) = mset (shutdowns es)"
  | (required) "r = Inl (Detector_initialization_failed n d)" "cs_required s"
      "mset (shutdowns es) = mset (inits es) + mset (is_initialized st)"
  | (interrupted) "r = Inl Startup_interrupted"
  | (initialized) reg t x where "r = Inr \<lparr>is_registry = reg, is_initialized = is_initialized st @ [x],
        is_detectors = AList.update n x (is_detectors st)\<rparr>" "registry_inv reg"
      "map_of reg = (map_of (is_registry st))((d, n) \<mapsto> t)" "configured_status s HEALTHY t"
      "make_detector n s = Some x" "es = [Initialize x]"
proof -
  obtain reg1 t1 where 1: "register_missing d n s (is_registry st) = Inr reg1" "registry_inv reg1"
    "map_of reg1 = (map_of (is_registry st))((d, n) \<mapsto> t1)" "ds_required t1 = cs_required s"
    "ds_on_error t1 = or_default (cfg_on_error (cs_config s)) ''fail_open''"
    by (rule register_missing_new [OF assms(2,3)]) blast
  obtain reg2 where 2: "move_status d n INITIALIZING None None reg1 = Inr reg2" "registry_inv reg2"
    "map_of reg2 = (map_of reg1)((d, n) \<mapsto> moved_status INITIALIZING None None t1)"
    using move_status_total [OF 1(2), of d n t1 INITIALIZING None None] 1(3) by auto
  note step = assms(1) [unfolded initialize_detector_def Let_def prod.case 1(1) bind_res.simps 2(1) sum.case]
  have failed: thesis
    if f: "failed_detector d n s reg2 es0 st = (r, es)" and es0: "mset (inits es0) = mset (shutdowns es0)" for es0
  proof -
    obtain reg3 where 3: "move_status d n UNAVAILABLE_STATE (Some INITIALIZATION_ERROR) None reg2 = Inr reg3" "registry_inv reg3"
      "map_of reg3 = (map_of reg2)((d, n) \<mapsto> moved_status UNAVAILABLE_STATE (Some INITIALIZATION_ERROR) None
         (moved_status INITIALIZING None None t1))"
      using move_status_total [OF 2(2), of d n "moved_status INITIALIZING None None t1" UNAVAILABLE_STATE "Some INITIALIZATION_ERROR" None] 2(3) by auto
    show thesis
    proof (cases "cs_required s")
      case True
      with f 3(1) es0 show thesis by (intro required) (auto simp: failed_detector_def inits_shutdowns)
    next
      case False
      with f 3 1 2(3) es0 show thesis
        by (intro optional [of reg3 "moved_status UNAVAILABLE_STATE (Some INITIALIZATION_ERROR) None (moved_status INITIALIZING None None t1)"])
           (auto simp: failed_detector_def configured_status_def moved_status_def)
    qed
  qed
  show thesis
  proof (cases "make_detector n s")
    case None
    with step show thesis by (intro failed [of "[]"]) simp_all
  next
    case (Some x)
    show thesis
    proof (cases "pl_initialize (plugins x)")
      case Init_raised
      with step Some show thesis by (intro failed [of "[Initialize x, Shutdown x]"]) simp_all
    next
      case Init_cancelled
      with step Some show thesis by (intro interrupted) auto
    next
      case Init_done
      obtain reg3 where "move_status d n HEALTHY None (Some x) reg2 = Inr reg3" "registry_inv reg3"
        "map_of reg3 = (map_of reg2)((d, n) \<mapsto> moved_status HEALTHY None (Some x) (moved_status INITIALIZING None None t1))"
        using move_status_total [OF 2(2), of d n "moved_status INITIALIZING None None t1" HEALTHY None "Some x"] 2(3) by auto
      with step Some Init_done 1 2(3) show thesis
        by (intro initialized [of reg3 x "moved_status HEALTHY None (Some x) (moved_status INITIALIZING None None t1)"])
           (auto simp: configured_status_def moved_status_def)
    qed
  qed
qed

subsection \<open>All detectors of a direction\<close>

definition settled ::
  "(pystr \<Rightarrow> app_settings \<Rightarrow> detector option) \<Rightarrow> direction \<Rightarrow> app_configs \<Rightarrow> (pystr \<times> detector) list \<Rightarrow> status_registry \<Rightarrow> bool" where
  "settled make_detector d configs started reg \<longleftrightarrow>
     (\<forall>(n, x) \<in> set started. \<exists>s. (n, s) \<in> set configs \<and> make_detector n s = Some x)
     \<and> (\<forall>(n, s) \<in> set configs. \<exists>t. map_of reg (d, n) = Some t
          \<and> (if n \<in> fst ` set started then configured_status s HEALTHY t
             else configured_status s UNAVAILABLE_STATE t \<and> \<not> cs_required s))"

lemma settledI:
  assumes "\<And>n x. (n, x) \<in> set started \<Longrightarrow> \<exists>s. (n, s) \<in> set configs \<and> make_detector n s = Some x"
    and "\<And>n s. (n, s) \<in> set configs \<Longrightarrow> \<exists>t. map_of reg (d, n) = Some t
          \<and> (if n \<in> fst ` set started then configured_status s HEALTHY t
             else configured_status s UNAVAILABLE_STATE t \<and> \<not> cs_required s)"
  shows "settled make_detector d configs started reg"
  unfolding settled_def using assms by blast

lemma settledD:
  assumes "settled make_detector d configs started reg"
  shows "(n, x) \<in> set started \<Longrightarrow> \<exists>s. (n, s) \<in> set configs \<and> make_detector n s = Some x"
    and "(n, s) \<in> set configs \<Longrightarrow> \<exists>t. map_of reg (d, n) = Some t
          \<and> (if n \<in> fst ` set started then configured_status s HEALTHY t
             else configured_status s UNAVAILABLE_STATE t \<and> \<not> cs_required s)"
  using assms unfolding settled_def by blast+

lemma settled_Cons_failed:
  assumes "settled m d configs new reg" and "n \<notin> fst ` set configs" and "map_of reg (d, n) = Some t"
    and "configured_status s UNAVAILABLE_STATE t" and "\<not> cs_required s"
  shows "settled m d ((n, s) # configs) new reg"
proof (rule settledI)
  fix n' x assume "(n', x) \<in> set new"
  from settledD(1) [OF assms(1) this] show "\<exists>s'. (n', s') \<in> set ((n, s) # configs) \<and> m n' s' = Some x" by auto
next
  have out: "n \<notin> fst ` set new" using settledD(1) [OF assms(1)] assms(2) by force
  fix n' s' assume "(n', s') \<in> set ((n, s) # configs)"
  then consider "n' = n" "s' = s" | "(n', s') \<in> set configs" by auto
  then show "\<exists>t. map_of reg (d, n') = Some t
      \<and> (if n' \<in> fst ` set new then configured_status s' HEALTHY t
         else configured_status s' UNAVAILABLE_STATE t \<and> \<not> cs_required s')"
  proof cases
    case 1
    with out assms(3-5) show ?thesis by simp
  next
    case 2
    then show ?thesis by (rule settledD(2) [OF assms(1)])
  qed
qed

lemma settled_Cons_started:
  assumes "settled m d configs new reg" and "n \<notin> fst ` set configs" and "map_of reg (d, n) = Some t"
    and "configured_status s HEALTHY t" and "m n s = Some x"
  shows "settled m d ((n, s) # configs) ((n, x) # new) reg"
proof (rule settledI)
  fix n' x' assume "(n', x') \<in> set ((n, x) # new)"
  then show "\<exists>s'. (n', s') \<in> set ((n, s) # configs) \<and> m n' s' = Some x'"
    using settledD(1) [OF assms(1), of n' x'] assms(5) by auto
next
  fix n' s' assume "(n', s') \<in> set ((n, s) # configs)"
  then consider "n' = n" "s' = s" | "(n', s') \<in> set configs" by auto
  then show "\<exists>t. map_of reg (d, n') = Some t
      \<and> (if n' \<in> fst ` set ((n, x) # new) then configured_status s' HEALTHY t
         else configured_status s' UNAVAILABLE_STATE t \<and> \<not> cs_required s')"
  proof cases
    case 1
    with assms(3,4) show ?thesis by simp
  next
    case 2
    then have "n' \<noteq> n" using assms(2) by force
    then show ?thesis using settledD(2) [OF assms(1) 2] by simp
  qed
qed

text \<open>What the start of one direction leaves, from a state \<open>st\<close>.\<close>

definition direction_started ::
  "(pystr \<Rightarrow> app_settings \<Rightarrow> detector option) \<Rightarrow> direction \<Rightarrow> app_configs \<Rightarrow> init_state \<Rightarrow> life_event list \<Rightarrow> init_state \<Rightarrow> bool" where
  "direction_started make_detector d configs st es st' \<longleftrightarrow>
     mset (inits es) + mset (is_initialized st) = mset (shutdowns es) + mset (is_initialized st')
     \<and> registry_inv (is_registry st')
     \<and> (\<exists>new. is_initialized st' = is_initialized st @ map snd new \<and> is_detectors st' = is_detectors st @ new
          \<and> settled make_detector d configs new (is_registry st'))
     \<and> (\<forall>k. k \<notin> Pair d ` fst ` set configs \<longrightarrow> map_of (is_registry st') k = map_of (is_registry st) k)"

definition direction_failed ::
  "direction \<Rightarrow> app_configs \<Rightarrow> init_state \<Rightarrow> life_event list \<Rightarrow> startup_error \<Rightarrow> bool" where
  "direction_failed d configs st es e \<longleftrightarrow>
     e = Startup_interrupted
     \<or> (\<exists>n s. (n, s) \<in> set configs \<and> cs_required s \<and> e = Detector_initialization_failed n d)
        \<and> mset (shutdowns es) = mset (inits es) + mset (is_initialized st)"

lemma initialize_detectors_spec:
  assumes "initialize_detectors plugins make_detector d configs st = (r, es)"
    and "registry_inv (is_registry st)" and "distinct (map fst configs)"
    and "\<forall>n \<in> fst ` set configs. map_of (is_registry st) (d, n) = None \<and> n \<notin> fst ` set (is_detectors st)"
  shows "case r of Inl e \<Rightarrow> direction_failed d configs st es e | Inr st' \<Rightarrow> direction_started make_detector d configs st es st'"
  using assms
proof (induction configs arbitrary: st es)
  case Nil
  then show ?case by (auto simp: settled_def direction_started_def)
next
  case (Cons entry configs)
  obtain n s where entry: "entry = (n, s)" by (cases entry)
  obtain r1 es1 where 1: "initialize_detector plugins make_detector d (n, s) st = (r1, es1)" by force
  have new: "map_of (is_registry st) (d, n) = None" "n \<notin> fst ` set (is_detectors st)" "n \<notin> fst ` set configs"
    "distinct (map fst configs)"
    using Cons.prems(3,4) by (auto simp: entry)
  show ?case
  proof (rule initialize_detector_cases [OF 1 Cons.prems(2) new(1)])
    fix reg t
    assume c: "r1 = Inr (st\<lparr>is_registry := reg\<rparr>)" "registry_inv reg" "map_of reg = (map_of (is_registry st))((d, n) \<mapsto> t)"
      "configured_status s UNAVAILABLE_STATE t" "\<not> cs_required s" "mset (inits es1) = mset (shutdowns es1)"
    obtain es2 where 2: "initialize_detectors plugins make_detector d configs (st\<lparr>is_registry := reg\<rparr>) = (r, es2)" "es = es1 @ es2"
      using Cons.prems(1) 1 c(1) by (auto simp: entry split: prod.splits)
    have fresh: "\<forall>n \<in> fst ` set configs. map_of (is_registry (st\<lparr>is_registry := reg\<rparr>)) (d, n) = None
        \<and> n \<notin> fst ` set (is_detectors (st\<lparr>is_registry := reg\<rparr>))"
      using c(3) Cons.prems(4) new(3) by (auto simp: entry)
    note IH = Cons.IH [OF 2(1) _ new(4) fresh, simplified, OF c(2)]
    show ?thesis
    proof (cases r)
      case (Inl e)
      with IH c(6) 2(2) show ?thesis by (auto simp: entry direction_failed_def)
    next
      case (Inr st')
      with IH have IH: "direction_started make_detector d configs (st\<lparr>is_registry := reg\<rparr>) es2 st'" by simp
      then obtain more where more: "is_initialized st' = is_initialized st @ map snd more" "is_detectors st' = is_detectors st @ more"
        "settled make_detector d configs more (is_registry st')"
        by (auto simp: direction_started_def)
      have "(d, n) \<notin> Pair d ` fst ` set configs" using new(3) by blast
      then have "map_of (is_registry st') (d, n) = Some t" using IH c(3) by (simp add: direction_started_def)
      then have s: "settled make_detector d ((n, s) # configs) more (is_registry st')"
        by (intro settled_Cons_failed [OF more(3) new(3) _ c(4,5)])
      have "\<forall>k. k \<notin> Pair d ` fst ` set ((n, s) # configs) \<longrightarrow> map_of (is_registry st') k = map_of (is_registry st) k"
        using IH c(3) by (auto simp: direction_started_def)
      moreover have "mset (inits es) + mset (is_initialized st) = mset (shutdowns es) + mset (is_initialized st')"
        using IH c(6) 2(2) by (simp add: direction_started_def)
      ultimately show ?thesis using IH more s unfolding Inr entry sum.case direction_started_def by blast
    qed
  next
    assume "r1 = Inl (Detector_initialization_failed n d)" "cs_required s" "mset (shutdowns es1) = mset (inits es1) + mset (is_initialized st)"
    then show ?thesis using Cons.prems(1) 1 by (auto simp: entry direction_failed_def)
  next
    assume "r1 = Inl Startup_interrupted"
    then show ?thesis using Cons.prems(1) 1 by (auto simp: entry direction_failed_def)
  next
    fix reg t x
    assume c: "r1 = Inr \<lparr>is_registry = reg, is_initialized = is_initialized st @ [x],
        is_detectors = AList.update n x (is_detectors st)\<rparr>" "registry_inv reg"
      "map_of reg = (map_of (is_registry st))((d, n) \<mapsto> t)" "configured_status s HEALTHY t"
      "make_detector n s = Some x" "es1 = [Initialize x]"
    have app: "AList.update n x (is_detectors st) = is_detectors st @ [(n, x)]" using new(2) by (simp add: update_new)
    let ?st = "\<lparr>is_registry = reg, is_initialized = is_initialized st @ [x], is_detectors = is_detectors st @ [(n, x)]\<rparr>"
    obtain es2 where 2: "initialize_detectors plugins make_detector d configs ?st = (r, es2)" "es = es1 @ es2"
      using Cons.prems(1) 1 c(1) app by (auto simp: entry split: prod.splits)
    have fresh: "\<forall>n \<in> fst ` set configs. map_of (is_registry ?st) (d, n) = None \<and> n \<notin> fst ` set (is_detectors ?st)"
      using c(3) Cons.prems(3,4) new(3) by (auto simp: entry)
    note IH = Cons.IH [OF 2(1) _ new(4) fresh, simplified, OF c(2)]
    show ?thesis
    proof (cases r)
      case (Inl e)
      with IH c(6) 2(2) show ?thesis by (auto simp: entry direction_failed_def)
    next
      case (Inr st')
      with IH have IH: "direction_started make_detector d configs ?st es2 st'" by simp
      then obtain more where more: "is_initialized st' = (is_initialized st @ [x]) @ map snd more"
        "is_detectors st' = (is_detectors st @ [(n, x)]) @ more" "settled make_detector d configs more (is_registry st')"
        by (auto simp: direction_started_def)
      have "(d, n) \<notin> Pair d ` fst ` set configs" using new(3) by blast
      then have "map_of (is_registry st') (d, n) = Some t" using IH c(3) by (simp add: direction_started_def)
      then have s: "settled make_detector d ((n, s) # configs) ((n, x) # more) (is_registry st')"
        by (intro settled_Cons_started [OF more(3) new(3) _ c(4,5)])
      have "\<forall>k. k \<notin> Pair d ` fst ` set ((n, s) # configs) \<longrightarrow> map_of (is_registry st') k = map_of (is_registry st) k"
        using IH c(3) by (auto simp: direction_started_def)
      moreover have "mset (inits es) + mset (is_initialized st) = mset (shutdowns es) + mset (is_initialized st')"
        using IH c(6) 2(2) by (simp add: direction_started_def ac_simps)
      moreover have "is_initialized st' = is_initialized st @ map snd ((n, x) # more)"
        "is_detectors st' = is_detectors st @ (n, x) # more" using more by simp_all
      ultimately show ?thesis using IH s unfolding Inr entry sum.case direction_started_def by blast
    qed
  qed
qed


lemma init_detectors_spec:
  assumes "init_detectors plugins make_detector ic oc = (r, es)" and "distinct (map fst ic)" and "distinct (map fst oc)"
  shows "case r of
      Inl e \<Rightarrow> e = Startup_interrupted \<or> (\<exists>n d. e = Detector_initialization_failed n d) \<and> mset (inits es) = mset (shutdowns es)
    | Inr sd \<Rightarrow> mset (inits es) = mset (shutdowns es) + mset (map snd (sd_input sd)) + mset (map snd (sd_output sd))
        \<and> registry_inv (sd_registry sd)
        \<and> settled (make_detector Input) Input ic (sd_input sd) (sd_registry sd)
        \<and> settled (make_detector Output) Output oc (sd_output sd) (sd_registry sd)
        \<and> fst ` set (sd_registry sd) = Pair Input ` fst ` set ic \<union> Pair Output ` fst ` set oc"
proof -
  let ?st = "\<lparr>is_registry = [], is_initialized = [], is_detectors = []\<rparr>"
  obtain r1 es1 where 1: "initialize_detectors plugins (make_detector Input) Input ic ?st = (r1, es1)" by force
  have spec1: "case r1 of Inl e \<Rightarrow> direction_failed Input ic ?st es1 e | Inr st' \<Rightarrow> direction_started (make_detector Input) Input ic ?st es1 st'"
    by (rule initialize_detectors_spec [OF 1 _ assms(2)]) (simp_all add: registry_inv_def)
  show ?thesis
  proof (cases r1)
    case (Inl e)
    with assms(1) 1 spec1 show ?thesis by (auto simp: init_detectors_def direction_failed_def)
  next
    case (Inr st)
    note started = spec1 [unfolded Inr sum.case direction_started_def, simplified]
    let ?st2 = "st\<lparr>is_detectors := []\<rparr>"
    obtain r2 es2 where 2: "initialize_detectors plugins (make_detector Output) Output oc ?st2 = (r2, es2)" by force
    have fresh: "\<forall>n \<in> fst ` set oc. map_of (is_registry ?st2) (Output, n) = None \<and> n \<notin> fst ` set (is_detectors ?st2)"
      using started by auto
    have spec2: "case r2 of Inl e \<Rightarrow> direction_failed Output oc ?st2 es2 e
        | Inr st' \<Rightarrow> direction_started (make_detector Output) Output oc ?st2 es2 st'"
      by (rule initialize_detectors_spec [OF 2 _ assms(3) fresh]) (use started in simp)
    show ?thesis
    proof (cases r2)
      case (Inl e)
      then have "r = Inl e" "es = es1 @ es2" using assms(1) 1 Inr 2 by (auto simp: init_detectors_def)
      with spec2 Inl started show ?thesis by (auto simp: direction_failed_def ac_simps)
    next
      case second: (Inr st')
      note ended = spec2 [unfolded second sum.case direction_started_def, simplified]
      have r: "r = Inr \<lparr>sd_input = is_detectors st, sd_output = is_detectors st', sd_registry = is_registry st'\<rparr>" "es = es1 @ es2"
        using assms(1) 1 Inr 2 second by (auto simp: init_detectors_def)
      have other: "map_of (is_registry st') (Input, n) = map_of (is_registry st) (Input, n)" for n using ended by auto
      have first: "settled (make_detector Input) Input ic (is_detectors st) (is_registry st')"
        using started unfolding settled_def other by blast
      have later: "settled (make_detector Output) Output oc (is_detectors st') (is_registry st')" using ended by blast
      have keys: "fst ` set (is_registry st') = Pair Input ` fst ` set ic \<union> Pair Output ` fst ` set oc"
      proof (rule set_eqI)
        fix k
        have "k \<in> fst ` set (is_registry st') \<longleftrightarrow> map_of (is_registry st') k \<noteq> None" by (simp add: map_of_eq_None_iff)
        moreover have "k \<in> Pair Input ` fst ` set ic \<Longrightarrow> map_of (is_registry st') k \<noteq> None"
          "k \<in> Pair Output ` fst ` set oc \<Longrightarrow> map_of (is_registry st') k \<noteq> None"
          using settledD(2) [OF first] settledD(2) [OF later] by fastforce+
        moreover have "k \<notin> Pair Input ` fst ` set ic \<union> Pair Output ` fst ` set oc \<Longrightarrow> map_of (is_registry st') k = None"
          using started ended by (cases k) auto
        ultimately show "k \<in> fst ` set (is_registry st') \<longleftrightarrow> k \<in> Pair Input ` fst ` set ic \<union> Pair Output ` fst ` set oc"
          unfolding Un_iff by argo
      qed
      have "mset (inits es) = mset (shutdowns es) + mset (map snd (is_detectors st)) + mset (map snd (is_detectors st'))"
        using started ended unfolding r(2) by (auto simp: ac_simps)
      with first later keys ended show ?thesis unfolding r(1) by simp
    qed
  qed
qed

subsection \<open>The settings of a stage\<close>

lemma extracted_distinct: "extract_detector_configs t ds heap = Inr (configs, heap') \<Longrightarrow> distinct (map fst configs)"
  unfolding extract_detector_configs_def
  by (drule fold_res_invariant [where P = "\<lambda>(configs, _). distinct (map fst configs)"])
     (auto simp: extract_detector_config_def res_simps distinct_update split: if_splits)

lemma explicit_distinct: "explicit_flow_detector_configs config resolved d heap = Inr (configs, heap') \<Longrightarrow> distinct (map fst configs)"
  unfolding explicit_flow_detector_configs_def
  by (cases "stage_reference config d"; simp; drule fold_res_invariant [where P = "\<lambda>(configs, _). distinct (map fst configs)"])
     (auto simp: explicit_node_def res_simps distinct_update Let_def split: if_splits visit.splits option.splits)

lemma stage_configs_distinct:
  "stage_configs config resolved heap = Inr (ic, oc, heap') \<Longrightarrow> distinct (map fst ic) \<and> distinct (map fst oc)"
  by (auto simp: stage_configs_def res_simps split: if_splits dest: extracted_distinct explicit_distinct)

lemma explicit_policies_total:
  assumes "explicit_flow_detector_configs config resolved d heap = Inr out"
  shows "\<exists>ps. explicit_flow_detector_policies config resolved d = Inr ps"
proof (cases "stage_reference config d")
  case None
  then show ?thesis by (simp add: explicit_flow_detector_policies_def)
next
  case (Some key)
  with assms have fold: "fold_res (explicit_node config resolved) (traverse (gc_flows config) [key]) ([], heap) = Inr out"
    by (simp add: explicit_flow_detector_configs_def)
  have "\<exists>t. explicit_policy resolved v s = Inr t" if "v \<in> set (traverse (gc_flows config) [key])" for v s
  proof -
    from fold_res_each [OF fold that] obtain acc acc' where node: "explicit_node config resolved v acc = Inr acc'" by blast
    show ?thesis
    proof (cases v)
      case (Capability_met f n)
      with node have "resolved (fd_flow_id f, fd_version f, cn_node_id n) \<noteq> None"
        by (cases acc; cases "resolved (fd_flow_id f, fd_version f, cn_node_id n)") (auto simp: explicit_node_def Let_def split: if_splits)
      with Capability_met show ?thesis by (auto simp: explicit_policy_def)
    qed (use node in \<open>simp_all add: explicit_node_def explicit_policy_def split: prod.splits\<close>)
  qed
  then have "\<exists>ps. fold_res (explicit_policy resolved) (traverse (gc_flows config) [key]) [] = Inr ps" by (rule fold_res_total)
  with Some show ?thesis by (simp add: explicit_flow_detector_policies_def)
qed

lemma stage_policies_total:
  assumes "stage_configs config resolved heap = Inr (ic, oc, heap')" and "gc_flows config \<noteq> []"
  shows "\<exists>ps. explicit_flow_detector_policies config resolved d = Inr ps"
proof -
  obtain out1 out2 where "explicit_flow_detector_configs config resolved Input heap = Inr out1"
    "\<exists>heap. explicit_flow_detector_configs config resolved Output heap = Inr out2"
    using assms by (force simp: stage_configs_def res_simps)
  then show ?thesis using explicit_policies_total by (cases d) blast+
qed

text \<open>Assembly fails on the escalation rule alone.\<close>

lemma assemble_app_total:
  assumes "check_pipeline (gc_pipeline config) = Inr ()" and "stage_configs config (dict_of resolved) heap = Inr (ic, oc, heap')"
  shows "(\<exists>e. pipeline_escalation config = Inl (Escalation_unparsable e)
        \<and> assemble_app config resolved budgets resolver bundles ic oc sd = Inl (Escalation_unparsable e))
    \<or> (\<exists>app. assemble_app config resolved budgets resolver bundles ic oc sd = Inr app
        \<and> app_bundles app = bundles \<and> app_detectors app = sd \<and> app_input_configs app = ic \<and> app_output_configs app = oc
        \<and> app_ready app = (status_issues (Some True) (sd_registry sd) = []))"
proof -
  have sc: "\<exists>sc. parse_short_circuit (plc_short_circuit_on (gc_pipeline config)) = Inr sc"
    using assms(1) by (auto simp: check_pipeline_def one_of_def parse_short_circuit_def res_simps guard_res_def split: if_splits)
  have policies: "\<exists>ps. (if gc_flows config \<noteq> [] then explicit_flow_detector_policies config (dict_of resolved) d else Inr []) = Inr ps" for d
    using stage_policies_total [OF assms(2)] by simp
  obtain sc ip op where "parse_short_circuit (plc_short_circuit_on (gc_pipeline config)) = Inr sc"
    "(if gc_flows config \<noteq> [] then explicit_flow_detector_policies config (dict_of resolved) Input else Inr []) = Inr ip"
    "(if gc_flows config \<noteq> [] then explicit_flow_detector_policies config (dict_of resolved) Output else Inr []) = Inr op"
    using sc policies [of Input] policies [of Output] by blast
  note parts = this
  have "(\<exists>e. pipeline_escalation config = Inl (Escalation_unparsable e)) \<or> (\<exists>r. pipeline_escalation config = Inr r)"
    by (auto simp: pipeline_escalation_def split: option.split sum.split)
  then show ?thesis
    unfolding assemble_app_def parts(1) by (auto simp: parts(2,3) Let_def simp del: if_not_P split del: if_split)
qed

subsection \<open>Tenants without Flows\<close>

lemma no_flows_no_detectors:
  assumes "gc_flows config = []" and "compile_policy config resolved factory plugins p heap = (r, es, heap')"
  shows "inits es = []"
proof (cases "select_policy config resolved p")
  case (Inl e)
  then show ?thesis using assms(2) by (simp add: compile_policy_def)
next
  case (Inr sel)
  have missing: "traverse [] [key] = [Missing_flow key]" for key by (simp add: traverse_def find_flow_def)
  have "sel_nodes sel d = []" "sel_capabilities sel = []" for d
    using Inr assms(1)
    by (cases d; auto simp: select_policy_def Let_def res_simps detector_nodes_def directed_nodes_def missing
        split: option.splits if_splits)+
  then show ?thesis using assms(2) Inr
    by (auto simp: compile_policy_def sorted_set_def directed_nodes_def start_policy_def new_compilation_def new_coordinator_def
        initialize_all_def shutdown_all_eq split: sum.splits prod.splits)
qed

lemma no_flows_nothing_runs:
  assumes "gc_flows config = []" and "compile_policies config resolved factory plugins ps made heap = (r, es, heap')"
  shows "inits es = []"
  using assms(2)
proof (induction ps arbitrary: made heap es)
  case (Cons p ps)
  obtain rp ep hp where p: "compile_policy config resolved (factory p) plugins p heap = (rp, ep, hp)" by (metis prod_cases3)
  note none = no_flows_no_detectors [OF assms(1) p]
  show ?case
  proof (cases rp)
    case (Inl e)
    with Cons.prems p none show ?thesis by auto
  next
    case (Inr b)
    obtain rr er hr where rest: "compile_policies config resolved factory plugins ps (made @ [b]) hp = (rr, er, hr)" by (metis prod_cases3)
    with Cons.prems p Inr have "es = ep @ er" "rr = r" "hr = heap'" by auto
    with Cons.IH [of "made @ [b]" hp er] rest none show ?thesis by simp
  qed
qed simp

subsection \<open>The whole application\<close>

text \<open>What \<open>start_app\<close> went through before it answered.\<close>

lemma started_app:
  assumes "start_app config resolved factory make_detector plugins heap = (Inr app, events, heap')"
  obtains resolver bundles es1 ic oc sd es2 heap1 heap2 where
    "start_tenants config (dict_of resolved) factory plugins heap = (Inr (resolver, bundles), es1, heap1)"
    "stage_configs config (dict_of resolved) heap1 = Inr (ic, oc, heap2)"
    "init_detectors plugins make_detector ic oc = (Inr sd, es2)" "events = es1 @ es2"
    "app_bundles app = bundles" "app_detectors app = sd" "app_input_configs app = ic" "app_output_configs app = oc"
    "app_ready app \<longleftrightarrow> status_issues (Some True) (sd_registry sd) = []"
  using assms
  by (auto simp: start_app_def assemble_app_def Let_def res_simps split: sum.splits prod.splits intro: that)

lemma app_shutdown_released:
  "mset (shutdowns (app_shutdown app)) = mset (map snd (sd_input (app_detectors app)))
     + mset (map snd (sd_output (app_detectors app))) + running (app_bundles app)"
  unfolding app_shutdown_def shutdowns_append shutdowns_map mset_append shutdown_bundles_running by (rule refl)

lemma start_tenants_balance:
  assumes "start_tenants config resolved factory plugins heap = (r, es, heap')"
  shows "case r of Inl _ \<Rightarrow> mset (inits es) \<subseteq># mset (shutdowns es)
    | Inr (resolver, bundles) \<Rightarrow> mset (inits es) = mset (shutdowns es) + running bundles"
proof (cases "tyc_enabled (gc_tenancy config)")
  case False
  with assms show ?thesis by (auto simp: start_tenants_def Let_def)
next
  case True
  obtain rc ec hc where c: "compile_policies config resolved factory plugins (tyc_policies (gc_tenancy config)) [] heap = (rc, ec, hc)"
    by (metis prod_cases3)
  note balance = compile_policies_balance [OF c]
  with assms c True show ?thesis
    by (cases rc) (auto simp: start_tenants_def Let_def shutdown_bundles_running split: sum.splits)
qed

text \<open>With tenants there is nothing else to start, and without them there are no bundles.\<close>

lemma start_tenants_quiet:
  assumes "start_tenants config resolved factory plugins heap = (Inr (resolver, bundles), es, heap')"
    and "gc_flows config = [] \<or> tyc_policies (gc_tenancy config) = []"
  shows "inits es = []"
proof -
  obtain rc ec hc where c: "compile_policies config resolved factory plugins (tyc_policies (gc_tenancy config)) [] heap = (rc, ec, hc)"
    by (metis prod_cases3)
  have "inits ec = []" using assms(2) no_flows_nothing_runs [OF _ c] c by auto
  with assms(1) c show ?thesis by (auto simp: start_tenants_def Let_def split: if_splits sum.splits)
qed

lemma no_sources_no_configs:
  assumes "no_global_sources config" and "gc_flows config \<noteq> []"
  shows "stage_configs config resolved heap = Inr ([], [], heap)"
  using assms by (simp add: stage_configs_def explicit_flow_detector_configs_def no_global_sources_def stage_reference_def)

lemma no_sources_empty:
  assumes "no_global_sources config" and "stage_configs config resolved heap = Inr (ic, oc, heap')"
  shows "ic = [] \<and> oc = []"
proof (cases "gc_flows config = []")
  case True
  with assms show ?thesis
    by (auto simp: stage_configs_def no_global_sources_def extract_detector_configs_def res_simps)
next
  case False
  with assms no_sources_no_configs show ?thesis by simp
qed

text \<open>
  An escalation rule the engine's parser rejects is noticed when everything else runs, and nothing of
  it is shut down.
\<close>

lemma escalation_leaks:
  assumes "tenant_budgets config = Inr budgets"
    and "start_tenants config (dict_of resolved) factory plugins heap = (Inr (resolver, bundles), es1, heap1)"
    and "stage_configs config (dict_of resolved) heap1 = Inr (ic, oc, heap2)"
    and "init_detectors plugins make_detector ic oc = (Inr sd, es2)"
    and "pipeline_escalation config = Inl e"
  shows "start_app config resolved factory make_detector plugins heap = (Inl e, es1 @ es2, heap2)
    \<and> mset (inits (es1 @ es2)) = mset (shutdowns (es1 @ es2)) + running bundles
        + mset (map snd (sd_input sd)) + mset (map snd (sd_output sd))"
  using assms start_tenants_balance [OF assms(2)] init_detectors_spec [OF assms(4)] stage_configs_distinct [OF assms(3)]
  by (simp add: start_app_def assemble_app_def ac_simps)

end
