(* ===== verification/App_Properties.thy ===== *)
theory App_Properties
  imports App_Laws Startup_Samples
begin

text \<open>
  The properties of the start of the application, and the sample configuration started.
\<close>

subsection \<open>A configuration without tenants\<close>

definition solo_detector :: detector_settings where
  "solo_detector =
     \<lparr>dtc_name = ''pii_redaction'', dtc_type = [], dtc_enabled = True, dtc_required = True, dtc_priority = 10,
      dtc_on_error = ''fail_closed'', dtc_circuit_breaker = None, dtc_config = [], dtc_timeout = None, dtc_fields_set = []\<rparr>"

definition solo_config :: gateway_config where
  "solo_config = screen_config
     \<lparr>gc_pipeline := \<lparr>plc_short_circuit_on = ''block'', plc_sync_timeout = ''5s'', plc_flag_escalation = None,
        plc_input_flow = None, plc_output_flow = None, plc_input_detectors = [solo_detector], plc_output_detectors = [],
        plc_fields_set = []\<rparr>,
      gc_tenancy := \<lparr>tyc_enabled = False, tyc_tenants = [], tyc_policies = []\<rparr>,
      gc_api_keys := [], gc_auth_enabled := False, gc_flows := []\<rparr>"

lemma solo_checked: "check_gateway_config solo_config = Inr []"
proof -
  have flows: "validate_flow_configuration solo_config = Inr []"
    by (simp add: solo_config_def screen_config_def validate_flow_configuration_def Let_def flow_contract_registry_def
        index_capabilities_def index_flows_def validate_bindings_def validate_graphs_def check_reference_def flow_nodes_def)
  show ?thesis
    using screen_fields(4,5) flows
    by (simp add: check_gateway_config_def solo_config_def screen_config_def check_pipeline_def one_of_def check_detector_def
        solo_detector_def guard_res_def)
qed

lemma solo_accepted: "accepted [] (\<lambda>_. None) solo_config []"
proof -
  have "validate_tenancy solo_config = Inr ()"
    by (simp add: solo_config_def validate_tenancy_def)
  moreover have "validate_tenant_policies solo_config = Inr ()" by (simp add: solo_config_def validate_tenant_policies_def)
  moreover have "validate_flag_escalation solo_config = Inr ()" by (simp add: solo_config_def validate_flag_escalation_def)
  moreover have "validate_providers solo_config = Inr ()"
    by (simp add: solo_config_def screen_config_def validate_providers_def validate_provider_def provider_types_requiring_api_version_def)
  moreover have "\<exists>ws. validate_routing solo_config = Inr ws"
    by (simp add: solo_config_def screen_config_def validate_routing_def)
  moreover have "\<exists>ws. validate_detectors [] (\<lambda>_. None) solo_config = Inr ws"
    by (simp add: solo_config_def solo_detector_def screen_config_def validate_detectors_def all_detectors_def validate_detector_def
        validate_required_policy_def validate_thresholds_def check_threshold_pair_def setting_def json_number_def
        validate_detector_name_def builtin_detector_names_def guard_res_def validate_grpc_detector_def
        validate_word_list_file_def)
  ultimately show ?thesis using solo_checked by (auto simp: accepted_def validate_config_def)
qed

lemma solo_started:
  "\<exists>app heap. start_app solo_config [] (\<lambda>_. screen_factory) (\<lambda>_ _ _. Some screen_detector) healthy_plugins (0, \<lambda>_. circuit_breaker 1 1 [])
      = (Inr app, [Initialize screen_detector], heap)
    \<and> sd_input (app_detectors app) = [(''pii_redaction'', screen_detector)] \<and> app_ready app"
proof -
  have duration: "duration_seconds ''5s'' = Inr 5" by code_simp
  have budgets: "tenant_budgets solo_config = Inr []"
    by (simp add: tenant_budgets_def solo_config_def screen_config_def check_budget_def default_budget_def Let_def)
  have tenants: "start_tenants solo_config resolved factory plugins heap
      = (Inr (make_resolver False [] [], []), [], heap)" for resolved factory plugins heap
    by (simp add: start_tenants_def Let_def solo_config_def identity_tenant_bundles_def)
  have configs: "\<exists>c. stage_configs solo_config resolved heap = Inr ([(''pii_redaction'', c)], [], heap)
      \<and> cs_required c \<and> cfg_on_error (cs_config c) = Some ''fail_closed'' \<and> cfg_timeout_seconds (cs_config c) = Some 5" for resolved heap
    by (cases heap) (simp add: stage_configs_def solo_config_def screen_config_def duration extract_detector_configs_def
      extract_detector_config_def solo_detector_def resolve_timeout_seconds_def build_breaker_def)
  obtain c where c: "stage_configs solo_config (dict_of []) (0, \<lambda>_. circuit_breaker 1 1 []) = Inr ([(''pii_redaction'', c)], [], (0, \<lambda>_. circuit_breaker 1 1 []))"
    "cs_required c" "cfg_on_error (cs_config c) = Some ''fail_closed''" "cfg_timeout_seconds (cs_config c) = Some 5"
    using configs by blast
  have one: "\<exists>reg. initialize_detector healthy_plugins (\<lambda>_ _. Some screen_detector) Input (''pii_redaction'', c)
        \<lparr>is_registry = [], is_initialized = [], is_detectors = []\<rparr>
      = (Inr \<lparr>is_registry = reg, is_initialized = [screen_detector], is_detectors = [(''pii_redaction'', screen_detector)]\<rparr>,
         [Initialize screen_detector])
      \<and> status_issues (Some True) reg = []"
    by (simp add: initialize_detector_def register_missing_def register_status_def move_status_def Let_def
        transition_status_def moved_status_def healthy_plugins_def c or_default_def status_issues_def snapshot_statuses_def has_issue_def)
  then obtain sd where sd: "init_detectors healthy_plugins (\<lambda>_ _ _. Some screen_detector) [(''pii_redaction'', c)] [] = (Inr sd, [Initialize screen_detector])"
    "sd_input sd = [(''pii_redaction'', screen_detector)]" "status_issues (Some True) (sd_registry sd) = []"
    by (auto simp: init_detectors_def)
  have pipeline: "check_pipeline (gc_pipeline solo_config) = Inr ()" using solo_checked by (auto simp: check_gateway_config_def res_simps)
  have "pipeline_escalation solo_config = Inr None" by (simp add: pipeline_escalation_def solo_config_def)
  with assemble_app_total [OF pipeline c(1), of "[]" "make_resolver False [] []" "[]" sd] obtain app where
    "assemble_app solo_config [] [] (make_resolver False [] []) [] [(''pii_redaction'', c)] [] sd = Inr app"
    "app_detectors app = sd" "app_ready app"
    using sd(3) by auto
  with budgets tenants c(1) sd show ?thesis by (simp add: start_app_def)
qed

subsection \<open>The properties\<close>

text \<open>C10. The start-up of the application is all or nothing: when an accepted configuration starts, the
  detectors that were initialized and not yet shut down, its own and those of every tenant, are exactly
  those the shutdown of the application releases; when it does not, every detector that was initialized
  has been shut down as often, unless the start-up was interrupted or it was the pipeline's escalation
  rule that did not parse, which is read after everything has started. A configuration with tenant
  policies is one that was loaded, so it has no stages and detectors of its own.\<close>

theorem app_start_all_or_nothing:
  assumes "accepted plugin_names is_file config resolved"
    and "tyc_policies (gc_tenancy config) \<noteq> [] \<Longrightarrow> no_global_sources config"
    and "start_app config resolved factory make_detector plugins heap = (result, events, heap')"
  shows "case result of
      Inr app \<Rightarrow> mset (inits events) = mset (shutdowns (events @ app_shutdown app))
    | Inl e \<Rightarrow> e = Startup_interrupted \<or> (\<exists>r. e = Escalation_unparsable r) \<or> mset (inits events) \<subseteq># mset (shutdowns events)"
proof (cases "tenant_budgets config")
  case (Inl e)
  then show ?thesis using assms(3) by (auto simp: start_app_def)
next
  case budgets: (Inr budgets)
  have pipeline: "check_pipeline (gc_pipeline config) = Inr ()"
    using accepted_parts(1) [OF assms(1)] by (auto simp: check_gateway_config_def res_simps)
  obtain rt es1 heap1 where tenants: "start_tenants config (dict_of resolved) factory plugins heap = (rt, es1, heap1)"
    by (metis prod_cases3)
  note balance = start_tenants_balance [OF tenants]
  show ?thesis
  proof (cases rt)
    case (Inl e)
    then show ?thesis using assms(3) budgets tenants balance by (auto simp: start_app_def)
  next
    case (Inr rb)
    obtain resolver bundles where rb: "rb = (resolver, bundles)" by force
    note up = tenants [unfolded Inr rb]
    show ?thesis
    proof (cases "stage_configs config (dict_of resolved) heap1")
      case (Inl e)
      have "gc_flows config = [] \<or> tyc_policies (gc_tenancy config) = []"
        using no_sources_no_configs [OF assms(2), of "dict_of resolved" heap1] Inl by fastforce
      then have "inits es1 = []" by (rule start_tenants_quiet [OF up])
      then show ?thesis using assms(3) budgets up Inl by (auto simp: start_app_def)
    next
      case configs: (Inr out)
      obtain ic oc heap2 where out: "out = (ic, oc, heap2)" by (metis prod_cases3)
      note configs = configs [unfolded out]
      obtain ri es2 where init: "init_detectors plugins make_detector ic oc = (ri, es2)" by force
      note detectors = init_detectors_spec [OF init] stage_configs_distinct [OF configs]
      show ?thesis
      proof (cases ri)
        case (Inl e)
        then have "ic \<noteq> [] \<or> oc \<noteq> []" using init by (auto simp: init_detectors_def)
        then have "tyc_policies (gc_tenancy config) = []" using no_sources_empty [OF assms(2) configs] by blast
        then have "inits es1 = []" using start_tenants_quiet [OF up] by blast
        then show ?thesis using assms(3) budgets up configs init Inl detectors by (auto simp: start_app_def)
      next
        case sd: (Inr sd)
        from assemble_app_total [OF pipeline configs, of budgets resolver bundles sd] show ?thesis
          using assms(3) budgets up configs init sd detectors balance [unfolded Inr rb]
          by (auto simp: start_app_def app_shutdown_released ac_simps)
      qed
    qed
  qed
qed

theorem app_start_all_or_nothing_witness:
  "\<exists>app heap. start_app solo_config [] (\<lambda>_. screen_factory) (\<lambda>_ _ _. Some screen_detector) healthy_plugins (0, \<lambda>_. circuit_breaker 1 1 [])
      = (Inr app, [Initialize screen_detector], heap)
    \<and> mset (shutdowns (app_shutdown app)) = {# screen_detector #}"
proof -
  obtain app heap where started: "start_app solo_config [] (\<lambda>_. screen_factory) (\<lambda>_ _ _. Some screen_detector) healthy_plugins
      (0, \<lambda>_. circuit_breaker 1 1 []) = (Inr app, [Initialize screen_detector], heap)" using solo_started by blast
  from app_start_all_or_nothing [OF solo_accepted _ started] started show ?thesis by (simp add: solo_config_def)
qed

text \<open>The settings of a stage and its detectors.\<close>

definition stage_detectors :: "app_state \<Rightarrow> direction \<Rightarrow> app_configs \<times> (pystr \<times> detector) list" where
  "stage_detectors app d =
     (case d of Input \<Rightarrow> (app_input_configs app, sd_input (app_detectors app))
      | Output \<Rightarrow> (app_output_configs app, sd_output (app_detectors app)))"

text \<open>C13. Readiness says what it means: once the application has started, every detector configured for a stage
  has a status, healthy when it was started and unavailable when it was not, the required ones are
  healthy, and the application reports itself ready exactly when every detector that is required or
  configured to fail closed has been started.\<close>

theorem started_app_ready:
  assumes "start_app config resolved factory make_detector plugins heap = (Inr app, events, heap')"
  shows "(\<forall>d n s. (n, s) \<in> set (fst (stage_detectors app d)) \<longrightarrow>
        (\<exists>t. map_of (sd_registry (app_detectors app)) (d, n) = Some t
          \<and> (if n \<in> fst ` set (snd (stage_detectors app d)) then configured_status s HEALTHY t
             else configured_status s UNAVAILABLE_STATE t \<and> \<not> cs_required s)))
    \<and> (app_ready app \<longleftrightarrow> (\<forall>d n s. (n, s) \<in> set (fst (stage_detectors app d)) \<longrightarrow>
          cs_required s \<or> cfg_on_error (cs_config s) = Some ''fail_closed'' \<longrightarrow>
          n \<in> fst ` set (snd (stage_detectors app d))))"
proof -
  obtain resolver bundles es1 ic oc sd es2 heap1 heap2 where
    configs: "stage_configs config (dict_of resolved) heap1 = Inr (ic, oc, heap2)"
    and init: "init_detectors plugins make_detector ic oc = (Inr sd, es2)"
    and app: "app_detectors app = sd" "app_input_configs app = ic" "app_output_configs app = oc"
      "app_ready app \<longleftrightarrow> status_issues (Some True) (sd_registry sd) = []"
    by (rule started_app [OF assms])
  note spec = init_detectors_spec [OF init] stage_configs_distinct [OF configs]
  have reg: "registry_inv (sd_registry sd)"
    and keys: "fst ` set (sd_registry sd) = Pair Input ` fst ` set ic \<union> Pair Output ` fst ` set oc"
    using spec by auto
  have stage: "\<exists>t. map_of (sd_registry sd) (d, n) = Some t
      \<and> (if n \<in> fst ` set (snd (stage_detectors app d)) then configured_status s HEALTHY t
         else configured_status s UNAVAILABLE_STATE t \<and> \<not> cs_required s)"
    if "(n, s) \<in> set (fst (stage_detectors app d))" for d n s
  proof (cases d)
    case Input
    then have "settled (make_detector Input) Input ic (snd (stage_detectors app d)) (sd_registry sd)" "(n, s) \<in> set ic"
      using spec that by (auto simp: stage_detectors_def app)
    from settledD(2) [OF this] Input show ?thesis by simp
  next
    case Output
    then have "settled (make_detector Output) Output oc (snd (stage_detectors app d)) (sd_registry sd)" "(n, s) \<in> set oc"
      using spec that by (auto simp: stage_detectors_def app)
    from settledD(2) [OF this] Output show ?thesis by simp
  qed
  have configured: "\<exists>s. (n, s) \<in> set (fst (stage_detectors app d))" if "map_of (sd_registry sd) (d, n) = Some t" for d n t
  proof -
    have "(d, n) \<in> fst ` set (sd_registry sd)" using that by (metis map_of_SomeD fst_conv imageI)
    then show ?thesis unfolding keys by (cases d) (auto simp: stage_detectors_def app)
  qed
  have strict: "is_strict t \<longleftrightarrow> cs_required s \<or> cfg_on_error (cs_config s) = Some ''fail_closed''"
    if "configured_status s state t" for s t state
    using that by (auto simp: configured_status_def is_strict_def or_default_def split: option.splits)
  have "app_ready app \<longleftrightarrow> (\<forall>d n t. map_of (sd_registry sd) (d, n) = Some t \<longrightarrow> \<not> (has_issue t \<and> is_strict t))"
    using reg unfolding app(4) registry_inv_def
    by (auto simp: status_issues_def snapshot_statuses_def Let_def filter_empty_conv map_of_eq_Some_iff)
  also have "\<dots> \<longleftrightarrow> (\<forall>d n s. (n, s) \<in> set (fst (stage_detectors app d)) \<longrightarrow>
          cs_required s \<or> cfg_on_error (cs_config s) = Some ''fail_closed'' \<longrightarrow> n \<in> fst ` set (snd (stage_detectors app d)))"
    (is "?l \<longleftrightarrow> ?r")
  proof
    assume ?l
    show ?r
    proof (intro allI impI, rule ccontr)
      fix d n s assume n: "(n, s) \<in> set (fst (stage_detectors app d))" "cs_required s \<or> cfg_on_error (cs_config s) = Some ''fail_closed''"
        "n \<notin> fst ` set (snd (stage_detectors app d))"
      from stage [OF n(1)] n(3) obtain t where t: "map_of (sd_registry sd) (d, n) = Some t" "configured_status s UNAVAILABLE_STATE t"
        by auto
      have "is_strict t" using strict [OF t(2)] n(2) by blast
      moreover have "has_issue t" using t(2) by (simp add: configured_status_def has_issue_def)
      ultimately show False using \<open>?l\<close> t(1) by blast
    qed
  next
    assume ?r
    show ?l
    proof (intro allI impI)
      fix d n t assume t: "map_of (sd_registry sd) (d, n) = Some t"
      obtain s where s: "(n, s) \<in> set (fst (stage_detectors app d))" using configured [OF t] by blast
      from stage [OF s] t have st: "if n \<in> fst ` set (snd (stage_detectors app d)) then configured_status s HEALTHY t
         else configured_status s UNAVAILABLE_STATE t \<and> \<not> cs_required s" by simp
      show "\<not> (has_issue t \<and> is_strict t)"
      proof (cases "n \<in> fst ` set (snd (stage_detectors app d))")
        case True
        with st show ?thesis by (simp add: configured_status_def has_issue_def)
      next
        case False
        with st strict [of s UNAVAILABLE_STATE t] \<open>?r\<close> s show ?thesis by auto
      qed
    qed
  qed
  finally show ?thesis using stage app(1) by blast
qed

theorem started_app_ready_witness:
  "\<exists>app heap t. start_app solo_config [] (\<lambda>_. screen_factory) (\<lambda>_ _ _. Some screen_detector) healthy_plugins (0, \<lambda>_. circuit_breaker 1 1 [])
      = (Inr app, [Initialize screen_detector], heap)
    \<and> app_ready app \<and> (\<forall>n s. (n, s) \<in> set (app_input_configs app) \<longrightarrow> cs_required s \<longrightarrow> n = ''pii_redaction'')"
proof -
  obtain app heap where started: "start_app solo_config [] (\<lambda>_. screen_factory) (\<lambda>_ _ _. Some screen_detector) healthy_plugins
      (0, \<lambda>_. circuit_breaker 1 1 []) = (Inr app, [Initialize screen_detector], heap)"
    and up: "sd_input (app_detectors app) = [(''pii_redaction'', screen_detector)]" "app_ready app" using solo_started by blast
  have "n = ''pii_redaction''" if "(n, s) \<in> set (app_input_configs app)" "cs_required s" for n s
    using started_app_ready [OF started] up that by (fastforce simp: stage_detectors_def dest: spec [of _ Input])
  with started up show ?thesis by blast
qed

end
