(* ===== verification/Provider_Adapters.thy ===== *)
theory Provider_Adapters
  imports Chat Streaming
begin

text \<open>
  \<open>providers/base.py\<close>, \<open>anthropic.py\<close>, \<open>gemini.py\<close> and the adapters that send a request as it is: how
  a request of the gateway becomes a request to the provider, and how the provider's answer and its
  stream become an answer and a stream of the gateway.

  What comes back over HTTP is an argument, and so are \<open>json.loads\<close>, \<open>json.dumps\<close> and what \<open>str\<close> makes of
  a value that is not a string. A ProviderError is a constructor with its status; the wording of
  timeouts and network errors, which quotes the configuration, is left out.
\<close>

datatype provider_failure =
    Refused pystr
  | Provider_timeout
  | Provider_unreachable
  | Provider_status nat "pystr option"
  | Raised py_exception

definition raised :: "py_exception + 'a \<Rightarrow> provider_failure + 'a" where
  "raised r = (case r of Inl e \<Rightarrow> Inl (Raised e) | Inr x \<Rightarrow> Inr x)"

subsection \<open>Sending\<close>

record provider_target =
  pt_base_url :: pystr
  pt_api_key :: pystr
  pt_api_version :: pystr

datatype provider_kind = OpenAI | OpenAI_compatible | Azure_openai | Anthropic | Gemini

definition bearer :: "pystr \<Rightarrow> pystr" where
  "bearer key = ''Bearer '' @ key"

text \<open>\<open>_build_headers\<close> of each adapter: \<open>{**headers, ...}\<close>.\<close>

definition base_headers :: "(pystr \<times> pystr) list \<Rightarrow> (pystr \<times> pystr) list" where
  "base_headers headers = AList.update ''Content-Type'' ''application/json'' headers"

definition openai_headers :: "provider_target \<Rightarrow> (pystr \<times> pystr) list \<Rightarrow> (pystr \<times> pystr) list" where
  "openai_headers t headers = AList.update ''Authorization'' (bearer (pt_api_key t)) (base_headers headers)"

definition compatible_headers :: "provider_target \<Rightarrow> (pystr \<times> pystr) list \<Rightarrow> (pystr \<times> pystr) list" where
  "compatible_headers t headers =
     (if pt_api_key t \<noteq> [] then AList.update ''Authorization'' (bearer (pt_api_key t)) (base_headers headers)
      else base_headers headers)"

definition azure_headers :: "provider_target \<Rightarrow> (pystr \<times> pystr) list \<Rightarrow> (pystr \<times> pystr) list" where
  "azure_headers t headers = AList.update ''Authorization'' (bearer (pt_api_key t)) (base_headers headers)"

definition anthropic_headers :: "provider_target \<Rightarrow> (pystr \<times> pystr) list \<Rightarrow> (pystr \<times> pystr) list" where
  "anthropic_headers t headers =
     (let keyed = AList.update ''x-api-key'' (pt_api_key t) (base_headers headers) in
      if pt_api_version t \<noteq> [] then AList.update ''anthropic-version'' (pt_api_version t) keyed else keyed)"

definition gemini_headers :: "provider_target \<Rightarrow> (pystr \<times> pystr) list \<Rightarrow> (pystr \<times> pystr) list" where
  "gemini_headers t headers = AList.update ''x-goog-api-key'' (pt_api_key t) (base_headers headers)"

definition build_headers :: "provider_kind \<Rightarrow> provider_target \<Rightarrow> (pystr \<times> pystr) list \<Rightarrow> (pystr \<times> pystr) list" where
  "build_headers kind t =
     (case kind of
        OpenAI \<Rightarrow> openai_headers t | OpenAI_compatible \<Rightarrow> compatible_headers t | Azure_openai \<Rightarrow> azure_headers t
      | Anthropic \<Rightarrow> anthropic_headers t | Gemini \<Rightarrow> gemini_headers t)"

definition build_params :: "provider_kind \<Rightarrow> provider_target \<Rightarrow> (pystr \<times> pystr) list option" where
  "build_params kind t =
     (if kind = Azure_openai \<and> pt_api_version t \<noteq> [] then Some [(''api-version'', pt_api_version t)] else None)"

definition strip_slash :: "pystr \<Rightarrow> pystr" where
  "strip_slash url = rev (dropWhile (\<lambda>c. c = CHR ''/'') (rev url))"

text \<open>\<open>_build_url\<close>, and \<open>_build_url_for\<close> of Gemini, whose address names the model.\<close>

definition build_url :: "provider_kind \<Rightarrow> provider_target \<Rightarrow> pystr \<Rightarrow> bool \<Rightarrow> pystr" where
  "build_url kind t model stream =
     (case kind of
        Anthropic \<Rightarrow> strip_slash (pt_base_url t) @ ''/messages''
      | Gemini \<Rightarrow> strip_slash (pt_base_url t) @ ''/models/'' @ model
          @ (if stream then '':streamGenerateContent?alt=sse'' else '':generateContent'')
      | _ \<Rightarrow> pt_base_url t @ ''/chat/completions'')"

text \<open>What is sent, and what the HTTP client reports.\<close>

record provider_call =
  pc_url :: pystr
  pc_headers :: "(pystr \<times> pystr) list"
  pc_params :: "(pystr \<times> pystr) list option"
  pc_body :: json

datatype 'a http_outcome = Http_timeout | Http_error | Http_response nat "pystr option" 'a

definition checked_response :: "'a http_outcome \<Rightarrow> provider_failure + nat \<times> 'a" where
  "checked_response r =
     (case r of
        Http_timeout \<Rightarrow> Inl Provider_timeout
      | Http_error \<Rightarrow> Inl Provider_unreachable
      | Http_response status retry_after body \<Rightarrow>
          if status \<ge> 400 then Inl (Provider_status status retry_after) else Inr (status, body))"

definition provider_call_for :: "provider_kind \<Rightarrow> provider_target \<Rightarrow> pystr \<Rightarrow> bool \<Rightarrow> (pystr \<times> pystr) list \<Rightarrow> json \<Rightarrow> provider_call" where
  "provider_call_for kind t model stream headers body =
     \<lparr>pc_url = build_url kind t model stream, pc_headers = build_headers kind t headers,
      pc_params = build_params kind t, pc_body = body\<rparr>"

definition send_request ::
  "provider_kind \<Rightarrow> provider_target \<Rightarrow> (provider_call \<Rightarrow> 'a http_outcome) \<Rightarrow> json \<Rightarrow> (pystr \<times> pystr) list
     \<Rightarrow> provider_failure + nat \<times> 'a" where
  "send_request kind t http request headers = checked_response (http (provider_call_for kind t [] False headers request))"

subsection \<open>Python values\<close>

definition py_str :: "(json \<Rightarrow> pystr) \<Rightarrow> json \<Rightarrow> pystr" where
  "py_str repr j = (case j of JStr s \<Rightarrow> s | _ \<Rightarrow> repr j)"

text \<open>\<open>j["k"]\<close>.\<close>

definition py_index :: "pystr \<Rightarrow> json \<Rightarrow> py_exception + json" where
  "py_index k j =
     (case j of JObj fs \<Rightarrow> (case map_of fs k of Some v \<Rightarrow> Inr v | None \<Rightarrow> Inl Key_exception) | _ \<Rightarrow> Inl Type_exception)"

text \<open>\<open>j in {...}\<close> and \<open>{...}.get(j)\<close> raise when the value cannot be hashed.\<close>

definition hashed :: "json \<Rightarrow> py_exception + json" where
  "hashed j = (case j of JArr _ \<Rightarrow> Inl Type_exception | JObj _ \<Rightarrow> Inl Type_exception | _ \<Rightarrow> Inr j)"

definition join_texts :: "json list \<Rightarrow> py_exception + pystr" where
  "join_texts texts = bind_res (map_res json_str texts) (\<lambda>ts. Inr (concat ts))"

text \<open>\<open>{k: request[k] for k in ... if k in request}\<close>.\<close>

definition copied :: "(pystr \<times> pystr) list \<Rightarrow> json \<Rightarrow> (pystr \<times> json) list" where
  "copied names request =
     List.map_filter (\<lambda>(source, target). map_option (Pair target) (json_field source request)) names"

definition text_or_null :: "pystr \<Rightarrow> json" where
  "text_or_null text = (if text = [] then JNull else JStr text)"

subsection \<open>Requests to Anthropic\<close>

definition text_block :: "(json \<Rightarrow> pystr) \<Rightarrow> json \<Rightarrow> json" where
  "text_block repr part = JObj [(''type'', JStr ''text''), (''text'', JStr (py_str repr (part_text part)))]"

definition message_content :: "(json \<Rightarrow> pystr) \<Rightarrow> json \<Rightarrow> provider_failure + json" where
  "message_content repr content =
     (case content of
        JStr s \<Rightarrow> Inr content
      | JArr parts \<Rightarrow>
          bind_res (map_res (\<lambda>part. if is_text_part part then Inr (text_block repr part)
                       else Inl (Refused ''Unsupported message content block'')) parts) (\<lambda>blocks. Inr (JArr blocks))
      | _ \<Rightarrow> Inl (Refused ''Unsupported message content''))"

text \<open>One turn of the loop over the messages: the system prompt so far and the messages so far.\<close>

definition anthropic_message :: "(json \<Rightarrow> pystr) \<Rightarrow> json \<Rightarrow> json \<times> json list \<Rightarrow> provider_failure + json \<times> json list" where
  "anthropic_message repr message acc =
     (let (system, messages) = acc in
      bind_res (raised (json_get ''role'' JNull message)) (\<lambda>role.
      bind_res (raised (json_get ''content'' (JStr []) message)) (\<lambda>content.
        if role = JStr ''system'' then Inr (content, messages)
        else if role = JStr ''tool'' then
          bind_res (raised (json_get ''tool_call_id'' JNull message)) (\<lambda>tool_use_id.
            case tool_use_id of
              JStr (c # cs) \<Rightarrow>
                bind_res (message_content repr content) (\<lambda>translated. Inr
                  (system, messages @
                    [JObj [(''role'', JStr ''user''),
                       (''content'', JArr [JObj [(''type'', JStr ''tool_result''), (''tool_use_id'', tool_use_id),
                          (''content'', translated)]])]]))
            | _ \<Rightarrow> Inl (Refused ''Tool result is missing tool_call_id''))
        else
          bind_res (raised (hashed role)) (\<lambda>role.
            if role \<notin> {JStr ''user'', JStr ''assistant''} then Inl (Refused ''Unsupported message role'')
            else bind_res (message_content repr content) (\<lambda>translated. Inr
                   (system, messages @ [JObj [(''role'', role), (''content'', translated)]]))))))"

text \<open>A tool that is not a function is left out, which the length then shows.\<close>

definition anthropic_tool :: "json \<Rightarrow> provider_failure + json option" where
  "anthropic_tool tool =
     bind_res (raised (json_get ''type'' JNull tool)) (\<lambda>kind.
     case (kind = JStr ''function'', json_field ''function'' tool) of
       (True, Some function) \<Rightarrow>
         bind_res (raised (py_index ''name'' function)) (\<lambda>name.
         bind_res (raised (json_get ''description'' (JStr []) function)) (\<lambda>description.
         bind_res (raised (json_get ''parameters'' (JObj []) function)) (\<lambda>parameters. Inr
           (Some (JObj [(''name'', name), (''description'', description), (''input_schema'', parameters)])))))
     | _ \<Rightarrow> Inr None)"

definition anthropic_tools :: "json \<Rightarrow> provider_failure + json" where
  "anthropic_tools tools =
     bind_res (raised (json_items tools)) (\<lambda>items.
     bind_res (map_res anthropic_tool items) (\<lambda>translated.
       if None \<in> set translated then Inl (Refused ''Unsupported tool definition'')
       else Inr (JArr (map the translated))))"

definition anthropic_choice :: "json \<Rightarrow> provider_failure + json" where
  "anthropic_choice choice =
     (let kind = (\<lambda>k. JObj [(''type'', JStr k)]) in
      if choice = JStr ''auto'' then Inr (kind ''auto'')
      else if choice = JStr ''required'' then Inr (kind ''any'')
      else if choice = JStr ''none'' then Inr (kind ''none'')
      else if json_field ''type'' choice = Some (JStr ''function'') then
        bind_res (raised (json_get ''function'' (JObj []) choice)) (\<lambda>function.
        bind_res (raised (json_get ''name'' (JStr []) function)) (\<lambda>name. Inr
          (JObj [(''type'', JStr ''tool''), (''name'', name)])))
      else Inl (Refused ''Unsupported tool_choice''))"

definition optional_field :: "pystr \<Rightarrow> (json \<Rightarrow> provider_failure + json) \<Rightarrow> pystr \<Rightarrow> json \<Rightarrow> provider_failure + (pystr \<times> json) list" where
  "optional_field source translate target request =
     (case json_field source request of
        None \<Rightarrow> Inr []
      | Some v \<Rightarrow> bind_res (translate v) (\<lambda>w. Inr [(target, w)]))"

definition anthropic_options :: "json \<Rightarrow> (pystr \<times> json) list" where
  "anthropic_options request = copied (map (\<lambda>k. (k, k)) [''temperature'', ''top_p'', ''top_k'', ''stop_sequences'']) request"

definition anthropic_request :: "(json \<Rightarrow> pystr) \<Rightarrow> json \<Rightarrow> provider_failure + json" where
  "anthropic_request repr request =
     bind_res (raised (json_get ''system'' JNull request)) (\<lambda>system.
     bind_res (raised (json_get ''messages'' (JArr []) request)) (\<lambda>messages.
     bind_res (raised (json_items messages)) (\<lambda>items.
     bind_res (fold_res (anthropic_message repr) items (system, [])) (\<lambda>(system, translated).
     bind_res (raised (json_get ''model'' JNull request)) (\<lambda>model.
     bind_res (raised (json_get ''max_tokens'' (JNum 1024) request)) (\<lambda>max_tokens.
     bind_res (optional_field ''tools'' anthropic_tools ''tools'' request) (\<lambda>tools.
     bind_res (optional_field ''tool_choice'' anthropic_choice ''tool_choice'' request) (\<lambda>choice. Inr
       (JObj ([(''model'', model), (''max_tokens'', max_tokens), (''messages'', JArr translated)]
          @ anthropic_options request
          @ (if system = JNull then [] else [(''system'', system)])
          @ tools @ choice))))))))))"

subsection \<open>Requests to Gemini\<close>

definition gemini_parts :: "(json \<Rightarrow> pystr) \<Rightarrow> json \<Rightarrow> provider_failure + json" where
  "gemini_parts repr content =
     (let part = (\<lambda>t. JObj [(''text'', JStr t)]) in
      case content of
        JStr s \<Rightarrow> Inr (JArr [part s])
      | JArr parts \<Rightarrow>
          if list_all is_text_part parts then Inr (JArr (map (\<lambda>p. part (py_str repr (part_text p))) parts))
          else Inl (Refused ''Unsupported message content'')
      | _ \<Rightarrow> Inl (Refused ''Unsupported message content''))"

definition gemini_tool_result :: "(json \<Rightarrow> pystr) \<Rightarrow> (pystr \<Rightarrow> json option) \<Rightarrow> json \<Rightarrow> provider_failure + json" where
  "gemini_tool_result repr json_loads message =
     bind_res (raised (json_get ''content'' (JStr ''{}'') message)) (\<lambda>content.
     bind_res (raised (json_get ''content'' (JStr []) message)) (\<lambda>plain. Inr
       (case json_loads (py_str repr content) of
          Some result \<Rightarrow> result
        | None \<Rightarrow> JObj [(''content'', JStr (py_str repr plain))])))"

definition gemini_message ::
  "(json \<Rightarrow> pystr) \<Rightarrow> (pystr \<Rightarrow> json option) \<Rightarrow> json \<Rightarrow> json \<times> json list \<Rightarrow> provider_failure + json \<times> json list" where
  "gemini_message repr json_loads message acc =
     (let (system, contents) = acc in
      bind_res (raised (json_get ''role'' JNull message)) (\<lambda>role.
      bind_res (raised (json_get ''content'' (JStr []) message)) (\<lambda>content.
        if role = JStr ''system'' then Inr (content, contents)
        else if role = JStr ''tool'' then
          bind_res (raised (json_get ''name'' JNull message)) (\<lambda>name.
            case name of
              JStr (c # cs) \<Rightarrow>
                bind_res (gemini_tool_result repr json_loads message) (\<lambda>result. Inr
                  (system, contents @
                    [JObj [(''role'', JStr ''user''),
                       (''parts'', JArr [JObj [(''functionResponse'', JObj [(''name'', name), (''response'', result)])]])]]))
            | _ \<Rightarrow> Inl (Refused ''Tool result is missing name''))
        else
          bind_res (raised (hashed role)) (\<lambda>role.
            if role \<notin> {JStr ''user'', JStr ''assistant''} then Inl (Refused ''Unsupported message role'')
            else bind_res (gemini_parts repr content) (\<lambda>parts. Inr
                   (system, contents @
                     [JObj [(''role'', JStr (if role = JStr ''assistant'' then ''model'' else ''user'')), (''parts'', parts)]]))))))"

definition gemini_tool :: "json \<Rightarrow> provider_failure + json" where
  "gemini_tool tool =
     bind_res (raised (json_get ''type'' JNull tool)) (\<lambda>kind.
     case (kind = JStr ''function'', json_field ''function'' tool) of
       (True, Some (JObj fs)) \<Rightarrow>
         bind_res (raised (json_get ''name'' (JStr []) (JObj fs))) (\<lambda>name.
         bind_res (raised (json_get ''description'' (JStr []) (JObj fs))) (\<lambda>description.
         bind_res (raised (json_get ''parameters'' (JObj []) (JObj fs))) (\<lambda>parameters. Inr
           (JObj [(''name'', name), (''description'', description), (''parameters'', parameters)]))))
     | _ \<Rightarrow> Inl (Refused ''Unsupported tool definition''))"

definition gemini_tools :: "json \<Rightarrow> provider_failure + json" where
  "gemini_tools tools =
     bind_res (raised (json_items tools)) (\<lambda>items.
     bind_res (map_res gemini_tool items) (\<lambda>declarations. Inr
       (JArr [JObj [(''functionDeclarations'', JArr declarations)]])))"

definition gemini_choice :: "json \<Rightarrow> provider_failure + json" where
  "gemini_choice choice =
     (let config = (\<lambda>fs. JObj [(''functionCallingConfig'', JObj fs)]); mode = (\<lambda>m. (''mode'', JStr m)) in
      if choice = JStr ''auto'' then Inr (config [mode ''AUTO''])
      else if choice = JStr ''required'' then Inr (config [mode ''ANY''])
      else if choice = JStr ''none'' then Inr (config [mode ''NONE''])
      else if json_field ''type'' choice = Some (JStr ''function'') then
        bind_res (raised (json_get ''function'' (JObj []) choice)) (\<lambda>function.
        bind_res (raised (json_get ''name'' (JStr []) function)) (\<lambda>name. Inr
          (config [mode ''ANY'', (''allowedFunctionNames'', JArr [name])])))
      else Inl (Refused ''Unsupported tool_choice''))"

text \<open>With the model, which goes into the address.\<close>

definition gemini_request :: "(json \<Rightarrow> pystr) \<Rightarrow> (pystr \<Rightarrow> json option) \<Rightarrow> json \<Rightarrow> provider_failure + pystr \<times> json" where
  "gemini_request repr json_loads request =
     bind_res (raised (json_get ''model'' (JStr []) request)) (\<lambda>m.
     let model = py_str repr m in
     if model = [] then Inl (Refused ''Model is required'')
     else
       bind_res (raised (json_get ''system'' JNull request)) (\<lambda>system.
       bind_res (raised (json_get ''messages'' (JArr []) request)) (\<lambda>messages.
       bind_res (raised (json_items messages)) (\<lambda>items.
       bind_res (fold_res (gemini_message repr json_loads) items (system, [])) (\<lambda>(system, contents).
       let generation = copied [(''temperature'', ''temperature''), (''top_p'', ''topP''), (''max_tokens'', ''maxOutputTokens'')] request in
       bind_res (optional_field ''tools'' gemini_tools ''tools'' request) (\<lambda>tools.
       bind_res (optional_field ''tool_choice'' gemini_choice ''toolConfig'' request) (\<lambda>choice. Inr
         (model,
          JObj ([(''contents'', JArr contents)]
            @ (if system = JNull then []
               else [(''systemInstruction'', JObj [(''parts'', JArr [JObj [(''text'', JStr (py_str repr system))]])])])
            @ (if generation = [] then [] else [(''generationConfig'', JObj generation)])
            @ tools @ choice)))))))))"

subsection \<open>Responses\<close>

definition tool_call :: "json \<Rightarrow> json \<Rightarrow> pystr \<Rightarrow> json" where
  "tool_call call_id name arguments =
     JObj [(''id'', call_id), (''type'', JStr ''function''), (''function'', JObj [(''name'', name), (''arguments'', JStr arguments)])]"

definition assistant_message :: "pystr \<Rightarrow> json list \<Rightarrow> json" where
  "assistant_message text tool_calls =
     JObj ([(''role'', JStr ''assistant''), (''content'', text_or_null text)]
       @ (if tool_calls = [] then [] else [(''tool_calls'', JArr tool_calls)]))"

definition completion_choice :: "json \<Rightarrow> json \<Rightarrow> json" where
  "completion_choice message finish_reason =
     JObj [(''index'', JNum 0), (''message'', message), (''finish_reason'', finish_reason)]"

definition renamed :: "(pystr \<times> pystr) list \<Rightarrow> json \<Rightarrow> py_exception + json" where
  "renamed names reason =
     bind_res (hashed reason) (\<lambda>reason. Inr
       (case reason of JStr s \<Rightarrow> (case map_of names s of Some t \<Rightarrow> JStr t | None \<Rightarrow> reason) | _ \<Rightarrow> reason))"

definition anthropic_text :: "json \<Rightarrow> py_exception + json list" where
  "anthropic_text part =
     bind_res (json_get ''type'' JNull part) (\<lambda>kind.
       if kind \<noteq> JStr ''text'' then Inr []
       else bind_res (json_get ''text'' (JStr []) part) (\<lambda>t. Inr [t]))"

definition anthropic_call :: "(json \<Rightarrow> pystr) \<Rightarrow> json \<Rightarrow> py_exception + json list" where
  "anthropic_call dumps part =
     bind_res (json_get ''type'' JNull part) (\<lambda>kind.
       if kind \<noteq> JStr ''tool_use'' then Inr []
       else
         bind_res (json_get ''id'' (JStr []) part) (\<lambda>id.
         bind_res (json_get ''name'' (JStr []) part) (\<lambda>name.
         bind_res (json_get ''input'' (JObj []) part) (\<lambda>input. Inr [tool_call id name (dumps input)]))))"

definition anthropic_response :: "(json \<Rightarrow> pystr) \<Rightarrow> json \<Rightarrow> py_exception + json" where
  "anthropic_response dumps data =
     bind_res (json_get ''content'' (JArr []) data) (\<lambda>content.
     bind_res (json_items content) (\<lambda>parts.
     bind_res (map_res anthropic_text parts) (\<lambda>texts.
     bind_res (join_texts (concat texts)) (\<lambda>text.
     bind_res (map_res (anthropic_call dumps) parts) (\<lambda>calls.
     bind_res (json_get ''id'' (JStr []) data) (\<lambda>id.
     bind_res (json_get ''stop_reason'' JNull data) (\<lambda>stop_reason.
     bind_res (renamed [(''end_turn'', ''stop''), (''max_tokens'', ''length''), (''tool_use'', ''tool_calls'')] stop_reason) (\<lambda>finish.
     bind_res (json_get ''usage'' (JObj []) data) (\<lambda>usage. Inr
       (JObj [(''id'', id), (''object'', JStr ''chat.completion''),
          (''choices'', JArr [completion_choice (assistant_message text (concat calls)) finish]), (''usage'', usage)]))))))))))"

text \<open>\<open>(data.get("candidates") or [{}])[0]\<close>.\<close>

definition first_candidate :: "json \<Rightarrow> py_exception + json" where
  "first_candidate candidates =
     (if \<not> truthy candidates then Inr (JObj [])
      else case candidates of
             JArr (x # _) \<Rightarrow> Inr x | JStr (c # _) \<Rightarrow> Inr (JStr [c]) | JObj _ \<Rightarrow> Inl Key_exception | _ \<Rightarrow> Inl Type_exception)"

definition gemini_call :: "(json \<Rightarrow> pystr) \<Rightarrow> json \<Rightarrow> py_exception + json list" where
  "gemini_call dumps part =
     (case json_field ''functionCall'' part of
        None \<Rightarrow> Inr []
      | Some call \<Rightarrow>
          bind_res (json_get ''name'' (JStr []) call) (\<lambda>name.
          bind_res (json_get ''args'' (JObj []) call) (\<lambda>args. Inr [tool_call name name (dumps args)])))"

definition gemini_response :: "(json \<Rightarrow> pystr) \<Rightarrow> json \<Rightarrow> py_exception + json" where
  "gemini_response dumps data =
     bind_res (json_get ''candidates'' JNull data) (\<lambda>candidates.
     bind_res (first_candidate candidates) (\<lambda>candidate.
     bind_res (json_get ''content'' (JObj []) candidate) (\<lambda>content.
     bind_res (json_get ''parts'' (JArr []) content) (\<lambda>ps.
     bind_res (json_items ps) (\<lambda>parts.
     bind_res (map_res (json_get ''text'' (JStr [])) parts) (\<lambda>texts.
     bind_res (join_texts texts) (\<lambda>text.
     bind_res (map_res (gemini_call dumps) parts) (\<lambda>calls.
     bind_res (json_get ''finishReason'' JNull candidate) (\<lambda>reason.
     bind_res (renamed [(''STOP'', ''stop''), (''MAX_TOKENS'', ''length''), (''SAFETY'', ''content_filter'')] reason) (\<lambda>finish.
     bind_res (json_get ''usageMetadata'' (JObj []) data) (\<lambda>usage. Inr
       (JObj [(''object'', JStr ''chat.completion''),
          (''choices'', JArr [completion_choice (assistant_message text (concat calls)) finish]), (''usage'', usage)]))))))))))))"

text \<open>\<open>forward_request\<close>: \<open>http\<close> is the exchange, with a body that has been parsed.\<close>

definition openai_forward ::
  "provider_target \<Rightarrow> (provider_call \<Rightarrow> json http_outcome) \<Rightarrow> json \<Rightarrow> (pystr \<times> pystr) list \<Rightarrow> provider_failure + nat \<times> json" where
  "openai_forward t http request headers = send_request OpenAI t http request headers"

definition compatible_forward ::
  "provider_target \<Rightarrow> (provider_call \<Rightarrow> json http_outcome) \<Rightarrow> json \<Rightarrow> (pystr \<times> pystr) list \<Rightarrow> provider_failure + nat \<times> json" where
  "compatible_forward t http request headers = send_request OpenAI_compatible t http request headers"

definition azure_forward ::
  "provider_target \<Rightarrow> (provider_call \<Rightarrow> json http_outcome) \<Rightarrow> json \<Rightarrow> (pystr \<times> pystr) list \<Rightarrow> provider_failure + nat \<times> json" where
  "azure_forward t http request headers = send_request Azure_openai t http request headers"

definition anthropic_forward ::
  "(json \<Rightarrow> pystr) \<Rightarrow> (json \<Rightarrow> pystr) \<Rightarrow> provider_target \<Rightarrow> (provider_call \<Rightarrow> json http_outcome) \<Rightarrow> json
     \<Rightarrow> (pystr \<times> pystr) list \<Rightarrow> provider_failure + nat \<times> json" where
  "anthropic_forward repr dumps t http request headers =
     bind_res (anthropic_request repr request) (\<lambda>body.
     bind_res (send_request Anthropic t http body headers) (\<lambda>(status, data).
     bind_res (raised (anthropic_response dumps data)) (\<lambda>normalized. Inr (status, normalized))))"

definition gemini_call_model ::
  "provider_target \<Rightarrow> (provider_call \<Rightarrow> 'a http_outcome) \<Rightarrow> pystr \<Rightarrow> json \<Rightarrow> (pystr \<times> pystr) list \<Rightarrow> provider_failure + nat \<times> 'a" where
  "gemini_call_model t http model body headers = checked_response (http (provider_call_for Gemini t model False headers body))"

definition gemini_forward ::
  "(json \<Rightarrow> pystr) \<Rightarrow> (json \<Rightarrow> pystr) \<Rightarrow> (pystr \<Rightarrow> json option) \<Rightarrow> provider_target \<Rightarrow> (provider_call \<Rightarrow> json http_outcome) \<Rightarrow> json
     \<Rightarrow> (pystr \<times> pystr) list \<Rightarrow> provider_failure + nat \<times> json" where
  "gemini_forward repr dumps json_loads t http request headers =
     bind_res (gemini_request repr json_loads request) (\<lambda>(model, body).
     bind_res (gemini_call_model t http model body headers) (\<lambda>(status, data).
     bind_res (raised (gemini_response dumps data)) (\<lambda>normalized. Inr (status, normalized))))"

subsection \<open>Streams\<close>

text \<open>\<open>str.splitlines\<close>.\<close>

definition line_break :: "char \<Rightarrow> bool" where
  "line_break c \<longleftrightarrow> c \<in> {CHR 0x0A, CHR 0x0B, CHR 0x0C, CHR 0x0D, CHR 0x1C, CHR 0x1D, CHR 0x1E, CHR 0x85}"

function split_lines :: "pystr \<Rightarrow> pystr \<Rightarrow> pystr list" where
  "split_lines line [] = (if line = [] then [] else [line])"
| "split_lines line (c # cs) =
     (if \<not> line_break c then split_lines (line @ [c]) cs
      else if c = CHR 0x0D \<and> starts_with cs [newline] then line # split_lines [] (drop 1 cs)
      else line # split_lines [] cs)"
  by pat_completeness auto
termination
  by (relation "measure (\<lambda>(line, s). length s)") auto

text \<open>The lines of the events \<open>buffer.split("\n\n", 1)\<close> cuts off, without their blank line.\<close>

definition event_lines :: "pystr \<Rightarrow> pystr list" where
  "event_lines event = split_lines [] (take (length event - 2) event)"

definition data_event :: "pystr \<Rightarrow> pystr" where
  "data_event payload = ''data: '' @ payload @ [newline, newline]"

definition done_event :: pystr where
  "done_event = data_event ''[DONE]''"

definition text_chunk :: "json \<Rightarrow> json" where
  "text_chunk text =
     JObj [(''object'', JStr ''chat.completion.chunk''),
       (''choices'', JArr [JObj [(''index'', JNum 0), (''delta'', JObj [(''content'', text)]), (''finish_reason'', JNull)]])]"

text \<open>What a line yields, and whether it is the end of the stream.\<close>

definition anthropic_line :: "(json \<Rightarrow> pystr) \<Rightarrow> (pystr \<Rightarrow> json option) \<Rightarrow> pystr \<Rightarrow> py_exception + pystr list \<times> bool" where
  "anthropic_line dumps json_loads line =
     (if \<not> starts_with line ''data:'' then Inr ([], False)
      else let payload = py_strip (drop 5 line) in
        if payload = ''[DONE]'' then Inr ([done_event], True)
        else case json_loads payload of
               None \<Rightarrow> Inr ([], False)
             | Some data \<Rightarrow>
                 bind_res (json_get ''type'' JNull data) (\<lambda>kind.
                   if kind = JStr ''message_stop'' then Inr ([done_event], True)
                   else
                     bind_res (json_get ''delta'' (JObj []) data) (\<lambda>delta.
                     bind_res (json_get ''text'' (JStr []) delta) (\<lambda>text. Inr
                       (if truthy text then [data_event (dumps (text_chunk text))] else [], False)))))"

text \<open>
  \<open>data["candidates"][0]["content"]["parts"]\<close>: a key or an index that is missing skips the line
  (\<open>None\<close>), a value that cannot be indexed raises.
\<close>

definition gemini_stream_parts :: "json \<Rightarrow> py_exception + json option" where
  "gemini_stream_parts data =
     (let skipped = (\<lambda>r. case r of Inl Key_exception \<Rightarrow> Inr None | Inl e \<Rightarrow> Inl e | Inr x \<Rightarrow> Inr (Some x));
          first = (\<lambda>candidates. case candidates of
             JArr (x # _) \<Rightarrow> Inr x | JStr (c # _) \<Rightarrow> Inr (JStr [c])
           | JArr [] \<Rightarrow> Inl Key_exception | JStr [] \<Rightarrow> Inl Key_exception | JObj _ \<Rightarrow> Inl Key_exception | _ \<Rightarrow> Inl Type_exception) in
      skipped
        (bind_res (py_index ''candidates'' data) (\<lambda>candidates.
         bind_res (first candidates) (\<lambda>candidate.
         bind_res (py_index ''content'' candidate) (py_index ''parts'')))))"

definition gemini_line :: "(json \<Rightarrow> pystr) \<Rightarrow> (pystr \<Rightarrow> json option) \<Rightarrow> pystr \<Rightarrow> py_exception + pystr list \<times> bool" where
  "gemini_line dumps json_loads line =
     (if \<not> starts_with line ''data:'' then Inr ([], False)
      else case json_loads (py_strip (drop 5 line)) of
             None \<Rightarrow> Inr ([], False)
           | Some data \<Rightarrow>
               bind_res (gemini_stream_parts data) (\<lambda>found.
                 case found of
                   None \<Rightarrow> Inr ([], False)
                 | Some ps \<Rightarrow>
                     bind_res (json_items ps) (\<lambda>parts.
                     bind_res (map_res (json_get ''text'' (JStr [])) parts) (\<lambda>texts.
                     bind_res (join_texts texts) (\<lambda>text. Inr
                       (if text = [] then [] else [data_event (dumps (text_chunk (JStr text)))], False))))))"

fun adapt_lines ::
  "(pystr \<Rightarrow> py_exception + pystr list \<times> bool) \<Rightarrow> pystr list \<Rightarrow> pystr list \<times> bool \<times> py_exception option" where
  "adapt_lines line_step [] = ([], False, None)"
| "adapt_lines line_step (line # lines) =
     (case line_step line of
        Inl e \<Rightarrow> ([], False, Some e)
      | Inr (out, ended) \<Rightarrow>
          let (out', ended', error) = adapt_lines line_step lines in (out @ out', ended \<or> ended', error))"

fun adapt_chunks ::
  "(pystr \<Rightarrow> py_exception + pystr list \<times> bool) \<Rightarrow> pystr list \<Rightarrow> pystr \<Rightarrow> pystr list \<times> bool \<times> py_exception option" where
  "adapt_chunks line_step [] buffer = ([], False, None)"
| "adapt_chunks line_step (chunk # chunks) buffer =
     (let (events, residue) = sse_feed chunk buffer;
          (out, ended, error) = adapt_lines line_step (concat (map event_lines events)) in
      if error \<noteq> None then (out, ended, error)
      else let (out', ended', error') = adapt_chunks line_step chunks residue in (out @ out', ended \<or> ended', error'))"

text \<open>The chunks the provider's answer consists of, and how it ends.\<close>

type_synonym provider_stream = "pystr list \<times> provider_failure option"

definition adapted_stream ::
  "(pystr \<Rightarrow> py_exception + pystr list \<times> bool) \<Rightarrow> bool \<Rightarrow> provider_stream \<Rightarrow> provider_stream" where
  "adapted_stream line_step always_end s =
     (let (chunks, failure) = s; (out, ended, error) = adapt_chunks line_step chunks [] in
      case error of
        Some e \<Rightarrow> (out, Some (Raised e))
      | None \<Rightarrow>
          (case failure of
             Some f \<Rightarrow> (out, Some f)
           | None \<Rightarrow> (if ended \<and> \<not> always_end then out else out @ [done_event], None)))"

text \<open>\<open>BaseProvider.stream_forward\<close>: the status comes before the first chunk.\<close>

definition stream_forward ::
  "provider_kind \<Rightarrow> provider_target \<Rightarrow> (provider_call \<Rightarrow> provider_stream http_outcome) \<Rightarrow> json \<Rightarrow> (pystr \<times> pystr) list
     \<Rightarrow> provider_stream" where
  "stream_forward kind t http request headers =
     (case checked_response (http (provider_call_for kind t [] True headers request)) of Inl f \<Rightarrow> ([], Some f) | Inr (_, s) \<Rightarrow> s)"

definition anthropic_stream_forward ::
  "(json \<Rightarrow> pystr) \<Rightarrow> (json \<Rightarrow> pystr) \<Rightarrow> (pystr \<Rightarrow> json option) \<Rightarrow> provider_target \<Rightarrow> (provider_call \<Rightarrow> provider_stream http_outcome)
     \<Rightarrow> json \<Rightarrow> (pystr \<times> pystr) list \<Rightarrow> provider_stream" where
  "anthropic_stream_forward repr dumps json_loads t http request headers =
     (case anthropic_request repr request of
        Inl f \<Rightarrow> ([], Some f)
      | Inr body \<Rightarrow>
          adapted_stream (anthropic_line dumps json_loads) False
            (stream_forward Anthropic t http (json_set ''stream'' (JBool True) body) headers))"

definition gemini_stream_forward ::
  "(json \<Rightarrow> pystr) \<Rightarrow> (json \<Rightarrow> pystr) \<Rightarrow> (pystr \<Rightarrow> json option) \<Rightarrow> provider_target \<Rightarrow> (provider_call \<Rightarrow> provider_stream http_outcome)
     \<Rightarrow> json \<Rightarrow> (pystr \<times> pystr) list \<Rightarrow> provider_stream" where
  "gemini_stream_forward repr dumps json_loads t http request headers =
     (case gemini_request repr json_loads request of
        Inl f \<Rightarrow> ([], Some f)
      | Inr (model, body) \<Rightarrow>
          (case checked_response (http (provider_call_for Gemini t model True headers body)) of
             Inl f \<Rightarrow> ([], Some f)
           | Inr (_, s) \<Rightarrow> adapted_stream (gemini_line dumps json_loads) True s))"

end
