(* ===== verification/Builtin_Detectors.thy ===== *)
theory Builtin_Detectors
  imports Provider_Adapters Lifecycle Config_Loading
begin

text \<open>
  The detectors of \<open>detectors/\<close> and the registry that makes them: what each reads from its settings and
  which result it makes of a text.

  Regular expressions, the Aho-Corasick automaton, the toxicity model and the file system are
  arguments: the text between and the text of the matches of a pattern, the words found and where they
  end, the model's scores, and the content of a file. A result has no \<open>details\<close>. A character is a
  code point below 256, so no character is an ideograph here, and the Chinese patterns are an argument.
\<close>

datatype detector_error =
    Pattern_invalid pystr
  | Setting_invalid pystr
  | Word_list_missing pystr
  | Detector_raised py_exception

definition plain_result :: "pystr \<Rightarrow> pystr \<Rightarrow> action \<Rightarrow> pyfloat \<Rightarrow> risk_level \<Rightarrow> pystr \<Rightarrow> detection_result" where
  "plain_result name category action confidence risk message =
     \<lparr>dr_detector_name = name, dr_category = category, dr_action = action, dr_confidence = confidence,
      dr_risk_level = risk, dr_message = message, dr_modified_content = None, dr_duration_ms = 0, dr_error = None\<rparr>"

definition setting_or :: "settings \<Rightarrow> pystr \<Rightarrow> json \<Rightarrow> json" where
  "setting_or config key d = (case map_of config key of Some v \<Rightarrow> v | None \<Rightarrow> d)"

text \<open>\<open>x >= threshold\<close>.\<close>

definition at_least :: "pyfloat \<Rightarrow> json \<Rightarrow> py_exception + bool" where
  "at_least x threshold = (case json_number threshold of Some t \<Rightarrow> Inr (x \<ge> t) | None \<Rightarrow> Inl Type_exception)"

subsection \<open>Regular expressions\<close>

text \<open>
  What a compiled pattern finds in a text: each match with the text before it, and the text after the
  last. Compiling may fail; the flag is IGNORECASE.
\<close>

type_synonym regex = "pystr \<Rightarrow> (pystr \<times> pystr) list \<times> pystr"
type_synonym regex_compiler = "bool \<Rightarrow> pystr \<Rightarrow> regex option"

definition re_findall :: "regex \<Rightarrow> pystr \<Rightarrow> pystr list" where
  "re_findall rx s = map snd (fst (rx s))"

definition re_sub :: "regex \<Rightarrow> (pystr \<Rightarrow> pystr) \<Rightarrow> pystr \<Rightarrow> pystr" where
  "re_sub rx f s = (let (found, tail) = rx s in concat (map (\<lambda>(before, m). before @ f m) found) @ tail)"

definition backslash :: char where
  "backslash = CHR 0x5C"

fun is_substring :: "pystr \<Rightarrow> pystr \<Rightarrow> bool" where
  "is_substring p [] = (p = [])"
| "is_substring p (c # cs) = (starts_with (c # cs) p \<or> is_substring p cs)"

text \<open>\<open>name in value\<close>, for a string.\<close>

definition py_contains :: "json \<Rightarrow> pystr \<Rightarrow> py_exception + bool" where
  "py_contains value name =
     (case value of
        JArr xs \<Rightarrow> Inr (JStr name \<in> set xs) | JStr s \<Rightarrow> Inr (is_substring name s) | JObj fs \<Rightarrow> Inr (map_of fs name \<noteq> None)
      | _ \<Rightarrow> Inl Type_exception)"

definition compile_pattern :: "regex_compiler \<Rightarrow> bool \<Rightarrow> pystr \<Rightarrow> json \<Rightarrow> detector_error + regex" where
  "compile_pattern compiler ignore_case name pattern =
     (case pattern of
        JStr p \<Rightarrow> (case compiler ignore_case p of Some rx \<Rightarrow> Inr rx | None \<Rightarrow> Inl (Pattern_invalid name))
      | _ \<Rightarrow> Inl (Detector_raised Type_exception))"

subsection \<open>Leaked secrets\<close>

definition secret_patterns :: "(pystr \<times> json) list" where
  "secret_patterns =
     [(''api_key'', JStr ''sk-[a-zA-Z0-9]{20,}''),
      (''aws_secret'', JStr (''(?:AKIA[0-9A-Z]{16}|aws_secret_access_key['' @ [CHR 0x27, CHR 0x22, backslash]
         @ ''s:=]+[A-Za-z0-9/+=]{40})'')),
      (''private_key'', JStr ''-----BEGIN [A-Z ]*PRIVATE KEY-----''),
      (''jwt_token'', JStr (''eyJ[a-zA-Z0-9_-]*'' @ [backslash] @ ''.eyJ[a-zA-Z0-9_-]*'' @ [backslash] @ ''.[a-zA-Z0-9_-]*''))]"

text \<open>Custom patterns that are not an object are taken to raise.\<close>

definition effective_patterns :: "(pystr \<times> json) list \<Rightarrow> json \<Rightarrow> detector_error + (pystr \<times> json) list" where
  "effective_patterns defaults custom =
     (if \<not> truthy custom then Inr defaults
      else case custom of
             JObj fs \<Rightarrow> Inr (fold (\<lambda>(k, v). AList.update k v) fs defaults)
           | _ \<Rightarrow> Inl (Detector_raised Type_exception))"

definition selected_patterns :: "json \<Rightarrow> (pystr \<times> json) list \<Rightarrow> detector_error + (pystr \<times> json) list" where
  "selected_patterns names patterns =
     (if names = JNull then Inr patterns
      else
        bind_res (map_res (\<lambda>(name, p). case py_contains names name of
             Inl e \<Rightarrow> Inl (Detector_raised e) | Inr chosen \<Rightarrow> Inr (if chosen then [(name, p)] else [])) patterns) (\<lambda>chosen.
          Inr (concat chosen)))"

definition secret_initialize :: "regex_compiler \<Rightarrow> settings \<Rightarrow> detector_error + (pystr \<times> regex) list" where
  "secret_initialize compiler config =
     bind_res (effective_patterns secret_patterns (setting_or config ''custom_patterns'' (JObj []))) (\<lambda>effective.
     bind_res (selected_patterns (setting_or config ''patterns'' JNull) effective) (\<lambda>patterns.
     map_res (\<lambda>(name, p). bind_res (compile_pattern compiler False name p) (\<lambda>rx. Inr (name, rx))) patterns))"

definition pattern_counts :: "(pystr \<times> regex) list \<Rightarrow> pystr \<Rightarrow> (pystr \<times> nat) list" where
  "pattern_counts patterns content =
     filter (\<lambda>(_, n). n \<noteq> 0) (map (\<lambda>(name, rx). (name, length (re_findall rx content))) patterns)"

fun types_join :: "pystr list \<Rightarrow> pystr" where
  "types_join [] = []"
| "types_join [t] = t"
| "types_join (t # u # us) = t @ '', '' @ types_join (u # us)"

definition secret_detect :: "(pystr \<times> regex) list \<Rightarrow> pystr \<Rightarrow> detection_result" where
  "secret_detect patterns content =
     (let secrets = pattern_counts patterns content; total = sum_list (map snd secrets) in
      if total > 0
      then plain_result ''secret_leak'' ''secret_leak'' Block 1 Critical
             (''Detected '' @ show_nat total @ '' potential secret(s) of type(s): '' @ types_join (sort (map fst secrets)))
      else plain_result ''secret_leak'' ''secret_leak'' Allow 0 Low ''No secrets detected'')"

subsection \<open>Personal information\<close>

definition word_boundary :: pystr where
  "word_boundary = [backslash, CHR ''b'']"

definition digits_pattern :: "pystr \<Rightarrow> pystr" where
  "digits_pattern repeated = [backslash, CHR ''d''] @ repeated"

definition pii_patterns :: "(pystr \<times> json) list" where
  "pii_patterns =
     [(''email'', JStr (''[a-zA-Z0-9._%+-]+@[a-zA-Z0-9.-]+'' @ [backslash] @ ''.[a-zA-Z]{2,}'')),
      (''phone'', JStr (word_boundary @ digits_pattern ''{3}'' @ ''[-.]?'' @ digits_pattern ''{3}'' @ ''[-.]?''
         @ digits_pattern ''{4}'' @ word_boundary)),
      (''ssn'', JStr (word_boundary @ digits_pattern ''{3}-'' @ digits_pattern ''{2}-'' @ digits_pattern ''{4}'' @ word_boundary)),
      (''credit_card'', JStr (word_boundary @ ''(?:'' @ digits_pattern ''{4}[-'' @ [backslash] @ ''s]?){3}'' @ digits_pattern ''{4}''
         @ word_boundary)),
      (''ip_address'', JStr (word_boundary @ ''(?:'' @ digits_pattern ''{1,3}'' @ [backslash] @ ''.){3}'' @ digits_pattern ''{1,3}''
         @ word_boundary))]"

record pii_detector =
  pii_compiled :: "(pystr \<times> regex) list"
  pii_mode :: json

definition pii_initialize :: "regex_compiler \<Rightarrow> settings \<Rightarrow> detector_error + pii_detector" where
  "pii_initialize compiler config =
     (let patterns = (case setting_or config ''custom_patterns'' (JObj []) of
            JObj fs \<Rightarrow> fold (\<lambda>(k, v). AList.update k v) fs pii_patterns | _ \<Rightarrow> pii_patterns) in
      bind_res (case setting_or config ''entity_types'' JNull of
                  JNull \<Rightarrow> Inr (map (JStr \<circ> fst) patterns)
                | types \<Rightarrow> (case json_items types of Inl e \<Rightarrow> Inl (Detector_raised e) | Inr ts \<Rightarrow> Inr ts)) (\<lambda>types.
      bind_res (fold_res (\<lambda>t compiled.
          bind_res (case hashed t of Inl e \<Rightarrow> Inl (Detector_raised e) | Inr t \<Rightarrow> Inr t) (\<lambda>t.
          case t of
            JStr name \<Rightarrow>
              (case map_of patterns name of
                 None \<Rightarrow> Inr compiled
               | Some JNull \<Rightarrow> Inr compiled
               | Some p \<Rightarrow> bind_res (compile_pattern compiler False name p) (\<lambda>rx. Inr (AList.update name rx compiled)))
          | _ \<Rightarrow> Inr compiled)) types []) (\<lambda>compiled. Inr
        \<lparr>pii_compiled = compiled, pii_mode = setting_or config ''redaction_mode'' (JStr ''mask'')\<rparr>)))"

definition redacted :: pystr where
  "redacted = ''[REDACTED]''"

definition stars :: pystr where
  "stars = ''***''"

text \<open>\<open>partition\<close> at the first, \<open>rpartition\<close> at the last occurrence of a character.\<close>

definition py_partition :: "char \<Rightarrow> pystr \<Rightarrow> pystr \<times> pystr \<times> pystr" where
  "py_partition c s =
     (if c \<in> set s then (takeWhile (\<lambda>d. d \<noteq> c) s, [c], tl (dropWhile (\<lambda>d. d \<noteq> c) s)) else (s, [], []))"

definition py_rpartition :: "char \<Rightarrow> pystr \<Rightarrow> pystr \<times> pystr \<times> pystr" where
  "py_rpartition c s =
     (if c \<in> set s
      then (rev (tl (dropWhile (\<lambda>d. d \<noteq> c) (rev s))), [c], rev (takeWhile (\<lambda>d. d \<noteq> c) (rev s))) else ([], [], s))"

definition mask_email :: "pystr \<Rightarrow> pystr" where
  "mask_email email =
     (let (local, sep, domain) = py_partition (CHR ''@'') email in
      if sep = [] then redacted
      else
        let masked_local = (case local of c # _ \<Rightarrow> c # stars | [] \<Rightarrow> stars) in
        if CHR ''.'' \<in> set domain then
          let (domain_name, _, tld) = py_rpartition (CHR ''.'') domain;
              masked_domain = (case domain_name of c # _ \<Rightarrow> c # stars | [] \<Rightarrow> stars) in
          masked_local @ ''@'' @ masked_domain @ ''.'' @ tld
        else masked_local @ ''@'' @ stars)"

definition mask_value :: "pystr \<Rightarrow> pystr \<Rightarrow> pystr" where
  "mask_value entity_type value =
     (if entity_type = ''email'' then mask_email value
      else if length value \<le> 2 then redacted
      else hd value # stars @ [last value])"

text \<open>\<open>sha\<close> is the hexadecimal SHA-256 of a text.\<close>

definition redact :: "(pystr \<Rightarrow> pystr) \<Rightarrow> json \<Rightarrow> pystr \<Rightarrow> pystr \<Rightarrow> pystr" where
  "redact sha mode entity_type value =
     (if mode = JStr ''replace'' then redacted
      else if mode = JStr ''hash'' then take 16 (sha value)
      else mask_value entity_type value)"

definition pii_detect :: "(pystr \<Rightarrow> pystr) \<Rightarrow> pii_detector \<Rightarrow> pystr \<Rightarrow> detection_result" where
  "pii_detect sha p content =
     (let counts = pattern_counts (pii_compiled p) content; total = sum_list (map snd counts) in
      if total = 0 then plain_result ''pii_redaction'' ''pii'' Allow 0 Low ''No PII detected''
      else
        (plain_result ''pii_redaction'' ''pii'' Modify 1 Medium (''Detected '' @ show_nat total @ '' PII entity/entities''))
          \<lparr>dr_modified_content := Some
             (fold (\<lambda>(entity_type, rx) text.
                 if entity_type \<in> set (map fst counts) then re_sub rx (redact sha (pii_mode p) entity_type) text else text)
               (pii_compiled p) content)\<rparr>)"

subsection \<open>Prompt injection\<close>

record injection_pattern =
  ip_name :: pystr
  ip_pattern :: pystr
  ip_severity :: pystr

definition severity_scores :: "(pystr \<times> pyfloat) list" where
  "severity_scores = [(''high'', 1/2), (''medium'', 3/10), (''low'', 3/20)]"

definition english_patterns :: "injection_pattern list" where
  "english_patterns =
     map (\<lambda>p. \<lparr>ip_name = p, ip_pattern = p, ip_severity = ''high''\<rparr>)
       [''ignore previous instructions'', ''system prompt:'', ''you are now'', ''DAN'', ''do anything now'', ''ignore the above'',
        ''jailbreak'', ''pretend you are'', ''forget your rules'', ''reveal your prompt'', ''show me your prompt'']
     @ map (\<lambda>p. \<lparr>ip_name = p, ip_pattern = p, ip_severity = ''medium''\<rparr>) [''new instructions'', ''override'', ''act as'']"

definition parse_injection_pattern :: "(json \<Rightarrow> pystr) \<Rightarrow> json \<Rightarrow> detector_error + injection_pattern" where
  "parse_injection_pattern repr p =
     (case (json_field ''name'' p, json_field ''pattern'' p, json_field ''severity'' p) of
        (Some name, Some pattern, Some severity) \<Rightarrow>
          if map_of severity_scores (py_str repr severity) = None then Inl (Setting_invalid ''severity'')
          else Inr \<lparr>ip_name = py_str repr name, ip_pattern = py_str repr pattern, ip_severity = py_str repr severity\<rparr>
      | _ \<Rightarrow> Inl (Setting_invalid ''patterns''))"

definition injection_initialize ::
  "(json \<Rightarrow> pystr) \<Rightarrow> regex_compiler \<Rightarrow> injection_pattern list \<Rightarrow> settings \<Rightarrow> detector_error + (injection_pattern \<times> regex) list" where
  "injection_initialize repr compiler chinese config =
     bind_res (case setting_or config ''patterns'' JNull of
                 JNull \<Rightarrow> Inr (english_patterns @ chinese)
               | JArr ps \<Rightarrow> map_res (parse_injection_pattern repr) ps
               | _ \<Rightarrow> Inl (Setting_invalid ''patterns'')) (\<lambda>patterns.
     map_res (\<lambda>p. bind_res (compile_pattern compiler True (ip_name p) (JStr (ip_pattern p))) (\<lambda>rx. Inr (p, rx))) patterns)"

definition injection_risk :: "pyfloat \<Rightarrow> risk_level" where
  "injection_risk confidence = (if confidence \<ge> 85/100 then High else if confidence \<ge> 1/2 then Medium else Low)"

definition injection_score :: "(injection_pattern \<times> regex) list \<Rightarrow> pystr \<Rightarrow> pyfloat" where
  "injection_score patterns content =
     sum_list (map (\<lambda>(p, rx). if re_findall rx content = [] then 0 else the (map_of severity_scores (ip_severity p))) patterns)"

definition injection_detect :: "(injection_pattern \<times> regex) list \<Rightarrow> pystr \<Rightarrow> detection_result" where
  "injection_detect patterns content =
     (let matched = filter (\<lambda>(p, rx). re_findall rx content \<noteq> []) patterns;
          confidence = min (injection_score patterns content) 1 in
      plain_result ''prompt_injection'' ''prompt_injection'' Allow confidence (injection_risk confidence)
        (if matched \<noteq> [] then ''Detected '' @ show_nat (length matched) @ '' prompt injection pattern(s)''
         else ''No prompt injection patterns detected''))"

subsection \<open>Sensitive words\<close>

text \<open>
  The Aho-Corasick automaton of a list of words: what \<open>iter\<close> yields, the index of the last character of
  an occurrence and the word.
\<close>

type_synonym word_search = "pystr list \<Rightarrow> pystr \<Rightarrow> (nat \<times> pystr) list"

record word_detector =
  wd_words :: "(pystr \<times> pystr list) list"
  wd_match_mode :: json
  wd_block_threshold :: json
  wd_flag_threshold :: json

text \<open>The lines of a text file, with universal newlines; a carriage return is stripped with the line.\<close>

fun text_lines :: "pystr \<Rightarrow> pystr list" where
  "text_lines [] = [[]]"
| "text_lines (c # cs) =
     (if c = newline \<or> c = CHR 0x0D then [] # text_lines cs
      else case text_lines cs of l # ls \<Rightarrow> (c # l) # ls | [] \<Rightarrow> [[c]])"

definition load_word_list :: "(pystr \<Rightarrow> pystr option) \<Rightarrow> pystr \<Rightarrow> detector_error + pystr list" where
  "load_word_list read_file path =
     (case read_file path of
        None \<Rightarrow> Inl (Word_list_missing path)
      | Some text \<Rightarrow> Inr (filter (\<lambda>w. w \<noteq> [] \<and> \<not> starts_with w ''#'') (map py_strip (text_lines text))))"

text \<open>\<open>_build_automaton\<close>: only strings can be added.\<close>

definition automaton_words :: "json list \<Rightarrow> detector_error + pystr list" where
  "automaton_words words =
     map_res (\<lambda>w. case w of JStr s \<Rightarrow> Inr s | _ \<Rightarrow> Inl (Detector_raised Type_exception)) (filter truthy words)"

definition words_initialize ::
  "(json \<Rightarrow> pystr) \<Rightarrow> (pystr \<Rightarrow> pystr option) \<Rightarrow> settings \<Rightarrow> detector_error + word_detector" where
  "words_initialize repr read_file config =
     (let file = setting_or config ''word_list_file'' JNull; file_zh = setting_or config ''word_list_file_zh'' JNull;
          load = (\<lambda>f. bind_res (load_word_list read_file (py_str repr f)) (\<lambda>ws. Inr (map JStr ws))) in
      bind_res (if truthy file then load file
                else case json_items (setting_or config ''words'' (JArr [])) of
                       Inl e \<Rightarrow> Inl (Detector_raised e) | Inr ws \<Rightarrow> Inr ws) (\<lambda>en.
      bind_res (if truthy file_zh then load file_zh else Inr []) (\<lambda>zh.
      bind_res (automaton_words en) (\<lambda>en.
      bind_res (automaton_words zh) (\<lambda>zh. Inr
        \<lparr>wd_words = [(''en'', en), (''zh'', zh)], wd_match_mode = setting_or config ''match_mode'' (JStr ''exact''),
         wd_block_threshold = setting_or config ''block_threshold'' (JNum 3),
         wd_flag_threshold = setting_or config ''flag_threshold'' (JNum 1)\<rparr>)))))"

definition select_language :: "word_detector \<Rightarrow> pystr option \<Rightarrow> pystr" where
  "select_language w language =
     (case language of Some l \<Rightarrow> if map_of (wd_words w) l \<noteq> None then l else ''en'' | None \<Rightarrow> ''en'')"

definition is_cjk :: "char \<Rightarrow> bool" where
  "is_cjk c = (let n = of_char c :: nat in (0x4E00 \<le> n \<and> n \<le> 0x9FFF) \<or> (0x3400 \<le> n \<and> n \<le> 0x4DBF))"

definition py_isalnum :: "char \<Rightarrow> bool" where
  "py_isalnum c =
     (let n = of_char c :: nat in
      (0x30 \<le> n \<and> n \<le> 0x39) \<or> (0x41 \<le> n \<and> n \<le> 0x5A) \<or> (0x61 \<le> n \<and> n \<le> 0x7A)
      \<or> n \<in> {0xAA, 0xB2, 0xB3, 0xB5, 0xB9, 0xBA, 0xBC, 0xBD, 0xBE} \<or> (0xC0 \<le> n \<and> n \<notin> {0xD7, 0xF7}))"

definition is_whole_word :: "pystr \<Rightarrow> nat \<Rightarrow> pystr \<Rightarrow> pystr \<Rightarrow> bool" where
  "is_whole_word content end_index word language =
     (let start = end_index + 1 - length word; inner = (if language = ''zh'' then is_cjk else py_isalnum) in
      \<not> (start > 0 \<and> inner (content ! (start - 1)))
      \<and> \<not> (end_index + 1 < length content \<and> inner (content ! (end_index + 1))))"

definition words_result :: "word_detector \<Rightarrow> pystr list \<Rightarrow> py_exception + detection_result" where
  "words_result w matched =
     (let count = length matched;
          result = (\<lambda>action risk confidence. plain_result ''sensitive_words'' ''sensitive_words'' action confidence risk
             (''Found '' @ show_nat count @ '' sensitive word(s)'')) in
      bind_res (at_least (of_nat count) (wd_block_threshold w)) (\<lambda>blocked.
        if blocked then Inr (result Block High 1)
        else
          bind_res (at_least (of_nat count) (wd_flag_threshold w)) (\<lambda>flagged. Inr
            (if flagged then result Flag Medium (1/2) else result Allow Low 0))))"

definition words_detect :: "word_search \<Rightarrow> word_detector \<Rightarrow> pystr \<Rightarrow> pystr option \<Rightarrow> py_exception + detection_result" where
  "words_detect search w content language =
     (let l = select_language w language in
      case map_of (wd_words w) l of
        None \<Rightarrow> words_result w []
      | Some words \<Rightarrow>
          if words = [] then words_result w []
          else words_result w (map snd (filter
                 (\<lambda>(i, word). \<not> (wd_match_mode w = JStr ''exact'' \<and> \<not> is_whole_word content i word l)) (search words content))))"

subsection \<open>Toxicity\<close>

record toxicity_detector =
  tx_on_error :: json
  tx_loaded :: bool

definition toxicity_initialize :: "settings \<Rightarrow> toxicity_detector" where
  "toxicity_initialize config = \<lparr>tx_on_error = setting_or config ''on_error'' (JStr ''fail_open''), tx_loaded = False\<rparr>"

definition toxicity_risk :: "pyfloat \<Rightarrow> risk_level" where
  "toxicity_risk confidence =
     (if confidence \<ge> 9/10 then Critical else if confidence \<ge> 6/10 then High else if confidence > 0 then Medium else Low)"

text \<open>\<open>float(item.get("score", 0.0))\<close>; an infinite score counts as one, a score that is not a number raises.\<close>

definition score_of :: "json \<Rightarrow> py_exception + pyfloat" where
  "score_of item =
     (case json_field ''score'' item of
        None \<Rightarrow> Inr 0
      | Some s \<Rightarrow>
          (case json_number s of
             Some x \<Rightarrow> Inr x
           | None \<Rightarrow>
               (case s of
                  JStr t \<Rightarrow> (case py_float t of Some (Finite x) \<Rightarrow> Inr x | Some (Infinite positive) \<Rightarrow> Inr (if positive then 1 else 0)
                             | _ \<Rightarrow> Inl Type_exception)
                | _ \<Rightarrow> Inl Type_exception)))"

definition clamped :: "pyfloat \<Rightarrow> pyfloat" where
  "clamped x = max 0 (min 1 x)"

definition toxicity_score :: "json \<Rightarrow> py_exception + pyfloat" where
  "toxicity_score results =
     (if \<not> truthy results then Inr 0
      else
        case (case results of JArr (JArr inner # _) \<Rightarrow> JArr inner | _ \<Rightarrow> results) of
          JArr items \<Rightarrow>
            (case List.find (\<lambda>i. json_field ''label'' i = Some (JStr ''toxic'')) items of
               Some item \<Rightarrow> bind_res (score_of item) (\<lambda>x. Inr (clamped x))
             | None \<Rightarrow>
                 bind_res (map_res score_of (filter is_object items)) (\<lambda>scores. Inr
                   (if scores = [] then 0 else clamped (Max (set scores)))))
        | _ \<Rightarrow> Inr 0)"

definition toxicity_error :: "toxicity_detector \<Rightarrow> pystr \<Rightarrow> detection_result" where
  "toxicity_error t message =
     (if tx_on_error t = JStr ''fail_closed''
      then plain_result ''toxicity'' ''toxicity'' Block 1 High (''Model loading failed (fail_closed): '' @ message)
      else plain_result ''toxicity'' ''toxicity'' Allow 0 Low (''Model loading failed (fail_open): '' @ message))
     \<lparr>dr_error := Some message\<rparr>"

text \<open>The model loads, or does not, and then answers; the score in the message is left out.\<close>

definition toxicity_detect ::
  "(unit \<Rightarrow> pystr option) \<Rightarrow> (pystr \<Rightarrow> pystr + json) \<Rightarrow> toxicity_detector \<Rightarrow> pystr
     \<Rightarrow> (py_exception + detection_result) \<times> toxicity_detector" where
  "toxicity_detect load model t content =
     (case (if tx_loaded t then None else load ()) of
        Some message \<Rightarrow> (Inr (toxicity_error t message), t)
      | None \<Rightarrow>
          (let t = t\<lparr>tx_loaded := True\<rparr> in
           case model content of
             Inl message \<Rightarrow> (Inr (toxicity_error t message), t)
           | Inr results \<Rightarrow>
               (bind_res (toxicity_score results) (\<lambda>confidence. Inr
                  (plain_result ''toxicity'' ''toxicity'' Allow confidence (toxicity_risk confidence)
                     (if confidence > 0 then ''Toxicity detected'' else ''No toxicity detected''))), t)))"

subsection \<open>The registry\<close>

type_synonym 'c detector_registry = "(pystr \<times> 'c) list"

definition register_class :: "pystr \<Rightarrow> 'c \<Rightarrow> 'c detector_registry \<Rightarrow> 'c detector_registry" where
  "register_class name c reg = AList.update name c reg"

definition get_class :: "'c detector_registry \<Rightarrow> pystr \<Rightarrow> 'c option" where
  "get_class reg name = map_of reg name"

datatype builtin_class = PromptInjectionDetector | PIIDetector | SensitiveWordsDetector | SecretLeakDetector | ToxicityDetector

definition default_registry :: "builtin_class detector_registry" where
  "default_registry =
     fold (\<lambda>(name, c). register_class name c)
       [(''prompt_injection'', PromptInjectionDetector), (''pii_redaction'', PIIDetector),
        (''sensitive_words'', SensitiveWordsDetector), (''secret_leak'', SecretLeakDetector), (''toxicity'', ToxicityDetector)] []"

text \<open>What an entry point resolves to, if importing it does not fail.\<close>

record 'c candidate =
  cd_is_class :: bool
  cd_attributes :: "pystr list"
  cd_callables :: "pystr list"
  cd_class :: 'c

definition is_detector_like :: "'c candidate \<Rightarrow> bool" where
  "is_detector_like c \<longleftrightarrow>
     cd_is_class c \<and> list_all (\<lambda>a. a \<in> set (cd_attributes c)) [''name'', ''category'', ''description'', ''version'']
     \<and> list_all (\<lambda>m. m \<in> set (cd_callables c)) [''initialize'', ''detect'']"

fun register_from_entry_points :: "(pystr \<times> 'c candidate option) list \<Rightarrow> 'c detector_registry \<Rightarrow> nat \<times> 'c detector_registry" where
  "register_from_entry_points [] reg = (0, reg)"
| "register_from_entry_points ((name, resolved) # eps) reg =
     (if map_of reg name \<noteq> None then register_from_entry_points eps reg
      else case resolved of
             None \<Rightarrow> register_from_entry_points eps reg
           | Some c \<Rightarrow>
               if \<not> is_detector_like c then register_from_entry_points eps reg
               else let (n, reg) = register_from_entry_points eps (AList.update name (cd_class c) reg) in (Suc n, reg))"

datatype create_error = Class_missing | Initialization_raised | Initialization_cancelled

definition create_detector ::
  "('c \<Rightarrow> detector) \<Rightarrow> (detector \<Rightarrow> plugin) \<Rightarrow> 'c detector_registry \<Rightarrow> pystr \<Rightarrow> (create_error + detector) \<times> life_event list" where
  "create_detector instantiate plugins reg name =
     (case get_class reg name of
        None \<Rightarrow> (Inl Class_missing, [])
      | Some c \<Rightarrow>
          (let x = instantiate c in
           case pl_initialize (plugins x) of
             Init_done \<Rightarrow> (Inr x, [Initialize x])
           | Init_raised \<Rightarrow> (Inl Initialization_raised, [Initialize x, Shutdown x])
           | Init_cancelled \<Rightarrow> (Inl Initialization_cancelled, [Initialize x])))"

fun initialize_registered ::
  "('c \<Rightarrow> detector) \<Rightarrow> (detector \<Rightarrow> plugin) \<Rightarrow> 'c detector_registry \<Rightarrow> pystr list \<Rightarrow> (pystr \<times> detector) list
     \<Rightarrow> (create_error + (pystr \<times> detector) list) \<times> life_event list" where
  "initialize_registered instantiate plugins reg [] detectors = (Inr detectors, [])"
| "initialize_registered instantiate plugins reg (name # names) detectors =
     (case create_detector instantiate plugins reg name of
        (Inl Initialization_cancelled, events) \<Rightarrow> (Inl Initialization_cancelled, events)
      | (Inl _, events) \<Rightarrow>
          (let (r, events') = initialize_registered instantiate plugins reg names detectors in (r, events @ events'))
      | (Inr x, events) \<Rightarrow>
          (let (r, events') = initialize_registered instantiate plugins reg names (AList.update name x detectors)
           in (r, events @ events')))"

definition shutdown_registered :: "(pystr \<times> detector) list \<Rightarrow> life_event list" where
  "shutdown_registered detectors = map (Shutdown \<circ> snd) detectors"

end
