(* ===== verification/Streaming_Evidence.thy ===== *)
theory Streaming_Evidence
  imports Flow_Evidence
begin

text \<open>
  \<open>audit/streaming_evidence.py\<close>: the evidence of all windows of a stream, counted in buckets, for
  the one audit entry of the stream.

  The mutable bucket and the frozen one of the summary have the same fields and are one record.
  The size of a serialised summary is an argument, as are the digests \<open>bound_flow_evidence\<close> uses, and
  so is the order in which Python iterates over a set of strings (\<open>set_order\<close>, a list with the same
  elements), which decides between actions the precedence does not know.
\<close>

subsection \<open>The action of a window\<close>

fun action_precedence :: "pystr \<Rightarrow> int option" where
  "action_precedence action =
     (if action = ''allow'' then Some 0 else if action = ''flag'' then Some 1
      else if action = ''modify'' then Some 2 else if action = ''block'' then Some 3 else None)"

definition trigger_actions :: "pystr list" where
  "trigger_actions = [''block'', ''flag'', ''modify'']"

definition precedence_or :: "int \<Rightarrow> pystr \<Rightarrow> int" where
  "precedence_or unknown action = (case action_precedence action of None \<Rightarrow> unknown | Some n \<Rightarrow> n)"

text \<open>\<open>max(actions, key=..., default="allow")\<close> over a set.\<close>

definition flow_action :: "(pystr list \<Rightarrow> pystr list) \<Rightarrow> flow_evidence \<Rightarrow> pystr" where
  "flow_action set_order evidence =
     (case set_order (map (remove_prefix ''safety.'')
             (filter (\<lambda>signal. starts_with signal ''safety.'') (fv_final_signals evidence))) of
        [] \<Rightarrow> ''allow''
      | action # actions \<Rightarrow> running_max (precedence_or (-1)) action actions)"

subsection \<open>Buckets\<close>

fun node_status_value :: "node_status \<Rightarrow> pystr" where
  "node_status_value N_SUCCEEDED = ''succeeded''"
| "node_status_value N_FAILED = ''failed''"
| "node_status_value N_TIMED_OUT = ''timed_out''"
| "node_status_value N_SKIPPED = ''skipped''"
| "node_status_value N_CANCELLED = ''cancelled''"
| "node_status_value N_PARTIAL = ''partial''"

type_synonym bucket_key = "pystr \<times> pystr \<times> pystr \<times> pystr \<times> pystr \<times> pystr"

record evidence_bucket =
  eb_flow_id :: pystr
  eb_flow_version :: pystr
  eb_node_id :: pystr
  eb_status :: pystr
  eb_reason_code :: pystr
  eb_action :: pystr
  eb_execution_count :: nat
  eb_degraded_count :: nat
  eb_trigger_windows :: "nat list"

definition max_buckets :: nat where
  "max_buckets = 512"

definition max_trigger_windows :: nat where
  "max_trigger_windows = 32"

definition node_bucket_key :: "flow_evidence \<Rightarrow> pystr \<Rightarrow> node_evidence \<Rightarrow> bucket_key" where
  "node_bucket_key evidence action node =
     (fv_flow_id evidence, fv_flow_version evidence, ne_node_id node, node_status_value (ne_status node),
      ne_reason_code node, action)"

fun new_bucket :: "bucket_key \<Rightarrow> evidence_bucket" where
  "new_bucket (flow, version, node, status, reason, action) =
     \<lparr>eb_flow_id = flow, eb_flow_version = version, eb_node_id = node, eb_status = status,
      eb_reason_code = reason, eb_action = action, eb_execution_count = 0, eb_degraded_count = 0,
      eb_trigger_windows = []\<rparr>"

definition count_in_bucket :: "pystr \<Rightarrow> nat \<Rightarrow> node_evidence \<Rightarrow> evidence_bucket \<Rightarrow> evidence_bucket" where
  "count_in_bucket action window_index node bucket =
     bucket\<lparr>eb_execution_count := eb_execution_count bucket + 1,
            eb_degraded_count := eb_degraded_count bucket + (if ne_degraded node then 1 else 0),
            eb_trigger_windows :=
              (if action \<in> set trigger_actions
                  \<and> length (eb_trigger_windows bucket) < max_trigger_windows
                  \<and> window_index \<notin> set (eb_trigger_windows bucket)
               then eb_trigger_windows bucket @ [window_index] else eb_trigger_windows bucket)\<rparr>"

subsection \<open>The accumulator\<close>

record evidence_accumulator =
  ea_max_evidence_size :: nat
  ea_execution_count :: nat
  ea_buckets :: "(bucket_key \<times> evidence_bucket) list"
  ea_post_audit :: "flow_evidence option"
  ea_details_truncated :: bool

definition new_accumulator :: "nat \<Rightarrow> evidence_accumulator" where
  "new_accumulator max_evidence_size =
     \<lparr>ea_max_evidence_size = max_evidence_size, ea_execution_count = 0, ea_buckets = [],
      ea_post_audit = None, ea_details_truncated = False\<rparr>"

text \<open>The body of the loop of \<open>record_window\<close>.\<close>

definition record_node ::
  "flow_evidence \<Rightarrow> pystr \<Rightarrow> nat \<Rightarrow> node_evidence \<Rightarrow> evidence_accumulator \<Rightarrow> evidence_accumulator" where
  "record_node evidence action window_index node acc =
     (let key = node_bucket_key evidence action node;
          put = \<lambda>bucket. acc\<lparr>ea_buckets :=
                  AList.update key (count_in_bucket action window_index node bucket) (ea_buckets acc)\<rparr>
      in case map_of (ea_buckets acc) key of
           Some bucket \<Rightarrow> put bucket
         | None \<Rightarrow>
             if length (ea_buckets acc) \<ge> max_buckets then acc\<lparr>ea_details_truncated := True\<rparr>
             else put (new_bucket key))"

definition record_window ::
  "(pystr list \<Rightarrow> pystr list) \<Rightarrow> flow_evidence \<Rightarrow> nat \<Rightarrow> evidence_accumulator \<Rightarrow> evidence_accumulator" where
  "record_window set_order evidence window_index acc =
     fold (record_node evidence (flow_action set_order evidence) window_index) (fv_nodes evidence)
       (acc\<lparr>ea_execution_count := ea_execution_count acc + 1\<rparr>)"

definition set_post_audit :: "flow_evidence \<Rightarrow> evidence_accumulator \<Rightarrow> evidence_accumulator" where
  "set_post_audit evidence acc = acc\<lparr>ea_post_audit := Some evidence\<rparr>"

subsection \<open>The summary\<close>

record streaming_summary =
  se_execution_count :: nat
  se_buckets :: "evidence_bucket list"
  se_post_audit :: "flow_evidence option"
  se_details_truncated :: bool

text \<open>\<open>sorted(self._buckets.items())\<close>: the keys are distinct, so that no two buckets are compared.\<close>

definition sorted_buckets :: "(bucket_key \<times> evidence_bucket) list \<Rightarrow> evidence_bucket list" where
  "sorted_buckets buckets = map snd (sort_key fst buckets)"

text \<open>The greedy choice of the buckets that fit.\<close>

definition retain_buckets ::
  "(streaming_summary \<Rightarrow> nat) \<Rightarrow> nat \<Rightarrow> streaming_summary \<Rightarrow> evidence_bucket list \<Rightarrow> evidence_bucket list" where
  "retain_buckets json_size limit summary buckets =
     fold (\<lambda>bucket retained.
             if json_size (summary\<lparr>se_buckets := retained @ [bucket], se_details_truncated := True\<rparr>) > limit
             then retained else retained @ [bucket])
       (sort_key (\<lambda>b. (- precedence_or 0 (eb_action b), eb_flow_id b, eb_node_id b, eb_reason_code b)) buckets) []"

definition full_summary :: "evidence_accumulator \<Rightarrow> streaming_summary" where
  "full_summary acc =
     \<lparr>se_execution_count = ea_execution_count acc, se_buckets = sorted_buckets (ea_buckets acc),
      se_post_audit = ea_post_audit acc, se_details_truncated = ea_details_truncated acc\<rparr>"

text \<open>
  The end of \<open>summary\<close>, for a summary that is too long even with the buckets that fit: the
  post-audit evidence is compacted to what is left beside a wrapper that has the text \<open>null\<close>, of four bytes,
  in its place, or omitted. \<open>bound\<close> is \<open>bound_flow_evidence\<close> with its digests and sizes.
\<close>

definition fit_post_audit ::
  "(streaming_summary \<Rightarrow> nat) \<Rightarrow> (nat \<Rightarrow> flow_evidence \<Rightarrow> unit + flow_evidence) \<Rightarrow> nat \<Rightarrow> streaming_summary
     \<Rightarrow> streaming_summary" where
  "fit_post_audit json_size bound limit bounded =
     (case se_post_audit bounded of
        None \<Rightarrow> bounded\<lparr>se_post_audit := None\<rparr>
      | Some post_audit \<Rightarrow>
          let wrapper_size = int (json_size (bounded\<lparr>se_post_audit := None\<rparr>)) - 4;
              post_audit_budget = int limit - wrapper_size
          in if post_audit_budget > 0
             then case bound (nat post_audit_budget) post_audit of
                 Inl _ \<Rightarrow> bounded\<lparr>se_post_audit := None\<rparr>
               | Inr compacted \<Rightarrow>
                   if json_size (bounded\<lparr>se_post_audit := Some compacted\<rparr>) \<le> limit
                   then bounded\<lparr>se_post_audit := Some compacted\<rparr>
                   else bounded\<lparr>se_post_audit := None\<rparr>
             else bounded\<lparr>se_post_audit := None\<rparr>)"

definition summarize ::
  "(streaming_summary \<Rightarrow> nat) \<Rightarrow> (nat \<Rightarrow> flow_evidence \<Rightarrow> unit + flow_evidence) \<Rightarrow> evidence_accumulator
     \<Rightarrow> streaming_summary" where
  "summarize json_size bound acc =
     (let limit = ea_max_evidence_size acc; summary = full_summary acc
      in if json_size summary \<le> limit then summary
         else
           let bounded = summary\<lparr>se_buckets := retain_buckets json_size limit summary (se_buckets summary),
                                 se_details_truncated := True\<rparr>
           in if json_size bounded \<le> limit then bounded
              else fit_post_audit json_size bound limit bounded)"

subsection \<open>What the buckets count\<close>

text \<open>The nodes a stream's windows executed, each as the key of its bucket, in order.\<close>

definition window_keys :: "(pystr list \<Rightarrow> pystr list) \<Rightarrow> (flow_evidence \<times> nat) list \<Rightarrow> bucket_key list" where
  "window_keys set_order windows =
     concat (map (\<lambda>(e, i). map (node_bucket_key e (flow_action set_order e)) (fv_nodes e)) windows)"

definition record_windows ::
  "(pystr list \<Rightarrow> pystr list) \<Rightarrow> (flow_evidence \<times> nat) list \<Rightarrow> evidence_accumulator \<Rightarrow> evidence_accumulator" where
  "record_windows set_order windows acc = fold (\<lambda>(e, i). record_window set_order e i) windows acc"

definition bucket_key :: "evidence_bucket \<Rightarrow> bucket_key" where
  "bucket_key b = (eb_flow_id b, eb_flow_version b, eb_node_id b, eb_status b, eb_reason_code b, eb_action b)"

lemma bucket_key_new [simp]: "bucket_key (new_bucket k) = k"
  by (cases k) (simp add: bucket_key_def)

lemma new_bucket_fields [simp]:
  "eb_execution_count (new_bucket k) = 0" "eb_degraded_count (new_bucket k) = 0" "eb_trigger_windows (new_bucket k) = []"
  by (cases k; simp)+

definition bucket_ok :: "bucket_key list \<Rightarrow> bucket_key \<Rightarrow> evidence_bucket \<Rightarrow> bool" where
  "bucket_ok keys k b \<longleftrightarrow>
     bucket_key b = k \<and> eb_execution_count b = count_list keys k \<and> eb_degraded_count b \<le> eb_execution_count b
     \<and> length (eb_trigger_windows b) \<le> max_trigger_windows \<and> distinct (eb_trigger_windows b)"

lemma bucket_ok_other: "bucket_ok keys k b \<Longrightarrow> k \<noteq> key \<Longrightarrow> bucket_ok (keys @ [key]) k b"
  by (simp add: bucket_ok_def)

lemma bucket_ok_count:
  "bucket_ok keys key b \<Longrightarrow> bucket_ok (keys @ [key]) key (count_in_bucket action i node b)"
  by (auto simp: bucket_ok_def count_in_bucket_def bucket_key_def)

definition accumulator_ok :: "bucket_key list \<Rightarrow> evidence_accumulator \<Rightarrow> bool" where
  "accumulator_ok keys acc \<longleftrightarrow>
     distinct (map fst (ea_buckets acc)) \<and> length (ea_buckets acc) \<le> max_buckets
     \<and> (\<forall>k b. map_of (ea_buckets acc) k = Some b \<longrightarrow> bucket_ok keys k b \<and> k \<in> set keys)
     \<and> (\<forall>k \<in> set keys. map_of (ea_buckets acc) k = None \<longrightarrow>
          ea_details_truncated acc \<and> length (ea_buckets acc) = max_buckets)"

lemma length_update: "length (AList.update k v al) = (if map_of al k = None then Suc (length al) else length al)"
  by (induction al) auto

lemma record_node_ok:
  assumes "accumulator_ok keys acc"
  shows "accumulator_ok (keys @ [node_bucket_key evidence action node]) (record_node evidence action i node acc)"
proof -
  let ?key = "node_bucket_key evidence action node"
  note ok = assms [unfolded accumulator_ok_def]
  have distinct: "distinct (map fst (AList.update ?key v (ea_buckets acc)))" for v
    using ok by (simp add: distinct_update)
  show ?thesis
  proof (cases "map_of (ea_buckets acc) ?key")
    case (Some bucket)
    with ok have "bucket_ok (keys @ [?key]) ?key (count_in_bucket action i node bucket)"
      by (blast intro: bucket_ok_count)
    with Some ok distinct show ?thesis
      by (auto simp: accumulator_ok_def record_node_def Let_def update_conv' length_update intro: bucket_ok_other)
  next
    case None
    show ?thesis
    proof (cases "length (ea_buckets acc) \<ge> max_buckets")
      case True
      with ok have "length (ea_buckets acc) = max_buckets" by simp
      with None ok True show ?thesis
        by (auto simp: accumulator_ok_def record_node_def Let_def intro!: bucket_ok_other)
    next
      case False
      with None ok have new: "?key \<notin> set keys" by auto
      then have "bucket_ok keys ?key (new_bucket ?key)" by (simp add: bucket_ok_def count_list_0_iff)
      then have "bucket_ok (keys @ [?key]) ?key (count_in_bucket action i node (new_bucket ?key))"
        by (rule bucket_ok_count)
      with None False ok distinct show ?thesis
        by (auto simp: accumulator_ok_def record_node_def Let_def update_conv' length_update intro: bucket_ok_other)
    qed
  qed
qed

lemma record_nodes_ok:
  "accumulator_ok keys acc \<Longrightarrow>
     accumulator_ok (keys @ map (node_bucket_key evidence action) nodes) (fold (record_node evidence action i) nodes acc)"
proof (induction nodes arbitrary: keys acc)
  case (Cons n nodes)
  from Cons.IH [OF record_node_ok [OF Cons.prems, of evidence action n i]] show ?case by simp
qed simp

lemma record_window_ok:
  assumes "accumulator_ok keys acc"
  shows "accumulator_ok (keys @ map (node_bucket_key e (flow_action so e)) (fv_nodes e)) (record_window so e i acc)"
proof -
  have "accumulator_ok keys (acc\<lparr>ea_execution_count := ea_execution_count acc + 1\<rparr>)"
    using assms by (simp add: accumulator_ok_def)
  then show ?thesis unfolding record_window_def by (rule record_nodes_ok)
qed

lemma record_windows_ok:
  "accumulator_ok keys acc \<Longrightarrow> accumulator_ok (keys @ window_keys so windows) (record_windows so windows acc)"
proof (induction windows arbitrary: keys acc)
  case (Cons w windows)
  obtain e i where w: "w = (e, i)" by (cases w)
  from Cons.IH [OF record_window_ok [OF Cons.prems, of e so i]] show ?case
    by (simp add: w window_keys_def record_windows_def)
qed (simp add: window_keys_def record_windows_def)

lemma record_nodes_count [simp]:
  "ea_execution_count (fold (record_node e a i) nodes acc) = ea_execution_count acc"
  by (induction nodes arbitrary: acc) (auto simp: record_node_def Let_def split: option.splits)

lemma record_windows_count:
  "ea_execution_count (record_windows so windows acc) = ea_execution_count acc + length windows"
proof (induction windows arbitrary: acc)
  case (Cons w windows)
  then show ?case by (cases w) (simp add: record_windows_def record_window_def)
qed (simp add: record_windows_def)

lemma accumulator_ok_kept:
  "\<lbrakk> accumulator_ok keys acc; map_of (ea_buckets acc) k = Some b \<rbrakk> \<Longrightarrow> bucket_ok keys k b \<and> k \<in> set keys"
  unfolding accumulator_ok_def by blast

lemma accumulator_ok_missing:
  "\<lbrakk> accumulator_ok keys acc; map_of (ea_buckets acc) k = None \<rbrakk>
     \<Longrightarrow> k \<notin> set keys \<or> ea_details_truncated acc \<and> length (ea_buckets acc) = max_buckets"
  unfolding accumulator_ok_def by blast

lemma new_accumulator_ok: "accumulator_ok [] (new_accumulator limit)"
  by (simp add: accumulator_ok_def new_accumulator_def)

subsection \<open>What the summary keeps\<close>

lemma retain_fits:
  assumes "retain_buckets json_size limit s bs \<noteq> []"
  shows "json_size (s\<lparr>se_buckets := retain_buckets json_size limit s bs, se_details_truncated := True\<rparr>) \<le> limit"
proof -
  let ?step = "\<lambda>bucket retained.
     if json_size (s\<lparr>se_buckets := retained @ [bucket], se_details_truncated := True\<rparr>) > limit
     then retained else retained @ [bucket]"
  have "fold ?step xs r \<noteq> [] \<longrightarrow>
      json_size (s\<lparr>se_buckets := fold ?step xs r, se_details_truncated := True\<rparr>) \<le> limit"
    if "r \<noteq> [] \<longrightarrow> json_size (s\<lparr>se_buckets := r, se_details_truncated := True\<rparr>) \<le> limit" for xs r
    using that by (induction xs arbitrary: r) auto
  from this [of "[]"] assms show ?thesis by (simp add: retain_buckets_def)
qed

lemma retain_subset: "set (retain_buckets json_size limit s bs) \<subseteq> set bs"
proof -
  let ?step = "\<lambda>bucket retained.
     if json_size (s\<lparr>se_buckets := retained @ [bucket], se_details_truncated := True\<rparr>) > limit
     then retained else retained @ [bucket]"
  have "set (fold ?step xs r) \<subseteq> set r \<union> set xs" for xs r
  proof (induction xs arbitrary: r)
    case (Cons x xs)
    have "set (?step x r) \<subseteq> insert x (set r)" by auto
    with Cons.IH [of "?step x r"] show ?case by auto
  qed simp
  from this [of "sort_key f bs" "[]" for f] show ?thesis by (simp add: retain_buckets_def)
qed

lemma retain_none:
  assumes "\<And>bs. json_size (s\<lparr>se_buckets := bs, se_details_truncated := True\<rparr>) > limit"
  shows "retain_buckets json_size limit s bs = []"
proof -
  have "fold (\<lambda>bucket retained.
     if json_size (s\<lparr>se_buckets := retained @ [bucket], se_details_truncated := True\<rparr>) > limit
     then retained else retained @ [bucket]) xs [] = []" for xs
    using assms by (induction xs) auto
  then show ?thesis by (simp add: retain_buckets_def)
qed

lemma set_sorted_buckets [simp]: "set (sorted_buckets bs) = snd ` set bs"
  by (simp add: sorted_buckets_def)

lemma fit_post_audit_cases:
  "\<exists>p. fit_post_audit json_size bound limit bounded = bounded\<lparr>se_post_audit := p\<rparr>
     \<and> (json_size (bounded\<lparr>se_post_audit := p\<rparr>) \<le> limit \<or> p = None)"
  by (auto simp: fit_post_audit_def Let_def split: option.splits sum.splits)

lemma summarize_cases:
  "summarize json_size bound acc = full_summary acc
     \<and> json_size (full_summary acc) \<le> ea_max_evidence_size acc
   \<or> se_details_truncated (summarize json_size bound acc)
     \<and> se_execution_count (summarize json_size bound acc) = ea_execution_count acc
     \<and> se_buckets (summarize json_size bound acc)
         = retain_buckets json_size (ea_max_evidence_size acc) (full_summary acc) (sorted_buckets (ea_buckets acc))
     \<and> (json_size (summarize json_size bound acc) \<le> ea_max_evidence_size acc
        \<or> se_buckets (summarize json_size bound acc) = [] \<and> se_post_audit (summarize json_size bound acc) = None)"
  (is "?full \<or> ?bounded")
proof (cases "json_size (full_summary acc) \<le> ea_max_evidence_size acc")
  case True
  then have ?full by (simp add: summarize_def Let_def)
  then show ?thesis ..
next
  case False
  define limit where "limit = ea_max_evidence_size acc"
  define retained where "retained = retain_buckets json_size limit (full_summary acc) (sorted_buckets (ea_buckets acc))"
  define bounded where "bounded = (full_summary acc)\<lparr>se_buckets := retained, se_details_truncated := True\<rparr>"
  have fits: "json_size bounded \<le> limit" if "retained \<noteq> []"
    using retain_fits that by (simp add: bounded_def retained_def)
  have shape: "\<exists>p. summarize json_size bound acc = bounded\<lparr>se_post_audit := p\<rparr>
      \<and> (json_size (summarize json_size bound acc) \<le> limit \<or> \<not> json_size bounded \<le> limit \<and> p = None)"
  proof (cases "json_size bounded \<le> limit")
    case True
    with False have "summarize json_size bound acc = bounded"
      by (simp add: summarize_def Let_def bounded_def retained_def limit_def full_summary_def)
    moreover have "bounded = bounded\<lparr>se_post_audit := se_post_audit bounded\<rparr>" by simp
    ultimately show ?thesis using True by metis
  next
    case over: False
    with False have "summarize json_size bound acc = fit_post_audit json_size bound limit bounded"
      by (simp add: summarize_def Let_def bounded_def retained_def limit_def full_summary_def)
    with fit_post_audit_cases [of json_size bound limit bounded] over show ?thesis by auto
  qed
  then obtain p where p: "summarize json_size bound acc = bounded\<lparr>se_post_audit := p\<rparr>"
    and size: "json_size (summarize json_size bound acc) \<le> limit \<or> \<not> json_size bounded \<le> limit \<and> p = None" by blast
  from size fits have "json_size (summarize json_size bound acc) \<le> limit \<or> retained = [] \<and> p = None" by blast
  then have ?bounded unfolding p by (simp add: bounded_def retained_def limit_def full_summary_def)
  then show ?thesis ..
qed

subsection \<open>Properties\<close>

text \<open>The accumulator of a stream counts what its windows executed: after any windows it has counted each
  window once, every bucket it keeps has counted exactly the nodes with its key, names at most
  thirty-two windows, each once, and has no more degraded executions than executions; there are at most
  512 buckets, and a key without one has no executions unless the accumulator says that details are
  missing, which it says only when all 512 buckets are in use.\<close>

theorem stream_evidence_counts:
  "let acc = record_windows set_order windows (new_accumulator limit) in
     ea_execution_count acc = length windows
     \<and> length (ea_buckets acc) \<le> max_buckets
     \<and> (case map_of (ea_buckets acc) k of
          Some b \<Rightarrow> bucket_ok (window_keys set_order windows) k b \<and> eb_execution_count b \<ge> 1
        | None \<Rightarrow> count_list (window_keys set_order windows) k = 0
            \<or> ea_details_truncated acc \<and> length (ea_buckets acc) = max_buckets)"
proof -
  define acc where "acc = record_windows set_order windows (new_accumulator limit)"
  have ok: "accumulator_ok (window_keys set_order windows) acc"
    using record_windows_ok [OF new_accumulator_ok, of set_order windows limit] by (simp add: acc_def)
  have "ea_execution_count acc = length windows"
    by (simp add: acc_def record_windows_count) (simp add: new_accumulator_def)
  moreover have "length (ea_buckets acc) \<le> max_buckets"
    using ok by (simp add: accumulator_ok_def)
  moreover have "case map_of (ea_buckets acc) k of
      Some b \<Rightarrow> bucket_ok (window_keys set_order windows) k b \<and> eb_execution_count b \<ge> 1
    | None \<Rightarrow> count_list (window_keys set_order windows) k = 0
        \<or> ea_details_truncated acc \<and> length (ea_buckets acc) = max_buckets"
  proof (cases "map_of (ea_buckets acc) k")
    case None
    with accumulator_ok_missing [OF ok None] show ?thesis by (simp add: count_list_0_iff)
  next
    case (Some b)
    with accumulator_ok_kept [OF ok Some] count_list_0_iff [of "window_keys set_order windows" k] show ?thesis
      by (simp add: bucket_ok_def Suc_le_eq)
  qed
  ultimately show ?thesis unfolding Let_def acc_def [symmetric] by blast
qed

text \<open>The summary of a stream fits the size budget or is the bare envelope without buckets and
  post-audit evidence; it always keeps the number of windows, its buckets are buckets the
  accumulator counted, unaltered, and when one of them or a change to the post-audit evidence is missing it
  says that details were truncated.\<close>

theorem stream_summary_bounded:
  "(json_size (summarize json_size bound acc) \<le> ea_max_evidence_size acc
      \<or> se_buckets (summarize json_size bound acc) = [] \<and> se_post_audit (summarize json_size bound acc) = None)
   \<and> se_execution_count (summarize json_size bound acc) = ea_execution_count acc
   \<and> set (se_buckets (summarize json_size bound acc)) \<subseteq> snd ` set (ea_buckets acc)
   \<and> (se_details_truncated (summarize json_size bound acc)
      \<or> set (se_buckets (summarize json_size bound acc)) = snd ` set (ea_buckets acc)
        \<and> se_post_audit (summarize json_size bound acc) = ea_post_audit acc)"
  using summarize_cases [of json_size bound acc]
    retain_subset [of json_size "ea_max_evidence_size acc" "full_summary acc" "sorted_buckets (ea_buckets acc)"]
  by (elim disjE conjE) (simp_all add: full_summary_def)

text \<open>C30. Post-audit evidence that does not fit the budget takes all buckets with it: when every
  summary that carries the evidence is too long, the summary of the stream has no buckets, even
  if the buckets alone would fit, although the code means to omit only the post-audit evidence, which the audit
  entry holds a second time.\<close>

theorem large_post_audit_drops_buckets:
  assumes "\<And>s. se_post_audit s = ea_post_audit acc \<Longrightarrow> json_size s > ea_max_evidence_size acc"
  shows "se_buckets (summarize json_size bound acc) = [] \<and> se_details_truncated (summarize json_size bound acc)"
proof -
  have "retain_buckets json_size (ea_max_evidence_size acc) (full_summary acc) (sorted_buckets (ea_buckets acc)) = []"
    by (rule retain_none) (simp add: assms full_summary_def)
  moreover have "\<not> json_size (full_summary acc) \<le> ea_max_evidence_size acc"
    using assms [of "full_summary acc"] by (simp add: full_summary_def)
  ultimately show ?thesis using summarize_cases [of json_size bound acc] by auto
qed

definition sample_stream_evidence :: "pystr \<Rightarrow> flow_evidence" where
  "sample_stream_evidence signal =
     \<lparr>fv_execution_id = ''w'', fv_parent_execution_id = None, fv_flow_id = ''output'', fv_flow_version = ''1.0.0'',
      fv_direction = Output, fv_stage = ''detection'', fv_status = F_COMPLETED, fv_reason_code = ''completed'',
      fv_duration_ms = 1, fv_final_signals = [signal],
      fv_nodes =
        [\<lparr>ne_flow_id = ''output'', ne_flow_version = ''1.0.0'', ne_execution_id = ''w'', ne_node_id = ''toxicity'',
          ne_definition_index = 0, ne_target_id = ''detector.toxicity'', ne_target_contract_version = ''1.0'',
          ne_target_implementation_version = ''1'',
          ne_effective_policy =
            \<lparr>np_timeout = \<lparr>tp_seconds = 30, tp_action = Fail_open\<rparr>, np_failure = Fail_open,
             np_availability = default_availability, np_degradation = default_degradation, np_stop = [''safety.block''],
             np_sources = \<lparr>ps_timeout = DEFAULT, ps_failure = DEFAULT, ps_availability = DEFAULT,
                            ps_degradation = DEFAULT, ps_stop = DEFAULT\<rparr>\<rparr>,
          ne_status = N_SUCCEEDED, ne_degraded = False, ne_reason_code = ''completed'', ne_duration_ms = 1,
          ne_item_count = 1, ne_succeeded_items = 1, ne_failed_items = 0, ne_skipped_items = 0,
          ne_cancelled_items = 0, ne_signals = [], ne_evidence_summary = None, ne_child_execution_id = None,
          ne_details_truncated = False, ne_evidence_rejected_reason = None\<rparr>],
      fv_evidence_persisted = True, fv_details_truncated = False\<rparr>"

text \<open>Two windows, one of them flagged, and a budget that holds their buckets but not the post-audit evidence.\<close>

definition sample_stream_accumulator :: evidence_accumulator where
  "sample_stream_accumulator =
     set_post_audit (sample_stream_evidence ''safety.block'')
       (record_windows remdups
         [(sample_stream_evidence ''safety.flag'', 0), (sample_stream_evidence ''safety.allow'', 1)]
         (new_accumulator 500))"

definition sample_summary_size :: "streaming_summary \<Rightarrow> nat" where
  "sample_summary_size s =
     50 + 100 * length (se_buckets s) + (case se_post_audit s of None \<Rightarrow> 4 | Some e \<Rightarrow> 500 * length (fv_nodes e))"

lemma sample_stream_accumulator_audit:
  "ea_max_evidence_size sample_stream_accumulator = 500
   \<and> map_option (\<lambda>e. length (fv_nodes e)) (ea_post_audit sample_stream_accumulator) = Some 1
   \<and> length (ea_buckets sample_stream_accumulator) = 2
   \<and> sample_summary_size ((full_summary sample_stream_accumulator)\<lparr>se_post_audit := None\<rparr>) \<le> 500"
  by code_simp

theorem large_post_audit_drops_buckets_witness:
  "se_buckets (summarize sample_summary_size (\<lambda>_ _. Inl ()) sample_stream_accumulator) = []
   \<and> length (ea_buckets sample_stream_accumulator) = 2
   \<and> sample_summary_size ((full_summary sample_stream_accumulator)\<lparr>se_post_audit := None\<rparr>) \<le> 500"
proof -
  have "sample_summary_size s > ea_max_evidence_size sample_stream_accumulator"
    if "se_post_audit s = ea_post_audit sample_stream_accumulator" for s
    using that sample_stream_accumulator_audit by (auto simp: sample_summary_size_def split: option.splits)
  then have "se_buckets (summarize sample_summary_size (\<lambda>_ _. Inl ()) sample_stream_accumulator) = []"
    by (rule large_post_audit_drops_buckets [THEN conjunct1])
  with sample_stream_accumulator_audit show ?thesis by blast
qed

end
