(* ===== verification/Metrics.thy ===== *)
theory Metrics
  imports Tenancy Streaming_Evidence
begin

text \<open>
  \<open>observability/metrics.py\<close>, the metrics part of \<open>observability/flow.py\<close>, \<open>observability/tenant.py\<close>,
  the \<open>/metrics\<close> route of \<open>routes/health.py\<close> and the recording of a decision in \<open>routes/chat.py\<close>.

  The Prometheus client is not code of the repository: a registry is the list of the calls made on its
  families (\<open>family.labels(...).inc()\<close> and the like), and its rendering is an argument. The
  registry a request binds is put back when the request ends (\<open>reset_runtime\<close>). Tracing spans are left out.
\<close>

subsection \<open>Registries\<close>

datatype family_kind = Counter_family | Gauge_family | Histogram_family

record metric_family =
  mf_name :: pystr
  mf_kind :: family_kind
  mf_labels :: "pystr list"

datatype metric_operation = Inc | Set_to pyfloat | Observe pyfloat

text \<open>\<open>family.labels(name=value, ...).operation(...)\<close>.\<close>

record metric_call =
  mc_family :: metric_family
  mc_labels :: "(pystr \<times> pystr) list"
  mc_operation :: metric_operation

record metrics_registry =
  mg_tenant_ids :: "pystr list"
  mg_calls :: "metric_call list"

definition new_registry :: "pystr list \<Rightarrow> metrics_registry" where
  "new_registry metric_tenant_ids = \<lparr>mg_tenant_ids = metric_tenant_ids, mg_calls = []\<rparr>"

text \<open>The families \<open>MetricsRegistry.__init__\<close> registers.\<close>

definition gateway_requests_family :: metric_family where
  "gateway_requests_family =
     \<lparr>mf_name = ''safety_gateway_requests_total'', mf_kind = Counter_family,
      mf_labels = [''direction'', ''action'', ''model'']\<rparr>"

definition gateway_duration_family :: metric_family where
  "gateway_duration_family =
     \<lparr>mf_name = ''safety_gateway_request_duration_seconds'', mf_kind = Histogram_family,
      mf_labels = [''direction'', ''model'']\<rparr>"

definition gateway_blocks_family :: metric_family where
  "gateway_blocks_family =
     \<lparr>mf_name = ''safety_gateway_blocks_total'', mf_kind = Counter_family,
      mf_labels = [''direction'', ''category'', ''detector_name'']\<rparr>"

definition gateway_flags_family :: metric_family where
  "gateway_flags_family =
     \<lparr>mf_name = ''safety_gateway_flags_total'', mf_kind = Counter_family,
      mf_labels = [''direction'', ''category'', ''detector_name'']\<rparr>"

definition active_connections_family :: metric_family where
  "active_connections_family =
     \<lparr>mf_name = ''safety_gateway_active_connections'', mf_kind = Gauge_family,
      mf_labels = []\<rparr>"

definition streaming_active_family :: metric_family where
  "streaming_active_family =
     \<lparr>mf_name = ''safety_gateway_streaming_active'', mf_kind = Gauge_family,
      mf_labels = []\<rparr>"

definition detector_duration_family :: metric_family where
  "detector_duration_family =
     \<lparr>mf_name = ''safety_detector_duration_seconds'', mf_kind = Histogram_family,
      mf_labels = [''detector_name'', ''direction'']\<rparr>"

definition detector_results_family :: metric_family where
  "detector_results_family =
     \<lparr>mf_name = ''safety_detector_results_total'', mf_kind = Counter_family,
      mf_labels = [''detector_name'', ''action'']\<rparr>"

definition detector_errors_family :: metric_family where
  "detector_errors_family =
     \<lparr>mf_name = ''safety_detector_errors_total'', mf_kind = Counter_family,
      mf_labels = [''detector_name'', ''error_type'']\<rparr>"

definition detector_circuit_breaker_state_family :: metric_family where
  "detector_circuit_breaker_state_family =
     \<lparr>mf_name = ''safety_detector_circuit_breaker_state'', mf_kind = Gauge_family,
      mf_labels = [''detector_name'']\<rparr>"

definition detector_up_family :: metric_family where
  "detector_up_family =
     \<lparr>mf_name = ''safety_detector_up'', mf_kind = Gauge_family,
      mf_labels = [''detector_name'', ''direction'', ''detector_type'', ''policy_id'']\<rparr>"

definition detector_initialization_failures_family :: metric_family where
  "detector_initialization_failures_family =
     \<lparr>mf_name = ''safety_detector_initialization_failures_total'', mf_kind = Counter_family,
      mf_labels = [''detector_name'', ''direction'', ''detector_type'', ''policy'']\<rparr>"

definition gateway_degraded_requests_family :: metric_family where
  "gateway_degraded_requests_family =
     \<lparr>mf_name = ''safety_gateway_degraded_requests_total'', mf_kind = Counter_family,
      mf_labels = [''direction'', ''detector_name'']\<rparr>"

definition evidence_persistence_failures_family :: metric_family where
  "evidence_persistence_failures_family =
     \<lparr>mf_name = ''safety_evidence_persistence_failures_total'', mf_kind = Counter_family,
      mf_labels = [''sink'', ''error_type'']\<rparr>"

definition flow_executions_family :: metric_family where
  "flow_executions_family =
     \<lparr>mf_name = ''safety_flow_executions_total'', mf_kind = Counter_family,
      mf_labels = [''flow_id'', ''direction'', ''status'']\<rparr>"

definition flow_duration_family :: metric_family where
  "flow_duration_family =
     \<lparr>mf_name = ''safety_flow_duration_seconds'', mf_kind = Histogram_family,
      mf_labels = [''flow_id'', ''direction'', ''status'']\<rparr>"

definition flow_node_executions_family :: metric_family where
  "flow_node_executions_family =
     \<lparr>mf_name = ''safety_flow_node_executions_total'', mf_kind = Counter_family,
      mf_labels = [''flow_id'', ''direction'', ''node_id'', ''status'', ''reason_code'']\<rparr>"

definition observability_sanitizations_family :: metric_family where
  "observability_sanitizations_family =
     \<lparr>mf_name = ''safety_observability_sanitizations_total'', mf_kind = Counter_family,
      mf_labels = [''field'', ''reason'']\<rparr>"

definition tenant_decisions_family :: metric_family where
  "tenant_decisions_family =
     \<lparr>mf_name = ''safety_tenant_decisions_total'', mf_kind = Counter_family,
      mf_labels = [''tenant_scope'', ''tenant_id'', ''direction'', ''action'']\<rparr>"

definition tenant_observability_events_family :: metric_family where
  "tenant_observability_events_family =
     \<lparr>mf_name = ''safety_tenant_observability_events_total'', mf_kind = Counter_family,
      mf_labels = [''tenant_scope'', ''tenant_id'', ''event'']\<rparr>"

definition provider_requests_family :: metric_family where
  "provider_requests_family =
     \<lparr>mf_name = ''safety_provider_requests_total'', mf_kind = Counter_family,
      mf_labels = [''provider'', ''model'']\<rparr>"

definition provider_duration_family :: metric_family where
  "provider_duration_family =
     \<lparr>mf_name = ''safety_provider_duration_seconds'', mf_kind = Histogram_family,
      mf_labels = [''provider'', ''model'']\<rparr>"

definition provider_errors_family :: metric_family where
  "provider_errors_family =
     \<lparr>mf_name = ''safety_provider_errors_total'', mf_kind = Counter_family,
      mf_labels = [''provider'', ''error_type'']\<rparr>"

definition recalls_family :: metric_family where
  "recalls_family =
     \<lparr>mf_name = ''safety_recalls_total'', mf_kind = Counter_family,
      mf_labels = [''category'', ''risk_level'']\<rparr>"

definition metric_families :: "metric_family list" where
  "metric_families =
     [gateway_requests_family, gateway_duration_family, gateway_blocks_family, gateway_flags_family,
      active_connections_family, streaming_active_family, detector_duration_family,
      detector_results_family, detector_errors_family, detector_circuit_breaker_state_family,
      detector_up_family, detector_initialization_failures_family, gateway_degraded_requests_family,
      evidence_persistence_failures_family, flow_executions_family, flow_duration_family,
      flow_node_executions_family, observability_sanitizations_family, tenant_decisions_family,
      tenant_observability_events_family, provider_requests_family, provider_duration_family,
      provider_errors_family, recalls_family]"

lemmas family_defs =
  gateway_requests_family_def gateway_duration_family_def gateway_blocks_family_def gateway_flags_family_def
  active_connections_family_def streaming_active_family_def detector_duration_family_def detector_results_family_def
  detector_errors_family_def detector_circuit_breaker_state_family_def detector_up_family_def detector_initialization_failures_family_def
  gateway_degraded_requests_family_def evidence_persistence_failures_family_def flow_executions_family_def flow_duration_family_def
  flow_node_executions_family_def observability_sanitizations_family_def tenant_decisions_family_def tenant_observability_events_family_def
  provider_requests_family_def provider_duration_family_def provider_errors_family_def recalls_family_def

subsection \<open>The module's state\<close>

text \<open>
  \<open>_registry\<close> and \<open>_enabled\<close> belong to the process. \<open>mw_runtime\<close> is the registry of the
  application's \<open>MetricsRuntime\<close> (\<open>None\<close> when it is disabled), and \<open>mw_bound\<close> says whether
  \<open>bind_runtime\<close> has selected it for the current task.
\<close>

record metrics_world =
  mw_registry :: "metrics_registry option"
  mw_enabled :: bool
  mw_runtime :: "metrics_registry option"
  mw_bound :: bool

definition set_enabled :: "bool \<Rightarrow> pystr list \<Rightarrow> metrics_world \<Rightarrow> metrics_world" where
  "set_enabled enabled metric_tenant_ids w =
     w\<lparr>mw_enabled := enabled, mw_registry := (if enabled then Some (new_registry metric_tenant_ids) else None)\<rparr>"

definition create_runtime :: "bool \<Rightarrow> pystr list \<Rightarrow> metrics_registry option" where
  "create_runtime enabled metric_tenant_ids = (if enabled then Some (new_registry metric_tenant_ids) else None)"

text \<open>What \<open>create_app\<close> does with the metrics: the registry of the process gets no tenant ids.\<close>

definition start_metrics :: "bool \<Rightarrow> pystr list \<Rightarrow> metrics_world \<Rightarrow> metrics_world" where
  "start_metrics enabled metric_tenant_ids w =
     (set_enabled enabled [] w)\<lparr>mw_runtime := create_runtime enabled metric_tenant_ids\<rparr>"

text \<open>
  The two halves of the context manager \<open>bind_runtime\<close>: the context variable is set for the request and the
  token of its old value kept, and the old value is put back at the end of the request, however it ended.
\<close>

definition bind_runtime :: "metrics_world \<Rightarrow> bool \<times> metrics_world" where
  "bind_runtime w = (mw_bound w, w\<lparr>mw_bound := True\<rparr>)"

definition reset_runtime :: "bool \<Rightarrow> metrics_world \<Rightarrow> metrics_world" where
  "reset_runtime token w = w\<lparr>mw_bound := token\<rparr>"

definition log_call :: "metric_family \<Rightarrow> (pystr \<times> pystr) list \<Rightarrow> metric_operation \<Rightarrow> metrics_registry \<Rightarrow> metrics_registry" where
  "log_call family labels operation reg =
     reg\<lparr>mg_calls := mg_calls reg @ [\<lparr>mc_family = family, mc_labels = labels, mc_operation = operation\<rparr>]\<rparr>"

text \<open>\<open>reg = _registry; if reg is None: return\<close>.\<close>

definition with_process_registry :: "(metrics_registry \<Rightarrow> metrics_registry) \<Rightarrow> metrics_world \<Rightarrow> metrics_world" where
  "with_process_registry f w = w\<lparr>mw_registry := map_option f (mw_registry w)\<rparr>"

definition with_runtime_registry :: "(metrics_registry \<Rightarrow> metrics_registry) \<Rightarrow> metrics_world \<Rightarrow> metrics_world" where
  "with_runtime_registry f w = w\<lparr>mw_runtime := map_option f (mw_runtime w)\<rparr>"

text \<open>\<open>reg = _active_registry()\<close>, which prefers the bound runtime.\<close>

definition with_active_registry :: "(metrics_registry \<Rightarrow> metrics_registry) \<Rightarrow> metrics_world \<Rightarrow> metrics_world" where
  "with_active_registry f w =
     (if mw_bound w \<and> mw_runtime w \<noteq> None then with_runtime_registry f w else with_process_registry f w)"

subsection \<open>Recording\<close>

definition record_gateway_request :: "pystr \<Rightarrow> pystr \<Rightarrow> pystr \<Rightarrow> pyfloat \<Rightarrow> metrics_world \<Rightarrow> metrics_world" where
  "record_gateway_request direction action model duration_seconds =
     with_process_registry
       (log_call gateway_duration_family
          [(''direction'', direction), (''model'', model)] (Observe duration_seconds)
      \<circ> log_call gateway_requests_family
          [(''direction'', direction), (''action'', action), (''model'', model)] Inc)"

definition record_gateway_block :: "pystr \<Rightarrow> pystr \<Rightarrow> pystr \<Rightarrow> metrics_world \<Rightarrow> metrics_world" where
  "record_gateway_block direction category detector_name =
     with_process_registry
       (log_call gateway_blocks_family
          [(''direction'', direction), (''category'', category), (''detector_name'', detector_name)] Inc)"

definition record_gateway_flag :: "pystr \<Rightarrow> pystr \<Rightarrow> pystr \<Rightarrow> metrics_world \<Rightarrow> metrics_world" where
  "record_gateway_flag direction category detector_name =
     with_process_registry
       (log_call gateway_flags_family
          [(''direction'', direction), (''category'', category), (''detector_name'', detector_name)] Inc)"

definition set_active_connections :: "pyfloat \<Rightarrow> metrics_world \<Rightarrow> metrics_world" where
  "set_active_connections v =
     with_process_registry
       (log_call active_connections_family
          [] (Set_to v))"

definition set_streaming_active :: "pyfloat \<Rightarrow> metrics_world \<Rightarrow> metrics_world" where
  "set_streaming_active v =
     with_process_registry
       (log_call streaming_active_family
          [] (Set_to v))"

definition record_detector :: "pystr \<Rightarrow> pystr \<Rightarrow> pystr \<Rightarrow> pyfloat \<Rightarrow> metrics_world \<Rightarrow> metrics_world" where
  "record_detector detector_name direction action duration_seconds =
     with_process_registry
       (log_call detector_duration_family
          [(''detector_name'', detector_name), (''direction'', direction)] (Observe duration_seconds)
      \<circ> log_call detector_results_family
          [(''detector_name'', detector_name), (''action'', action)] Inc)"

definition record_detector_error :: "pystr \<Rightarrow> pystr \<Rightarrow> metrics_world \<Rightarrow> metrics_world" where
  "record_detector_error detector_name error_type =
     with_process_registry
       (log_call detector_errors_family
          [(''detector_name'', detector_name), (''error_type'', error_type)] Inc)"

definition set_circuit_breaker_state :: "pystr \<Rightarrow> int \<Rightarrow> metrics_world \<Rightarrow> metrics_world" where
  "set_circuit_breaker_state detector_name state =
     with_process_registry
       (log_call detector_circuit_breaker_state_family
          [(''detector_name'', detector_name)] (Set_to (of_int state)))"

definition set_detector_up :: "pystr \<Rightarrow> pystr \<Rightarrow> pystr \<Rightarrow> bool \<Rightarrow> pystr \<Rightarrow> metrics_world \<Rightarrow> metrics_world" where
  "set_detector_up detector_name direction detector_type is_up policy_id =
     with_process_registry
       (log_call detector_up_family
          [(''detector_name'', detector_name), (''direction'', direction), (''detector_type'', detector_type), (''policy_id'', policy_id)] (Set_to (if is_up then 1 else 0)))"

definition record_detector_initialization_failure :: "pystr \<Rightarrow> pystr \<Rightarrow> pystr \<Rightarrow> pystr \<Rightarrow> metrics_world \<Rightarrow> metrics_world" where
  "record_detector_initialization_failure detector_name direction detector_type policy =
     with_process_registry
       (log_call detector_initialization_failures_family
          [(''detector_name'', detector_name), (''direction'', direction), (''detector_type'', detector_type), (''policy'', policy)] Inc)"

definition record_degraded_request :: "pystr \<Rightarrow> pystr \<Rightarrow> metrics_world \<Rightarrow> metrics_world" where
  "record_degraded_request direction detector_name =
     with_process_registry
       (log_call gateway_degraded_requests_family
          [(''direction'', direction), (''detector_name'', detector_name)] Inc)"

definition record_evidence_persistence_failure :: "pystr \<Rightarrow> pystr \<Rightarrow> metrics_world \<Rightarrow> metrics_world" where
  "record_evidence_persistence_failure sink error_type =
     with_process_registry
       (log_call evidence_persistence_failures_family
          [(''sink'', sink), (''error_type'', error_type)] Inc)"

definition record_flow_execution :: "pystr \<Rightarrow> pystr \<Rightarrow> pystr \<Rightarrow> pyfloat \<Rightarrow> metrics_world \<Rightarrow> metrics_world" where
  "record_flow_execution flow_id direction status duration_seconds =
     with_active_registry
       (log_call flow_duration_family
          [(''flow_id'', flow_id), (''direction'', direction), (''status'', status)] (Observe duration_seconds)
      \<circ> log_call flow_executions_family
          [(''flow_id'', flow_id), (''direction'', direction), (''status'', status)] Inc)"

definition record_flow_node :: "pystr \<Rightarrow> pystr \<Rightarrow> pystr \<Rightarrow> pystr \<Rightarrow> pystr \<Rightarrow> metrics_world \<Rightarrow> metrics_world" where
  "record_flow_node flow_id direction nid status reason_code =
     with_active_registry
       (log_call flow_node_executions_family
          [(''flow_id'', flow_id), (''direction'', direction), (''node_id'', nid), (''status'', status), (''reason_code'', reason_code)] Inc)"

definition record_observability_sanitization :: "pystr \<Rightarrow> pystr \<Rightarrow> metrics_world \<Rightarrow> metrics_world" where
  "record_observability_sanitization field reason =
     with_active_registry
       (log_call observability_sanitizations_family
          [(''field'', field), (''reason'', reason)] Inc)"

definition record_provider_request :: "pystr \<Rightarrow> pystr \<Rightarrow> pyfloat \<Rightarrow> metrics_world \<Rightarrow> metrics_world" where
  "record_provider_request provider model duration_seconds =
     with_process_registry
       (log_call provider_duration_family
          [(''provider'', provider), (''model'', model)] (Observe duration_seconds)
      \<circ> log_call provider_requests_family
          [(''provider'', provider), (''model'', model)] Inc)"

definition record_provider_error :: "pystr \<Rightarrow> pystr \<Rightarrow> metrics_world \<Rightarrow> metrics_world" where
  "record_provider_error provider error_type =
     with_process_registry
       (log_call provider_errors_family
          [(''provider'', provider), (''error_type'', error_type)] Inc)"

definition record_recall :: "pystr \<Rightarrow> pystr \<Rightarrow> metrics_world \<Rightarrow> metrics_world" where
  "record_recall category risk_level =
     with_process_registry
       (log_call recalls_family
          [(''category'', category), (''risk_level'', risk_level)] Inc)"

subsection \<open>Tenants\<close>

fun scope_value :: "observation_scope \<Rightarrow> pystr" where
  "scope_value TENANT = ''tenant''"
| "scope_value LEGACY_SCOPE = ''legacy''"
| "scope_value UNATTRIBUTED = ''unattributed''"
| "scope_value POLICY = ''policy''"
| "scope_value SYSTEM = ''system''"

definition tenant_event_names :: "pystr list" where
  "tenant_event_names =
     [''tenant_context_invalid'', ''audit_sink_failed'', ''tracing_unavailable'', ''projection_sanitized'',
      ''auth_rejected'', ''policy_unavailable'', ''background_failed'', ''cancelled'']"

text \<open>\<open>_tenant_metric_identity\<close> on a context or \<open>None\<close>, which has no attribute.\<close>

definition tenant_metric_identity :: "metrics_registry \<Rightarrow> observation_context option \<Rightarrow> pystr \<times> pystr" where
  "tenant_metric_identity reg ctx =
     (let scope = (case ctx of None \<Rightarrow> ''unattributed'' | Some c \<Rightarrow> scope_value (oc_scope c));
          tenant_id = (case ctx of None \<Rightarrow> None | Some c \<Rightarrow> oc_tenant_id c)
      in case (scope = ''tenant'', tenant_id) of
           (True, Some t) \<Rightarrow>
             if t \<in> set (mg_tenant_ids reg) then (''tenant'', t) else (''tenant_other'', ''other'')
         | _ \<Rightarrow>
             if scope \<in> set [''legacy'', ''unattributed'', ''policy'', ''system''] then (scope, ''none'')
             else (''unattributed'', ''none''))"

text \<open>\<open>explicit\<close>: the application's runtime is given, and its registry used, or nothing if it is disabled.\<close>

definition with_given_registry :: "bool \<Rightarrow> (metrics_registry \<Rightarrow> metrics_registry) \<Rightarrow> metrics_world \<Rightarrow> metrics_world" where
  "with_given_registry explicit f w = (if explicit then with_runtime_registry f w else with_active_registry f w)"

definition record_tenant_decision ::
  "observation_context option \<Rightarrow> pystr \<Rightarrow> pystr \<Rightarrow> bool \<Rightarrow> metrics_world \<Rightarrow> metrics_world" where
  "record_tenant_decision ctx direction action explicit =
     with_given_registry explicit (\<lambda>reg.
       let (scope, tenant_id) = tenant_metric_identity reg ctx;
           bounded_direction = (if direction \<in> set [''input'', ''output''] then direction else ''input'');
           bounded_action =
             (if action \<in> set [''allow'', ''block'', ''flag'', ''modify'', ''error''] then action else ''error'')
       in log_call tenant_decisions_family
            [(''tenant_scope'', scope), (''tenant_id'', tenant_id), (''direction'', bounded_direction),
             (''action'', bounded_action)] Inc reg)"

definition record_tenant_event :: "observation_context option \<Rightarrow> pystr \<Rightarrow> bool \<Rightarrow> metrics_world \<Rightarrow> metrics_world" where
  "record_tenant_event ctx event explicit =
     with_given_registry explicit (\<lambda>reg.
       let (scope, tenant_id) = tenant_metric_identity reg ctx;
           bounded_event = (if event \<in> set tenant_event_names then event else ''projection_sanitized'')
       in log_call tenant_observability_events_family
            [(''tenant_scope'', scope), (''tenant_id'', tenant_id), (''event'', bounded_event)] Inc reg)"

text \<open>
  The start of \<open>_record_request_audit\<close>: the final decision of a request is counted once for each
  direction. \<open>recorded\<close> are the directions already counted for the request.
\<close>

definition record_request_decision ::
  "observation_context option \<Rightarrow> pystr \<Rightarrow> pystr \<Rightarrow> pystr list \<times> metrics_world \<Rightarrow> pystr list \<times> metrics_world" where
  "record_request_decision tenant_context direction action = (\<lambda>(recorded, w).
     if tenant_context \<noteq> None \<and> direction \<notin> set recorded
     then (direction # recorded, record_tenant_decision tenant_context direction action True w)
     else (recorded, w))"

text \<open>The fields of a context that logs and traces may carry (\<open>observability/tenant.py\<close>).\<close>

definition tenant_log_fields :: "observation_context option \<Rightarrow> (pystr \<times> pystr) list" where
  "tenant_log_fields ctx =
     (case ctx of None \<Rightarrow> []
      | Some c \<Rightarrow>
          [(''tenant_scope'', scope_value (oc_scope c))]
          @ (case oc_tenant_id c of
               Some t \<Rightarrow> if valid_observation_id t then [(''tenant_id'', t)] else [] | None \<Rightarrow> [])
          @ (case oc_policy_id c of
               Some p \<Rightarrow> if valid_observation_id p then [(''tenant_policy_id'', p)] else [] | None \<Rightarrow> []))"

definition tenant_trace_fields :: "observation_context option \<Rightarrow> (pystr \<times> pystr) list" where
  "tenant_trace_fields ctx =
     (let log_fields = tenant_log_fields ctx; get = map_of log_fields in
        (if log_fields \<noteq> [] then [(''tenant.scope'', the (get ''tenant_scope''))] else [])
        @ (case get ''tenant_id'' of Some t \<Rightarrow> [(''tenant.id'', t)] | None \<Rightarrow> [])
        @ (case get ''tenant_policy_id'' of Some p \<Rightarrow> [(''tenant.policy_id'', p)] | None \<Rightarrow> []))"

subsection \<open>Flow evidence\<close>

fun flow_status_value :: "flow_status \<Rightarrow> pystr" where
  "flow_status_value F_COMPLETED = ''completed''"
| "flow_status_value F_FAILED = ''failed''"
| "flow_status_value F_TIMED_OUT = ''timed_out''"
| "flow_status_value F_STOPPED = ''stopped''"
| "flow_status_value F_CANCELLED = ''cancelled''"
| "flow_status_value F_PARTIAL = ''partial''"

text \<open>\<open>_ID_PATTERN\<close> is the pattern of contract identifiers, \<open>_REASON_PATTERN\<close> that of reason codes.\<close>

definition valid_enum_value :: "pystr \<Rightarrow> bool" where
  "valid_enum_value value \<longleftrightarrow> valid_reason_code value \<and> length value \<le> 32"

definition observable_pattern :: "pystr \<Rightarrow> pystr \<Rightarrow> bool" where
  "observable_pattern field =
     (if field \<in> set [''flow_id'', ''node_id'', ''target_id''] then valid_contract_id
      else if field = ''reason_code'' then valid_reason_code else valid_enum_value)"

definition sanitize_observable_value :: "pystr \<Rightarrow> pystr \<Rightarrow> metrics_world \<Rightarrow> (pystr \<times> bool) \<times> metrics_world" where
  "sanitize_observable_value field value w =
     (if observable_pattern field value then ((value, False), w)
      else ((''invalid'', True), record_observability_sanitization field ''invalid_value'' w))"

definition observe_node :: "pystr \<Rightarrow> pystr \<Rightarrow> node_evidence \<Rightarrow> metrics_world \<Rightarrow> metrics_world" where
  "observe_node flow_id direction node w =
     (let ((nid, _), w) = sanitize_observable_value ''node_id'' (ne_node_id node) w;
          ((status, _), w) = sanitize_observable_value ''status'' (node_status_value (ne_status node)) w;
          ((reason, _), w) = sanitize_observable_value ''reason_code'' (ne_reason_code node) w
      in record_flow_node flow_id direction nid status reason w)"

text \<open>\<open>tracing\<close>: whether tracing is enabled, which the metrics of a Flow do not depend on otherwise.\<close>

definition observe_flow_evidence :: "bool \<Rightarrow> flow_evidence \<Rightarrow> metrics_world \<Rightarrow> metrics_world" where
  "observe_flow_evidence tracing evidence w =
     (if \<not> mw_enabled w \<and> \<not> tracing then w
      else
        let ((flow_id, _), w) = sanitize_observable_value ''flow_id'' (fv_flow_id evidence) w;
            ((direction, _), w) = sanitize_observable_value ''direction'' (direction_str (fv_direction evidence)) w;
            ((status, _), w) = sanitize_observable_value ''status'' (flow_status_value (fv_status evidence)) w;
            w = record_flow_execution flow_id direction status (fv_duration_ms evidence / 1000) w
        in fold (observe_node flow_id direction) (fv_nodes evidence) w)"

subsection \<open>The scrape\<close>

datatype metrics_answer = Not_found | Metrics_text "pystr list"

text \<open>\<open>GET /metrics\<close> of an application; \<open>render\<close> gives the lines of a registry's text.\<close>

definition metrics_route :: "(metrics_registry \<Rightarrow> pystr list) \<Rightarrow> metrics_world \<Rightarrow> metrics_answer" where
  "metrics_route render w =
     (case mw_runtime w of
        None \<Rightarrow> Not_found
      | Some runtime \<Rightarrow>
          Metrics_text ((case mw_registry w of None \<Rightarrow> [] | Some reg \<Rightarrow> render reg) @ render runtime))"

end
