(* ===== verification/Metrics_Laws.thy ===== *)
theory Metrics_Laws
  imports Metrics
begin

text \<open>
  Laws of the metrics: a step relation with one rule for each way the gateway records something, its
  reachable states, and what every call on a registry satisfies there.
\<close>

subsection \<open>Steps\<close>

inductive metrics_step :: "metrics_world \<Rightarrow> metrics_world \<Rightarrow> bool" where
  "metrics_step w (record_gateway_request d a m t w)"
| "metrics_step w (record_gateway_block d c n w)"
| "metrics_step w (record_gateway_flag d c n w)"
| "metrics_step w (set_active_connections x w)"
| "metrics_step w (set_streaming_active x w)"
| "metrics_step w (record_detector n d a t w)"
| "metrics_step w (record_detector_error n e w)"
| "metrics_step w (set_circuit_breaker_state n s w)"
| "metrics_step w (set_detector_up n d ty up p w)"
| "metrics_step w (record_detector_initialization_failure n d ty p w)"
| "metrics_step w (record_degraded_request d n w)"
| "metrics_step w (record_evidence_persistence_failure s e w)"
| "metrics_step w (observe_flow_evidence tracing evidence w)"
| "metrics_step w (record_tenant_decision ctx d a explicit w)"
| "metrics_step w (record_tenant_event ctx e explicit w)"
| "metrics_step w (record_provider_request p m t w)"
| "metrics_step w (record_provider_error p e w)"
| "metrics_step w (record_recall c r w)"
| "metrics_step w (snd (bind_runtime w))"
| "metrics_step w (reset_runtime token w)"

subsection \<open>The calls on a registry\<close>

definition tenant_identities :: "pystr list \<Rightarrow> (pystr \<times> pystr) list" where
  "tenant_identities ids =
     map (\<lambda>t. (''tenant'', t)) ids
     @ [(''tenant_other'', ''other''), (''legacy'', ''none''), (''unattributed'', ''none''),
        (''policy'', ''none''), (''system'', ''none'')]"

definition decision_series :: "pystr list \<Rightarrow> (pystr \<times> pystr) list list" where
  "decision_series ids =
     concat (map (\<lambda>(scope, tenant_id). concat (map (\<lambda>direction. map (\<lambda>action.
         [(''tenant_scope'', scope), (''tenant_id'', tenant_id), (''direction'', direction), (''action'', action)])
       [''allow'', ''block'', ''flag'', ''modify'', ''error'']) [''input'', ''output'']))
       (tenant_identities ids))"

definition event_series :: "pystr list \<Rightarrow> (pystr \<times> pystr) list list" where
  "event_series ids =
     concat (map (\<lambda>(scope, tenant_id). map (\<lambda>event.
         [(''tenant_scope'', scope), (''tenant_id'', tenant_id), (''event'', event)]) tenant_event_names)
       (tenant_identities ids))"

definition flow_families :: "metric_family list" where
  "flow_families = [flow_executions_family, flow_duration_family, flow_node_executions_family]"

definition call_ok :: "pystr list \<Rightarrow> metric_call \<Rightarrow> bool" where
  "call_ok ids c \<longleftrightarrow>
     mc_family c \<in> set metric_families \<and> map fst (mc_labels c) = mf_labels (mc_family c)
     \<and> (mc_family c = tenant_decisions_family \<longrightarrow> mc_labels c \<in> set (decision_series ids))
     \<and> (mc_family c = tenant_observability_events_family \<longrightarrow> mc_labels c \<in> set (event_series ids))
     \<and> (mc_family c \<in> set flow_families \<longrightarrow> (\<forall>v \<in> snd ` set (mc_labels c). length v \<le> 128))"

definition registry_ok :: "metrics_registry \<Rightarrow> bool" where
  "registry_ok reg \<longleftrightarrow> (\<forall>c \<in> set (mg_calls reg). call_ok (mg_tenant_ids reg) c)"

lemma registry_ok_log:
  assumes "registry_ok reg" and "call_ok (mg_tenant_ids reg) \<lparr>mc_family = f, mc_labels = ls, mc_operation = operation\<rparr>"
  shows "registry_ok (log_call f ls operation reg)"
  using assms by (auto simp: registry_ok_def log_call_def)

lemma log_call_ids [simp]: "mg_tenant_ids (log_call f ls operation reg) = mg_tenant_ids reg"
  by (simp add: log_call_def)

text \<open>A call on a family that is neither a tenant's nor a Flow's.\<close>

lemma family_names [simp]:
  "tenant_decisions_family \<noteq> tenant_observability_events_family"
  "tenant_observability_events_family \<noteq> tenant_decisions_family"
  "tenant_decisions_family \<notin> set flow_families" "tenant_observability_events_family \<notin> set flow_families"
  by (simp_all add: flow_families_def family_defs)

lemma call_ok_plain:
  assumes "f \<in> set metric_families" and "map fst ls = mf_labels f"
    and "f \<notin> set (tenant_decisions_family # tenant_observability_events_family # flow_families)"
  shows "call_ok ids \<lparr>mc_family = f, mc_labels = ls, mc_operation = operation\<rparr>"
  using assms by (auto simp: call_ok_def)

definition plain_families :: "metric_family list" where
  "plain_families =
     [gateway_requests_family, gateway_duration_family, gateway_blocks_family, gateway_flags_family,
      active_connections_family, streaming_active_family, detector_duration_family, detector_results_family,
      detector_errors_family, detector_circuit_breaker_state_family, detector_up_family,
      detector_initialization_failures_family, gateway_degraded_requests_family, evidence_persistence_failures_family,
      observability_sanitizations_family, provider_requests_family, provider_duration_family, provider_errors_family,
      recalls_family]"

lemma plain_families_subset: "set plain_families \<subseteq> set metric_families"
  by (simp add: plain_families_def metric_families_def)

lemma plain_families_names:
  "\<forall>f \<in> set plain_families.
     mf_name f \<notin> set (map mf_name (tenant_decisions_family # tenant_observability_events_family # flow_families))"
  by code_simp

lemma plain_families_ok:
  "f \<in> set plain_families \<Longrightarrow> map fst ls = mf_labels f \<Longrightarrow>
     call_ok ids \<lparr>mc_family = f, mc_labels = ls, mc_operation = operation\<rparr>"
  using plain_families_subset plain_families_names by (intro call_ok_plain) auto

lemma plain_families_mem [simp]:
  "gateway_requests_family \<in> set plain_families" "gateway_duration_family \<in> set plain_families"
  "gateway_blocks_family \<in> set plain_families" "gateway_flags_family \<in> set plain_families"
  "active_connections_family \<in> set plain_families" "streaming_active_family \<in> set plain_families"
  "detector_duration_family \<in> set plain_families" "detector_results_family \<in> set plain_families"
  "detector_errors_family \<in> set plain_families" "detector_circuit_breaker_state_family \<in> set plain_families"
  "detector_up_family \<in> set plain_families" "detector_initialization_failures_family \<in> set plain_families"
  "gateway_degraded_requests_family \<in> set plain_families" "evidence_persistence_failures_family \<in> set plain_families"
  "observability_sanitizations_family \<in> set plain_families" "provider_requests_family \<in> set plain_families"
  "provider_duration_family \<in> set plain_families" "provider_errors_family \<in> set plain_families"
  "recalls_family \<in> set plain_families"
  by (simp_all add: plain_families_def)

lemmas plain_call = registry_ok_log [OF _ plain_families_ok]

subsection \<open>The invariant\<close>

definition world_ok :: "pystr list \<Rightarrow> metrics_world \<Rightarrow> bool" where
  "world_ok ids w \<longleftrightarrow>
     (\<forall>reg. mw_registry w = Some reg \<longrightarrow> registry_ok reg)
     \<and> (\<forall>reg. mw_runtime w = Some reg \<longrightarrow> registry_ok reg \<and> mg_tenant_ids reg = ids)"

text \<open>A recorder is safe if it keeps a registry's calls well-formed and its tenants.\<close>

definition safe_recorder :: "(metrics_registry \<Rightarrow> metrics_registry) \<Rightarrow> bool" where
  "safe_recorder f \<longleftrightarrow> (\<forall>reg. registry_ok reg \<longrightarrow> registry_ok (f reg) \<and> mg_tenant_ids (f reg) = mg_tenant_ids reg)"

lemma safe_log [intro]:
  "f \<in> set plain_families \<Longrightarrow> map fst ls = mf_labels f \<Longrightarrow> safe_recorder (log_call f ls operation)"
  by (simp add: safe_recorder_def plain_call)

lemma safe_comp [intro]: "safe_recorder f \<Longrightarrow> safe_recorder g \<Longrightarrow> safe_recorder (g \<circ> f)"
  by (simp add: safe_recorder_def)

lemma world_ok_process [intro]: "safe_recorder f \<Longrightarrow> world_ok ids w \<Longrightarrow> world_ok ids (with_process_registry f w)"
  by (auto simp: world_ok_def with_process_registry_def safe_recorder_def)

lemma world_ok_runtime [intro]: "safe_recorder f \<Longrightarrow> world_ok ids w \<Longrightarrow> world_ok ids (with_runtime_registry f w)"
  by (auto simp: world_ok_def with_runtime_registry_def safe_recorder_def)

lemma world_ok_active [intro]: "safe_recorder f \<Longrightarrow> world_ok ids w \<Longrightarrow> world_ok ids (with_active_registry f w)"
  by (auto simp: with_active_registry_def)

lemma world_ok_given [intro]: "safe_recorder f \<Longrightarrow> world_ok ids w \<Longrightarrow> world_ok ids (with_given_registry e f w)"
  by (auto simp: with_given_registry_def)

lemma tenant_metric_identity_mem:
  "tenant_metric_identity reg ctx \<in> set (tenant_identities (mg_tenant_ids reg))"
  by (cases ctx; cases "oc_scope (the ctx)"; cases "oc_tenant_id (the ctx)")
    (auto simp: tenant_metric_identity_def tenant_identities_def)

lemma decision_series_mem:
  "\<lbrakk> (scope, t) \<in> set (tenant_identities ids); d \<in> set [''input'', ''output''];
     a \<in> set [''allow'', ''block'', ''flag'', ''modify'', ''error''] \<rbrakk>
   \<Longrightarrow> [(''tenant_scope'', scope), (''tenant_id'', t), (''direction'', d), (''action'', a)] \<in> set (decision_series ids)"
  by (fastforce simp: decision_series_def)

lemma event_series_mem:
  "\<lbrakk> (scope, t) \<in> set (tenant_identities ids); e \<in> set tenant_event_names \<rbrakk>
   \<Longrightarrow> [(''tenant_scope'', scope), (''tenant_id'', t), (''event'', e)] \<in> set (event_series ids)"
  by (fastforce simp: event_series_def)

lemma tenant_families [simp]:
  "tenant_decisions_family \<in> set metric_families" "tenant_observability_events_family \<in> set metric_families"
  "flow_executions_family \<in> set metric_families" "flow_duration_family \<in> set metric_families"
  "flow_node_executions_family \<in> set metric_families"
  by (simp_all add: metric_families_def)

lemma safe_tenant:
  assumes "\<And>ids scope t. (scope, t) \<in> set (tenant_identities ids) \<Longrightarrow>
      call_ok ids \<lparr>mc_family = f, mc_labels = ls scope t, mc_operation = Inc\<rparr>"
  shows "safe_recorder (\<lambda>reg. case tenant_metric_identity reg ctx of (scope, t) \<Rightarrow> log_call f (ls scope t) Inc reg)"
  unfolding safe_recorder_def
proof (intro allI impI)
  fix reg assume reg: "registry_ok reg"
  obtain scope t where identity: "tenant_metric_identity reg ctx = (scope, t)"
    by (cases "tenant_metric_identity reg ctx")
  with tenant_metric_identity_mem [of reg ctx] reg assms
  show "registry_ok (case tenant_metric_identity reg ctx of (scope, t) \<Rightarrow> log_call f (ls scope t) Inc reg)
      \<and> mg_tenant_ids (case tenant_metric_identity reg ctx of (scope, t) \<Rightarrow> log_call f (ls scope t) Inc reg)
          = mg_tenant_ids reg"
    by (simp add: registry_ok_log)
qed

lemma record_tenant_decision_ok:
  assumes "world_ok ids w"
  shows "world_ok ids (record_tenant_decision ctx d a explicit w)"
  unfolding record_tenant_decision_def Let_def
proof (intro world_ok_given safe_tenant assms)
  fix ids' scope t
  assume "(scope, t) \<in> set (tenant_identities ids')"
  then have "[(''tenant_scope'', scope), (''tenant_id'', t),
      (''direction'', if d \<in> set [''input'', ''output''] then d else ''input''),
      (''action'', if a \<in> set [''allow'', ''block'', ''flag'', ''modify'', ''error''] then a else ''error'')]
      \<in> set (decision_series ids')"
    by (rule decision_series_mem) simp_all
  then show "call_ok ids' \<lparr>mc_family = tenant_decisions_family,
      mc_labels = [(''tenant_scope'', scope), (''tenant_id'', t),
        (''direction'', if d \<in> set [''input'', ''output''] then d else ''input''),
        (''action'', if a \<in> set [''allow'', ''block'', ''flag'', ''modify'', ''error''] then a else ''error'')],
      mc_operation = Inc\<rparr>"
    by (simp add: call_ok_def del: set_simps if_split) (simp add: tenant_decisions_family_def)
qed

lemma record_tenant_event_ok:
  assumes "world_ok ids w"
  shows "world_ok ids (record_tenant_event ctx e explicit w)"
  unfolding record_tenant_event_def Let_def
proof (intro world_ok_given safe_tenant assms)
  fix ids' scope t
  assume "(scope, t) \<in> set (tenant_identities ids')"
  then have "[(''tenant_scope'', scope), (''tenant_id'', t),
      (''event'', if e \<in> set tenant_event_names then e else ''projection_sanitized'')] \<in> set (event_series ids')"
    by (rule event_series_mem) (simp add: tenant_event_names_def)
  then show "call_ok ids' \<lparr>mc_family = tenant_observability_events_family,
      mc_labels = [(''tenant_scope'', scope), (''tenant_id'', t),
        (''event'', if e \<in> set tenant_event_names then e else ''projection_sanitized'')], mc_operation = Inc\<rparr>"
    by (simp add: call_ok_def) (simp add: tenant_observability_events_family_def)
qed

subsection \<open>Flow evidence\<close>

lemma observable_length: "observable_pattern field v \<Longrightarrow> length v \<le> 128"
  by (auto simp: observable_pattern_def valid_contract_id_def valid_reason_code_def valid_enum_value_def
      split: if_splits list.splits)

lemma sanitization_ok: "world_ok ids w \<Longrightarrow> world_ok ids (record_observability_sanitization f r w)"
  unfolding record_observability_sanitization_def
  by (intro world_ok_active safe_log) (simp_all add: observability_sanitizations_family_def [THEN arg_cong, of mf_labels])

lemma sanitize_ok:
  assumes "sanitize_observable_value field v w = ((out, rejected), w')" and "world_ok ids w"
  shows "length out \<le> 128 \<and> world_ok ids w'"
  using assms observable_length [of field v]
  by (auto simp: sanitize_observable_value_def sanitization_ok split: if_splits)

lemma flow_call_ok:
  assumes "f \<in> set flow_families" and "map fst ls = mf_labels f" and "\<forall>v \<in> snd ` set ls. length v \<le> 128"
  shows "safe_recorder (log_call f ls operation)"
proof -
  have "f \<in> set metric_families" "f \<noteq> tenant_decisions_family" "f \<noteq> tenant_observability_events_family"
    using assms(1) by (auto simp: flow_families_def) (auto simp: family_defs)
  with assms show ?thesis by (auto simp: safe_recorder_def call_ok_def intro!: registry_ok_log)
qed

lemma flow_families_mem [simp]:
  "flow_executions_family \<in> set flow_families" "flow_duration_family \<in> set flow_families"
  "flow_node_executions_family \<in> set flow_families"
  by (simp_all add: flow_families_def)

lemma flow_labels [simp]:
  "mf_labels flow_executions_family = [''flow_id'', ''direction'', ''status'']"
  "mf_labels flow_duration_family = [''flow_id'', ''direction'', ''status'']"
  "mf_labels flow_node_executions_family = [''flow_id'', ''direction'', ''node_id'', ''status'', ''reason_code'']"
  by (simp_all add: family_defs)

lemma record_flow_execution_ok:
  assumes "world_ok ids w" and "length f \<le> 128" and "length d \<le> 128" and "length s \<le> 128"
  shows "world_ok ids (record_flow_execution f d s t w)"
  unfolding record_flow_execution_def
  by (intro world_ok_active safe_comp flow_call_ok assms(1)) (simp_all add: assms)

lemma record_flow_node_ok:
  assumes "world_ok ids w" and "length f \<le> 128" and "length d \<le> 128" and "length n \<le> 128"
    and "length s \<le> 128" and "length r \<le> 128"
  shows "world_ok ids (record_flow_node f d n s r w)"
  unfolding record_flow_node_def
  by (intro world_ok_active flow_call_ok assms(1)) (simp_all add: assms)

lemma observe_node_ok:
  assumes "world_ok ids w" and "length f \<le> 128" and "length d \<le> 128"
  shows "world_ok ids (observe_node f d node w)"
proof -
  obtain n r1 w1 where n: "sanitize_observable_value ''node_id'' (ne_node_id node) w = ((n, r1), w1)"
    by (metis surj_pair)
  obtain s r2 w2 where s: "sanitize_observable_value ''status'' (node_status_value (ne_status node)) w1 = ((s, r2), w2)"
    by (metis surj_pair)
  obtain r r3 w3 where r: "sanitize_observable_value ''reason_code'' (ne_reason_code node) w2 = ((r, r3), w3)"
    by (metis surj_pair)
  note ok1 = sanitize_ok [OF n assms(1)]
  note ok2 = sanitize_ok [OF s ok1 [THEN conjunct2]]
  note ok3 = sanitize_ok [OF r ok2 [THEN conjunct2]]
  from ok1 ok2 ok3 assms show ?thesis
    by (simp add: observe_node_def Let_def n s r record_flow_node_ok)
qed

lemma observe_nodes_ok:
  "\<lbrakk> world_ok ids w; length f \<le> 128; length d \<le> 128 \<rbrakk> \<Longrightarrow> world_ok ids (fold (observe_node f d) nodes w)"
  by (induction nodes arbitrary: w) (auto intro: observe_node_ok)

lemma observe_flow_evidence_ok:
  assumes "world_ok ids w"
  shows "world_ok ids (observe_flow_evidence tracing evidence w)"
proof (cases "\<not> mw_enabled w \<and> \<not> tracing")
  case True
  with assms show ?thesis by (simp add: observe_flow_evidence_def)
next
  case False
  obtain f r1 w1 where f: "sanitize_observable_value ''flow_id'' (fv_flow_id evidence) w = ((f, r1), w1)"
    by (metis surj_pair)
  obtain d r2 w2 where d: "sanitize_observable_value ''direction'' (direction_str (fv_direction evidence)) w1 = ((d, r2), w2)"
    by (metis surj_pair)
  obtain s r3 w3 where s: "sanitize_observable_value ''status'' (flow_status_value (fv_status evidence)) w2 = ((s, r3), w3)"
    by (metis surj_pair)
  note ok1 = sanitize_ok [OF f assms]
  note ok2 = sanitize_ok [OF d ok1 [THEN conjunct2]]
  note ok3 = sanitize_ok [OF s ok2 [THEN conjunct2]]
  have "observe_flow_evidence tracing evidence w
      = fold (observe_node f d) (fv_nodes evidence) (record_flow_execution f d s (fv_duration_ms evidence / 1000) w3)"
    using False by (auto simp: observe_flow_evidence_def Let_def f d s)
  with ok1 ok2 ok3 show ?thesis by (simp add: observe_nodes_ok record_flow_execution_ok)
qed

subsection \<open>Every step\<close>

lemma plain_labels [simp]:
  "mf_labels gateway_requests_family = [''direction'', ''action'', ''model'']"
  "mf_labels gateway_duration_family = [''direction'', ''model'']"
  "mf_labels gateway_blocks_family = [''direction'', ''category'', ''detector_name'']"
  "mf_labels gateway_flags_family = [''direction'', ''category'', ''detector_name'']"
  "mf_labels active_connections_family = []" "mf_labels streaming_active_family = []"
  "mf_labels detector_duration_family = [''detector_name'', ''direction'']"
  "mf_labels detector_results_family = [''detector_name'', ''action'']"
  "mf_labels detector_errors_family = [''detector_name'', ''error_type'']"
  "mf_labels detector_circuit_breaker_state_family = [''detector_name'']"
  "mf_labels detector_up_family = [''detector_name'', ''direction'', ''detector_type'', ''policy_id'']"
  "mf_labels detector_initialization_failures_family = [''detector_name'', ''direction'', ''detector_type'', ''policy'']"
  "mf_labels gateway_degraded_requests_family = [''direction'', ''detector_name'']"
  "mf_labels evidence_persistence_failures_family = [''sink'', ''error_type'']"
  "mf_labels provider_requests_family = [''provider'', ''model'']"
  "mf_labels provider_duration_family = [''provider'', ''model'']"
  "mf_labels provider_errors_family = [''provider'', ''error_type'']"
  "mf_labels recalls_family = [''category'', ''risk_level'']"
  by (simp_all add: family_defs)

lemmas plain_recorders =
  record_gateway_request_def record_gateway_block_def record_gateway_flag_def set_active_connections_def
  set_streaming_active_def record_detector_def record_detector_error_def set_circuit_breaker_state_def
  set_detector_up_def record_detector_initialization_failure_def record_degraded_request_def
  record_evidence_persistence_failure_def record_provider_request_def record_provider_error_def record_recall_def

lemma metrics_step_ok:
  assumes "metrics_step w w'" and "world_ok ids w"
  shows "world_ok ids w'"
  using assms
proof (cases rule: metrics_step.cases)
  case (13 tracing evidence)
  with assms(2) show ?thesis by (simp add: observe_flow_evidence_ok)
next
  case (14 ctx d a explicit)
  with assms(2) show ?thesis by (simp add: record_tenant_decision_ok)
next
  case (15 ctx e explicit)
  with assms(2) show ?thesis by (simp add: record_tenant_event_ok)
next
  case 19
  with assms(2) show ?thesis by (simp add: world_ok_def bind_runtime_def)
next
  case (20 token)
  with assms(2) show ?thesis by (simp add: world_ok_def reset_runtime_def)
qed (use assms(2) in \<open>simp only: plain_recorders; intro world_ok_process safe_comp safe_log; simp\<close>)+

lemma metrics_reachable_ok:
  "metrics_step\<^sup>*\<^sup>* (start_metrics enabled ids w0) w \<Longrightarrow> world_ok ids w"
proof (induction rule: rtranclp_induct)
  case base
  show ?case
    by (auto simp: world_ok_def start_metrics_def set_enabled_def create_runtime_def new_registry_def registry_ok_def)
next
  case (step w w')
  then show ?case by (blast intro: metrics_step_ok)
qed

subsection \<open>How many series there are\<close>

lemma length_decision_series: "length (decision_series ids) = 10 * (length ids + 5)"
  by (simp add: decision_series_def length_concat comp_def case_prod_unfold tenant_identities_def sum_list_triv)

lemma length_event_series: "length (event_series ids) = 8 * (length ids + 5)"
  by (simp add: event_series_def length_concat comp_def case_prod_unfold tenant_identities_def sum_list_triv
      tenant_event_names_def)

lemma card_subset_list: "A \<subseteq> set xs \<Longrightarrow> card A \<le> length xs"
  by (meson card_length card_mono finite_set order_trans)

definition series_of :: "metric_family \<Rightarrow> metrics_registry \<Rightarrow> (pystr \<times> pystr) list set" where
  "series_of f reg = mc_labels ` set (filter (\<lambda>c. mc_family c = f) (mg_calls reg))"

subsection \<open>Properties\<close>

text \<open>Whatever an application records, and in whatever order, every call on its registries is on a
  registered family and gives exactly the labels it was registered with, in their order, so that no
  recording raises; the labels of Flow metrics never hold more than 128 characters.\<close>

theorem metric_calls_declared:
  assumes "metrics_step\<^sup>*\<^sup>* (start_metrics enabled ids w0) w"
    and "mw_registry w = Some reg \<or> mw_runtime w = Some reg" and "c \<in> set (mg_calls reg)"
  shows "mc_family c \<in> set metric_families \<and> map fst (mc_labels c) = mf_labels (mc_family c)
    \<and> (mc_family c \<in> set flow_families \<longrightarrow> (\<forall>v \<in> snd ` set (mc_labels c). length v \<le> 128))"
proof -
  have "registry_ok reg"
    using metrics_reachable_ok [OF assms(1)] assms(2) by (auto simp: world_ok_def)
  with assms(3) show ?thesis by (auto simp: registry_ok_def call_ok_def)
qed

theorem metric_calls_declared_witness:
  "mf_labels recalls_family = [''category'', ''risk_level'']
   \<and> (let w = record_recall ''toxicity'' ''high''
          (start_metrics True [''acme''] \<lparr>mw_registry = None, mw_enabled = False, mw_runtime = None, mw_bound = False\<rparr>)
      in \<forall>reg c. mw_registry w = Some reg \<and> c \<in> set (mg_calls reg) \<longrightarrow> mc_family c \<in> set metric_families)"
proof -
  let ?off = "\<lparr>mw_registry = None, mw_enabled = False, mw_runtime = None, mw_bound = False\<rparr>"
  let ?w = "record_recall ''toxicity'' ''high'' (start_metrics True [''acme''] ?off)"
  have "metrics_step\<^sup>*\<^sup>* (start_metrics True [''acme''] ?off) ?w"
    by (rule r_into_rtranclp) (rule metrics_step.intros)
  note declared = metric_calls_declared [OF this]
  show ?thesis unfolding Let_def using declared by (intro conjI) (simp, blast)
qed

text \<open>C26. The tenant metrics of an application have a bounded number of series whatever contexts,
  directions, actions and events are recorded: with n tenants named in the configuration at most 10 * (n + 5)
  of decisions and 8 * (n + 5) of events, and a tenant that is not named never appears.\<close>

theorem tenant_series_bounded:
  assumes "metrics_step\<^sup>*\<^sup>* (start_metrics enabled ids w0) w" and "mw_runtime w = Some reg"
  shows "card (series_of tenant_decisions_family reg) \<le> 10 * (length ids + 5)
    \<and> card (series_of tenant_observability_events_family reg) \<le> 8 * (length ids + 5)
    \<and> (\<forall>ls \<in> series_of tenant_decisions_family reg \<union> series_of tenant_observability_events_family reg.
         map_of ls ''tenant_scope'' = Some ''tenant'' \<longrightarrow> the (map_of ls ''tenant_id'') \<in> set ids)"
proof -
  have ok: "registry_ok reg" "mg_tenant_ids reg = ids"
    using metrics_reachable_ok [OF assms(1)] assms(2) by (auto simp: world_ok_def)
  then have decisions: "series_of tenant_decisions_family reg \<subseteq> set (decision_series ids)"
    and events: "series_of tenant_observability_events_family reg \<subseteq> set (event_series ids)"
    by (auto simp: series_of_def registry_ok_def call_ok_def)
  have "the (map_of ls ''tenant_id'') \<in> set ids"
    if "ls \<in> set (decision_series ids) \<union> set (event_series ids)" "map_of ls ''tenant_scope'' = Some ''tenant''" for ls
    using that by (auto simp: decision_series_def event_series_def tenant_identities_def)
  with decisions events card_subset_list [OF decisions] card_subset_list [OF events] show ?thesis
    by (auto simp: length_decision_series length_event_series)
qed

definition unknown_tenant :: observation_context where
  "unknown_tenant = \<lparr>oc_scope = TENANT, oc_tenant_id = Some ''mallory'', oc_policy_id = Some ''p''\<rparr>"

theorem tenant_series_bounded_witness:
  "\<exists>reg. mw_runtime (record_tenant_decision (Some unknown_tenant) ''input'' ''block'' True
        (start_metrics True [''acme''] \<lparr>mw_registry = None, mw_enabled = False, mw_runtime = None, mw_bound = False\<rparr>)) = Some reg
     \<and> card (series_of tenant_decisions_family reg) \<le> 60 \<and> mg_calls reg \<noteq> []"
proof -
  let ?off = "\<lparr>mw_registry = None, mw_enabled = False, mw_runtime = None, mw_bound = False\<rparr>"
  let ?w = "record_tenant_decision (Some unknown_tenant) ''input'' ''block'' True (start_metrics True [''acme''] ?off)"
  have step: "metrics_step\<^sup>*\<^sup>* (start_metrics True [''acme''] ?off) ?w"
    by (rule r_into_rtranclp) (rule metrics_step.intros)
  obtain reg where reg: "mw_runtime ?w = Some reg" "mg_calls reg \<noteq> []"
    by (simp add: record_tenant_decision_def with_given_registry_def with_runtime_registry_def start_metrics_def
        create_runtime_def log_call_def Let_def split: prod.splits)
  from tenant_series_bounded [OF step reg(1)] reg show ?thesis by auto
qed

text \<open>Every line of an application's metrics that depends only on what is registered, such as the type of a
  family, is in its scrape twice: the route joins the text of the process-wide registry, which the
  start of the application enables as well, with that of the application's own registry, and both have the same families.\<close>

theorem scrape_repeats_families:
  assumes "\<And>reg. count_list (render reg) line = 1"
  shows "\<exists>lines. metrics_route render (start_metrics True ids w) = Metrics_text lines \<and> count_list lines line = 2"
  by (simp add: metrics_route_def start_metrics_def set_enabled_def create_runtime_def assms)

theorem scrape_repeats_families_witness:
  "\<exists>lines. metrics_route (\<lambda>reg. map mf_name metric_families)
       (start_metrics True [''acme''] \<lparr>mw_registry = None, mw_enabled = False, mw_runtime = None, mw_bound = False\<rparr>)
       = Metrics_text lines \<and> count_list lines (mf_name recalls_family) = 2"
proof (rule scrape_repeats_families)
  show "count_list (map mf_name metric_families) (mf_name recalls_family) = 1" by code_simp
qed

subsection \<open>A decision is counted once\<close>

definition decision_calls :: "metrics_world \<Rightarrow> nat" where
  "decision_calls w =
     (case mw_runtime w of None \<Rightarrow> 0
      | Some reg \<Rightarrow> length (filter (\<lambda>c. mc_family c = tenant_decisions_family) (mg_calls reg)))"

lemma decision_calls_record [simp]:
  "decision_calls (record_tenant_decision ctx d a True w) = decision_calls w + (if mw_runtime w = None then 0 else 1)"
  "mw_runtime (record_tenant_decision ctx d a True w) = None \<longleftrightarrow> mw_runtime w = None"
  by (auto simp: decision_calls_def record_tenant_decision_def with_given_registry_def with_runtime_registry_def
      log_call_def Let_def split: option.splits prod.splits)

lemma request_decisions_counted:
  assumes "mw_runtime w \<noteq> None"
  shows "decision_calls (snd (fold (\<lambda>(d, a). record_request_decision (Some ctx) d a) entries (recorded, w)))
    = decision_calls w + card (fst ` set entries - set recorded)"
  using assms
proof (induction entries arbitrary: recorded w)
  case (Cons e entries)
  obtain d a where e: "e = (d, a)" by (cases e)
  show ?case
  proof (cases "d \<in> set recorded")
    case True
    with Cons show ?thesis by (simp add: e record_request_decision_def insert_Diff_if)
  next
    case False
    have "fst ` set (e # entries) - set recorded = insert d (fst ` set entries - set (d # recorded))"
      using False by (auto simp: e)
    with False Cons.prems Cons.IH [of "record_tenant_decision (Some ctx) d a True w" "d # recorded"]
    show ?thesis by (simp add: e record_request_decision_def)
  qed
qed simp

end
