(* ===== verification/Models_Route.thy ===== *)
theory Models_Route
  imports Provider_Adapters Tenancy
begin

text \<open>
  \<open>routes/models.py\<close>: \<open>GET /v1/models\<close>, which asks one provider for its list of models. The answer of the
  HTTP client is an argument; the instances of the router are a map from names.
\<close>

record listed_provider =
  lp_type :: pystr
  lp_target :: provider_target

record models_call =
  ml_url :: pystr
  ml_headers :: "(pystr \<times> pystr) list"
  ml_params :: "(pystr \<times> pystr) list option"

definition models_headers :: "listed_provider \<Rightarrow> (pystr \<times> pystr) list" where
  "models_headers p =
     (let headers = [(''Accept'', ''application/json'')]; key = pt_api_key (lp_target p);
          version = pt_api_version (lp_target p) in
      if lp_type p = ''anthropic'' \<and> key \<noteq> []
      then let headers = AList.update ''x-api-key'' key headers
           in if version \<noteq> [] then AList.update ''anthropic-version'' version headers else headers
      else if lp_type p = ''gemini'' \<and> key \<noteq> [] then AList.update ''x-goog-api-key'' key headers
      else if key \<noteq> [] then AList.update ''Authorization'' (bearer key) headers
      else headers)"

definition models_request :: "listed_provider \<Rightarrow> models_call" where
  "models_request p =
     \<lparr>ml_url = strip_slash (pt_base_url (lp_target p)) @ ''/models'', ml_headers = models_headers p,
      ml_params = (if pt_api_version (lp_target p) \<noteq> [] then Some [(''api-version'', pt_api_version (lp_target p))] else None)\<rparr>"

text \<open>
  \<open>Unconfigured\<close> is the 500 answer without providers, \<open>Tenant_unavailable\<close> the 503 answer; a failure names
  its provider. A name without an instance is a KeyError.
\<close>

datatype 'a models_answer =
    Unconfigured
  | Tenant_unavailable
  | Models_failed pystr provider_failure
  | Models_listed nat 'a

text \<open>The first two branches, and the choice of the provider.\<close>

definition models_source :: "pystr list \<Rightarrow> tenant_bundle option \<Rightarrow> 'a models_answer + pystr" where
  "models_source providers bundle =
     (if providers = [] then Inl Unconfigured
      else case bundle of
        None \<Rightarrow>
          (case models_provider providers of
             Inl e \<Rightarrow> Inl (Models_failed ''router'' (Provider_status 500 None)) | Inr name \<Rightarrow> Inr name)
      | Some b \<Rightarrow>
          (case tb_router_view b of None \<Rightarrow> Inl Tenant_unavailable | Some view \<Rightarrow> Inr (tv_models_provider view)))"

definition list_models ::
  "pystr list \<Rightarrow> (pystr \<rightharpoonup> listed_provider) \<Rightarrow> (models_call \<Rightarrow> 'a http_outcome) \<Rightarrow> tenant_bundle option
     \<Rightarrow> 'a models_answer" where
  "list_models providers instances http bundle =
     (case models_source providers bundle of
        Inl answer \<Rightarrow> answer
      | Inr name \<Rightarrow>
          (case instances name of
             None \<Rightarrow> Models_failed name (Raised Key_exception)
           | Some p \<Rightarrow>
               (case http (models_request p) of
                  Http_timeout \<Rightarrow> Models_failed name Provider_timeout
                | Http_error \<Rightarrow> Models_failed name Provider_unreachable
                | Http_response status retry_after body \<Rightarrow>
                    if status \<ge> 400 then Models_failed name (Provider_status status None)
                    else Models_listed status body)))"

lemma models_source_tenant:
  "\<lbrakk> tb_router_view b = Some view; providers \<noteq> [] \<rbrakk> \<Longrightarrow> models_source providers (Some b) = Inr (tv_models_provider view)"
  by (simp add: models_source_def)

text \<open>In a tenant's request the list of models comes from the provider its policy names for it, which is one
  the policy routes to: the answer depends on what that provider answers to one call, made at its
  address with its own key, and on no other provider; without a routing view there is no call.\<close>

theorem tenant_models_confined:
  assumes "tenant_router_view providers rules models_name = Inr view" and "tb_router_view b = Some view"
    and "instances models_name = Some p"
    and "http (models_request p) = http' (models_request p)"
  shows "list_models providers instances http (Some b) = list_models providers [models_name \<mapsto> p] http' (Some b)
    \<and> models_name \<in> rl_provider ` set rules
    \<and> (\<forall>(k, v) \<in> set (models_headers p). k \<in> set [''Accept'', ''anthropic-version'']
        \<or> v = pt_api_key (lp_target p) \<or> v = bearer (pt_api_key (lp_target p)))"
proof -
  obtain patterns allowed where fold: "fold_res (check_tenant_rule providers) rules ([], []) = Inr (patterns, allowed)"
    and view: "models_name \<in> set allowed" "tv_models_provider view = models_name" "models_name \<in> set providers"
    using assms(1) by (auto simp: tenant_router_view_def res_simps split: if_splits)
  have "set (snd (patterns, allowed)) \<subseteq> rl_provider ` set rules"
    by (rule fold_res_invariant [OF fold, where P = "\<lambda>acc. set (snd acc) \<subseteq> rl_provider ` set rules"])
      (auto simp: check_tenant_rule_def split: prod.splits option.splits if_splits)
  with view have "models_name \<in> rl_provider ` set rules" by auto
  moreover have "providers \<noteq> []" using view(3) by auto
  moreover have "\<forall>(k, v) \<in> set (models_headers p). k \<in> set [''Accept'', ''anthropic-version'']
        \<or> v = pt_api_key (lp_target p) \<or> v = bearer (pt_api_key (lp_target p))"
    by (auto simp: models_headers_def Let_def)
  ultimately show ?thesis using assms(3,4) by (simp add: list_models_def models_source_tenant [OF assms(2)] view(2))
qed

definition models_bundle :: tenant_bundle where
  "models_bundle =
     \<lparr>tb_policy_id = ''p'', tb_input_flow_identity = None, tb_output_flow_identity = None, tb_routing_profile_id = ''p'',
      tb_engine = None, tb_input_configs = None, tb_output_configs = None, tb_status_registry = None, tb_coordinator = None,
      tb_node_policies = None, tb_input_policies = None, tb_output_policies = None,
      tb_router_view = Some \<lparr>tv_rules = [\<lparr>rl_pattern = ''gpt-*'', rl_provider = ''local''\<rparr>], tv_instances = [''local''],
                            tv_models_provider = ''local''\<rparr>\<rparr>"

definition local_provider :: listed_provider where
  "local_provider =
     \<lparr>lp_type = ''openai'', lp_target = \<lparr>pt_base_url = ''http://local/v1/'', pt_api_key = ''s1'', pt_api_version = []\<rparr>\<rparr>"

theorem tenant_models_confined_witness:
  "list_models [''openai'', ''local''] [''local'' \<mapsto> local_provider] (\<lambda>_. Http_response 200 None ''models'') (Some models_bundle)
     = list_models [''openai'', ''local''] [''local'' \<mapsto> local_provider]
         (\<lambda>call. if ml_url call = ''http://local/v1/models'' then Http_response 200 None ''models'' else Http_timeout)
         (Some models_bundle)"
proof -
  have view: "tenant_router_view [''openai'', ''local''] [\<lparr>rl_pattern = ''gpt-*'', rl_provider = ''local''\<rparr>] ''local''
      = Inr \<lparr>tv_rules = [\<lparr>rl_pattern = ''gpt-*'', rl_provider = ''local''\<rparr>], tv_instances = [''local''],
              tv_models_provider = ''local''\<rparr>"
    by code_simp
  have url: "ml_url (models_request local_provider) = ''http://local/v1/models''" by code_simp
  show ?thesis
    by (rule tenant_models_confined [OF view, of models_bundle "[''local'' \<mapsto> local_provider]" local_provider
          "\<lambda>_. Http_response 200 None ''models''"
          "\<lambda>call. if ml_url call = ''http://local/v1/models'' then Http_response 200 None ''models'' else Http_timeout",
        THEN conjunct1])
      (simp_all add: models_bundle_def url)
qed

end
