(* ===== verification/Request_Chain.thy ===== *)
theory Request_Chain
  imports Request_Limits Tenancy Tenant_Resources
begin

text \<open>
  \<open>middleware/request_id.py\<close>, \<open>middleware/safety_headers.py\<close>, \<open>middleware/cors.py\<close>, \<open>middleware/tenant_resources.py\<close> and the
  stack of middlewares of \<open>create_app\<close>: what happens to one request before and after its route.

  The route is an argument: it gets the state the middlewares left in the request and the body as far
  as it may read it, and returns a response, with the decision it left in the request, or raises. The
  clocks, the fresh UUID and whether the request got a permit and ended in time are fields of the
  environment. Names of headers are in lower case, as the framework keeps them; the content headers
  and the wording of error bodies are left out. CORS itself is the framework's.
\<close>

subsection \<open>Requests and responses\<close>

record http_request =
  hr_path :: pystr
  hr_authorization :: pystr
  hr_request_id :: pystr
  hr_host :: "pystr option"
  hr_content_length :: content_length
  hr_bodies :: "pystr list"

datatype 'b answer_body = Error_body pystr | Body 'b

record 'b http_response =
  hp_status :: nat
  hp_headers :: "(pystr \<times> pystr) list"
  hp_body :: "'b answer_body"

definition error_response :: "nat \<Rightarrow> pystr \<Rightarrow> 'b http_response" where
  "error_response status code = \<lparr>hp_status = status, hp_headers = [], hp_body = Error_body code\<rparr>"

definition set_header :: "pystr \<Rightarrow> pystr \<Rightarrow> 'b http_response \<Rightarrow> 'b http_response" where
  "set_header name v r = r\<lparr>hp_headers := AList.update (map ascii_lower name) v (hp_headers r)\<rparr>"

definition header_of :: "pystr \<Rightarrow> 'b http_response \<Rightarrow> pystr option" where
  "header_of name r = map_of (hp_headers r) (map ascii_lower name)"

lemma header_of_set [simp]:
  "header_of name (set_header name' v r)
     = (if map ascii_lower name = map ascii_lower name' then Some v else header_of name r)"
  by (simp add: header_of_def set_header_def update_conv')

lemma header_names [simp]:
  "map ascii_lower ''X-Safety-Action'' = ''x-safety-action''"
  "map ascii_lower ''X-Safety-Risk-Level'' = ''x-safety-risk-level''"
  "map ascii_lower ''Retry-After'' = ''retry-after''"
  by code_simp+

lemma set_header_fields [simp]:
  "hp_status (set_header name v r) = hp_status r" "hp_body (set_header name v r) = hp_body r"
  by (simp_all add: set_header_def)

lemma error_response_fields [simp]:
  "hp_status (error_response status code) = status" "hp_body (error_response status code) = Error_body code"
  "header_of name (error_response status code) = None"
  by (simp_all add: error_response_def header_of_def)

subsection \<open>Request ids\<close>

definition request_id_char :: "char \<Rightarrow> bool" where
  "request_id_char c \<longleftrightarrow> is_alnum c \<or> c = CHR ''_'' \<or> c = CHR ''-''"

definition plain_request_id :: "pystr \<Rightarrow> bool" where
  "plain_request_id s \<longleftrightarrow> 1 \<le> length s \<and> length s \<le> 128 \<and> list_all request_id_char s"

text \<open>\<open>REQUEST_ID_PATTERN.match\<close>, whose \<open>$\<close> also matches before a line feed at the end.\<close>

definition request_id_matches :: "pystr \<Rightarrow> bool" where
  "request_id_matches s \<longleftrightarrow>
     plain_request_id s \<or> (s \<noteq> [] \<and> last s = CHR 0x0A \<and> plain_request_id (butlast s))"

definition choose_request_id :: "bool \<Rightarrow> pystr \<Rightarrow> pystr \<Rightarrow> pystr" where
  "choose_request_id generate uuid client_id =
     (if generate \<and> client_id \<noteq> [] \<and> request_id_matches client_id then client_id else uuid)"

subsection \<open>CORS\<close>

record cors_config =
  cc_enabled :: bool
  cc_origins :: "pystr list"

record cors_kwargs =
  ck_allow_origins :: "pystr list"
  ck_allow_methods :: "pystr list"
  ck_allow_headers :: "pystr list"
  ck_allow_credentials :: bool

definition cors_enabled :: "cors_config \<Rightarrow> bool" where
  "cors_enabled c = cc_enabled c"

text \<open>\<open>None\<close> is the empty dict, for which \<open>create_app\<close> installs no middleware.\<close>

definition build_cors_middleware_kwargs :: "cors_config \<Rightarrow> cors_kwargs option" where
  "build_cors_middleware_kwargs c =
     (if \<not> cc_enabled c then None
      else Some \<lparr>ck_allow_origins = cc_origins c,
                 ck_allow_methods = [''GET'', ''POST'', ''PUT'', ''PATCH'', ''DELETE'', ''OPTIONS''],
                 ck_allow_headers = [''*''], ck_allow_credentials = False\<rparr>)"

subsection \<open>The layers\<close>

record request_state =
  st_request_id :: pystr
  st_api_key_name :: "pystr option"
  st_tenant_context :: tenant_context
  st_tenant :: tenant_state

text \<open>What a route returns, with \<open>request.state.safety_action\<close> and \<open>safety_risk_level\<close> where it set them.\<close>

record 'b route_result =
  rr_response :: "'b http_response"
  rr_safety_action :: "pystr option"
  rr_safety_risk_level :: "pystr option"

datatype route_exception = Too_large request_too_large | Unhandled

type_synonym 'b endpoint =
  "http_request \<Rightarrow> request_state \<Rightarrow> pystr list \<times> request_too_large option \<Rightarrow> route_exception + 'b route_result"

record chain_env =
  ce_auth :: auth_middleware
  ce_resolver :: policy_resolver
  ce_max_bytes :: int
  ce_header_name :: pystr
  ce_generate :: bool
  ce_uuid :: pystr
  ce_snapshot_time :: pyfloat
  ce_acquire_time :: pyfloat
  ce_rate_time :: pyfloat
  ce_permit :: bool
  ce_in_time :: bool

definition safety_headers :: "'b route_result \<Rightarrow> 'b http_response" where
  "safety_headers er =
     (let safety_action = or_default (rr_safety_action er) ''allow'';
          response = set_header ''X-Safety-Action'' safety_action (rr_response er)
      in case rr_safety_risk_level er of
           Some level \<Rightarrow>
             if safety_action \<noteq> ''allow'' \<and> level \<noteq> [] then set_header ''X-Safety-Risk-Level'' level response
             else response
         | None \<Rightarrow> response)"

text \<open>\<open>None\<close> is an exception nobody has handled.\<close>

definition size_layer :: "chain_env \<Rightarrow> 'b endpoint \<Rightarrow> http_request \<Rightarrow> request_state \<Rightarrow> 'b http_response option" where
  "size_layer env endpoint rq st =
     (case request_size_dispatch (ce_max_bytes env) (hr_content_length rq)
             (\<lambda>received. case endpoint rq st received of
                Inl (Too_large e) \<Rightarrow> Inl e
              | Inl Unhandled \<Rightarrow> Inr None
              | Inr er \<Rightarrow> Inr (Some (safety_headers er))) (hr_bodies rq) of
        None \<Rightarrow> Some (error_response 413 ''request_too_large'')
      | Some r \<Rightarrow> r)"

definition rate_layer ::
  "chain_env \<Rightarrow> 'b endpoint \<Rightarrow> http_request \<Rightarrow> request_state \<Rightarrow> rate_limiter \<Rightarrow> 'b http_response option \<times> rate_limiter" where
  "rate_layer env endpoint rq st l =
     (case rate_dispatch (ce_rate_time env) \<lparr>rq_host = hr_host rq, rq_api_key_name = st_api_key_name st\<rparr> l of
        Inl _ \<Rightarrow> (None, l)
      | Inr (Some seconds, l) \<Rightarrow>
          (Some (set_header ''Retry-After'' (show_nat (nat seconds)) (error_response 429 ''rate_limit_exceeded'')), l)
      | Inr (None, l) \<Rightarrow> (size_layer env endpoint rq st, l))"

definition on_gate :: "(tenant_gate \<Rightarrow> tenant_gate) \<Rightarrow> pystr \<Rightarrow> resource_manager \<Rightarrow> resource_manager" where
  "on_gate f tenant_id m =
     (case rm_gates m tenant_id of None \<Rightarrow> m | Some g \<Rightarrow> m\<lparr>rm_gates := (rm_gates m)(tenant_id \<mapsto> f g)\<rparr>)"

definition take_permit :: "tenant_gate \<Rightarrow> tenant_gate" where
  "take_permit g = gate_enter Request_kind (g\<lparr>tg_semaphore := tg_semaphore g - 1\<rparr>)"

type_synonym chain_state = "resource_manager \<times> rate_limiter"

text \<open>
  \<open>TenantResourceMiddleware\<close>: the lease is released when the answer and its body have ended, when an
  exception passes, and when the time is over, which is itself an exception.
\<close>

definition resource_layer ::
  "chain_env \<Rightarrow> 'b endpoint \<Rightarrow> http_request \<Rightarrow> request_state \<Rightarrow> chain_state \<Rightarrow> 'b http_response option \<times> chain_state" where
  "resource_layer env endpoint rq st s =
     (let (m, l) = s;
          tenant_id = tc_tenant_id (st_tenant_context st);
          snapshot = manager_snapshot (ce_snapshot_time env) tenant_id m in
      case manager_acquire (ce_acquire_time env) snapshot Request_kind m of
        (Inl e, m) \<Rightarrow> (let (status, code) = resource_answer e in (Some (error_response status code), m, l))
      | (Inr remaining, m) \<Rightarrow>
          if \<not> ce_permit env
          then (let (status, code) = resource_answer Resource_timeout
                in (Some (error_response status code), on_gate gate_abandon tenant_id m, l))
          else
            let m = on_gate take_permit tenant_id m;
                (response, l) = rate_layer env endpoint rq st l;
                m = on_gate (gate_release Request_kind) tenant_id m
            in (if ce_in_time env then response else None, m, l))"

definition tenant_layer ::
  "chain_env \<Rightarrow> 'b endpoint \<Rightarrow> http_request \<Rightarrow> pystr \<Rightarrow> chain_state \<Rightarrow> 'b http_response option \<times> chain_state" where
  "tenant_layer env endpoint rq request_id s =
     (case tenant_request (ce_auth env) (ce_resolver env) (hr_authorization rq) of
        Inl Unauthorized \<Rightarrow> (Some (error_response 401 ''invalid_api_key''), s)
      | Inl (Policy_unavailable e) \<Rightarrow> (Some (error_response 503 ''tenant_policy_unavailable''), s)
      | Inr (name, tenant, ts) \<Rightarrow>
          resource_layer env endpoint rq
            \<lparr>st_request_id = request_id, st_api_key_name = name, st_tenant_context = tenant, st_tenant = ts\<rparr> s)"

text \<open>The whole stack; an unhandled exception is answered outside of it, without its headers.\<close>

definition serve :: "chain_env \<Rightarrow> 'b endpoint \<Rightarrow> http_request \<Rightarrow> chain_state \<Rightarrow> 'b http_response \<times> chain_state" where
  "serve env endpoint rq s =
     (let request_id = choose_request_id (ce_generate env) (ce_uuid env) (hr_request_id rq);
          (response, s) = tenant_layer env endpoint rq request_id s
      in case response of
           None \<Rightarrow> (error_response 500 ''internal_error'', s)
         | Some r \<Rightarrow> (set_header (ce_header_name env) request_id r, s))"

subsection \<open>What a layer answers\<close>

text \<open>An answer of a middleware, and an answer of the route.\<close>

definition rejection :: "'b http_response \<Rightarrow> bool" where
  "rejection r \<longleftrightarrow>
     hp_status r \<in> {401, 413, 429, 503, 504} \<and> (\<exists>code. hp_body r = Error_body code) \<and> header_of ''X-Safety-Action'' r = None"

definition from_route :: "chain_env \<Rightarrow> 'b endpoint \<Rightarrow> http_request \<Rightarrow> request_state \<Rightarrow> 'b http_response \<Rightarrow> bool" where
  "from_route env endpoint rq st r \<longleftrightarrow>
     (\<exists>er. endpoint rq st (limited_receive (ce_max_bytes env) 0 (hr_bodies rq)) = Inr er
        \<and> hp_status r = hp_status (rr_response er) \<and> hp_body r = hp_body (rr_response er)
        \<and> header_of ''X-Safety-Action'' r = Some (or_default (rr_safety_action er) ''allow''))"

lemma safety_headers_fields [simp]:
  "hp_status (safety_headers er) = hp_status (rr_response er)" "hp_body (safety_headers er) = hp_body (rr_response er)"
  "header_of ''X-Safety-Action'' (safety_headers er) = Some (or_default (rr_safety_action er) ''allow'')"
  by (auto simp del: list.map simp: safety_headers_def Let_def split: option.splits)

lemma size_layer_cases:
  assumes "size_layer env endpoint rq st = Some r"
  shows "rejection r \<or> from_route env endpoint rq st r"
proof -
  let ?received = "limited_receive (ce_max_bytes env) 0 (hr_bodies rq)"
  from assms consider "r = error_response 413 ''request_too_large''"
    | er where "endpoint rq st ?received = Inr er" "r = safety_headers er"
    by (auto simp: size_layer_def request_size_dispatch_def Let_def
        split: if_splits sum.splits route_exception.splits option.splits content_length.splits)
  then show ?thesis
    by cases (auto simp: rejection_def from_route_def simp del: list.map)
qed

lemma rate_layer_cases:
  assumes "rate_layer env endpoint rq st l = (Some r, l')"
  shows "rejection r \<or> from_route env endpoint rq st r"
  using assms size_layer_cases [of env endpoint rq st r]
  by (auto simp del: list.map simp: rate_layer_def rejection_def split: sum.splits option.splits)

lemma resource_answer_status: "fst (resource_answer e) \<in> {429, 504}"
  by (cases e) (auto simp: Let_def failure_http_status_def failure_from_kind_def)

lemma resource_layer_cases:
  assumes "resource_layer env endpoint rq st s = (Some r, s')"
  shows "rejection r \<or> from_route env endpoint rq st r"
proof -
  obtain m l where s: "s = (m, l)" by (cases s)
  obtain response l' where inner: "rate_layer env endpoint rq st l = (response, l')"
    by (cases "rate_layer env endpoint rq st l")
  have "(\<exists>e. r = error_response (fst (resource_answer e)) (snd (resource_answer e))) \<or> response = Some r"
    using assms inner unfolding resource_layer_def s Let_def
    by (auto simp: case_prod_beta simp del: resource_answer.simps split: sum.splits if_splits)
  then show ?thesis
  proof
    assume "\<exists>e. r = error_response (fst (resource_answer e)) (snd (resource_answer e))"
    then obtain e where "r = error_response (fst (resource_answer e)) (snd (resource_answer e))" ..
    with resource_answer_status [of e] show ?thesis
      by (simp add: rejection_def del: list.map resource_answer.simps) blast
  next
    assume "response = Some r"
    with inner rate_layer_cases [of env endpoint rq st l r l'] show ?thesis by simp
  qed
qed

lemma tenant_layer_cases:
  assumes "tenant_layer env endpoint rq request_id s = (Some r, s')"
  shows "rejection r \<or>
    (\<exists>name tenant ts. tenant_request (ce_auth env) (ce_resolver env) (hr_authorization rq) = Inr (name, tenant, ts)
       \<and> from_route env endpoint rq
           \<lparr>st_request_id = request_id, st_api_key_name = name, st_tenant_context = tenant, st_tenant = ts\<rparr> r)"
proof (cases "tenant_request (ce_auth env) (ce_resolver env) (hr_authorization rq)")
  case (Inl a)
  with assms show ?thesis
    by (cases a) (auto simp: tenant_layer_def rejection_def simp del: list.map)
next
  case (Inr b)
  then obtain name tenant ts where b: "tenant_request (ce_auth env) (ce_resolver env) (hr_authorization rq) = Inr (name, tenant, ts)"
    by (cases b) auto
  with assms have "resource_layer env endpoint rq
      \<lparr>st_request_id = request_id, st_api_key_name = name, st_tenant_context = tenant, st_tenant = ts\<rparr> s = (Some r, s')"
    by (simp add: tenant_layer_def)
  from resource_layer_cases [OF this] b show ?thesis by blast
qed

lemma choose_request_id_cases:
  "choose_request_id generate uuid client_id = uuid
   \<or> generate \<and> choose_request_id generate uuid client_id = client_id \<and> request_id_matches client_id"
  by (simp add: choose_request_id_def)

lemma rejection_id:
  "map ascii_lower name \<noteq> ''x-safety-action'' \<Longrightarrow> rejection (set_header name v r) = rejection r"
  by (simp add: rejection_def del: list.map)

lemma from_route_id:
  "map ascii_lower name \<noteq> ''x-safety-action'' \<Longrightarrow>
     from_route env endpoint rq st (set_header name v r) = from_route env endpoint rq st r"
  by (simp add: from_route_def del: list.map)

subsection \<open>The gate after a request\<close>

lemma release_after_take:
  "0 \<le> tg_active g \<Longrightarrow> gate_release Request_kind (take_permit (g\<lparr>tg_waiters := tg_waiters g + 1\<rparr>)) = g"
  by (simp add: gate_release_def take_permit_def gate_enter_def Let_def)

lemma abandon_after_admit: "gate_abandon (g\<lparr>tg_waiters := tg_waiters g + 1\<rparr>) = g"
  by (simp add: gate_abandon_def)

definition gates_kept :: "resource_manager \<Rightarrow> resource_manager \<Rightarrow> bool" where
  "gates_kept m m' \<longleftrightarrow>
     (\<forall>t. rm_gates m' t = rm_gates m t \<or> (rm_gates m t = None \<and> (\<exists>b. rm_gates m' t = Some (new_gate b))))"

lemma gates_kept_refl [simp]: "gates_kept m m"
  by (simp add: gates_kept_def)

lemma manager_acquire_cases:
  assumes "manager_acquire now snapshot Request_kind m = (answer, m1)"
  obtains g where "rm_gates m (rs_tenant_id snapshot) = Some g \<or>
      rm_gates m (rs_tenant_id snapshot) = None \<and> g = new_gate (rs_budget snapshot)"
    "(\<exists>e. answer = Inl e) \<and> rm_gates m1 = (rm_gates m)(rs_tenant_id snapshot \<mapsto> g)
     \<or> (\<exists>remaining. answer = Inr remaining)
        \<and> rm_gates m1 = (rm_gates m)(rs_tenant_id snapshot \<mapsto> g\<lparr>tg_waiters := tg_waiters g + 1\<rparr>)"
proof -
  obtain g m0 where gate: "manager_gate snapshot m = (g, m0)" by (cases "manager_gate snapshot m")
  have g: "rm_gates m (rs_tenant_id snapshot) = Some g
      \<or> rm_gates m (rs_tenant_id snapshot) = None \<and> g = new_gate (rs_budget snapshot)"
    and m0: "rm_gates m0 = (rm_gates m)(rs_tenant_id snapshot \<mapsto> g)"
    using gate by (auto simp: manager_gate_def Let_def fun_upd_idem split: option.splits)
  have "(\<exists>e. answer = Inl e) \<and> rm_gates m1 = rm_gates m0
     \<or> (\<exists>remaining. answer = Inr remaining)
        \<and> rm_gates m1 = (rm_gates m0)(rs_tenant_id snapshot \<mapsto> g\<lparr>tg_waiters := tg_waiters g + 1\<rparr>)"
    using assms gate by (auto simp: manager_acquire_def gate_admit_def Let_def split: if_splits sum.splits)
  with g m0 that show thesis by auto
qed

lemma resource_layer_gates:
  assumes "resource_layer env endpoint rq st (m, l) = (r, m', l')"
    and active: "\<And>t g. rm_gates m t = Some g \<Longrightarrow> 0 \<le> tg_active g"
  shows "gates_kept m m'"
proof -
  let ?t = "tc_tenant_id (st_tenant_context st)"
  let ?snapshot = "manager_snapshot (ce_snapshot_time env) ?t m"
  obtain answer m1 where acquire: "manager_acquire (ce_acquire_time env) ?snapshot Request_kind m = (answer, m1)"
    by (cases "manager_acquire (ce_acquire_time env) ?snapshot Request_kind m")
  have t: "rs_tenant_id ?snapshot = ?t" by (simp add: manager_snapshot_def Let_def)
  from acquire obtain g where g: "rm_gates m ?t = Some g \<or> rm_gates m ?t = None \<and> g = new_gate (rs_budget ?snapshot)"
    and m1: "(\<exists>e. answer = Inl e) \<and> rm_gates m1 = (rm_gates m)(?t \<mapsto> g)
      \<or> (\<exists>remaining. answer = Inr remaining) \<and> rm_gates m1 = (rm_gates m)(?t \<mapsto> g\<lparr>tg_waiters := tg_waiters g + 1\<rparr>)"
    by (rule manager_acquire_cases) (simp add: t)
  have "0 \<le> tg_active g" using g active by (auto simp: new_gate_def)
  then have "rm_gates m' = (rm_gates m)(?t \<mapsto> g)"
    using assms(1) acquire m1
    by (auto simp: resource_layer_def Let_def on_gate_def release_after_take abandon_after_admit case_prod_beta
        simp del: resource_answer.simps split: sum.splits if_splits)
  with g show ?thesis by (auto simp: gates_kept_def)
qed

lemma tenant_layer_gates:
  assumes "tenant_layer env endpoint rq request_id (m, l) = (r, m', l')"
    and "\<And>t g. rm_gates m t = Some g \<Longrightarrow> 0 \<le> tg_active g"
  shows "gates_kept m m'"
  using assms resource_layer_gates [of env endpoint rq _ m l r m' l']
  by (auto simp: tenant_layer_def split: sum.splits tenant_answer.splits)

subsection \<open>Properties\<close>

text \<open>However a request ends, by its answer, a rejection, an exception or its deadline, the gate of its
  tenant is afterwards what it was before, or new if it had none, and no other tenant's gate has
  changed.\<close>

theorem request_leaves_gates:
  assumes "serve env endpoint rq (m, l) = (r, m', l')"
    and "\<And>t g. rm_gates m t = Some g \<Longrightarrow> 0 \<le> tg_active g"
  shows "\<forall>t. rm_gates m' t = rm_gates m t \<or> (rm_gates m t = None \<and> (\<exists>b. rm_gates m' t = Some (new_gate b)))"
proof -
  let ?id = "choose_request_id (ce_generate env) (ce_uuid env) (hr_request_id rq)"
  obtain r0 m0 l0 where layer: "tenant_layer env endpoint rq ?id (m, l) = (r0, m0, l0)"
    by (cases "tenant_layer env endpoint rq ?id (m, l)")
  with assms(1) have "m' = m0" by (auto simp: serve_def Let_def split: option.splits)
  with tenant_layer_gates [OF layer assms(2)] show ?thesis by (simp add: gates_kept_def)
qed

text \<open>C6. Every request gets exactly one of three answers: that of the route, which ran with the identity and the bundle
  that authentication and the tenant's policy gave the request, read no more of the body than the limit, and whose
  decision is in the safety header; a rejection by one of the middlewares, which has no
  safety header; or the bare internal error. All but the last carry the request's id, which is a fresh one or an
  acceptable one of the client.\<close>

theorem request_answered_once:
  assumes "serve env endpoint rq s = (r, s')" and "map ascii_lower (ce_header_name env) \<noteq> ''x-safety-action''"
  shows "r = error_response 500 ''internal_error''
    \<or> (\<exists>request_id. header_of (ce_header_name env) r = Some request_id
        \<and> (request_id = ce_uuid env \<or> request_id = hr_request_id rq \<and> request_id_matches request_id)
        \<and> (rejection r \<or>
            (\<exists>name tenant ts. tenant_request (ce_auth env) (ce_resolver env) (hr_authorization rq) = Inr (name, tenant, ts)
              \<and> from_route env endpoint rq
                  \<lparr>st_request_id = request_id, st_api_key_name = name, st_tenant_context = tenant, st_tenant = ts\<rparr> r)))"
proof -
  let ?id = "choose_request_id (ce_generate env) (ce_uuid env) (hr_request_id rq)"
  obtain response s1 where layer: "tenant_layer env endpoint rq ?id s = (response, s1)"
    by (cases "tenant_layer env endpoint rq ?id s")
  show ?thesis
  proof (cases response)
    case None
    with assms(1) layer show ?thesis by (simp add: serve_def)
  next
    case (Some r0)
    with assms(1) layer have r: "r = set_header (ce_header_name env) ?id r0" by (simp add: serve_def)
    from layer Some have "tenant_layer env endpoint rq ?id s = (Some r0, s1)" by simp
    note cases = tenant_layer_cases [OF this]
    have "header_of (ce_header_name env) r = Some ?id" by (simp add: r)
    moreover have "?id = ce_uuid env \<or> ?id = hr_request_id rq \<and> request_id_matches ?id"
      using choose_request_id_cases [of "ce_generate env" "ce_uuid env" "hr_request_id rq"] by auto
    ultimately show ?thesis
      using cases unfolding r by (auto simp: rejection_id [OF assms(2)] from_route_id [OF assms(2)])
  qed
qed

text \<open>C11. Authentication covers every path: with it enabled a request without a configured key is answered 401 whatever it
  asks for, the liveness, readiness and metrics routes included, which the documentation describes as open; the
  route does not run and no bucket or gate changes.\<close>

theorem probes_need_key:
  assumes "auth_dispatch (ce_auth env) (hr_authorization rq) = None"
  shows "\<exists>request_id. serve env endpoint rq s
      = (set_header (ce_header_name env) request_id (error_response 401 ''invalid_api_key''), s)"
  using assms by (auto simp: serve_def tenant_layer_def tenant_request_def Let_def)

definition keyed_auth :: auth_middleware where
  "keyed_auth =
     \<lparr>am_enabled = True, am_keys = [''k'' \<mapsto> ''ci''], am_tenant_contexts = [''k'' \<mapsto> legacy_tenant_context]\<rparr>"

definition sample_chain :: chain_env where
  "sample_chain =
     \<lparr>ce_auth = keyed_auth, ce_resolver = make_resolver False [] [], ce_max_bytes = 10, ce_header_name = ''X-Request-ID'',
      ce_generate = True, ce_uuid = ''u-1'', ce_snapshot_time = 0, ce_acquire_time = 0, ce_rate_time = 0,
      ce_permit = True, ce_in_time = True\<rparr>"

definition sample_http_request :: "pystr \<Rightarrow> pystr \<Rightarrow> http_request" where
  "sample_http_request path authorization =
     \<lparr>hr_path = path, hr_authorization = authorization, hr_request_id = ''abc-1'', hr_host = None,
      hr_content_length = No_length, hr_bodies = [''hello'']\<rparr>"

definition sample_chain_state :: chain_state where
  "sample_chain_state =
     (\<lparr>rm_budgets = Map.empty, rm_gates = Map.empty\<rparr>,
      \<lparr>lim_enabled = False, lim_rate = 1, lim_burst = 1, lim_per = ''ip'', lim_buckets = Map.empty\<rparr>)"

definition healthy_route :: "pystr endpoint" where
  "healthy_route rq st received =
     Inr \<lparr>rr_response = \<lparr>hp_status = 200, hp_headers = [], hp_body = Body ''healthy''\<rparr>,
          rr_safety_action = None, rr_safety_risk_level = None\<rparr>"

text \<open>The request with the key, layer by layer.\<close>

lemma keyed_auth_dispatch: "auth_dispatch keyed_auth ''Bearer k'' = Some (Some ''ci'', legacy_tenant_context)"
  by code_simp

lemma keyed_request:
  "tenant_request keyed_auth (make_resolver False [] []) ''Bearer k''
     = Inr (Some ''ci'', legacy_tenant_context, \<lparr>ts_policy = None, ts_bundle = None, ts_observation = None\<rparr>)"
  by (simp add: tenant_request_def keyed_auth_dispatch policy_dispatch_def resolve_policy_def make_resolver_def Let_def)

lemma keyed_id: "choose_request_id True ''u-1'' ''abc-1'' = ''abc-1''"
  by code_simp

lemma sample_chain_serves:
  obtains r s' where "serve sample_chain healthy_route (sample_http_request path ''Bearer k'') sample_chain_state = (r, s')"
    "hp_status r = 200" "header_of ''X-Request-ID'' r = Some ''abc-1''"
proof -
  let ?st = "\<lparr>st_request_id = ''abc-1'', st_api_key_name = Some ''ci'', st_tenant_context = legacy_tenant_context,
    st_tenant = \<lparr>ts_policy = None, ts_bundle = None, ts_observation = None\<rparr>\<rparr>"
  let ?rq = "sample_http_request path ''Bearer k''"
  obtain m l where state: "sample_chain_state = (m, l)" by (cases sample_chain_state)
  have inner: "\<exists>r0. rate_layer sample_chain healthy_route ?rq ?st l = (Some r0, l) \<and> hp_status r0 = 200"
    using state by (auto simp: rate_layer_def rate_dispatch_def size_layer_def request_size_dispatch_def healthy_route_def
        sample_http_request_def sample_chain_state_def Let_def simp del: header_names)
  have acquire: "\<exists>m1 remaining. manager_acquire 0 (manager_snapshot 0 t m) Request_kind m = (Inr remaining, m1)" for t
    using state by (auto simp: manager_acquire_def manager_snapshot_def manager_gate_def gate_admit_def new_gate_def
        default_budget_def sample_chain_state_def Let_def)
  obtain m1 remaining where acquired: "manager_acquire 0 (manager_snapshot 0 (tc_tenant_id legacy_tenant_context) m) Request_kind m
      = (Inr remaining, m1)"
    using acquire by blast
  from inner obtain r0 where r0: "rate_layer sample_chain healthy_route ?rq ?st l = (Some r0, l)" "hp_status r0 = 200" by blast
  then have "\<exists>s'. resource_layer sample_chain healthy_route ?rq ?st sample_chain_state = (Some r0, s')"
    using acquired by (simp add: resource_layer_def state Let_def) (simp add: sample_chain_def)
  then obtain s' where "tenant_layer sample_chain healthy_route ?rq ''abc-1'' sample_chain_state = (Some r0, s')"
    using keyed_request by (auto simp: tenant_layer_def) (simp add: sample_chain_def sample_http_request_def)
  moreover have "choose_request_id (ce_generate sample_chain) (ce_uuid sample_chain) (hr_request_id ?rq) = ''abc-1''"
    using keyed_id by (simp add: sample_chain_def sample_http_request_def)
  ultimately have "serve sample_chain healthy_route ?rq sample_chain_state
      = (set_header (ce_header_name sample_chain) ''abc-1'' r0, s')"
    by (simp add: serve_def Let_def)
  moreover have "ce_header_name sample_chain = ''X-Request-ID''" by (simp add: sample_chain_def)
  ultimately show thesis using that r0(2) by simp
qed

theorem probes_need_key_witness:
  "hp_status (fst (serve sample_chain healthy_route (sample_http_request ''/health'' []) sample_chain_state)) = 401
   \<and> hp_status (fst (serve sample_chain healthy_route (sample_http_request ''/health'' ''Bearer k'') sample_chain_state)) = 200"
proof -
  have "auth_dispatch (ce_auth sample_chain) (hr_authorization (sample_http_request ''/health'' [])) = None"
    by code_simp
  then have "\<exists>request_id. serve sample_chain healthy_route (sample_http_request ''/health'' []) sample_chain_state
      = (set_header (ce_header_name sample_chain) request_id (error_response 401 ''invalid_api_key''), sample_chain_state)"
    by (rule probes_need_key)
  moreover have "hp_status (fst (serve sample_chain healthy_route (sample_http_request ''/health'' ''Bearer k'') sample_chain_state)) = 200"
    by (rule sample_chain_serves [of "''/health''"]) simp
  ultimately show ?thesis by auto
qed

theorem request_answered_once_witness:
  "\<exists>r s'. serve sample_chain healthy_route (sample_http_request ''/health'' ''Bearer k'') sample_chain_state = (r, s')
     \<and> header_of ''X-Request-ID'' r = Some ''abc-1'' \<and> header_of ''X-Safety-Action'' r = Some ''allow''
     \<and> \<not> rejection r"
proof -
  obtain r s' where serve: "serve sample_chain healthy_route (sample_http_request ''/health'' ''Bearer k'') sample_chain_state = (r, s')"
    and run: "hp_status r = 200" "header_of ''X-Request-ID'' r = Some ''abc-1''"
    by (rule sample_chain_serves)
  have name: "map ascii_lower (ce_header_name sample_chain) \<noteq> ''x-safety-action''" by code_simp
  from run(1) have no: "\<not> rejection r" "r \<noteq> error_response 500 ''internal_error''"
    by (auto simp: rejection_def simp del: list.map)
  from request_answered_once [OF serve name] no obtain st where "from_route sample_chain healthy_route
      (sample_http_request ''/health'' ''Bearer k'') st r" by blast
  then have "header_of ''X-Safety-Action'' r = Some ''allow''"
    by (auto simp: from_route_def healthy_route_def or_default_def simp del: list.map)
  with serve run no show ?thesis by blast
qed

theorem request_leaves_gates_witness:
  "\<forall>r m' l'. serve sample_chain healthy_route (sample_http_request ''/health'' ''Bearer k'') sample_chain_state = (r, m', l') \<longrightarrow>
     (rm_gates m' ''default'' = None \<or> (\<exists>b. rm_gates m' ''default'' = Some (new_gate b)))"
proof (intro allI impI)
  fix r m' l'
  assume serve: "serve sample_chain healthy_route (sample_http_request ''/health'' ''Bearer k'') sample_chain_state = (r, m', l')"
  then have "\<forall>t. rm_gates m' t = rm_gates (fst sample_chain_state) t
      \<or> (rm_gates (fst sample_chain_state) t = None \<and> (\<exists>b. rm_gates m' t = Some (new_gate b)))"
    by (rule request_leaves_gates [of sample_chain healthy_route _ "fst sample_chain_state" "snd sample_chain_state", unfolded prod.collapse])
      (simp add: sample_chain_state_def)
  then show "rm_gates m' ''default'' = None \<or> (\<exists>b. rm_gates m' ''default'' = Some (new_gate b))"
    by (auto simp: sample_chain_state_def)
qed

lemma request_id_admits_line_feed: "choose_request_id True ''u-1'' (''abc'' @ [CHR 0x0A]) = ''abc'' @ [CHR 0x0A]"
  by code_simp

end
