(* ===== verification/Async_Output.thy ===== *)
theory Async_Output
  imports Chat_Laws Request_Chain
begin

text \<open>
  The asynchronous branch of \<open>chat_completions\<close> (\<open>routes/chat.py\<close>): the answer goes back as the provider gave
  it, and a background task, which needs a lease of the tenant's gate, scans it, recalls it
  through the webhook and writes the second of two audit entries.

  The webhook's delivery is \<open>Post_Audit\<close>; here a recall is the result it is sent for. Timings and the
  tenant context are left out.
\<close>

subsection \<open>The two audit entries\<close>

definition pending_audit :: "chat_env \<Rightarrow> forwarded \<Rightarrow> chat_state \<Rightarrow> audit_fields" where
  "pending_audit env fw state =
     \<lparr>af_request_id = ch_request_id env, af_direction = Output, af_user_id = None,
      af_model = Some (fw_model fw), af_provider = Some (fw_provider fw), af_content = [],
      af_language = None, af_final_action = Allow, af_final_risk_level = Low, af_detector_results = [],
      af_applied_modify = None, af_pipeline_duration_ms = 0, af_streaming = False, af_window_count = None,
      af_recalled = None, af_recall_method = None, af_async_detection = Some ''pending'',
      af_safety_degraded = ad_degraded (fw_admission fw),
      af_detector_availability = ad_availability (fw_admission fw),
      af_flow_evidence = latest_flow_evidence Output (cs_evidence state)\<rparr>"

definition completed_audit ::
  "chat_env \<Rightarrow> forwarded \<Rightarrow> chat_state \<Rightarrow> pystr \<Rightarrow> pipeline_result \<Rightarrow> chat_error + audit_fields" where
  "completed_audit env fw state otext result =
     bind_res (combined_flow_evidence env Output (cs_evidence state) (pr_flow_evidence result)) (\<lambda>evidence. Inr
     \<lparr>af_request_id = ch_request_id env, af_direction = Output, af_user_id = None,
      af_model = Some (fw_model fw), af_provider = Some (fw_provider fw), af_content = otext,
      af_language = detect_language (ch_detect env) otext, af_final_action = pr_final_action result,
      af_final_risk_level = pr_overall_risk_level result, af_detector_results = pr_detector_results result,
      af_applied_modify = None, af_pipeline_duration_ms = pr_duration_ms result, af_streaming = False,
      af_window_count = None, af_recalled = Some (pr_final_action result = Block),
      af_recall_method = (if pr_final_action result = Block then Some ''webhook'' else None),
      af_async_detection = Some ''completed'', af_safety_degraded = ad_degraded (fw_admission fw),
      af_detector_availability = ad_availability (fw_admission fw), af_flow_evidence = evidence\<rparr>)"

subsection \<open>The background task\<close>

text \<open>What the task did: the result a recall was sent for, and the completed entry.\<close>

datatype background_outcome = Dropped | Ran "detection_result option" "audit_fields option"

definition response_text :: "chat_env \<Rightarrow> pystr \<Rightarrow> pystr" where
  "response_text env content =
     (case Option.bind (ch_loads env content) (\<lambda>response. case output_text response of Inr t \<Rightarrow> t | Inl _ \<Rightarrow> None) of
        Some t \<Rightarrow> t | None \<Rightarrow> [])"

definition async_output_detection ::
  "chat_env \<Rightarrow> detector list \<Rightarrow> detector_configs \<Rightarrow> forwarded \<Rightarrow> chat_state \<Rightarrow> pystr \<Rightarrow> background_outcome" where
  "async_output_detection env detectors configs fw state content =
     (case async_background env detectors configs content of
        None \<Rightarrow> Ran None None
      | Some (result, sent) \<Rightarrow>
          Ran sent (case completed_audit env fw state (response_text env content) result of
                      Inl _ \<Rightarrow> None | Inr entry \<Rightarrow> Some entry))"

text \<open>
  \<open>_run_bounded_background\<close>: every failure to get the lease drops the task. \<open>permit\<close> says whether the
  semaphore let it in before the request's own deadline.
\<close>

definition run_bounded_background ::
  "pyfloat \<Rightarrow> resource_snapshot option \<Rightarrow> bool \<Rightarrow> background_outcome \<Rightarrow> resource_manager
     \<Rightarrow> background_outcome \<times> resource_manager" where
  "run_bounded_background now snapshot permit task m =
     (case snapshot of
        None \<Rightarrow> (task, m)
      | Some s \<Rightarrow>
          (case manager_acquire now s Background_kind m of
             (Inl _, m) \<Rightarrow> (Dropped, m)
           | (Inr _, m) \<Rightarrow>
               if \<not> permit then (Dropped, on_gate gate_abandon (rs_tenant_id s) m)
               else
                 let m = on_gate (\<lambda>g. gate_enter Background_kind (g\<lparr>tg_semaphore := tg_semaphore g - 1\<rparr>)) (rs_tenant_id s) m
                 in (task, on_gate (gate_release Background_kind) (rs_tenant_id s) m)))"

definition background_audits :: "background_outcome \<Rightarrow> audit_fields list" where
  "background_audits outcome =
     (case outcome of Ran _ (Some entry) \<Rightarrow> [entry] | _ \<Rightarrow> [])"

record async_answer =
  an_response :: chat_response
  an_outcome :: background_outcome
  an_audits :: "audit_fields list"

definition async_output ::
  "chat_env \<Rightarrow> detector list \<Rightarrow> detector_configs \<Rightarrow> forwarded \<Rightarrow> chat_state \<Rightarrow> pystr \<Rightarrow> nat
     \<Rightarrow> pyfloat \<Rightarrow> resource_snapshot option \<Rightarrow> bool \<Rightarrow> resource_manager \<Rightarrow> async_answer \<times> resource_manager" where
  "async_output env detectors configs fw state content status now snapshot permit m =
     (let (outcome, m) = run_bounded_background now snapshot permit
            (async_output_detection env detectors configs fw state content) m
      in (\<lparr>an_response = Plain_response content status, an_outcome = outcome,
           an_audits = pending_audit env fw state # background_audits outcome\<rparr>, m))"

lemma chat_completions_async:
  assumes "audited_forward env raw = Inr fw" and "\<not> streams (is_body (fw_stage fw))" and "ch_async env"
    and "ch_provider env (fw_provider fw) (is_body (fw_stage fw)) = Inr (content, status)"
    and "record_stage env (fw_admission fw) Output ''async-output'' (fw_state fw) = Inr (view, state)"
    and "stage_flow_enabled env Output (st_detectors view)"
  shows "chat_completions env raw
    = Inr (an_response (fst (async_output env (st_detectors view) (st_configs view) fw state content status now snapshot permit m)), state)"
  using assms by (simp add: chat_completions_def Let_def async_output_def split: prod.splits)

subsection \<open>Properties\<close>

definition gate_full :: "tenant_gate \<Rightarrow> bool" where
  "gate_full g \<longleftrightarrow>
     tg_active g + tg_waiters g \<ge> rb_max_concurrency (tg_budget g) + rb_queue_limit (tg_budget g)
     \<or> tg_background g \<ge> rb_max_background_tasks (tg_budget g)"

lemma gate_full_refuses: "gate_full g \<Longrightarrow> \<exists>e. gate_admit Background_kind g = Inl e"
  by (auto simp: gate_full_def gate_admit_def)

text \<open>C5. In asynchronous mode a text that the provider returns while the tenant's gate has no room for a background
  task, or after the request's deadline, is never scanned: the client has the answer, no recall is sent, and the
  only audit entry is the first one, which says that everything is allowed and the scan is pending.\<close>

theorem async_scan_dropped:
  assumes "rm_gates m (rs_tenant_id snapshot) = Some g" and "gate_full g \<or> rs_deadline snapshot \<le> now"
  shows "async_output env detectors configs fw state content status now (Some snapshot) permit m
    = (\<lparr>an_response = Plain_response content status, an_outcome = Dropped, an_audits = [pending_audit env fw state]\<rparr>, m)
   \<and> af_final_action (pending_audit env fw state) = Allow"
proof -
  have "\<exists>e. manager_acquire now snapshot Background_kind m = (Inl e, m)"
    using assms gate_full_refuses [of g] by (auto simp: manager_acquire_def manager_gate_def Let_def)
  then show ?thesis
    by (auto simp: async_output_def run_bounded_background_def background_audits_def pending_audit_def)
qed

text \<open>C14. The completed entry of an asynchronous scan that blocks says that the text was recalled by webhook whether or
  not one was sent: without a webhook, and when only the escalation decided, nothing is sent.\<close>

theorem recall_recorded_unsent:
  assumes "async_background env detectors configs content = Some (result, sent)" and "pr_final_action result = Block"
    and "\<not> ch_webhook env \<or> find_result_by_action (pr_detector_results result) [Block] = None"
    and "completed_audit env fw state (response_text env content) result = Inr entry"
  shows "async_output_detection env detectors configs fw state content = Ran None (Some entry)
    \<and> af_recalled entry = Some True \<and> af_recall_method entry = Some ''webhook''"
proof -
  have "sent = None"
    using assms(1,3) by (auto simp: async_background_def split: option.splits sum.splits if_splits)
  moreover have "af_recalled entry = Some True \<and> af_recall_method entry = Some ''webhook''"
    using assms(2,4) by (auto simp: completed_audit_def bind_res_Inr)
  ultimately show ?thesis using assms(1,4) by (simp add: async_output_detection_def)
qed

subsection \<open>Instances\<close>

definition full_gate :: tenant_gate where
  "full_gate =
     (new_gate (default_budget\<lparr>rb_max_concurrency := 1, rb_queue_limit := 0\<rparr>))\<lparr>tg_active := 1, tg_semaphore := 0\<rparr>"

definition full_manager :: resource_manager where
  "full_manager = \<lparr>rm_budgets = Map.empty, rm_gates = [''acme'' \<mapsto> full_gate]\<rparr>"

definition acme_snapshot :: resource_snapshot where
  "acme_snapshot = \<lparr>rs_tenant_id = ''acme'', rs_budget = default_budget, rs_deadline = 30\<rparr>"

theorem async_scan_dropped_witness:
  "\<exists>fw. forward (gateway (result_with Flag [] []) Timed_out) ''q'' = Inr fw
     \<and> an_outcome (fst (async_output (gateway (result_with Flag [] []) Timed_out) [gateway_detector] [] fw
          (fw_state fw) ''a'' 200 0 (Some acme_snapshot) True full_manager)) = Dropped"
proof -
  obtain fw where fw: "forward (gateway (result_with Flag [] []) Timed_out) ''q'' = Inr fw"
    using gateway_forwards by blast
  have full: "rm_gates full_manager (rs_tenant_id acme_snapshot) = Some full_gate"
    by (simp add: full_manager_def acme_snapshot_def)
  have "gate_full full_gate" by code_simp
  then have "gate_full full_gate \<or> rs_deadline acme_snapshot \<le> 0" ..
  with fw async_scan_dropped [OF full this] show ?thesis by simp
qed

theorem recall_recorded_unsent_witness:
  "\<exists>fw entry. forward (gateway (result_with Flag [] []) Timed_out) ''q'' = Inr fw
     \<and> async_output_detection (gateway (result_with Block [] []) Timed_out) [gateway_detector] [] fw
          (fw_state fw) ''a'' = Ran None (Some entry) \<and> af_recalled entry = Some True"
proof -
  let ?env = "gateway (result_with Block [] []) Timed_out"
  obtain fw where fw: "forward (gateway (result_with Flag [] []) Timed_out) ''q'' = Inr fw"
    using gateway_forwards by blast
  have old: "output_text (sample_response ''old'') = Inr (Some ''old'')" by code_simp
  have run: "async_background ?env [gateway_detector] [] ''a'' = Some (result_with Block [] [], None)"
    by (simp add: async_background_def old) (simp add: gateway_def)
  have "pr_flow_evidence (result_with Block [] []) = None" by (simp add: result_with_def empty_pipeline_result_def)
  then obtain entry where entry: "completed_audit ?env fw (fw_state fw) (response_text ?env ''a'') (result_with Block [] []) = Inr entry"
    by (simp add: completed_audit_def combined_flow_evidence_def Let_def)
  have "\<not> ch_webhook ?env \<or> find_result_by_action (pr_detector_results (result_with Block [] [])) [Block] = None"
    by (simp add: gateway_def)
  from recall_recorded_unsent [OF run _ this entry] fw show ?thesis by auto
qed

end
