(* ===== verification/Spec2Isabelle.thy ===== *)
theory Spec2Isabelle
  imports Pipeline_Laws Chat_Laws Streaming_Laws Flow_Execution Lifecycle Request_Limits Tenancy Tenant_Resources
    Startup_Properties Grpc_Client App_Properties Provider_Laws Builtin_Laws Metrics_Laws Models_Route Async_Output
begin

text \<open>
  A verification library of the z-llm-safety-gateway, the gateway in front of chat-completion
  providers under \<open>src/src/z_llm_safety_gateway/\<close>. A request is admitted if the detectors it must
  have are available, its texts are scanned by a Flow of detectors, the decision is enforced (block,
  write back modified texts, or pass), the request is routed to a provider, and the answer is scanned
  in turn: as a whole before or after it is returned, or window by window while it streams.

  \<^bold>\<open>Components\<close>, in the order in which they build on each other; paths are relative to the package.

  \<^item> \<open>Prelude\<close>: Python values and exceptions, and the interfaces \<open>step_machine\<close> (a state, its
    operations, an invariant each keeps) and \<open>ranked\<close> (a running maximum). \<open>Json\<close>: JSON values and
    what reading them raises.
  \<^item> \<open>Models\<close> (\<open>models.py\<close>, \<open>exceptions.py\<close>): actions, risk levels, detection results,
    modifications, contexts.
  \<^item> \<open>Circuit_Breaker\<close>, \<open>Token_Bucket\<close>: the breaker in front of a detector and the bucket of the rate
    limit, both instances of \<open>step_machine\<close>; the monotonic clock is an argument.
  \<^item> \<open>Flag_Escalation\<close> (\<open>pipeline/flag_escalation.py\<close>): tokenizer, parser and evaluator of the rules
    that turn flags into a block. \<open>Aggregator\<close> (\<open>pipeline/threshold.py\<close>,
    \<open>pipeline/aggregator.py\<close>): one decision from many detections; two instances of \<open>ranked\<close>.
  \<^item> \<open>Flow_Policy\<close>, \<open>Flow_Contracts\<close>, \<open>Flow_Evidence\<close> (\<open>flow/policy.py\<close>, \<open>flow/contracts.py\<close>,
    \<open>flow/evidence.py\<close>): failure policies of nodes, the registry of Flows and capabilities, and the
    bounded record of an execution.
  \<^item> \<open>Flow_Runtime\<close> (\<open>flow/runtime.py\<close>): the concurrent execution of a Flow. \<open>Flow_Scheduling\<close>
    proves the laws of its loop once, in the locale \<open>flow_tasks\<close>, for any tasks that answer for their
    own work item; \<open>Flow_Execution\<close> rests on the interpretation at the tasks of the code.
  \<^item> \<open>Flow_Reducer\<close> (\<open>pipeline/flow_reducer.py\<close>): from node results to a safety decision.
    \<open>Pipeline_Engine\<close> and \<open>Pipeline_Laws\<close> (\<open>pipeline/engine.py\<close>, the coordination of
    \<open>flow/detector_adapter.py\<close>): the Flow built from detectors, its cache, and its runs.
  \<^item> \<open>Detector_Status\<close> (\<open>detectors/status.py\<close>, \<open>routes/health.py\<close>): the registry of detector states,
    an instance of \<open>step_machine\<close>, and readiness. \<open>Snapshot\<close> (\<open>pipeline/snapshot.py\<close>): what a
    request sees of it, and the admission.
  \<^item> \<open>Content\<close> (\<open>content/\<close>): the texts of a request and the writing of modified ones. \<open>Router\<close>
    (\<open>providers/router.py\<close>): first-match routing and tenant views.
  \<^item> \<open>Streaming\<close> and \<open>Streaming_Laws\<close> (\<open>streaming/\<close>): reassembly of events, sliding window, size limit
    and handler. \<open>Post_Audit\<close> (\<open>post_audit/\<close>, \<open>recall/\<close>): the buffered and the sliding-window response
    with post-audit and recall. \<open>Audit_Log\<close> (\<open>audit/\<close>): entries and their writing.
  \<^item> \<open>Chat\<close> and \<open>Chat_Laws\<close> (\<open>routes/chat.py\<close>, \<open>language/\<close>): the handler that composes all of these. An
    audit entry that exceeds its budget raises, and so does the handler (\<open>audited_forward\<close>).
  \<^item> \<open>Provider_Adapters\<close> and \<open>Provider_Laws\<close> (\<open>providers/\<close>): addresses, headers and parameters, the
    translation of requests, answers and streams for Anthropic and Gemini, and how an exchange fails.
  \<^item> \<open>Builtin_Detectors\<close> and \<open>Builtin_Laws\<close> (\<open>detectors/\<close>): what each detector reads from its settings,
    the result it makes, and the registry of detector classes with its plugins. \<open>Grpc_Client\<close>
    (\<open>plugins/grpc/client.py\<close>): the client of a detector in a sidecar process.
  \<^item> \<open>Lifecycle\<close> (\<open>flow/detector_adapter.py\<close>): registration, initialization, health and
    shutdown of detector instances, also when the start-up hangs or the shutdown is cancelled. \<open>Request_Limits\<close> (\<open>middleware/\<close>): the limits on the size of a body and
    on the rate of requests.
  \<^item> \<open>Tenancy\<close> (\<open>tenancy/\<close>, \<open>middleware/auth.py\<close>, \<open>middleware/policy_resolution.py\<close>): keys, identities and
    the bundle a request runs with. \<open>Tenant_Resources\<close> (\<open>tenancy/resources.py\<close>): the gates of a tenant,
    with every interleaving of their calls. \<open>Tenant_Compile\<close> (\<open>tenancy/runtime.py\<close>): from the policy of a tenant to
    its engine and its running detectors.
  \<^item> \<open>Flow_Traversal\<close>: the depth-first walk over Flows that validators, compiler and assembly share.
    \<open>Config_Models\<close>, \<open>Config_Validation\<close>, \<open>Config_Loading\<close> (\<open>config/\<close>): the configuration, its checks
    and warnings, and what loading a document does before and after the models are built.
  \<^item> \<open>App_Startup\<close> and \<open>App_Laws\<close> (\<open>app.py\<close>): from an accepted configuration to the state of the
    running application, and its shutdown.
  \<^item> \<open>Async_Output\<close> (\<open>routes/chat.py\<close>): the asynchronous scan of an answer and its audit entries.
  \<^item> \<open>Request_Chain\<close> (\<open>middleware/\<close>, \<open>app.py\<close>): the stack of middlewares around a route. \<open>Models_Route\<close>
    (\<open>routes/models.py\<close>): the list of models of one provider.
  \<^item> \<open>Streaming_Evidence\<close> (\<open>audit/streaming_evidence.py\<close>): what the windows of a stream executed, counted
    for its audit entry. \<open>Metrics\<close> and \<open>Metrics_Laws\<close> (\<open>observability/\<close>): the metric families, the recording
    functions and the scrape, with a step relation over everything that is recorded.
  \<^item> \<open>Startup_Laws\<close>, \<open>Startup_Samples\<close>, \<open>Startup_Properties\<close> and \<open>App_Properties\<close>: the properties that
    span configuration, compilation, tenancy and assembly, and the configurations their witnesses use.

  \<^bold>\<open>The environment.\<close> Code outside the repository is an argument of the definitions that use it: what
  a detector answers and when, the clock, the provider, \<open>json.loads\<close> and \<open>json.dumps\<close>, \<open>langdetect\<close>,
  the hash of a text, the HTTP answers of a webhook. No law is assumed of any of them except where a
  property names it. The interleaving of an execution is the list of its \<open>rounds\<close>: which running tasks
  finish at each turn of the loop, and whether the deadline has passed; every property holds for all
  of them.

  \<^bold>\<open>Loops and bounds.\<close> The scheduling loop turns once per round, and every turn finishes a task, so
  that one round per work item, at every depth, is enough (\<open>patient\<close>); then an execution returns
  (\<open>execution_settles\<close>). Nested Flows are executed with a depth that the registry bounds by 8; all
  other loops are structural or have a measure. Integers are unbounded as in Python; a \<open>float\<close> is an
  exact rational, so rounding is not modelled.

  \<^bold>\<open>What the laws show.\<close>
  A failed fail-closed detector, and a block by any detector of a Flow that finished, decide the Flow;
  without configured Flows, and unless an open circuit falls open, a run that was stopped blocks (or modifies,
  where modifications stop it); everything started has exactly one result; the loop never runs more
  than its maximum; evidence keeps its facts within its budget; a registry that could be built is
  acyclic. Admission rejects exactly when a strict detector has an issue. A request that reaches the
  provider was scanned if there was anything to scan it with, and arrives unchanged or as the writeback made it.
  Unless the provider fails after a block, what the client of a stream sees does not depend on how the transport
  cut it; every full window was scanned, and after a block no text follows. Round trips: rules, events of a stream, output texts, the deltas of a translated
  stream; a translated request keeps its conversation. The built-in detectors answer with a
  confidence between zero and one.

  Every request gets the answer of its route, a rejection by one middleware or the bare internal
  error, and leaves the gates of the tenants as it found them. Metrics have a bounded number of tenant series.
  A request with a configured key is served by its own tenant's bundle and no other; the gate of a
  tenant counts exactly its calls, loses no permit and drains; a limited identifier gets what its own
  bucket grants. Every policy of an accepted configuration whose nodes have the standard
  schemas builds a plan, unless its escalation rule is one the parser refuses; a loaded
  configuration keeps the limits of tenancy, and the start of the application initializes either
  all it runs or leaves nothing running, with the exceptions named there; after it every detector is healthy or
  unavailable. A coordinator returns from its start-up when every \<open>initialize\<close> does, and initializes each
  instance at most once and shuts it down exactly once, unless its shutdown is cancelled. A sidecar gets
  its settings only after it has answered that it serves.

  \<^bold>\<open>Where the code is not what it means to be.\<close>
  \<open>escalated_block_forwarded\<close>: a block by escalation alone is not enforced.
  \<open>open_circuit_drops_detectors\<close>: an open circuit can cancel detectors that would block.
  \<open>timed_out_child_ignored\<close> and \<open>modification_index_own\<close>: what a nested Flow loses.
  \<open>blocked_pattern_only_in_tail\<close> and \<open>short_stream_unscanned\<close>: the tail of a stream is not scanned.
  \<open>rule_evaluation_total\<close>: which rules parse and then raise. \<open>output_modification_first\<close> and
  \<open>sync_timeout_ignores_results\<close>: where the output side departs from DESIGN.md.
  \<open>system_field_unscanned\<close> and \<open>unread_stream_forwarded\<close>: texts that reach the provider, or the
  client, without a scan. \<open>sensitive_words_never_block\<close>: a documented threshold that disables the
  detector. \<open>body_limit_chat\<close>: the answer to a long body without an announced length.
  \<open>shared_breaker_never_compiles\<close>: an accepted policy that cannot be started. \<open>escalation_leaks\<close>: a rule
  that is parsed too late leaves detectors running. \<open>probes_need_key\<close>: the liveness route asks for a key.
  \<open>scrape_repeats_families\<close>: the scrape holds two registries. \<open>large_post_audit_drops_buckets\<close>: what a long
  post-audit takes with it. \<open>async_scan_dropped\<close> and \<open>recall_recorded_unsent\<close>: an answer that is never
  scanned, and a recall that was never sent. \<open>startup_settles\<close> and \<open>lifecycle_balanced\<close>: a start-up that may
  never return, and a cancelled shutdown that leaves detectors running. \<open>block_ends_stream\<close>: what may follow a block.

  \<^bold>\<open>Not modelled.\<close> The regular expressions, automata and ML models inside the detectors (their matches
  and scores are arguments); the HTTP transport and framework; reading YAML and the
  construction of the pydantic models from it (the models and all their checks are here); tracing
  spans and the text of the metrics; generated gRPC code; the log sanitizer's substitutions; the conversion in
  \<open>flow/legacy.py\<close>, which no module of the gateway calls; the plugin SDK and the development tools under \<open>src/stdd\<close> and \<open>src/tools\<close>. The CORS layer, which the framework brings and which is off by default, is left to the framework. In
  the chat handler the tenant bundle, the user id, timings and log lines are left out.
\<close>

end
